(* ===== verification/Interleaving.thy ===== *)
theory Interleaving
  imports Prelude
begin

text \<open>
  Calls on shared state that interleave: a list of threads, each with its own program counter,
  over one state. An access relation says what one access of one thread does, with the events it
  gives rise to; a start relation says which call a thread may take up after its last one. A run
  is any sequence of accesses and starts.
\<close>

section \<open>Runs\<close>

inductive interleaving ::
  "('s \<Rightarrow> 't \<Rightarrow> 'e list \<Rightarrow> 's \<Rightarrow> 't \<Rightarrow> bool) \<Rightarrow> ('t \<Rightarrow> 't \<Rightarrow> bool) \<Rightarrow> 's \<Rightarrow> 't list \<Rightarrow> 'e list \<Rightarrow> 's \<Rightarrow> 't list \<Rightarrow> bool"
  for acc starts s0 ts0 where
  none: "interleaving acc starts s0 ts0 [] s0 ts0"
| access: "interleaving acc starts s0 ts0 evs s ts \<Longrightarrow> i < length ts \<Longrightarrow> acc s (ts ! i) es s' t' \<Longrightarrow>
     interleaving acc starts s0 ts0 (evs @ es) s' (ts[i := t'])"
| start: "interleaving acc starts s0 ts0 evs s ts \<Longrightarrow> i < length ts \<Longrightarrow> starts (ts ! i) t' \<Longrightarrow>
     interleaving acc starts s0 ts0 evs s (ts[i := t'])"

lemma interleaving_length: "interleaving acc starts s0 ts0 evs s ts \<Longrightarrow> length ts = length ts0"
  by (induction rule: interleaving.induct) simp_all

lemma interleaving_trans:
  assumes "interleaving acc starts s ts evs' s' ts'" "interleaving acc starts s0 ts0 evs s ts"
  shows "interleaving acc starts s0 ts0 (evs @ evs') s' ts'"
  using assms
proof (induction rule: interleaving.induct)
  case (access evs' s1 ts1 i es s2 t')
  from interleaving.access [OF access.IH [OF access.prems] access.hyps(2,3)] show ?case by simp
qed (auto intro: interleaving.start)

text \<open>What a run keeps of an invariant over the state and the threads.\<close>

lemma interleaving_invariant:
  assumes "interleaving acc starts s0 ts0 evs s ts" "I s0 ts0"
    and "\<And>s ts i es s' t'. I s ts \<Longrightarrow> i < length ts \<Longrightarrow> acc s (ts ! i) es s' t' \<Longrightarrow> I s' (ts[i := t'])"
    and "\<And>s ts i t'. I s ts \<Longrightarrow> i < length ts \<Longrightarrow> starts (ts ! i) t' \<Longrightarrow> I s (ts[i := t'])"
  shows "I s ts"
  using assms(1,2) by (induction rule: interleaving.induct) (auto intro: assms(3,4))

text \<open>Dropping an entry that \<open>retain\<close> would drop leaves what \<open>retain\<close> keeps.\<close>

lemma retain_delete:
  assumes "dmap_wf m" "map_of m k = Some v" "\<not> P k v"
  shows "retain P (AList.delete k m) = retain P m"
proof -
  have "retain P (AList.delete k m) = filter (\<lambda>(k', v'). P k' v' \<and> k' \<noteq> k) m"
    by (auto simp: retain_def AList.delete_eq intro: filter_cong)
  also have "\<dots> = retain P m"
    unfolding retain_def using assms by (intro filter_cong) (auto simp: dmap_wf_map_of_iff dmap_wf_def dest: eq_key_imp_eq_value)
  finally show ?thesis .
qed

section \<open>One thread on its own\<close>

text \<open>The accesses of one thread with no other in between.\<close>

inductive alone :: "('s \<Rightarrow> 't \<Rightarrow> 'e list \<Rightarrow> 's \<Rightarrow> 't \<Rightarrow> bool) \<Rightarrow> 's \<Rightarrow> 't \<Rightarrow> 'e list \<Rightarrow> 's \<Rightarrow> 't \<Rightarrow> bool" for acc where
  rest: "alone acc s t [] s t"
| step: "acc s t es s1 t1 \<Longrightarrow> alone acc s1 t1 evs s2 t2 \<Longrightarrow> alone acc s t (es @ evs) s2 t2"

lemma alone_silent: "acc s t [] s1 t1 \<Longrightarrow> alone acc s1 t1 evs s2 t2 \<Longrightarrow> alone acc s t evs s2 t2"
  using alone.step [of acc s t "[]" s1 t1 evs s2 t2] by simp

lemma alone_last: "acc s t es s1 t1 \<Longrightarrow> alone acc s t es s1 t1"
  using alone.step [OF _ alone.rest, of acc s t es s1 t1] by simp

lemma alone_trans: "alone acc s t evs s1 t1 \<Longrightarrow> alone acc s1 t1 evs' s2 t2 \<Longrightarrow> alone acc s t (evs @ evs') s2 t2"
  by (induction rule: alone.induct) (auto intro: alone.step)

lemma alone_interleaves:
  assumes "alone acc s t evs s' t'" "i < length ts" "ts ! i = t"
  shows "interleaving acc starts s ts evs s' (ts[i := t'])"
  using assms
proof (induction arbitrary: ts rule: alone.induct)
  case (rest s t)
  then show ?case using interleaving.none [of acc starts s ts] by (metis list_update_id)
next
  case (step s t es s1 t1 evs s2 t2)
  have "interleaving acc starts s ts ([] @ es) s1 (ts[i := t1])"
    by (rule interleaving.access [OF interleaving.none]) (use step in simp_all)
  from interleaving_trans [OF step.IH [of "ts[i := t1]"] this] step.prems show ?case by simp
qed

text \<open>Two threads that take turns.\<close>

lemma first_thread:
  "interleaving acc starts s0 ts0 evs s [p, q] \<Longrightarrow> alone acc s p es s' p' \<Longrightarrow>
     interleaving acc starts s0 ts0 (evs @ es) s' [p', q]"
  using interleaving_trans [OF alone_interleaves, of acc s p es s' p' 0 "[p, q]" starts] by simp

lemma second_thread:
  "interleaving acc starts s0 ts0 evs s [p, q] \<Longrightarrow> alone acc s q es s' q' \<Longrightarrow>
     interleaving acc starts s0 ts0 (evs @ es) s' [p, q']"
  using interleaving_trans [OF alone_interleaves, of acc s q es s' q' 1 "[p, q]" starts] by simp

lemma both_start:
  assumes "starts x a" "starts y b"
  shows "interleaving acc starts s [x, y] [] s [a, b]"
proof -
  have "interleaving acc starts s [x, y] [] s [a, y]"
    using interleaving.start [OF interleaving.none, of 0 "[x, y]" starts a acc s] assms(1) by simp
  from interleaving.start [OF this, of 1 b] assms(2) show ?thesis by simp
qed

text \<open>A map entry under a new key goes to the end.\<close>

lemma update_new: "map_of m k = None \<Longrightarrow> AList.update k v m = m @ [(k, v)]"
  by (induction m) (auto split: if_splits)

section \<open>Ledgers\<close>

text \<open>
  A count that every access pays for: what the state and the thread weigh afterwards and what the
  events spent is no more than what they weighed before and what the events earned.
\<close>

locale ledger =
  fixes acc :: "'s \<Rightarrow> 't \<Rightarrow> 'e list \<Rightarrow> 's \<Rightarrow> 't \<Rightarrow> bool"
    and starts :: "'t \<Rightarrow> 't \<Rightarrow> bool"
    and weight :: "'s \<Rightarrow> nat"
    and spent :: "'e \<Rightarrow> bool"
    and earned :: "'e \<Rightarrow> bool"
  assumes balanced: "acc s t es s' t' \<Longrightarrow>
    weight s' + length (filter spent es) \<le> weight s + length (filter earned es)"
begin

lemma run_balanced:
  "interleaving acc starts s0 ts0 evs s ts \<Longrightarrow>
     weight s + length (filter spent evs) \<le> weight s0 + length (filter earned evs)"
proof (induction rule: interleaving.induct)
  case (access evs s ts i es s' t')
  then show ?case using balanced [OF access.hyps(3)] by simp
qed simp_all

end

section \<open>Threads that pass a check\<close>

definition passing :: "('t \<Rightarrow> bool) \<Rightarrow> 't list \<Rightarrow> nat" where
  "passing P ts = length (filter P ts)"

lemma passing_update:
  assumes "i < length ts"
  shows "passing P (ts[i := t']) + (if P (ts ! i) then 1 else 0) = passing P ts + (if P t' then 1 else 0)"
proof -
  have "ts = take i ts @ ts ! i # drop (Suc i) ts" by (rule id_take_nth_drop [OF assms])
  then have "passing P ts = passing P (take i ts) + passing P [ts ! i] + passing P (drop (Suc i) ts)"
    unfolding passing_def by (metis append_Cons append_Nil filter_append length_append add.assoc)
  then show ?thesis using assms by (simp add: upd_conv_take_nth_drop passing_def)
qed

lemma passing_le: "passing P ts \<le> length ts"
  by (simp add: passing_def)

text \<open>
  A bound that is checked before it is used: an access that lets a thread pass sees room, one that
  uses up the pass adds at most one entry, and no other access adds any. Then all threads together
  overshoot the bound by less than their number.
\<close>

locale checked_bound =
  fixes acc :: "'s \<Rightarrow> 't \<Rightarrow> 'e list \<Rightarrow> 's \<Rightarrow> 't \<Rightarrow> bool"
    and starts :: "'t \<Rightarrow> 't \<Rightarrow> bool"
    and size_of :: "'s \<Rightarrow> nat"
    and bound :: "'s \<Rightarrow> nat"
    and passed :: "'t \<Rightarrow> bool"
  assumes same_bound: "acc s t es s' t' \<Longrightarrow> bound s' = bound s"
    and pass_sees_room: "acc s t es s' t' \<Longrightarrow> \<not> passed t \<Longrightarrow> passed t' \<Longrightarrow> size_of s < bound s \<and> size_of s' \<le> size_of s"
    and no_pass: "acc s t es s' t' \<Longrightarrow> passed t = passed t' \<Longrightarrow> size_of s' \<le> size_of s"
    and pass_used: "acc s t es s' t' \<Longrightarrow> passed t \<Longrightarrow> \<not> passed t' \<Longrightarrow> size_of s' \<le> Suc (size_of s)"
    and start_waits: "starts t t' \<Longrightarrow> \<not> passed t'"
begin

lemma overshoot:
  assumes "interleaving acc starts s0 ts0 evs s ts" "size_of s0 + passing passed ts0 < bound s0 + length ts0"
  shows "size_of s + passing passed ts < bound s0 + length ts0 \<and> bound s = bound s0 \<and> length ts = length ts0"
proof (rule interleaving_invariant [OF assms(1), of "\<lambda>s ts. size_of s + passing passed ts < bound s0 + length ts0 \<and>
      bound s = bound s0 \<and> length ts = length ts0"])
  fix s ts i es s' t'
  assume I: "size_of s + passing passed ts < bound s0 + length ts0 \<and> bound s = bound s0 \<and> length ts = length ts0"
    and i: "i < length ts" and a: "acc s (ts ! i) es s' t'"
  note upd = passing_update [OF i, of passed t'] and le = passing_le [of passed "ts[i := t']"]
  show "size_of s' + passing passed (ts[i := t']) < bound s0 + length ts0 \<and> bound s' = bound s0 \<and>
      length (ts[i := t']) = length ts0"
    using I same_bound [OF a] pass_sees_room [OF a] no_pass [OF a] pass_used [OF a] upd le
    by (cases "passed (ts ! i)"; cases "passed t'") auto
next
  fix s ts i t'
  assume I: "size_of s + passing passed ts < bound s0 + length ts0 \<and> bound s = bound s0 \<and> length ts = length ts0"
    and i: "i < length ts" and st: "starts (ts ! i) t'"
  show "size_of s + passing passed (ts[i := t']) < bound s0 + length ts0 \<and> bound s = bound s0 \<and>
      length (ts[i := t']) = length ts0"
    using I passing_update [OF i, of passed t'] start_waits [OF st] by auto
qed (use assms(2) in simp)

end

end
