(* ===== verification/Positional.thy ===== *)
theory Positional
  imports Prelude
begin

text \<open>
  Big-endian positional numbers over lists of digits, and the conversion between two bases that
  keeps leading zeros as leading zeros. base58btc is this conversion between bytes and the
  58-letter alphabet; the lemmas bound a numeral by its length and show that the conversion is
  undone by the converse one.
\<close>

definition be_value :: "nat \<Rightarrow> nat list \<Rightarrow> nat" where
  "be_value B ds = foldl (\<lambda>a d. B * a + d) 0 ds"

fun be_digits :: "nat \<Rightarrow> nat \<Rightarrow> nat list" where
  "be_digits B n = (if n = 0 \<or> B < 2 then [] else be_digits B (n div B) @ [n mod B])"

declare be_digits.simps [simp del]

definition leading_zeros :: "nat list \<Rightarrow> nat" where
  "leading_zeros ds = length (takeWhile (\<lambda>d. d = 0) ds)"

definition convert_base :: "nat \<Rightarrow> nat \<Rightarrow> nat list \<Rightarrow> nat list" where
  "convert_base B B' ds = replicate (leading_zeros ds) 0 @ be_digits B' (be_value B ds)"

lemma be_value_Nil [simp]: "be_value B [] = 0"
  by (simp add: be_value_def)

lemma be_value_snoc [simp]: "be_value B (ds @ [d]) = B * be_value B ds + d"
  by (simp add: be_value_def)

lemma be_value_append: "be_value B (xs @ ys) = be_value B xs * B ^ length ys + be_value B ys"
  by (induction ys rule: rev_induct)
     (simp_all add: append_assoc [symmetric] algebra_simps del: append_assoc)

lemma be_value_single [simp]: "be_value B [d] = d"
  by (simp add: be_value_def)

lemma be_value_Cons: "be_value B (d # ds) = d * B ^ length ds + be_value B ds"
  using be_value_append [of B "[d]" ds] by simp

lemma be_value_zeros [simp]: "be_value B (replicate n 0) = 0"
  by (induction n) (simp_all add: be_value_Cons)

lemma be_value_less: "\<forall>d \<in> set ds. d < B \<Longrightarrow> be_value B ds < B ^ length ds"
proof (induction ds)
  case (Cons d ds)
  then have v: "be_value B ds < B ^ length ds" and d: "Suc d \<le> B" by auto
  have "d * B ^ length ds + be_value B ds < Suc d * B ^ length ds"
    using v by simp
  also have "\<dots> \<le> B * B ^ length ds"
    using d by (rule mult_le_mono1)
  finally show ?case by (simp add: be_value_Cons)
qed simp

text \<open>A numeral with leading digit \<open>d\<close> lies between \<open>d\<close> and \<open>d + 1\<close> times the base's power.\<close>

lemma be_value_bounds:
  assumes "\<forall>x \<in> set ds. x < B"
  shows "d * B ^ length ds \<le> be_value B (d # ds)" "be_value B (d # ds) < Suc d * B ^ length ds"
  using be_value_less [OF assms] by (simp_all add: be_value_Cons)

lemma be_digits_zero [simp]: "be_digits B 0 = []"
  by (simp add: be_digits.simps)

lemma be_value_digits [simp]: "2 \<le> B \<Longrightarrow> be_value B (be_digits B n) = n"
proof (induction B n rule: be_digits.induct)
  case (1 B n)
  show ?case
  proof (cases "n = 0")
    case False
    with 1 have "be_value B (be_digits B (n div B)) = n div B" by simp
    with False 1(2) show ?thesis
      by (simp add: be_digits.simps [of B n])
  qed simp
qed

lemma be_digits_less: "d \<in> set (be_digits B n) \<Longrightarrow> d < B"
proof (induction B n rule: be_digits.induct)
  case (1 B n)
  then show ?case
    by (cases "n = 0 \<or> B < 2") (auto simp: be_digits.simps [of B n])
qed

lemma be_digits_head: "2 \<le> B \<Longrightarrow> be_digits B n = d # ds \<Longrightarrow> d \<noteq> 0"
proof (induction B n arbitrary: ds rule: be_digits.induct)
  case (1 B n)
  then have n: "n \<noteq> 0" by (metis be_digits_zero list.distinct(1))
  with 1(2,3) have e: "be_digits B (n div B) @ [n mod B] = d # ds"
    by (simp add: be_digits.simps [of B n])
  show ?case
  proof (cases "be_digits B (n div B)")
    case Nil
    then have "n div B = 0"
      using be_value_digits [OF 1(2), of "n div B"] by simp
    with Nil e n show ?thesis by (auto simp: div_eq_0_iff)
  next
    case (Cons d' ds')
    with e 1(1) [of ds'] 1(2) n show ?thesis by auto
  qed
qed

lemma leading_zeros_digits: "2 \<le> B \<Longrightarrow> leading_zeros (replicate k 0 @ be_digits B n) = k"
  by (cases "be_digits B n")
     (auto simp: leading_zeros_def takeWhile_append dest: be_digits_head)

text \<open>A numeral with no leading zero is the digits of its value.\<close>

lemma be_digits_value:
  "2 \<le> B \<Longrightarrow> \<forall>x \<in> set ds. x < B \<Longrightarrow> ds = [] \<or> hd ds \<noteq> 0 \<Longrightarrow> be_digits B (be_value B ds) = ds"
proof (induction ds rule: rev_induct)
  case (snoc d ds)
  have d: "d < B" using snoc.prems by simp
  show ?case
  proof (cases "ds = []")
    case True
    with snoc.prems d show ?thesis
      by (simp add: be_digits.simps [of B d])
  next
    case False
    with snoc have IH: "be_digits B (be_value B ds) = ds" by simp
    with False have "be_value B ds \<noteq> 0" by (metis be_digits_zero)
    then have nz: "B * be_value B ds + d \<noteq> 0" using snoc.prems(1) by simp
    have "(B * be_value B ds + d) div B = be_value B ds" "(B * be_value B ds + d) mod B = d"
      using d by simp_all
    with IH nz snoc.prems(1) show ?thesis
      by (simp add: be_digits.simps [of B "B * be_value B ds + d"])
  qed
qed simp

lemma split_leading_zeros:
  "ds = replicate (leading_zeros ds) 0 @ dropWhile (\<lambda>d. d = 0) ds"
proof -
  have "takeWhile (\<lambda>d. d = 0) ds = replicate (leading_zeros ds) 0"
    unfolding leading_zeros_def
    by (metis (mono_tags, lifting) replicate_eqI set_takeWhileD)
  then show ?thesis by (metis takeWhile_dropWhile_id)
qed

lemma convert_base_value: "2 \<le> B' \<Longrightarrow> be_value B' (convert_base B B' ds) = be_value B ds"
  by (simp add: convert_base_def be_value_append)

lemma convert_base_leading: "2 \<le> B' \<Longrightarrow> leading_zeros (convert_base B B' ds) = leading_zeros ds"
  by (simp add: convert_base_def leading_zeros_digits)

lemma convert_base_less: "0 < B' \<Longrightarrow> d \<in> set (convert_base B B' ds) \<Longrightarrow> d < B'"
  by (auto simp: convert_base_def dest: be_digits_less split: if_splits)

lemma convert_base_inverse:
  assumes "2 \<le> B" "2 \<le> B'" "\<forall>d \<in> set ds. d < B"
  shows "convert_base B' B (convert_base B B' ds) = ds"
proof -
  define rest where "rest = dropWhile (\<lambda>d. d = 0) ds"
  have ds: "ds = replicate (leading_zeros ds) 0 @ rest"
    unfolding rest_def by (rule split_leading_zeros)
  have r: "rest = [] \<or> hd rest \<noteq> 0"
    using hd_dropWhile [of "\<lambda>d. d = 0" ds] unfolding rest_def by blast
  have "\<forall>d \<in> set rest. d < B"
    using assms(3) by (auto simp: rest_def dest: set_dropWhileD)
  then have "be_digits B (be_value B rest) = rest"
    using be_digits_value [OF assms(1) _ r] by blast
  moreover have "be_value B ds = be_value B rest"
    by (subst ds) (simp add: be_value_append)
  ultimately have "convert_base B' B (convert_base B B' ds) = replicate (leading_zeros ds) 0 @ rest"
    using assms(2)
    by (simp add: convert_base_def [of B'] convert_base_value convert_base_leading)
  with ds show ?thesis by simp
qed

text \<open>The number of digits is fixed by the interval a value lies in.\<close>

lemma be_value_length_unique:
  assumes "1 < B" "\<forall>x \<in> set ds. x < B" "ds \<noteq> []" "hd ds \<noteq> 0"
    and "B ^ n \<le> be_value B ds" "be_value B ds < B ^ Suc n"
  shows "length ds = Suc n"
proof -
  obtain d r where ds: "ds = d # r" "d \<noteq> 0"
    using assms(3,4) by (cases ds) auto
  have "\<forall>x \<in> set r. x < B" using assms(2) ds by simp
  then have "d * B ^ length r \<le> be_value B ds" and up: "be_value B ds < B ^ length ds"
    using be_value_bounds(1) [of r B d] be_value_less [OF assms(2)] ds by auto
  moreover have "B ^ length r \<le> d * B ^ length r" using ds(2) by simp
  ultimately have "B ^ length r < B ^ Suc n" using assms(6) by linarith
  then have "length r < Suc n" using assms(1) by (simp only: power_strict_increasing_iff)
  moreover have "B ^ n < B ^ length ds" using assms(5) up by linarith
  then have "n < length ds" using assms(1) by (simp only: power_strict_increasing_iff)
  ultimately show ?thesis using ds by simp
qed

end
