(* ===== verification/Crates.thy ===== *)
theory Crates
  imports Positional
begin

text \<open>
  The third-party crates the sources call, as parameters of the model: a record of the
  functions the code uses, with every opaque value of theirs (points, keys, signatures,
  recovery ids) in one type \<open>'x\<close>. Nothing is assumed of them here. What a component relies
  on is one of the named predicates below, each a statement of the crate's documentation; a
  theorem that needs one has it as a hypothesis. The error type of the crypto layer,
  \<open>CryptoError\<close> (crypto\_error.rs), stands here too, since every crypto component returns it.
\<close>

section \<open>CryptoError\<close>

datatype crypto_error =
    UnsupportedMethod string
  | InvalidDid string
  | InvalidSignature string
  | VerificationFailed
  | HexDecode string

text \<open>Its \<open>Display\<close>, as the \<open>#[error(..)]\<close> attributes give it.\<close>

fun crypto_error_display :: "crypto_error \<Rightarrow> string" where
  "crypto_error_display (UnsupportedMethod s) = ''unsupported DID method: '' @ s"
| "crypto_error_display (InvalidDid s) = ''invalid DID: '' @ s"
| "crypto_error_display (InvalidSignature s) = ''invalid signature: '' @ s"
| "crypto_error_display VerificationFailed = ''signature verification failed''"
| "crypto_error_display (HexDecode s) = ''hex decode error: '' @ s"

section \<open>The crates\<close>

record 'x crates =
  did_aqua_feature :: bool
  hex_encode :: "bytes \<Rightarrow> string"
  hex_decode :: "string \<Rightarrow> string + bytes"
  bs58_encode :: "bytes \<Rightarrow> string"
  bs58_decode :: "string \<Rightarrow> string + bytes"
  b64_encode :: "bytes \<Rightarrow> string"
  keccak256 :: "bytes \<Rightarrow> bytes"
  sha256 :: "bytes \<Rightarrow> bytes"
  ed_decompress :: "bytes \<Rightarrow> 'x option"
  ed_compress :: "'x \<Rightarrow> bytes"
  ed_torsion_free :: "'x \<Rightarrow> bool"
  ed_key_from_bytes :: "bytes \<Rightarrow> string + 'x"
  ed_is_weak :: "'x \<Rightarrow> bool"
  ed_sig_from_slice :: "bytes \<Rightarrow> string + 'x"
  ed_verify_strict :: "'x \<Rightarrow> bytes \<Rightarrow> 'x \<Rightarrow> bool"
  p256_point_from_bytes :: "bytes \<Rightarrow> string + 'x"
  p256_key_from_point :: "'x \<Rightarrow> string + 'x"
  p256_pubkey_from_sec1 :: "bytes \<Rightarrow> string + 'x"
  p256_sig_from_der :: "bytes \<Rightarrow> string + 'x"
  p256_sig_from_slice :: "bytes \<Rightarrow> string + 'x"
  p256_verify :: "'x \<Rightarrow> bytes \<Rightarrow> 'x \<Rightarrow> bool"
  k256_recovery_id :: "8 word \<Rightarrow> 'x option"
  k256_sig_from_slice :: "bytes \<Rightarrow> string + 'x"
  k256_recover :: "bytes \<Rightarrow> 'x \<Rightarrow> 'x \<Rightarrow> string + 'x"
  k256_uncompressed :: "'x \<Rightarrow> bytes"
  mldsa_vk_decode :: "bytes \<Rightarrow> 'x"
  mldsa_sig_decode :: "bytes \<Rightarrow> 'x option"
  mldsa_verify_ctx :: "'x \<Rightarrow> bytes \<Rightarrow> bytes \<Rightarrow> 'x \<Rightarrow> bool"

section \<open>Documented behaviour\<close>

text \<open>hex: encoding is two lowercase digits per byte, and decoding undoes it.\<close>

definition is_hex_lower :: "char \<Rightarrow> bool" where
  "is_hex_lower c = (is_ascii_digit c \<or> (0x61 \<le> (of_char c :: nat) \<and> (of_char c :: nat) \<le> 0x66))"

definition hex_law :: "('x, 'z) crates_scheme \<Rightarrow> bool" where
  "hex_law E \<longleftrightarrow>
     (\<forall>b. hex_decode E (hex_encode E b) = Inr b) \<and>
     (\<forall>b. length (hex_encode E b) = 2 * length b) \<and>
     (\<forall>b. \<forall>c \<in> set (hex_encode E b). is_hex_lower c)"

text \<open>hex: a decoded string has two characters per byte, hexadecimal digits all of them.\<close>

definition hex_decode_law :: "('x, 'z) crates_scheme \<Rightarrow> bool" where
  "hex_decode_law E \<longleftrightarrow>
     (\<forall>s b. hex_decode E s = Inr b \<longrightarrow> length s = 2 * length b \<and> (\<forall>c \<in> set s. graphic c))"

text \<open>bs58: base58btc over the Bitcoin alphabet. Encoding and decoding are inverse bijections
  between byte strings and strings over the alphabet; a string is the base-58 numeral of the
  bytes read as a base-256 numeral, with one leading \<open>1\<close> for each leading zero byte.\<close>

definition b58_alphabet :: string where
  "b58_alphabet = ''123456789ABCDEFGHJKLMNPQRSTUVWXYZabcdefghijkmnopqrstuvwxyz''"

definition is_base58 :: "char \<Rightarrow> bool" where
  "is_base58 c = (c \<in> set b58_alphabet)"

definition b58_index :: "char \<Rightarrow> nat" where
  "b58_index c = length (takeWhile (\<lambda>x. x \<noteq> c) b58_alphabet)"

definition bs58_law :: "('x, 'z) crates_scheme \<Rightarrow> bool" where
  "bs58_law E \<longleftrightarrow>
     (\<forall>b. bs58_decode E (bs58_encode E b) = Inr b) \<and>
     (\<forall>s b. bs58_decode E s = Inr b \<longrightarrow> bs58_encode E b = s) \<and>
     (\<forall>b. \<forall>c \<in> set (bs58_encode E b). is_base58 c) \<and>
     (\<forall>b. be_value 58 (map b58_index (bs58_encode E b)) = be_value 256 (map unat b)) \<and>
     (\<forall>b. leading_zeros (map b58_index (bs58_encode E b)) = leading_zeros (map unat b))"

text \<open>sha2, sha3: digests are 32 bytes.\<close>

definition digest_law :: "('x, 'z) crates_scheme \<Rightarrow> bool" where
  "digest_law E \<longleftrightarrow> (\<forall>b. length (sha256 E b) = 32) \<and> (\<forall>b. length (keccak256 E b) = 32)"

lemma hex_lawD:
  assumes "hex_law E"
  shows "hex_decode E (hex_encode E b) = Inr b"
    and "length (hex_encode E b) = 2 * length b"
    and "c \<in> set (hex_encode E b) \<Longrightarrow> is_hex_lower c"
  using assms by (auto simp: hex_law_def)

lemma bs58_lawD:
  assumes "bs58_law E"
  shows "bs58_decode E (bs58_encode E b) = Inr b"
    and "bs58_decode E s = Inr b \<Longrightarrow> bs58_encode E b = s"
    and "c \<in> set (bs58_encode E b) \<Longrightarrow> is_base58 c"
    and "be_value 58 (map b58_index (bs58_encode E b)) = be_value 256 (map unat b)"
    and "leading_zeros (map b58_index (bs58_encode E b)) = leading_zeros (map unat b)"
  using assms by (auto simp: bs58_law_def)

lemma bs58_decode_alphabet:
  assumes "bs58_law E" "bs58_decode E s = Inr b" "c \<in> set s"
  shows "is_base58 c"
  using bs58_lawD(2,3) [OF assms(1)] assms(2,3) by metis

lemma is_hex_lower_graphic: "is_hex_lower c \<Longrightarrow> graphic c"
  by (auto simp: is_hex_lower_def is_ascii_digit_def graphic_def)

lemma base58_graphic_all: "list_all graphic b58_alphabet"
  by (simp add: b58_alphabet_def graphic_def)

lemma is_base58_graphic: "is_base58 c \<Longrightarrow> graphic c"
  using base58_graphic_all by (auto simp: is_base58_def list_all_iff)

lemma length_b58_alphabet [simp]: "length b58_alphabet = 58"
  by (simp add: b58_alphabet_def)

lemma b58_index_less: "is_base58 c \<Longrightarrow> b58_index c < 58"
proof -
  assume "is_base58 c"
  then have "\<not> (\<forall>x \<in> set b58_alphabet. x \<noteq> c)"
    by (auto simp: is_base58_def)
  then have "takeWhile (\<lambda>x. x \<noteq> c) b58_alphabet \<noteq> b58_alphabet"
    by (simp add: takeWhile_eq_all_conv)
  moreover have "length (takeWhile (\<lambda>x. x \<noteq> c) b58_alphabet) \<le> 58"
    using length_takeWhile_le [of _ b58_alphabet] by simp
  ultimately show ?thesis
    unfolding b58_index_def
    by (metis length_b58_alphabet le_neq_implies_less takeWhile_eq_take take_all_iff order_refl)
qed

end
