(* ===== verification/Ref_Crates.thy ===== *)
theory Ref_Crates
  imports Crates
begin

text \<open>
  A concrete instance of the crate parameters, at which the theorems that assume a crate's
  documented behaviour are evaluated. The codecs are real: lowercase hexadecimal and base58btc,
  with proofs that they satisfy the laws. The hash and signature functions are stand-ins with
  the right shapes (32-byte digests, 64- and 65-byte signatures); nothing is proved from them
  but that the hypotheses can hold.
\<close>

section \<open>Hexadecimal\<close>

definition ref_hex_encode :: "bytes \<Rightarrow> string" where
  "ref_hex_encode bs = concat (map show_byte_02x bs)"

definition hex_value :: "char \<Rightarrow> nat option" where
  "hex_value c =
     (let n = (of_char c :: nat) in
      if 0x30 \<le> n \<and> n \<le> 0x39 then Some (n - 0x30)
      else if 0x61 \<le> n \<and> n \<le> 0x66 then Some (n - 0x57)
      else if 0x41 \<le> n \<and> n \<le> 0x46 then Some (n - 0x37)
      else None)"

fun ref_hex_decode :: "string \<Rightarrow> string + bytes" where
  "ref_hex_decode [] = Inr []"
| "ref_hex_decode [c] = Inl ''Odd number of digits''"
| "ref_hex_decode (a # b # s) =
     (case (hex_value a, hex_value b) of
        (Some x, Some y) \<Rightarrow> rbind (ref_hex_decode s) (\<lambda>r. Inr (of_nat (16 * x + y) # r))
      | _ \<Rightarrow> Inl ''Invalid character'')"

lemma hex_value_digit [simp]: "d < 16 \<Longrightarrow> hex_value (hex_digit d) = Some d"
  by (auto simp: hex_value_def hex_digit_def Let_def)

lemma is_hex_lower_digit: "d < 16 \<Longrightarrow> is_hex_lower (hex_digit d)"
  by (auto simp: is_hex_lower_def is_ascii_digit_def hex_digit_def)

lemma unat_byte_less [simp]: "unat (b :: 8 word) div 16 < 16"
  using unat_byte_bound [of b] by (simp add: div_less_iff_less_mult)

lemma ref_hex_roundtrip: "ref_hex_decode (ref_hex_encode bs) = Inr bs"
  by (induction bs) (simp_all add: ref_hex_encode_def show_byte_02x_def)

lemma length_ref_hex_encode: "length (ref_hex_encode bs) = 2 * length bs"
  by (induction bs) (simp_all add: ref_hex_encode_def show_byte_02x_def)

lemma ref_hex_encode_chars: "c \<in> set (ref_hex_encode bs) \<Longrightarrow> is_hex_lower c"
  by (induction bs)
     (auto simp: ref_hex_encode_def show_byte_02x_def intro!: is_hex_lower_digit)

lemma ref_hex_decode_chars:
  "ref_hex_decode s = Inr b \<Longrightarrow> length s = 2 * length b \<and> (\<forall>c \<in> set s. graphic c)"
proof (induction s arbitrary: b rule: ref_hex_decode.induct)
  case (3 x y s)
  then obtain u v r where "hex_value x = Some u" "hex_value y = Some v" "ref_hex_decode s = Inr r"
    "b = of_nat (16 * u + v) # r"
    by (auto split: option.splits)
  moreover from this have "graphic x" "graphic y"
    by (auto simp: hex_value_def graphic_def Let_def split: if_splits)
  ultimately show ?case using 3(1) by auto
qed auto

section \<open>base58btc\<close>

definition b58_char :: "nat \<Rightarrow> char" where
  "b58_char d = b58_alphabet ! d"

definition ref_bs58_encode :: "bytes \<Rightarrow> string" where
  "ref_bs58_encode bs = map b58_char (convert_base 256 58 (map unat bs))"

definition ref_bs58_decode :: "string \<Rightarrow> string + bytes" where
  "ref_bs58_decode s =
     (if list_all is_base58 s then Inr (map of_nat (convert_base 58 256 (map b58_index s)))
      else Inl ''provided string contained invalid character'')"

lemma b58_roundtrip_table: "list_all (\<lambda>d. b58_index (b58_char d) = d) [0..<58]"
  by code_simp

lemma b58_index_char: "d < 58 \<Longrightarrow> b58_index (b58_char d) = d"
  using b58_roundtrip_table by (auto simp: list_all_iff)

lemma is_base58_char: "d < 58 \<Longrightarrow> is_base58 (b58_char d)"
  by (simp add: is_base58_def b58_char_def)

lemma b58_char_index: "is_base58 c \<Longrightarrow> b58_char (b58_index c) = c"
proof -
  assume c: "is_base58 c"
  then have "\<not> (\<lambda>x. x \<noteq> c) (b58_alphabet ! length (takeWhile (\<lambda>x. x \<noteq> c) b58_alphabet))"
    by (intro nth_length_takeWhile) (use b58_index_less [OF c] in \<open>simp add: b58_index_def\<close>)
  then show ?thesis by (simp add: b58_char_def b58_index_def)
qed

lemma bytes_unat_less: "\<forall>d \<in> set (map unat (bs :: bytes)). d < 256"
  by (auto intro: unat_byte_bound)

lemma encode_digits_less: "d \<in> set (convert_base 256 58 ds) \<Longrightarrow> d < 58"
  using convert_base_less by force

lemma map_index_encode: "map b58_index (ref_bs58_encode bs) = convert_base 256 58 (map unat bs)"
  unfolding ref_bs58_encode_def map_map
  by (rule map_idI) (auto intro!: b58_index_char dest: encode_digits_less)

lemma of_nat_unat_bytes: "map of_nat (map unat bs) = (bs :: bytes)"
  by (simp add: map_idI)

lemma unat_of_nat_bytes: "\<forall>d \<in> set ds. d < 256 \<Longrightarrow> map unat (map of_nat ds :: bytes) = ds"
  unfolding map_map by (rule map_idI) (simp add: unat_of_nat)

lemma ref_bs58_roundtrip: "ref_bs58_decode (ref_bs58_encode bs) = Inr bs"
proof -
  have "list_all is_base58 (ref_bs58_encode bs)"
    by (auto simp: list_all_iff ref_bs58_encode_def intro!: is_base58_char dest: encode_digits_less)
  moreover have "convert_base 58 256 (convert_base 256 58 (map unat bs)) = map unat bs"
    by (rule convert_base_inverse) (use bytes_unat_less in auto)
  ultimately show ?thesis
    by (simp add: ref_bs58_decode_def map_index_encode of_nat_unat_bytes del: map_map)
qed

lemma ref_bs58_canonical:
  assumes "ref_bs58_decode s = Inr b"
  shows "ref_bs58_encode b = s"
proof -
  from assms have s: "list_all is_base58 s"
    and b: "b = map of_nat (convert_base 58 256 (map b58_index s))"
    by (auto simp: ref_bs58_decode_def split: if_splits)
  have idx: "\<forall>d \<in> set (map b58_index s). d < 58"
    using s by (auto simp: list_all_iff intro: b58_index_less)
  have "map unat b = convert_base 58 256 (map b58_index s)"
    unfolding b by (rule unat_of_nat_bytes) (auto dest: convert_base_less [rotated])
  then have "convert_base 256 58 (map unat b) = map b58_index s"
    using convert_base_inverse [of 58 256, OF _ _ idx] by simp
  then have "ref_bs58_encode b = map b58_char (map b58_index s)"
    by (simp only: ref_bs58_encode_def)
  also have "\<dots> = s"
    unfolding map_map using s by (intro map_idI) (auto simp: list_all_iff b58_char_index)
  finally show ?thesis .
qed

section \<open>The instance\<close>

definition ref_digest :: "bytes \<Rightarrow> bytes" where
  "ref_digest b = take 32 (b @ replicate 32 0)"

definition ref_crates :: "bytes crates" where
  "ref_crates = \<lparr>
     did_aqua_feature = True,
     hex_encode = ref_hex_encode,
     hex_decode = ref_hex_decode,
     bs58_encode = ref_bs58_encode,
     bs58_decode = ref_bs58_decode,
     b64_encode = ref_hex_encode,
     keccak256 = ref_digest,
     sha256 = ref_digest,
     ed_decompress = (\<lambda>b. if take 1 b = [0] then None else Some b),
     ed_compress = (\<lambda>p. p),
     ed_torsion_free = (\<lambda>p. True),
     ed_key_from_bytes = Inr,
     ed_is_weak = (\<lambda>k. False),
     ed_sig_from_slice = Inr,
     ed_verify_strict = (\<lambda>k m s. take 32 s = k),
     p256_point_from_bytes =
       (\<lambda>b. if length b = 33 \<or> length b = 65 then Inr b else Inl ''crypto error''),
     p256_key_from_point = Inr,
     p256_pubkey_from_sec1 = Inr,
     p256_sig_from_der = (\<lambda>s. Inl ''not DER''),
     p256_sig_from_slice = (\<lambda>s. if length s = 64 then Inr s else Inl ''signature error''),
     p256_verify = (\<lambda>k m s. take 32 s = take 32 k),
     k256_recovery_id = (\<lambda>b. if b < 4 then Some [b] else None),
     k256_sig_from_slice = Inr,
     k256_recover = (\<lambda>z s i. Inr s),
     k256_uncompressed = (\<lambda>k. 4 # k),
     mldsa_vk_decode = (\<lambda>k. k),
     mldsa_sig_decode = Some,
     mldsa_verify_ctx = (\<lambda>k m c s. take 8 s = take 8 k)\<rparr>"

lemma ref_hex_law: "hex_law ref_crates"
  by (auto simp: hex_law_def ref_crates_def ref_hex_roundtrip length_ref_hex_encode
      dest: ref_hex_encode_chars)

lemma ref_hex_decode_law: "hex_decode_law ref_crates"
  by (auto simp: hex_decode_law_def ref_crates_def dest: ref_hex_decode_chars)

lemma ref_bs58_law: "bs58_law ref_crates"
  unfolding bs58_law_def ref_crates_def
  using encode_digits_less
  by (auto simp: ref_bs58_roundtrip ref_bs58_canonical map_index_encode convert_base_value
      convert_base_leading is_base58_char) (auto simp: ref_bs58_encode_def intro!: is_base58_char)

lemma ref_digest_law: "digest_law ref_crates"
  by (auto simp: digest_law_def ref_crates_def ref_digest_def min_def)

text \<open>Bytes read as text.\<close>

definition ref_chars :: "bytes \<Rightarrow> string" where
  "ref_chars b = map (\<lambda>x. char_of (unat x)) b"

lemma char_byte: "char_of (unat (of_char c :: 8 word)) = c"
proof -
  have "unat (of_nat (of_char c) :: 8 word) = (of_char c :: nat)"
    using of_char_mod_256 [of c, where 'a = nat] by (simp add: unat_of_nat)
  then show ?thesis by (simp add: of_nat_of_char)
qed

lemma ref_chars_as_bytes [simp]: "ref_chars (as_bytes s) = s"
  unfolding ref_chars_def as_bytes_def map_map by (intro map_idI) (simp add: char_byte)

end
