(* ===== verification/Keys.thy ===== *)
theory Keys
  imports Ref_Crates
begin

text \<open>
  Key material in DIDs: the strict Ed25519 key check (key/ed25519.rs), the multibase and
  multicodec body shared by \<open>did:key\<close> and \<open>did:peer\<close> and the signature check over it
  (key/mod.rs).
\<close>

section \<open>strict\_verifying\_key\<close>

definition strict_verifying_key :: "('x, 'z) crates_scheme \<Rightarrow> bytes \<Rightarrow> crypto_error + 'x" where
  "strict_verifying_key E bs =
     rbind (ok_or (ed_decompress E bs) (InvalidDid ''Ed25519 public key is not a curve point''))
       (\<lambda>point.
     rbind (require (ed_compress E point = bs)
              (InvalidDid ''Ed25519 public key has a non-canonical encoding''))
       (\<lambda>_.
     rbind (map_err (\<lambda>e. InvalidDid (''invalid Ed25519 public key: '' @ e)) (ed_key_from_bytes E bs))
       (\<lambda>key.
     rbind (require (\<not> ed_is_weak E key)
              (InvalidDid ''Ed25519 public key is a weak (small order) key''))
       (\<lambda>_.
     rbind (require (ed_torsion_free E point)
              (InvalidDid ''Ed25519 public key is not in the prime-order subgroup''))
       (\<lambda>_. Inr key)))))"

section \<open>Multibase keys\<close>

definition ED25519_PREFIX :: bytes where
  "ED25519_PREFIX = [0xED, 0x01]"

definition P256_PREFIX :: bytes where
  "P256_PREFIX = [0x80, 0x24]"

datatype key_type = Ed25519Key bytes | P256Key bytes

definition key_type_label :: "key_type \<Rightarrow> string" where
  "key_type_label k = (case k of Ed25519Key _ \<Rightarrow> ''Ed25519'' | P256Key _ \<Rightarrow> ''P-256'')"

text \<open>The \<open>{:02x?}\<close> rendering of a byte slice, used in one error text.\<close>

fun show_bytes_sep :: "bytes \<Rightarrow> string" where
  "show_bytes_sep [] = ''''"
| "show_bytes_sep [b] = show_byte_02x b"
| "show_bytes_sep (b # bs) = show_byte_02x b @ '', '' @ show_bytes_sep bs"

definition show_bytes_02x :: "bytes \<Rightarrow> string" where
  "show_bytes_02x bs = ''['' @ show_bytes_sep bs @ '']''"

definition decode_multibase_key ::
  "('x, 'z) crates_scheme \<Rightarrow> string \<Rightarrow> crypto_error + key_type" where
  "decode_multibase_key E z_body =
     rbind (map_err (\<lambda>e. InvalidDid (''base58btc decode error: '' @ e)) (bs58_decode E z_body))
       (\<lambda>bytes.
          if starts_with ED25519_PREFIX bytes then
            (let raw = drop (length ED25519_PREFIX) bytes in
             rbind (if length raw = 32 then rmap (\<lambda>_. ()) (strict_verifying_key E raw) else Inr ())
               (\<lambda>_. Inr (Ed25519Key raw)))
          else if starts_with P256_PREFIX bytes then
            Inr (P256Key (drop (length P256_PREFIX) bytes))
          else Inl (InvalidDid (''unknown multicodec prefix '' @ show_bytes_02x (take 2 bytes))))"

section \<open>verify\_with\_key\<close>

text \<open>The P-256 signature is accepted in DER or in the fixed 64-byte form.\<close>

definition p256_parse_sig :: "('x, 'z) crates_scheme \<Rightarrow> bytes \<Rightarrow> string + 'x" where
  "p256_parse_sig E sig =
     (case p256_sig_from_der E sig of Inr s \<Rightarrow> Inr s | Inl _ \<Rightarrow> p256_sig_from_slice E sig)"

definition verify_with_key ::
  "('x, 'z) crates_scheme \<Rightarrow> key_type \<Rightarrow> string \<Rightarrow> bytes \<Rightarrow> crypto_error + bool" where
  "verify_with_key E key message signature =
     (case key of
        Ed25519Key raw \<Rightarrow>
          rbind (require (length raw = 32)
                   (InvalidSignature ''Ed25519 public key must be 32 bytes''))
            (\<lambda>_.
          rbind (strict_verifying_key E raw) (\<lambda>vk.
          rbind (require (length signature = 64)
                   (InvalidSignature (''Ed25519 signature must be 64 bytes, got '' @
                      show_nat (length signature))))
            (\<lambda>_.
          rbind (map_err (\<lambda>e. InvalidSignature (''invalid Ed25519 sig: '' @ e))
                   (ed_sig_from_slice E signature))
            (\<lambda>sig. Inr (ed_verify_strict E vk (as_bytes message) sig)))))
      | P256Key raw \<Rightarrow>
          rbind (map_err (\<lambda>e. InvalidSignature (''invalid P-256 encoded point: '' @ e))
                   (p256_point_from_bytes E raw))
            (\<lambda>point.
          rbind (map_err (\<lambda>e. InvalidSignature (''invalid P-256 key: '' @ e))
                   (p256_key_from_point E point))
            (\<lambda>vk.
          rbind (map_err (\<lambda>e. InvalidSignature (''invalid P-256 sig: '' @ e))
                   (p256_parse_sig E signature))
            (\<lambda>sig. Inr (p256_verify E vk (as_bytes message) sig)))))"

section \<open>Keys out of did:key\<close>

definition ed25519_pubkey_from_did_key ::
  "('x, 'z) crates_scheme \<Rightarrow> string \<Rightarrow> crypto_error + bytes" where
  "ed25519_pubkey_from_did_key E did =
     rbind (ok_or (strip_prefix ''did:key:z'' did) (InvalidDid (''expected did:key DID: '' @ did)))
       (\<lambda>z_body.
     rbind (decode_multibase_key E z_body)
       (\<lambda>k. case k of
          Ed25519Key raw \<Rightarrow>
            if length raw = 32 then Inr raw
            else Inl (InvalidDid ''Ed25519 public key must be 32 bytes'')
        | other \<Rightarrow>
            Inl (InvalidDid (''expected an Ed25519 did:key, got '' @ key_type_label other))))"

definition p256_pubkey_from_did_key ::
  "('x, 'z) crates_scheme \<Rightarrow> string \<Rightarrow> crypto_error + bytes" where
  "p256_pubkey_from_did_key E did =
     rbind (ok_or (strip_prefix ''did:key:z'' did) (InvalidDid (''expected did:key DID: '' @ did)))
       (\<lambda>z_body.
     rbind (rbind (decode_multibase_key E z_body)
              (\<lambda>k. case k of
                 P256Key raw \<Rightarrow> Inr raw
               | other \<Rightarrow>
                   Inl (InvalidDid (''expected a P-256 did:key, got '' @ key_type_label other))))
       (\<lambda>raw.
     rbind (require (length raw = 33)
              (InvalidDid (''P-256 did:key must carry a 33-byte compressed point, got '' @
                 show_nat (length raw) @ '' bytes'')))
       (\<lambda>_.
     rbind (map_err (\<lambda>_. InvalidDid ''P-256 did:key is not a point on the curve'')
              (p256_pubkey_from_sec1 E raw))
       (\<lambda>_. Inr raw))))"

section \<open>Lemmas\<close>

text \<open>The set of Ed25519 keys the crate accepts, as one predicate.\<close>

definition strict_ed_key :: "('x, 'z) crates_scheme \<Rightarrow> bytes \<Rightarrow> bool" where
  "strict_ed_key E bs \<longleftrightarrow>
     (\<exists>p k. ed_decompress E bs = Some p \<and> ed_compress E p = bs \<and> ed_torsion_free E p \<and>
            ed_key_from_bytes E bs = Inr k \<and> \<not> ed_is_weak E k)"

lemma strict_verifying_key_Inr:
  "strict_verifying_key E bs = Inr k \<longleftrightarrow>
     ed_key_from_bytes E bs = Inr k \<and> \<not> ed_is_weak E k \<and>
     (\<exists>p. ed_decompress E bs = Some p \<and> ed_compress E p = bs \<and> ed_torsion_free E p)"
  by (auto simp: strict_verifying_key_def)

lemma strict_verifying_key_ok: "is_ok (strict_verifying_key E bs) \<longleftrightarrow> strict_ed_key E bs"
  by (auto simp: is_ok_iff strict_verifying_key_Inr strict_ed_key_def)

lemma strict_verifying_key_error:
  "strict_verifying_key E bs = Inl e \<Longrightarrow> \<exists>why. e = InvalidDid why"
  by (auto simp: strict_verifying_key_def rbind_eq_Inl ok_or_eq_Inl require_eq_Inl map_err_eq_Inl)

lemma starts_with_prefixes [simp]:
  "starts_with ED25519_PREFIX (P256_PREFIX @ r) = False"
  "starts_with P256_PREFIX (ED25519_PREFIX @ r) = False"
  by (auto simp: ED25519_PREFIX_def P256_PREFIX_def starts_with_def)

lemma prefixes_distinct [simp]:
  "ED25519_PREFIX @ r \<noteq> P256_PREFIX @ s" "P256_PREFIX @ s \<noteq> ED25519_PREFIX @ r"
  by (auto simp: ED25519_PREFIX_def P256_PREFIX_def)

lemma case_key_type_Inr [simp]:
  "(case k of Ed25519Key r \<Rightarrow> f r | P256Key r \<Rightarrow> g r) = Inr y \<longleftrightarrow>
     (\<exists>r. k = Ed25519Key r \<and> f r = Inr y) \<or> (\<exists>r. k = P256Key r \<and> g r = Inr y)"
  by (cases k) auto

lemma length_prefixes [simp]: "length ED25519_PREFIX = 2" "length P256_PREFIX = 2"
  by (simp_all add: ED25519_PREFIX_def P256_PREFIX_def)

lemma decode_multibase_key_Ed:
  "decode_multibase_key E z = Inr (Ed25519Key raw) \<longleftrightarrow>
     bs58_decode E z = Inr (ED25519_PREFIX @ raw) \<and> (length raw = 32 \<longrightarrow> strict_ed_key E raw)"
  by (cases "bs58_decode E z")
     (auto simp: decode_multibase_key_def Let_def starts_with_iff is_ok_iff
       strict_verifying_key_ok [symmetric] split: if_splits)

lemma decode_multibase_key_P256:
  "decode_multibase_key E z = Inr (P256Key raw) \<longleftrightarrow> bs58_decode E z = Inr (P256_PREFIX @ raw)"
  by (cases "bs58_decode E z")
     (auto simp: decode_multibase_key_def Let_def starts_with_iff split: if_splits)

lemma decode_multibase_key_bytes:
  "decode_multibase_key E z = Inr k \<Longrightarrow> \<exists>b. bs58_decode E z = Inr b"
  by (auto simp: decode_multibase_key_def)

lemma ed25519_pubkey_from_did_key_Inr:
  "ed25519_pubkey_from_did_key E did = Inr raw \<longleftrightarrow>
     length raw = 32 \<and> strict_ed_key E raw \<and>
     (\<exists>z. did = ''did:key:z'' @ z \<and> bs58_decode E z = Inr (ED25519_PREFIX @ raw))"
  by (auto simp: ed25519_pubkey_from_did_key_def strip_prefix_Some decode_multibase_key_Ed)

lemma p256_pubkey_from_did_key_Inr:
  "p256_pubkey_from_did_key E did = Inr raw \<longleftrightarrow>
     length raw = 33 \<and> is_ok (p256_pubkey_from_sec1 E raw) \<and>
     (\<exists>z. did = ''did:key:z'' @ z \<and> bs58_decode E z = Inr (P256_PREFIX @ raw))"
  by (auto simp: p256_pubkey_from_did_key_def strip_prefix_Some decode_multibase_key_P256 is_ok_iff
      split: if_splits)

end
