(* ===== verification/Did.thy ===== *)
theory Did
  imports Keys
begin

text \<open>
  DID parsing and encoding (did.rs): the namespace of a \<open>did:pkh\<close>, the address or key inside
  it, EIP-55 checksums, the identifier line of a sign-in message, and the \<open>did:key\<close> encoders.
\<close>

unbundle bit_operations_syntax

section \<open>did:pkh\<close>

definition parse_did_namespace :: "string \<Rightarrow> crypto_error + string" where
  "parse_did_namespace did =
     rbind (ok_or (strip_prefix ''did:pkh:'' did)
              (InvalidDid (''expected 'did:pkh:' prefix: '' @ did)))
       (\<lambda>rest. Inr (hd (split_on CHR '':'' rest)))"

definition address_from_did :: "('x, 'z) crates_scheme \<Rightarrow> string \<Rightarrow> crypto_error + bytes" where
  "address_from_did E did =
     rbind (ok_or (strip_prefix ''did:pkh:eip155:'' did)
              (InvalidDid (''expected eip155 DID: '' @ did)))
       (\<lambda>rest.
     rbind (ok_or (strip_prefix ''0x'' (last (split_on CHR '':'' rest)))
              (InvalidDid (''missing 0x address in eip155 DID: '' @ did)))
       (\<lambda>hex_str.
     rbind (require (length hex_str = 40)
              (InvalidDid (''eip155 address must be 40 hex chars, got '' @
                 show_nat (length hex_str))))
       (\<lambda>_.
     rbind (map_err HexDecode (hex_decode E hex_str))
       (\<lambda>bs. if length bs = 20 then Inr bs
             else Inl (InvalidDid ''address must be exactly 20 bytes'')))))"

definition pubkey_from_ed25519_did ::
  "('x, 'z) crates_scheme \<Rightarrow> string \<Rightarrow> crypto_error + bytes" where
  "pubkey_from_ed25519_did E did =
     rbind (ok_or (strip_prefix ''did:pkh:ed25519:0x'' did)
              (InvalidDid (''expected ed25519 DID: '' @ did)))
       (\<lambda>hex_str.
     rbind (require (length hex_str = 64)
              (InvalidDid (''ed25519 pubkey must be 64 hex chars, got '' @
                 show_nat (length hex_str))))
       (\<lambda>_.
     rbind (map_err HexDecode (hex_decode E hex_str))
       (\<lambda>bs.
     rbind (if length bs = 32 then Inr bs
            else Inl (InvalidDid ''ed25519 pubkey must be 32 bytes''))
       (\<lambda>key.
     rbind (strict_verifying_key E key) (\<lambda>_. Inr key)))))"

definition pubkey_from_p256_did ::
  "('x, 'z) crates_scheme \<Rightarrow> string \<Rightarrow> crypto_error + bytes" where
  "pubkey_from_p256_did E did =
     rbind (ok_or (strip_prefix ''did:pkh:p256:0x'' did)
              (InvalidDid (''expected p256 DID: '' @ did)))
       (\<lambda>hex_str.
     rbind (require (length hex_str = 66)
              (InvalidDid (''p256 compressed pubkey must be 66 hex chars, got '' @
                 show_nat (length hex_str))))
       (\<lambda>_.
     rbind (map_err HexDecode (hex_decode E hex_str))
       (\<lambda>bs. if length bs = 33 then Inr bs
             else Inl (InvalidDid ''p256 compressed pubkey must be 33 bytes''))))"

section \<open>Ethereum addresses\<close>

definition address_from_verifying_key :: "('x, 'z) crates_scheme \<Rightarrow> 'x \<Rightarrow> bytes" where
  "address_from_verifying_key E key = drop 12 (keccak256 E (drop 1 (k256_uncompressed E key)))"

definition checksum_char :: "bytes \<Rightarrow> nat \<times> char \<Rightarrow> char" where
  "checksum_char hash = (\<lambda>(i, c).
     if is_ascii_digit c then c
     else
       (let nibble = (if even i then drop_bit 4 (hash ! (i div 2)) AND 0xF
                      else hash ! (i div 2) AND 0xF)
        in if 8 \<le> nibble then to_upper_char c else c))"

definition eip55_checksum :: "('x, 'z) crates_scheme \<Rightarrow> bytes \<Rightarrow> string" where
  "eip55_checksum E addr =
     (let lower = hex_encode E addr;
          hash = keccak256 E (as_bytes lower)
      in map (checksum_char hash) (List.enumerate 0 lower))"

definition checksummed_address :: "('x, 'z) crates_scheme \<Rightarrow> string \<Rightarrow> crypto_error + string" where
  "checksummed_address E did =
     rbind (address_from_did E did) (\<lambda>addr. Inr (''0x'' @ eip55_checksum E addr))"

section \<open>Identifiers\<close>

text \<open>The second line of the message, with line-end CRs and surrounding white space removed.\<close>

definition identifier_from_message :: "string \<Rightarrow> string option" where
  "identifier_from_message message =
     (case split_on LF message of
        _ # l # _ \<Rightarrow>
          (let id = trim (trim_end_char CR l) in if id = [] then None else Some id)
      | _ \<Rightarrow> None)"

definition identifier_from_did :: "('x, 'z) crates_scheme \<Rightarrow> string \<Rightarrow> crypto_error + string" where
  "identifier_from_did E did =
     rbind (parse_did_namespace did)
       (\<lambda>ns.
          if ns = ''eip155'' then checksummed_address E did
          else if ns = ''ed25519'' then
            rbind (pubkey_from_ed25519_did E did) (\<lambda>pk. Inr (''0x'' @ hex_encode E pk))
          else if ns = ''p256'' then
            rbind (pubkey_from_p256_did E did) (\<lambda>pk. Inr (''0x'' @ hex_encode E pk))
          else Inl (UnsupportedMethod ns))"

section \<open>did:key encoding\<close>

definition encode_did_key :: "('x, 'z) crates_scheme \<Rightarrow> bytes \<Rightarrow> bytes \<Rightarrow> string" where
  "encode_did_key E prefix pubkey = ''did:key:z'' @ bs58_encode E (prefix @ pubkey)"

definition ed25519_did_key_from_pubkey :: "('x, 'z) crates_scheme \<Rightarrow> bytes \<Rightarrow> string" where
  "ed25519_did_key_from_pubkey E pubkey = encode_did_key E ED25519_PREFIX pubkey"

definition p256_did_key_from_pubkey :: "('x, 'z) crates_scheme \<Rightarrow> bytes \<Rightarrow> string" where
  "p256_did_key_from_pubkey E pubkey = encode_did_key E P256_PREFIX pubkey"

section \<open>Lemmas\<close>

lemma address_from_did_Inr:
  "address_from_did E did = Inr a \<longleftrightarrow>
     length a = 20 \<and>
     (\<exists>rest h. did = ''did:pkh:eip155:'' @ rest \<and> last (split_on CHR '':'' rest) = ''0x'' @ h \<and>
               length h = 40 \<and> hex_decode E h = Inr a)"
  by (auto simp: address_from_did_def strip_prefix_Some)

lemma pubkey_from_ed25519_did_Inr:
  "pubkey_from_ed25519_did E did = Inr k \<longleftrightarrow>
     length k = 32 \<and> strict_ed_key E k \<and>
     (\<exists>h. did = ''did:pkh:ed25519:0x'' @ h \<and> length h = 64 \<and> hex_decode E h = Inr k)"
  by (auto simp: pubkey_from_ed25519_did_def strip_prefix_Some strict_verifying_key_ok [symmetric]
      is_ok_iff)

lemma pubkey_from_p256_did_Inr:
  "pubkey_from_p256_did E did = Inr k \<longleftrightarrow>
     length k = 33 \<and>
     (\<exists>h. did = ''did:pkh:p256:0x'' @ h \<and> length h = 66 \<and> hex_decode E h = Inr k)"
  by (auto simp: pubkey_from_p256_did_def strip_prefix_Some)

lemma parse_did_namespace_Inr:
  "parse_did_namespace did = Inr ns \<longleftrightarrow>
     (\<exists>rest. did = ''did:pkh:'' @ rest \<and> ns = takeWhile (\<lambda>c. c \<noteq> CHR '':'') rest)"
  by (auto simp: parse_did_namespace_def strip_prefix_Some split_on_def split_by_hd)

text \<open>A canonical DID of an address and what the parsers make of it.\<close>

lemma split_eip155:
  assumes "CHR '':'' \<notin> set h"
  shows "last (split_on CHR '':'' (chain @ '':0x'' @ h)) = ''0x'' @ h"
  using assms by (simp add: split_on_append)

lemma hex_no_colon: "hex_law E \<Longrightarrow> CHR '':'' \<notin> set (hex_encode E b)"
  by (auto dest!: hex_lawD(3) simp: is_hex_lower_def is_ascii_digit_def)

lemma address_from_did_encode:
  assumes "hex_law E" "length a = 20"
  shows "address_from_did E (''did:pkh:eip155:'' @ chain @ '':0x'' @ hex_encode E a) = Inr a"
proof -
  have "last (split_on CHR '':'' (chain @ '':0x'' @ hex_encode E a)) = ''0x'' @ hex_encode E a"
    by (rule split_eip155) (rule hex_no_colon [OF assms(1)])
  with assms hex_lawD(1,2) [OF assms(1)] show ?thesis
    unfolding address_from_did_Inr by (metis mult_2 numeral_Bit0)
qed

text \<open>EIP-55 changes nothing but letter case.\<close>

lemma to_lower_checksum_char:
  assumes "is_hex_lower c"
  shows "to_lower_char (checksum_char hash (i, c)) = c"
proof (cases "is_ascii_digit c")
  case True
  then show ?thesis
    by (simp add: checksum_char_def to_lower_char_def is_ascii_upper_def is_ascii_digit_def)
next
  case False
  with assms have r: "0x61 \<le> (of_char c :: nat)" "(of_char c :: nat) \<le> 0x66"
    by (auto simp: is_hex_lower_def)
  then have "65 \<le> (of_char c :: nat) - 32" "(of_char c :: nat) - 32 \<le> 90"
    by linarith+
  with r have up: "to_lower_char (to_upper_char c) = c" "to_lower_char c = c"
    by (simp_all add: to_upper_char_def to_lower_char_def is_ascii_lower_def
        is_ascii_upper_def)
  with False show ?thesis by (simp add: checksum_char_def Let_def)
qed

lemma length_eip55_checksum [simp]: "length (eip55_checksum E a) = length (hex_encode E a)"
  by (simp add: eip55_checksum_def Let_def)

lemma eip55_checksum_nth:
  "i < length (hex_encode E a) \<Longrightarrow>
     eip55_checksum E a ! i =
       checksum_char (keccak256 E (as_bytes (hex_encode E a))) (i, hex_encode E a ! i)"
  by (simp add: eip55_checksum_def Let_def nth_enumerate_eq)

lemma eip55_checksum_lower:
  assumes "hex_law E"
  shows "to_ascii_lowercase (eip55_checksum E a) = hex_encode E a"
proof (rule nth_equalityI)
  fix i assume "i < length (to_ascii_lowercase (eip55_checksum E a))"
  then have i: "i < length (hex_encode E a)" by simp
  then have "is_hex_lower (hex_encode E a ! i)"
    by (intro hex_lawD(3) [OF assms, of _ a] nth_mem)
  with i show "to_ascii_lowercase (eip55_checksum E a) ! i = hex_encode E a ! i"
    by (simp add: to_ascii_lowercase_def eip55_checksum_nth to_lower_checksum_char)
qed simp

text \<open>\<open>did:key\<close>: decoding undoes encoding, and each key has one spelling.\<close>

lemma ed25519_did_key_roundtrip_aux:
  "bs58_law E \<Longrightarrow> length pk = 32 \<Longrightarrow> strict_ed_key E pk \<Longrightarrow>
     ed25519_pubkey_from_did_key E (ed25519_did_key_from_pubkey E pk) = Inr pk"
  unfolding ed25519_pubkey_from_did_key_Inr
  by (simp add: ed25519_did_key_from_pubkey_def encode_did_key_def bs58_lawD(1))

lemma ed25519_did_key_canonical:
  "bs58_law E \<Longrightarrow> ed25519_pubkey_from_did_key E did = Inr pk \<Longrightarrow>
     did = ed25519_did_key_from_pubkey E pk"
  unfolding ed25519_pubkey_from_did_key_Inr
  by (auto simp: ed25519_did_key_from_pubkey_def encode_did_key_def dest: bs58_lawD(2))

lemma p256_did_key_roundtrip_aux:
  "bs58_law E \<Longrightarrow> length pk = 33 \<Longrightarrow> is_ok (p256_pubkey_from_sec1 E pk) \<Longrightarrow>
     p256_pubkey_from_did_key E (p256_did_key_from_pubkey E pk) = Inr pk"
  unfolding p256_pubkey_from_did_key_Inr
  by (simp add: p256_did_key_from_pubkey_def encode_did_key_def bs58_lawD(1))

lemma p256_did_key_canonical:
  "bs58_law E \<Longrightarrow> p256_pubkey_from_did_key E did = Inr pk \<Longrightarrow>
     did = p256_did_key_from_pubkey E pk"
  unfolding p256_pubkey_from_did_key_Inr
  by (auto simp: p256_did_key_from_pubkey_def encode_did_key_def dest: bs58_lawD(2))

lemma encode_did_key_inject:
  assumes "bs58_law E"
  shows "encode_did_key E p k = encode_did_key E p' k' \<longleftrightarrow> p @ k = p' @ k'"
proof -
  have "bs58_encode E a = bs58_encode E b \<longleftrightarrow> a = b" for a b
    by (metis assms bs58_lawD(1) sum.inject(2))
  then show ?thesis by (simp add: encode_did_key_def)
qed

end
