(* ===== verification/Suites.thy ===== *)
theory Suites
  imports Did
begin

text \<open>
  The cipher suites of \<open>did:pkh\<close> (cipher\_suite.rs, pkh/eip155.rs and the suites of
  key/ed25519.rs and key/p256.rs): each namespace's DID segments, chain id and signature
  check, the registry, and the contract the trait's implementations share.
\<close>

section \<open>eip155\<close>

definition eip191_prefix :: "string \<Rightarrow> string" where
  "eip191_prefix message =
     CHR 0x19 # ''Ethereum Signed Message:'' @ [LF] @ show_nat (length message)"

definition eip155_verify ::
  "('x, 'z) crates_scheme \<Rightarrow> string \<Rightarrow> string \<Rightarrow> bytes \<Rightarrow> crypto_error + bool" where
  "eip155_verify E did message signature =
     rbind (address_from_did E did) (\<lambda>expected_addr.
       let prehash = keccak256 E (as_bytes (eip191_prefix message) @ as_bytes message) in
       rbind (require (length signature = 65)
                (InvalidSignature (''EIP-191 signature must be 65 bytes, got '' @
                   show_nat (length signature))))
         (\<lambda>_.
       let v = signature ! 64 in
       rbind (if 27 \<le> v then Inr (v - 27)
              else Inl (InvalidSignature (''invalid v='' @ show_nat (unat v) @
                     ''; expected 27 or 28'')))
         (\<lambda>recovery_byte.
       rbind (ok_or (k256_recovery_id E recovery_byte)
                (InvalidSignature (''invalid recovery id '' @ show_nat (unat recovery_byte))))
         (\<lambda>rec_id.
       rbind (map_err InvalidSignature (k256_sig_from_slice E (take 64 signature)))
         (\<lambda>sig.
       rbind (map_err (\<lambda>e. InvalidSignature (''ecrecover failed: '' @ e))
                (k256_recover E prehash sig rec_id))
         (\<lambda>recovered. Inr (address_from_verifying_key E recovered = expected_addr)))))))"

definition eip155_parse_did_parts :: "string \<Rightarrow> crypto_error + (string \<times> string option)" where
  "eip155_parse_did_parts did_remainder =
     (case split_once CHR '':'' did_remainder of
        None \<Rightarrow> Inl (InvalidDid (''missing address in eip155 remainder: '' @ did_remainder))
      | Some (chain_num, address) \<Rightarrow> Inr (address, Some (''eip155:'' @ chain_num)))"

section \<open>ed25519 and p256\<close>

definition ed25519_suite_verify ::
  "('x, 'z) crates_scheme \<Rightarrow> string \<Rightarrow> string \<Rightarrow> bytes \<Rightarrow> crypto_error + bool" where
  "ed25519_suite_verify E did message signature =
     rbind (pubkey_from_ed25519_did E did) (\<lambda>pubkey_bytes.
     rbind (strict_verifying_key E pubkey_bytes) (\<lambda>vk.
     rbind (require (length signature = 64)
              (InvalidSignature (''Ed25519 signature must be 64 bytes, got '' @
                 show_nat (length signature))))
       (\<lambda>_.
     rbind (map_err (\<lambda>e. InvalidSignature (''invalid ed25519 signature: '' @ e))
              (ed_sig_from_slice E signature))
       (\<lambda>sig. Inr (ed_verify_strict E vk (as_bytes message) sig)))))"

definition p256_suite_verify ::
  "('x, 'z) crates_scheme \<Rightarrow> string \<Rightarrow> string \<Rightarrow> bytes \<Rightarrow> crypto_error + bool" where
  "p256_suite_verify E did message signature =
     rbind (pubkey_from_p256_did E did) (\<lambda>pubkey_bytes.
     rbind (map_err (\<lambda>e. InvalidSignature (''invalid p256 encoded point: '' @ e))
              (p256_point_from_bytes E pubkey_bytes))
       (\<lambda>point.
     rbind (map_err (\<lambda>e. InvalidSignature (''invalid p256 pubkey: '' @ e))
              (p256_key_from_point E point))
       (\<lambda>vk.
     rbind (map_err (\<lambda>e. InvalidSignature (''invalid p256 signature: '' @ e))
              (p256_parse_sig E signature))
       (\<lambda>sig. Inr (p256_verify E vk (as_bytes message) sig)))))"

definition pubkey_parse_did_parts :: "string \<Rightarrow> crypto_error + (string \<times> string option)" where
  "pubkey_parse_did_parts did_remainder = Inr (did_remainder, None)"

section \<open>The registry\<close>

datatype cipher_suite = Eip155Suite | Ed25519Suite | P256Suite

fun suite_namespace :: "cipher_suite \<Rightarrow> string" where
  "suite_namespace Eip155Suite = ''eip155''"
| "suite_namespace Ed25519Suite = ''ed25519''"
| "suite_namespace P256Suite = ''p256''"

fun suite_has_chain_id :: "cipher_suite \<Rightarrow> bool" where
  "suite_has_chain_id Eip155Suite = True"
| "suite_has_chain_id Ed25519Suite = False"
| "suite_has_chain_id P256Suite = False"

fun suite_did_segments :: "cipher_suite \<Rightarrow> nat" where
  "suite_did_segments Eip155Suite = 2"
| "suite_did_segments Ed25519Suite = 1"
| "suite_did_segments P256Suite = 1"

fun suite_parse_did_parts :: "cipher_suite \<Rightarrow> string \<Rightarrow> crypto_error + (string \<times> string option)" where
  "suite_parse_did_parts Eip155Suite = eip155_parse_did_parts"
| "suite_parse_did_parts Ed25519Suite = pubkey_parse_did_parts"
| "suite_parse_did_parts P256Suite = pubkey_parse_did_parts"

fun suite_verify ::
  "('x, 'z) crates_scheme \<Rightarrow> cipher_suite \<Rightarrow> string \<Rightarrow> string \<Rightarrow> bytes \<Rightarrow> crypto_error + bool" where
  "suite_verify E Eip155Suite = eip155_verify E"
| "suite_verify E Ed25519Suite = ed25519_suite_verify E"
| "suite_verify E P256Suite = p256_suite_verify E"

definition all_cipher_suites :: "cipher_suite list" where
  "all_cipher_suites = [Eip155Suite, Ed25519Suite, P256Suite]"

definition find_cipher_suite :: "string \<Rightarrow> cipher_suite option" where
  "find_cipher_suite ns = find (\<lambda>cs. suite_namespace cs = ns) all_cipher_suites"

text \<open>The parser each suite's verifier runs first: the key or address the DID carries.\<close>

fun suite_extract :: "('x, 'z) crates_scheme \<Rightarrow> cipher_suite \<Rightarrow> string \<Rightarrow> crypto_error + bytes" where
  "suite_extract E Eip155Suite = address_from_did E"
| "suite_extract E Ed25519Suite = pubkey_from_ed25519_did E"
| "suite_extract E P256Suite = pubkey_from_p256_did E"

section \<open>The contract of the trait\<close>

text \<open>
  What \<open>PkhMethod\<close> relies on in every suite: parsing yields a chain id exactly when the suite
  says it has one, the segment count agrees with that, and a DID the key parser refuses is
  refused by the verifier with the same error, whatever message and signature come with it.
\<close>

locale cipher_suite_contract =
  fixes has_chain :: bool
    and segments :: nat
    and parse :: "string \<Rightarrow> crypto_error + (string \<times> string option)"
    and key_of :: "string \<Rightarrow> crypto_error + bytes"
    and verify :: "string \<Rightarrow> string \<Rightarrow> bytes \<Rightarrow> crypto_error + bool"
  assumes parse_chain: "parse r = Inr (a, c) \<Longrightarrow> (c \<noteq> None) = has_chain"
    and segments_chain: "segments = (if has_chain then 2 else 1)"
    and format_first: "key_of did = Inl e \<Longrightarrow> verify did m s = Inl e"
begin

lemma verify_needs_key:
  assumes "verify did m s = Inr b"
  obtains k where "key_of did = Inr k"
  using assms format_first [of did] by (cases "key_of did") auto

lemma no_chain_none: "\<not> has_chain \<Longrightarrow> parse r = Inr (a, c) \<Longrightarrow> c = None"
  using parse_chain by blast

end

interpretation eip155: cipher_suite_contract
  True 2 eip155_parse_did_parts "address_from_did E" "eip155_verify E" for E
  by unfold_locales
     (auto simp: eip155_parse_did_parts_def eip155_verify_def split: option.splits)

interpretation ed25519: cipher_suite_contract
  False 1 pubkey_parse_did_parts "pubkey_from_ed25519_did E" "ed25519_suite_verify E" for E
  by unfold_locales (auto simp: pubkey_parse_did_parts_def ed25519_suite_verify_def)

interpretation p256: cipher_suite_contract
  False 1 pubkey_parse_did_parts "pubkey_from_p256_did E" "p256_suite_verify E" for E
  by unfold_locales (auto simp: pubkey_parse_did_parts_def p256_suite_verify_def)

text \<open>The registry's dispatch satisfies the contract for every suite it holds.\<close>

interpretation suite: cipher_suite_contract
  "suite_has_chain_id cs" "suite_did_segments cs" "suite_parse_did_parts cs" "suite_extract E cs"
  "suite_verify E cs" for E cs
  by (cases cs)
     (simp_all add: eip155.cipher_suite_contract_axioms ed25519.cipher_suite_contract_axioms
       p256.cipher_suite_contract_axioms del: One_nat_def)

lemma find_cipher_suite_namespace: "find_cipher_suite ns = Some cs \<Longrightarrow> suite_namespace cs = ns"
  by (auto simp: find_cipher_suite_def dest: find_SomeD)

lemma find_cipher_suite_eq:
  "find_cipher_suite ns =
     (if ns = ''eip155'' then Some Eip155Suite
      else if ns = ''ed25519'' then Some Ed25519Suite
      else if ns = ''p256'' then Some P256Suite else None)"
  by (auto simp: find_cipher_suite_def all_cipher_suites_def)

end
