(* ===== verification/Methods.thy ===== *)
theory Methods
  imports Suites
begin

text \<open>
  The embedded-key DID methods: \<open>did:pkh\<close> (pkh/method.rs), \<open>did:key\<close> (the \<open>KeyMethod\<close> of
  key/mod.rs) and \<open>did:peer\<close> (peer/mod.rs). A display label slices a string by bytes and so
  may panic; its result is \<open>None\<close> then.
\<close>

section \<open>did:pkh\<close>

definition split_namespace :: "string \<Rightarrow> crypto_error + (string \<times> string)" where
  "split_namespace did =
     rbind (ok_or (strip_prefix ''did:pkh:'' did)
              (InvalidDid (''expected did:pkh: prefix: '' @ did)))
       (\<lambda>rest. ok_or (split_once CHR '':'' rest) (InvalidDid (''no namespace in: '' @ did)))"

definition pkh_method_label :: "string \<Rightarrow> crypto_error + string" where
  "pkh_method_label did =
     rbind (split_namespace did)
       (\<lambda>(ns, _).
          if ns = ''eip155'' then Inr ''Ethereum''
          else if ns = ''ed25519'' then Inr ''Ed25519''
          else if ns = ''p256'' then Inr ''P-256''
          else Inl (UnsupportedMethod ns))"

definition pkh_address_for_message ::
  "('x, 'z) crates_scheme \<Rightarrow> string \<Rightarrow> crypto_error + string" where
  "pkh_address_for_message E did =
     rbind (split_namespace did)
       (\<lambda>(ns, remainder).
          rbind (ok_or (find_cipher_suite ns) (UnsupportedMethod ns))
            (\<lambda>suite.
          rbind (suite_parse_did_parts suite remainder)
            (\<lambda>(address, _).
               if ns = ''eip155'' then checksummed_address E did else Inr address)))"

definition pkh_display_label ::
  "('x, 'z) crates_scheme \<Rightarrow> string \<Rightarrow> (crypto_error + string) option" where
  "pkh_display_label E did =
     (case split_namespace did of
        Inl e \<Rightarrow> Some (Inl e)
      | Inr (ns, _) \<Rightarrow>
          (case pkh_address_for_message E did of
             Inl e \<Rightarrow> Some (Inl e)
           | Inr address \<Rightarrow>
               (let short =
                      (if 12 < length address then
                         (case slice_to address 6 of
                            None \<Rightarrow> None
                          | Some a \<Rightarrow>
                              map_option (\<lambda>b. a @ ''...'' @ b)
                                (slice_from address (length address - 4)))
                       else Some address);
                    tag =
                      (if ns = ''eip155'' then ''Ethereum''
                       else if ns = ''ed25519'' then ''Ed25519''
                       else if ns = ''p256'' then ''P-256''
                       else ns)
                in map_option (\<lambda>sh. Inr (sh @ '' ('' @ tag @ '')'')) short)))"

definition pkh_has_chain_id :: "string \<Rightarrow> bool" where
  "pkh_has_chain_id did =
     (case split_namespace did of
        Inl _ \<Rightarrow> False
      | Inr (ns, _) \<Rightarrow>
          (case find_cipher_suite ns of None \<Rightarrow> False | Some s \<Rightarrow> suite_has_chain_id s))"

definition pkh_chain_id :: "string \<Rightarrow> crypto_error + string option" where
  "pkh_chain_id did =
     rbind (split_namespace did)
       (\<lambda>(ns, remainder).
          rbind (ok_or (find_cipher_suite ns) (UnsupportedMethod ns))
            (\<lambda>suite.
          rbind (suite_parse_did_parts suite remainder) (\<lambda>(_, chain_id). Inr chain_id)))"

definition pkh_canonical_subject :: "string \<Rightarrow> crypto_error + string" where
  "pkh_canonical_subject did = Inr did"

definition pkh_verify ::
  "('x, 'z) crates_scheme \<Rightarrow> string \<Rightarrow> string \<Rightarrow> bytes \<Rightarrow> crypto_error + bool" where
  "pkh_verify E did canonical_msg signature =
     rbind (split_namespace did)
       (\<lambda>(ns, _).
          rbind (ok_or (find_cipher_suite ns) (UnsupportedMethod ns))
            (\<lambda>suite. suite_verify E suite did canonical_msg signature))"

section \<open>did:key\<close>

definition key_z_body :: "string \<Rightarrow> crypto_error + string" where
  "key_z_body did = ok_or (strip_prefix ''did:key:z'' did) (InvalidDid did)"

definition key_method_label :: "('x, 'z) crates_scheme \<Rightarrow> string \<Rightarrow> crypto_error + string" where
  "key_method_label E did =
     rbind (key_z_body did)
       (\<lambda>z_body.
     rbind (decode_multibase_key E z_body)
       (\<lambda>k. case k of Ed25519Key _ \<Rightarrow> Inr ''Ed25519'' | P256Key _ \<Rightarrow> Inr ''P-256''))"

definition key_display_label ::
  "('x, 'z) crates_scheme \<Rightarrow> string \<Rightarrow> (crypto_error + string) option" where
  "key_display_label E did =
     (case key_z_body did of
        Inl e \<Rightarrow> Some (Inl e)
      | Inr z_body \<Rightarrow>
          (case decode_multibase_key E z_body of
             Inl e \<Rightarrow> Some (Inl e)
           | Inr k \<Rightarrow>
               map_option
                 (\<lambda>short. Inr (''z'' @ short @ ''... ('' @ key_type_label k @ '')''))
                 (slice_to z_body (min (length z_body) 8))))"

definition key_address_for_message :: "string \<Rightarrow> crypto_error + string" where
  "key_address_for_message did = ok_or (strip_prefix ''did:key:'' did) (InvalidDid did)"

definition key_canonical_subject :: "string \<Rightarrow> crypto_error + string" where
  "key_canonical_subject did = Inr did"

definition key_verify ::
  "('x, 'z) crates_scheme \<Rightarrow> string \<Rightarrow> string \<Rightarrow> bytes \<Rightarrow> crypto_error + bool" where
  "key_verify E did message signature =
     rbind (key_z_body did)
       (\<lambda>z_body.
     rbind (decode_multibase_key E z_body) (\<lambda>k. verify_with_key E k message signature))"

section \<open>did:peer\<close>

text \<open>Variant 2: the first element that starts with \<open>V\<close> and holds a \<open>z\<close>.\<close>

fun find_v_element :: "string list \<Rightarrow> string option" where
  "find_v_element [] = None"
| "find_v_element (component # rest) =
     (if starts_with ''V'' component
      then (case split_once CHR ''z'' component of
              Some (_, k) \<Rightarrow> Some k
            | None \<Rightarrow> find_v_element rest)
      else find_v_element rest)"

definition extract_z_body :: "string \<Rightarrow> crypto_error + string" where
  "extract_z_body did =
     rbind (ok_or (strip_prefix ''did:peer:'' did) (InvalidDid did))
       (\<lambda>body.
          case strip_prefix ''0'' body of
            Some rest \<Rightarrow>
              ok_or (strip_prefix ''z'' rest)
                (InvalidDid (''did:peer variant 0 body must start with 'z': '' @ did))
          | None \<Rightarrow>
              (case strip_prefix ''2'' body of
                 Some rest \<Rightarrow>
                   ok_or (find_v_element (split_on CHR ''.'' rest))
                     (InvalidDid (''no V (verification) key found in did:peer variant 2: '' @ did))
               | None \<Rightarrow> Inl (InvalidDid (''unsupported did:peer variant: '' @ did))))"

definition peer_supports_did :: "string \<Rightarrow> bool" where
  "peer_supports_did did = (starts_with ''did:peer:0z'' did \<or> starts_with ''did:peer:2.'' did)"

definition peer_method_label :: "('x, 'z) crates_scheme \<Rightarrow> string \<Rightarrow> crypto_error + string" where
  "peer_method_label E did =
     rbind (extract_z_body did)
       (\<lambda>z_body.
     rbind (decode_multibase_key E z_body)
       (\<lambda>k. case k of Ed25519Key _ \<Rightarrow> Inr ''Ed25519'' | P256Key _ \<Rightarrow> Inr ''P-256''))"

definition peer_display_label ::
  "('x, 'z) crates_scheme \<Rightarrow> string \<Rightarrow> (crypto_error + string) option" where
  "peer_display_label E did =
     (case extract_z_body did of
        Inl e \<Rightarrow> Some (Inl e)
      | Inr z_body \<Rightarrow>
          (case decode_multibase_key E z_body of
             Inl e \<Rightarrow> Some (Inl e)
           | Inr k \<Rightarrow>
               map_option
                 (\<lambda>short. Inr (''z'' @ short @ ''... (peer/'' @ key_type_label k @ '')''))
                 (slice_to z_body (min (length z_body) 8))))"

definition peer_address_for_message :: "string \<Rightarrow> crypto_error + string" where
  "peer_address_for_message did = rmap (\<lambda>b. ''z'' @ b) (extract_z_body did)"

definition peer_canonical_subject :: "string \<Rightarrow> crypto_error + string" where
  "peer_canonical_subject did = Inr did"

definition peer_verify ::
  "('x, 'z) crates_scheme \<Rightarrow> string \<Rightarrow> string \<Rightarrow> bytes \<Rightarrow> crypto_error + bool" where
  "peer_verify E did message signature =
     rbind (extract_z_body did)
       (\<lambda>z_body.
     rbind (decode_multibase_key E z_body) (\<lambda>k. verify_with_key E k message signature))"

text \<open>\<open>did:key\<close>, \<open>did:peer\<close> and \<open>did:aqua\<close> carry no chain.\<close>

definition no_chain_id :: "string \<Rightarrow> crypto_error + string option" where
  "no_chain_id did = Inr None"

section \<open>Lemmas\<close>

lemma split_namespace_Inr:
  "split_namespace did = Inr (ns, rem) \<longleftrightarrow>
     did = ''did:pkh:'' @ ns @ '':'' @ rem \<and> CHR '':'' \<notin> set ns"
  by (auto simp: split_namespace_def strip_prefix_Some split_once_Some)

text \<open>The two namespace splitters agree wherever the stricter one succeeds.\<close>

lemma split_namespace_parse:
  "split_namespace did = Inr (ns, rem) \<Longrightarrow> parse_did_namespace did = Inr ns"
  by (auto simp: split_namespace_Inr parse_did_namespace_Inr)

lemma eip155_parse_did_parts_Inr:
  "eip155_parse_did_parts r = Inr (a, c) \<longleftrightarrow>
     (\<exists>chain. r = chain @ '':'' @ a \<and> CHR '':'' \<notin> set chain \<and> c = Some (''eip155:'' @ chain))"
  by (cases "split_once CHR '':'' r")
     (auto simp: eip155_parse_did_parts_def split_once_Some split_once_None)

end
