(* ===== verification/Aqua.thy ===== *)
theory Aqua
  imports Methods
begin

text \<open>
  \<open>did:aqua\<close> (aqua/codec.rs, aqua/ml\_dsa.rs, aqua/mod.rs): the content-addressed identity, its
  grammar, the binding of a supplied public key to it, the canonical-hint gate of ML-DSA-87 and
  the DID method that combines them. \<open>hint_bit_unpack\<close> is FIPS 204 Algorithm 21, the reference
  the gate is compared with.
\<close>

section \<open>The identifier\<close>

definition ML_DSA_87_PUBLIC_KEY_BYTES :: nat where
  "ML_DSA_87_PUBLIC_KEY_BYTES = 2592"

definition DID_AQUA_LEN :: nat where
  "DID_AQUA_LEN = 56"

definition MULTIHASH_SHA2_256 :: "8 word" where
  "MULTIHASH_SHA2_256 = 0x12"

definition MULTIHASH_DIGEST_LEN :: "8 word" where
  "MULTIHASH_DIGEST_LEN = 0x20"

definition MULTIHASH_LEN :: nat where
  "MULTIHASH_LEN = 34"

definition quoted :: "string \<Rightarrow> string" where
  "quoted s = DQUOTE # s @ [DQUOTE]"

definition akp_jwk :: "string \<Rightarrow> string" where
  "akp_jwk pub =
     ''{'' @ quoted ''alg'' @ '':'' @ quoted ''ML-DSA-87'' @ '','' @
     quoted ''kty'' @ '':'' @ quoted ''AKP'' @ '','' @ quoted ''pub'' @ '':'' @ quoted pub @ ''}''"

definition aqua_did_from_pubkey :: "('x, 'z) crates_scheme \<Rightarrow> bytes \<Rightarrow> string" where
  "aqua_did_from_pubkey E pubkey =
     (let jwk = akp_jwk (b64_encode E pubkey);
          digest = sha256 E (as_bytes jwk);
          mh = MULTIHASH_SHA2_256 # MULTIHASH_DIGEST_LEN # digest
      in ''did:aqua:z'' @ bs58_encode E mh)"

definition aqua_bad :: "string \<Rightarrow> crypto_error" where
  "aqua_bad why = InvalidDid (''did:aqua: '' @ why)"

definition forbidden_component :: "char \<Rightarrow> bool" where
  "forbidden_component c = (c \<in> set ''/?#;'')"

definition multihash_from_aqua_did ::
  "('x, 'z) crates_scheme \<Rightarrow> string \<Rightarrow> crypto_error + bytes" where
  "multihash_from_aqua_did E did =
     rbind (require (\<not> list_ex forbidden_component did)
              (aqua_bad ''forbidden component (path, query, fragment or parameter)''))
       (\<lambda>_.
     rbind (require (length did = DID_AQUA_LEN)
              (aqua_bad (''wrong total length (expected 56 characters, got '' @
                 show_nat (length did) @ '')'')))
       (\<lambda>_.
     rbind (ok_or (strip_prefix ''did:aqua:'' did)
              (aqua_bad (''missing or incorrect '' @ quoted ''did:aqua:'' @ '' prefix'')))
       (\<lambda>rest.
     rbind (ok_or (strip_prefix ''z'' rest)
              (aqua_bad ''missing or wrong multibase prefix (expected 'z')''))
       (\<lambda>body.
     rbind (map_err (\<lambda>_. aqua_bad ''non-base58btc characters or decode failure'')
              (bs58_decode E body))
       (\<lambda>raw.
     rbind (require (take 1 raw = [MULTIHASH_SHA2_256])
              (aqua_bad
                 ''wrong multihash code (expected 0x12 / sha2-256, the RFC 7638 thumbprint hash)''))
       (\<lambda>_.
     rbind (require (take 1 (drop 1 raw) = [MULTIHASH_DIGEST_LEN])
              (aqua_bad ''wrong digest length (expected 0x20 / 32 bytes)''))
       (\<lambda>_.
     if length raw = MULTIHASH_LEN then Inr raw
     else Inl (aqua_bad ''multihash is not 34 bytes''))))))))"

definition aqua_did_binds_pubkey ::
  "('x, 'z) crates_scheme \<Rightarrow> string \<Rightarrow> bytes \<Rightarrow> crypto_error + bool" where
  "aqua_did_binds_pubkey E did pubkey =
     rbind (multihash_from_aqua_did E did)
       (\<lambda>claimed.
     rbind (multihash_from_aqua_did E (aqua_did_from_pubkey E pubkey))
       (\<lambda>derived. Inr (claimed = derived)))"

section \<open>The canonical hint gate\<close>

definition ML_DSA_87_SIGNATURE_BYTES :: nat where
  "ML_DSA_87_SIGNATURE_BYTES = 4627"

definition OMEGA :: nat where
  "OMEGA = 75"

definition K_POLYS :: nat where
  "K_POLYS = 8"

definition HINT_OFFSET :: nat where
  "HINT_OFFSET = ML_DSA_87_SIGNATURE_BYTES - (OMEGA + K_POLYS)"

datatype hint_defect =
    CumulativeCountNotMonotone
  | CumulativeCountAboveOmega
  | IndicesNotStrictlyIncreasing
  | UnusedHintByteNonZero

fun hint_defect_display :: "hint_defect \<Rightarrow> string" where
  "hint_defect_display CumulativeCountNotMonotone = ''cumulative hint counts are not monotone''"
| "hint_defect_display CumulativeCountAboveOmega = ''a cumulative hint count exceeds omega''"
| "hint_defect_display IndicesNotStrictlyIncreasing =
     ''hint indices are not strictly increasing within a polynomial''"
| "hint_defect_display UnusedHintByteNonZero = ''an unused hint byte is non-zero''"

text \<open>Gates 1 and 2: the walk over the cumulative counts, returning the last one.\<close>

fun check_cuts :: "nat \<Rightarrow> bytes \<Rightarrow> hint_defect + nat" where
  "check_cuts running [] = Inr running"
| "check_cuts running (c # cuts) =
     (if unat c < running then Inl CumulativeCountNotMonotone
      else if OMEGA < unat c then Inl CumulativeCountAboveOmega
      else check_cuts (unat c) cuts)"

text \<open>\<open>windows(2).any(|w| w[0] >= w[1])\<close>.\<close>

fun not_increasing :: "bytes \<Rightarrow> bool" where
  "not_increasing (a # b # rest) = (a \<ge> b \<or> not_increasing (b # rest))"
| "not_increasing _ = False"

text \<open>Gate 4: the windows between consecutive cuts.\<close>

fun check_windows :: "bytes \<Rightarrow> nat \<Rightarrow> bytes \<Rightarrow> hint_defect + unit" where
  "check_windows indices start [] = Inr ()"
| "check_windows indices start (c # cuts) =
     (let window = take (unat c - start) (drop start indices)
      in if not_increasing window then Inl IndicesNotStrictlyIncreasing
         else check_windows indices (unat c) cuts)"

definition hint_encoding_is_canonical :: "bytes \<Rightarrow> hint_defect + unit" where
  "hint_encoding_is_canonical sig =
     (let hint = drop HINT_OFFSET sig;
          indices = take OMEGA hint;
          cuts = drop OMEGA hint
      in rbind (check_cuts 0 cuts)
           (\<lambda>max_cut.
         rbind (require (\<not> list_ex (\<lambda>b. b \<noteq> 0) (drop max_cut indices)) UnusedHintByteNonZero)
           (\<lambda>_. check_windows indices 0 cuts)))"

definition ml_dsa_verify ::
  "('x, 'z) crates_scheme \<Rightarrow> bytes \<Rightarrow> bytes \<Rightarrow> bytes \<Rightarrow> crypto_error + bool" where
  "ml_dsa_verify E public_key signature message =
     rbind (require (length public_key = ML_DSA_87_PUBLIC_KEY_BYTES)
              (InvalidSignature (''ML-DSA-87 public key must be 2592 bytes, got '' @
                 show_nat (length public_key))))
       (\<lambda>_.
     rbind (require (length signature = ML_DSA_87_SIGNATURE_BYTES)
              (InvalidSignature (''ML-DSA-87 signature must be 4627 bytes, got '' @
                 show_nat (length signature))))
       (\<lambda>_.
     rbind (map_err (\<lambda>d. InvalidSignature (''ML-DSA-87 hint encoding: '' @ hint_defect_display d))
              (hint_encoding_is_canonical signature))
       (\<lambda>_.
     let vk = mldsa_vk_decode E public_key in
     case mldsa_sig_decode E signature of
       None \<Rightarrow> Inr False
     | Some decoded \<Rightarrow> Inr (mldsa_verify_ctx E vk message [] decoded))))"

section \<open>The DID method\<close>

definition aqua_method_label :: "('x, 'z) crates_scheme \<Rightarrow> string \<Rightarrow> crypto_error + string" where
  "aqua_method_label E did = rbind (multihash_from_aqua_did E did) (\<lambda>_. Inr ''ML-DSA-87'')"

definition aqua_display_label ::
  "('x, 'z) crates_scheme \<Rightarrow> string \<Rightarrow> (crypto_error + string) option" where
  "aqua_display_label E did =
     (case multihash_from_aqua_did E did of
        Inl e \<Rightarrow> Some (Inl e)
      | Inr _ \<Rightarrow>
          (case slice_from did (length ''did:aqua:'') of
             None \<Rightarrow> None
           | Some body \<Rightarrow>
               map_option (\<lambda>short. Inr (short @ ''... (ML-DSA-87)''))
                 (slice_to body (min (length body) 9))))"

definition aqua_address_for_message ::
  "('x, 'z) crates_scheme \<Rightarrow> string \<Rightarrow> crypto_error + string" where
  "aqua_address_for_message E did =
     rbind (multihash_from_aqua_did E did)
       (\<lambda>_. ok_or (strip_prefix ''did:aqua:'' did) (InvalidDid did))"

definition aqua_canonical_subject ::
  "('x, 'z) crates_scheme \<Rightarrow> string \<Rightarrow> crypto_error + string" where
  "aqua_canonical_subject E did = rbind (multihash_from_aqua_did E did) (\<lambda>_. Inr did)"

definition aqua_verify :: "string \<Rightarrow> string \<Rightarrow> bytes \<Rightarrow> crypto_error + bool" where
  "aqua_verify did canonical_msg signature =
     Inl (InvalidSignature
       ''did:aqua requires the signer's public key; call verify_with_public_key'')"

definition aqua_verify_with_public_key ::
  "('x, 'z) crates_scheme \<Rightarrow> string \<Rightarrow> string \<Rightarrow> bytes \<Rightarrow> bytes option \<Rightarrow> crypto_error + bool" where
  "aqua_verify_with_public_key E did canonical_msg signature public_key =
     rbind (ok_or public_key
              (InvalidSignature ''did:aqua requires the signer's public key, none supplied''))
       (\<lambda>pk.
     rbind (aqua_did_binds_pubkey E did pk)
       (\<lambda>bound.
          if \<not> bound then Inr False
          else ml_dsa_verify E pk signature (as_bytes canonical_msg)))"

section \<open>FIPS 204 Algorithm 21\<close>

text \<open>
  \<open>HintBitUnpack\<close> on the \<open>omega + k\<close> hint bytes \<open>y\<close>, with the loops as the standard writes
  them: for each polynomial the count byte is checked, then the indices up to it are read one by
  one, each compared with the one before it in the same polynomial; at the end the unused bytes
  must be zero. The result lists each polynomial's hint positions.
\<close>

fun unpack_poly :: "bytes \<Rightarrow> nat \<Rightarrow> nat \<Rightarrow> nat \<Rightarrow> 8 word list option" where
  "unpack_poly y first index 0 = Some []"
| "unpack_poly y first index (Suc n) =
     (if first < index \<and> y ! (index - 1) \<ge> y ! index then None
      else map_option (\<lambda>h. y ! index # h) (unpack_poly y first (Suc index) n))"

fun unpack_polys :: "bytes \<Rightarrow> nat \<Rightarrow> bytes \<Rightarrow> ((8 word list) list \<times> nat) option" where
  "unpack_polys y index [] = Some ([], index)"
| "unpack_polys y index (c # cs) =
     (if unat c < index \<or> OMEGA < unat c then None
      else (case unpack_poly y index index (unat c - index) of
              None \<Rightarrow> None
            | Some h \<Rightarrow>
                map_option (\<lambda>(hs, i). (h # hs, i)) (unpack_polys y (unat c) cs)))"

definition hint_bit_unpack :: "bytes \<Rightarrow> (8 word list) list option" where
  "hint_bit_unpack y =
     (case unpack_polys y 0 (drop OMEGA y) of
        None \<Rightarrow> None
      | Some (hs, index) \<Rightarrow>
          if list_ex (\<lambda>i. y ! i \<noteq> 0) [index..<OMEGA] then None else Some hs)"

section \<open>Lemmas\<close>

lemma multihash_from_aqua_did_Inr:
  "multihash_from_aqua_did E did = Inr raw \<longleftrightarrow>
     length raw = MULTIHASH_LEN \<and> (\<forall>c \<in> set did. \<not> forbidden_component c) \<and>
     length did = DID_AQUA_LEN \<and>
     (\<exists>body. did = ''did:aqua:z'' @ body \<and> bs58_decode E body = Inr raw) \<and>
     (\<exists>digest. raw = MULTIHASH_SHA2_256 # MULTIHASH_DIGEST_LEN # digest)"
proof -
  have "(take 1 raw = [a] \<and> take 1 (drop 1 raw) = [b]) = (\<exists>d. raw = a # b # d)" for a b
    by (cases raw; cases "tl raw") auto
  then show ?thesis
    by (auto simp: multihash_from_aqua_did_def strip_prefix_Some list_ex_iff)
qed

lemma unpack_poly_tail:
  "first < i \<Longrightarrow> i + n \<le> length y \<Longrightarrow>
     unpack_poly y first i n \<noteq> None \<longleftrightarrow> \<not> not_increasing (take (Suc n) (drop (i - 1) y))"
proof (induction n arbitrary: i)
  case 0
  then show ?case
    by (cases "drop (i - 1) y") simp_all
next
  case (Suc n)
  have d: "drop (i - Suc 0) y = y ! (i - Suc 0) # y ! i # drop (Suc i) y"
    using Suc.prems Cons_nth_drop_Suc [of "i - 1" y] Cons_nth_drop_Suc [of i y] by simp
  have d': "drop i y = y ! i # drop (Suc i) y"
    using Suc.prems Cons_nth_drop_Suc [of i y] by simp
  have "unpack_poly y first (Suc i) n \<noteq> None \<longleftrightarrow> \<not> not_increasing (take (Suc n) (drop i y))"
    using Suc.IH [of "Suc i"] Suc.prems by simp
  with Suc.prems(1) show ?case
    by (auto simp: d d' not_le)
qed

lemma unpack_poly_window:
  assumes "i + n \<le> length y"
  shows "unpack_poly y i i n \<noteq> None \<longleftrightarrow> \<not> not_increasing (take n (drop i y))"
proof (cases n)
  case (Suc m)
  with assms unpack_poly_tail [of i "Suc i" m y] show ?thesis
    by simp
qed simp

lemma unpack_polys_iff:
  assumes "OMEGA \<le> length y"
  shows "unpack_polys y r cs \<noteq> None \<longleftrightarrow>
           is_ok (check_cuts r cs) \<and> is_ok (check_windows (take OMEGA y) r cs)"
    and "unpack_polys y r cs = Some (hs, i) \<Longrightarrow> check_cuts r cs = Inr i"
proof (induction cs arbitrary: r hs i)
  case (Cons c cs)
  have w: "take (unat c - r) (drop r (take OMEGA y)) = take (unat c - r) (drop r y)"
    if "unat c \<le> OMEGA" for r using that by (simp add: drop_take min_def)
  have u: "unpack_poly y r r (unat c - r) \<noteq> None \<longleftrightarrow>
             \<not> not_increasing (take (unat c - r) (drop r (take OMEGA y)))"
    if "r \<le> unat c" "unat c \<le> OMEGA" for r
    using that assms by (simp add: w unpack_poly_window del: not_None_eq)
  {
    case 1
    show ?case
    proof (cases "unat c < r \<or> OMEGA < unat c")
      case False
      then have "r \<le> unat c" "unat c \<le> OMEGA" by auto
      from u [OF this] False Cons.IH(1) [of "unat c"] show ?thesis
        by (cases "unpack_poly y r r (unat c - r)") (auto simp: Let_def)
    qed auto
  next
    case 2
    then show ?case
      using Cons.IH(2) [of "unat c"] by (auto split: if_splits option.splits)
  }
qed simp_all

lemma drop_take_map: "n \<le> length y \<Longrightarrow> drop i (take n y) = map ((!) y) [i..<n]"
  by (rule nth_equalityI) simp_all

lemma drop_zero_iff:
  "OMEGA \<le> length y \<Longrightarrow>
     list_ex (\<lambda>b. b \<noteq> 0) (drop i (take OMEGA y)) \<longleftrightarrow> list_ex (\<lambda>i. y ! i \<noteq> 0) [i..<OMEGA]"
  by (simp add: drop_take_map list_ex_iff)

lemma hint_gate_iff:
  assumes "length sig = ML_DSA_87_SIGNATURE_BYTES"
  shows "hint_encoding_is_canonical sig = Inr () \<longleftrightarrow> hint_bit_unpack (drop HINT_OFFSET sig) \<noteq> None"
proof -
  define y where "y = drop HINT_OFFSET sig"
  have len: "OMEGA \<le> length y"
    using assms by (simp add: y_def HINT_OFFSET_def ML_DSA_87_SIGNATURE_BYTES_def OMEGA_def K_POLYS_def)
  note polys = unpack_polys_iff [OF len, of 0 "drop OMEGA y"]
  show ?thesis
  proof (cases "unpack_polys y 0 (drop OMEGA y)")
    case None
    with polys(1) show ?thesis
      by (auto simp: hint_encoding_is_canonical_def hint_bit_unpack_def Let_def y_def [symmetric]
          is_ok_iff)
  next
    case (Some p)
    then obtain hs i where p: "unpack_polys y 0 (drop OMEGA y) = Some (hs, i)"
      by (cases p) auto
    with polys have "check_cuts 0 (drop OMEGA y) = Inr i"
      "check_windows (take OMEGA y) 0 (drop OMEGA y) = Inr ()"
      by (auto simp: is_ok_iff)
    with p len show ?thesis
      by (simp add: hint_encoding_is_canonical_def hint_bit_unpack_def Let_def y_def [symmetric]
          drop_zero_iff)
  qed
qed

text \<open>
  C39. The hint gate accepts exactly the signatures on which FIPS 204's \<open>HintBitUnpack\<close>
  succeeds on the 83 hint bytes, for every 4627-byte signature: the malformed class is neither
  larger nor smaller than the standard's.
\<close>

theorem hint_gate_is_algorithm_21:
  assumes "length sig = ML_DSA_87_SIGNATURE_BYTES"
  shows "hint_encoding_is_canonical sig = Inr () \<longleftrightarrow> hint_bit_unpack (drop HINT_OFFSET sig) \<noteq> None"
  by (rule hint_gate_iff [OF assms])

text \<open>The all-zero signature is canonical: 4627 bytes with no hint at all.\<close>

theorem hint_gate_is_algorithm_21_witness:
  "length (replicate 4627 (0 :: 8 word)) = ML_DSA_87_SIGNATURE_BYTES \<and>
   (hint_encoding_is_canonical (replicate 4627 0) = Inr () \<longleftrightarrow>
    hint_bit_unpack (drop HINT_OFFSET (replicate 4627 0)) \<noteq> None)"
proof -
  have h: "length (replicate 4627 (0 :: 8 word)) = ML_DSA_87_SIGNATURE_BYTES"
    by (simp add: ML_DSA_87_SIGNATURE_BYTES_def)
  show ?thesis
    using h hint_gate_is_algorithm_21 [OF h] by blast
qed

end
