(* ===== verification/Registry.thy ===== *)
theory Registry
  imports Aqua
begin

text \<open>
  The \<open>DIDMethod\<close> registry (did\_method.rs), SPEC section 7 rule 5 as its own layer
  (did\_format.rs), the signature verifiers (lib.rs) and the authenticated identity
  (principal.rs). A trait object is the datatype of its implementors; each trait method
  dispatches on it.
\<close>

section \<open>The trait and its registry\<close>

datatype did_method = PkhMethod | KeyMethod | PeerMethod | AquaMethod

fun method_name :: "did_method \<Rightarrow> string" where
  "method_name PkhMethod = ''pkh''"
| "method_name KeyMethod = ''key''"
| "method_name PeerMethod = ''peer''"
| "method_name AquaMethod = ''aqua''"

definition default_supports_did :: "string \<Rightarrow> string \<Rightarrow> bool" where
  "default_supports_did name did = starts_with (''did:'' @ name @ '':'') did"

fun supports_did :: "did_method \<Rightarrow> string \<Rightarrow> bool" where
  "supports_did PeerMethod did = peer_supports_did did"
| "supports_did m did = default_supports_did (method_name m) did"

fun method_label :: "('x, 'z) crates_scheme \<Rightarrow> did_method \<Rightarrow> string \<Rightarrow> crypto_error + string" where
  "method_label E PkhMethod = pkh_method_label"
| "method_label E KeyMethod = key_method_label E"
| "method_label E PeerMethod = peer_method_label E"
| "method_label E AquaMethod = aqua_method_label E"

fun display_label ::
  "('x, 'z) crates_scheme \<Rightarrow> did_method \<Rightarrow> string \<Rightarrow> (crypto_error + string) option" where
  "display_label E PkhMethod = pkh_display_label E"
| "display_label E KeyMethod = key_display_label E"
| "display_label E PeerMethod = peer_display_label E"
| "display_label E AquaMethod = aqua_display_label E"

fun address_for_message ::
  "('x, 'z) crates_scheme \<Rightarrow> did_method \<Rightarrow> string \<Rightarrow> crypto_error + string" where
  "address_for_message E PkhMethod = pkh_address_for_message E"
| "address_for_message E KeyMethod = key_address_for_message"
| "address_for_message E PeerMethod = peer_address_for_message"
| "address_for_message E AquaMethod = aqua_address_for_message E"

fun has_chain_id :: "did_method \<Rightarrow> string \<Rightarrow> bool" where
  "has_chain_id PkhMethod did = pkh_has_chain_id did"
| "has_chain_id m did = False"

fun chain_id :: "did_method \<Rightarrow> string \<Rightarrow> crypto_error + string option" where
  "chain_id PkhMethod did = pkh_chain_id did"
| "chain_id m did = no_chain_id did"

fun canonical_subject ::
  "('x, 'z) crates_scheme \<Rightarrow> did_method \<Rightarrow> string \<Rightarrow> crypto_error + string" where
  "canonical_subject E PkhMethod = pkh_canonical_subject"
| "canonical_subject E KeyMethod = key_canonical_subject"
| "canonical_subject E PeerMethod = peer_canonical_subject"
| "canonical_subject E AquaMethod = aqua_canonical_subject E"

fun method_verify ::
  "('x, 'z) crates_scheme \<Rightarrow> did_method \<Rightarrow> string \<Rightarrow> string \<Rightarrow> bytes \<Rightarrow> crypto_error + bool" where
  "method_verify E PkhMethod = pkh_verify E"
| "method_verify E KeyMethod = key_verify E"
| "method_verify E PeerMethod = peer_verify E"
| "method_verify E AquaMethod = aqua_verify"

text \<open>The trait's default ignores the supplied key; only \<open>did:aqua\<close> overrides it.\<close>

fun method_verify_with_public_key ::
  "('x, 'z) crates_scheme \<Rightarrow> did_method \<Rightarrow> string \<Rightarrow> string \<Rightarrow> bytes \<Rightarrow> bytes option \<Rightarrow>
   crypto_error + bool" where
  "method_verify_with_public_key E AquaMethod did msg sig pk =
     aqua_verify_with_public_key E did msg sig pk"
| "method_verify_with_public_key E m did msg sig pk = method_verify E m did msg sig"

definition all_did_methods :: "('x, 'z) crates_scheme \<Rightarrow> did_method list" where
  "all_did_methods E =
     [PkhMethod, KeyMethod, PeerMethod] @ (if did_aqua_feature E then [AquaMethod] else [])"

definition find_did_method :: "('x, 'z) crates_scheme \<Rightarrow> string \<Rightarrow> did_method option" where
  "find_did_method E did = find (\<lambda>m. supports_did m did) (all_did_methods E)"

section \<open>Well-formedness\<close>

definition ED25519_PUBKEY_BYTES :: nat where
  "ED25519_PUBKEY_BYTES = 32"

definition P256_COMPRESSED_PUBKEY_BYTES :: nat where
  "P256_COMPRESSED_PUBKEY_BYTES = 33"

definition validate_pkh :: "('x, 'z) crates_scheme \<Rightarrow> string \<Rightarrow> crypto_error + unit" where
  "validate_pkh E did =
     rbind (parse_did_namespace did)
       (\<lambda>ns.
          if ns = ''eip155'' then rmap (\<lambda>_. ()) (address_from_did E did)
          else if ns = ''ed25519'' then rmap (\<lambda>_. ()) (pubkey_from_ed25519_did E did)
          else if ns = ''p256'' then rmap (\<lambda>_. ()) (pubkey_from_p256_did E did)
          else Inl (UnsupportedMethod ns))"

definition validate_multibase_key_body ::
  "('x, 'z) crates_scheme \<Rightarrow> string \<Rightarrow> crypto_error + unit" where
  "validate_multibase_key_body E z_body =
     rbind (decode_multibase_key E z_body)
       (\<lambda>k. case k of
          Ed25519Key raw \<Rightarrow>
            if length raw \<noteq> ED25519_PUBKEY_BYTES
            then Inl (InvalidDid (''Ed25519 public key must be 32 bytes, got '' @
                        show_nat (length raw)))
            else Inr ()
        | P256Key raw \<Rightarrow>
            if length raw \<noteq> P256_COMPRESSED_PUBKEY_BYTES
            then Inl (InvalidDid (''P-256 compressed public key must be 33 bytes, got '' @
                        show_nat (length raw)))
            else Inr ())"

definition validate_did_well_formed ::
  "('x, 'z) crates_scheme \<Rightarrow> string \<Rightarrow> crypto_error + unit" where
  "validate_did_well_formed E did =
     rbind (ok_or (find_did_method E did) (UnsupportedMethod did))
       (\<lambda>m. case m of
          PkhMethod \<Rightarrow> validate_pkh E did
        | KeyMethod \<Rightarrow>
            rbind (ok_or (strip_prefix ''did:key:z'' did)
                     (InvalidDid (''did:key body must be multibase 'z': '' @ did)))
              (validate_multibase_key_body E)
        | PeerMethod \<Rightarrow> rbind (extract_z_body did) (validate_multibase_key_body E)
        | AquaMethod \<Rightarrow> rmap (\<lambda>_. ()) (multihash_from_aqua_did E did))"

section \<open>Verification\<close>

definition verify_caip122 ::
  "('x, 'z) crates_scheme \<Rightarrow> string \<Rightarrow> string \<Rightarrow> bytes \<Rightarrow> crypto_error + bool" where
  "verify_caip122 E did message signature =
     rbind (ok_or (find_did_method E did) (UnsupportedMethod did))
       (\<lambda>m. method_verify E m did message signature)"

definition verify_caip122_with_public_key ::
  "('x, 'z) crates_scheme \<Rightarrow> string \<Rightarrow> string \<Rightarrow> bytes \<Rightarrow> bytes option \<Rightarrow> crypto_error + bool" where
  "verify_caip122_with_public_key E did message signature public_key =
     rbind (ok_or (find_did_method E did) (UnsupportedMethod did))
       (\<lambda>m. method_verify_with_public_key E m did message signature public_key)"

section \<open>Principals\<close>

record principal =
  principal_did :: string

definition from_trusted_did :: "('x, 'z) crates_scheme \<Rightarrow> string \<Rightarrow> crypto_error + principal" where
  "from_trusted_did E did =
     rbind (validate_did_well_formed E did) (\<lambda>_. Inr \<lparr>principal_did = did\<rparr>)"

definition from_proven_did_key :: "string \<Rightarrow> principal" where
  "from_proven_did_key did = \<lparr>principal_did = did\<rparr>"

definition principal_method :: "('x, 'z) crates_scheme \<Rightarrow> principal \<Rightarrow> crypto_error + did_method" where
  "principal_method E p =
     ok_or (find_did_method E (principal_did p)) (UnsupportedMethod (principal_did p))"

definition principal_method_label ::
  "('x, 'z) crates_scheme \<Rightarrow> principal \<Rightarrow> crypto_error + string" where
  "principal_method_label E p =
     rbind (principal_method E p) (\<lambda>m. method_label E m (principal_did p))"

definition principal_canonical_subject ::
  "('x, 'z) crates_scheme \<Rightarrow> principal \<Rightarrow> crypto_error + string" where
  "principal_canonical_subject E p =
     rbind (principal_method E p) (\<lambda>m. canonical_subject E m (principal_did p))"

definition authenticate_with_public_key ::
  "('x, 'z) crates_scheme \<Rightarrow> string \<Rightarrow> string \<Rightarrow> bytes \<Rightarrow> bytes option \<Rightarrow>
   crypto_error + principal" where
  "authenticate_with_public_key E did message signature public_key =
     rbind (validate_did_well_formed E did)
       (\<lambda>_.
     rbind (verify_caip122_with_public_key E did message signature public_key)
       (\<lambda>good.
          if good then from_trusted_did E did
          else Inl (InvalidSignature ''CAIP-122 signature did not verify for this DID'')))"

definition authenticate ::
  "('x, 'z) crates_scheme \<Rightarrow> string \<Rightarrow> string \<Rightarrow> bytes \<Rightarrow> crypto_error + principal" where
  "authenticate E did message signature =
     authenticate_with_public_key E did message signature None"

end
