(* ===== verification/Identity.thy ===== *)
theory Identity
  imports Registry
begin

text \<open>
  What the identity layer promises: the contract every \<open>DIDMethod\<close> satisfies, what a
  successful login proves about the signer, which DIDs the well-formedness layer and the
  verifiers disagree on, and the round trips of the DID encodings.
\<close>

section \<open>The contract of the DID methods\<close>

text \<open>
  What the registry's clients rely on in every method: it answers only for DIDs, its OIDC
  subject is the DID itself, a chain id comes only from a DID that says it has one, and
  supplying a public key changes nothing for a method that does not commit to a hash.
\<close>

locale did_method_contract =
  fixes supports :: "string \<Rightarrow> bool"
    and address :: "string \<Rightarrow> crypto_error + string"
    and has_chain :: "string \<Rightarrow> bool"
    and chain :: "string \<Rightarrow> crypto_error + string option"
    and subject :: "string \<Rightarrow> crypto_error + string"
  assumes supports_prefix: "supports did \<Longrightarrow> starts_with ''did:'' did"
    and subject_is_did: "subject did = Inr s \<Longrightarrow> s = did"
    and chain_flag: "chain did = Inr (Some c) \<Longrightarrow> has_chain did"
    and address_error: "address did = Inl e \<Longrightarrow> (\<exists>w. e = UnsupportedMethod w \<or> e = InvalidDid w \<or> e = HexDecode w)"
begin

lemma chain_none: "\<not> has_chain did \<Longrightarrow> chain did = Inr c \<Longrightarrow> c = None"
  using chain_flag by (cases c) auto

lemma subject_unique: "subject did = Inr s \<Longrightarrow> subject did' = Inr s \<Longrightarrow> did = did'"
  using subject_is_did by metis

end

lemma supports_did_prefix:
  "supports_did m did \<Longrightarrow> starts_with (''did:'' @ method_name m @ '':'') did"
  by (cases m) (auto simp: default_supports_did_def peer_supports_did_def starts_with_iff)

lemma starts_with_appendD: "starts_with (p @ q) s \<Longrightarrow> starts_with p s"
  by (auto simp: starts_with_iff)

lemma address_from_did_error:
  "address_from_did E did = Inl e \<Longrightarrow> \<exists>w. e = InvalidDid w \<or> e = HexDecode w"
  by (auto simp: address_from_did_def rbind_eq_Inl ok_or_eq_Inl require_eq_Inl map_err_eq_Inl
      split: if_splits)

lemma pkh_address_error:
  "pkh_address_for_message E did = Inl e \<Longrightarrow>
     \<exists>w. e = UnsupportedMethod w \<or> e = InvalidDid w \<or> e = HexDecode w"
proof (cases "split_namespace did")
  case (Inl e')
  moreover assume "pkh_address_for_message E did = Inl e"
  ultimately have "split_namespace did = Inl e" by (simp add: pkh_address_for_message_def)
  then show ?thesis by (auto simp: split_namespace_def rbind_eq_Inl ok_or_eq_Inl)
next
  case (Inr p)
  obtain ns rem where p: "p = (ns, rem)" by fastforce
  assume *: "pkh_address_for_message E did = Inl e"
  show ?thesis
  proof (cases "find_cipher_suite ns")
    case None
    with * Inr p show ?thesis by (auto simp: pkh_address_for_message_def)
  next
    case (Some cs)
    then have "ns = suite_namespace cs" by (auto dest: find_cipher_suite_namespace)
    with * Inr p Some show ?thesis
      by (cases cs) (auto simp: pkh_address_for_message_def eip155_parse_did_parts_def
          pubkey_parse_did_parts_def checksummed_address_def rbind_eq_Inl split: option.splits
          dest: address_from_did_error)
  qed
qed

lemma extract_z_body_error: "extract_z_body did = Inl e \<Longrightarrow> \<exists>w. e = InvalidDid w"
  by (auto simp: extract_z_body_def rbind_eq_Inl ok_or_eq_Inl split: option.splits)

lemma multihash_error: "multihash_from_aqua_did E did = Inl e \<Longrightarrow> \<exists>w. e = InvalidDid w"
  by (auto simp: multihash_from_aqua_did_def aqua_bad_def rbind_eq_Inl ok_or_eq_Inl require_eq_Inl
      map_err_eq_Inl split: if_splits)

lemma pkh_chain_flag: "pkh_chain_id did = Inr (Some c) \<Longrightarrow> pkh_has_chain_id did"
  by (auto simp: pkh_chain_id_def pkh_has_chain_id_def split: sum.splits option.splits prod.splits)
     (metis option.distinct(1) suite.parse_chain)

interpretation did_method: did_method_contract
  "supports_did m" "address_for_message E m" "has_chain_id m" "chain_id m" "canonical_subject E m"
  for E m
proof unfold_locales
  show "starts_with ''did:'' did" if "supports_did m did" for did
    using supports_did_prefix [OF that] by (rule starts_with_appendD)
  show "s = did" if "canonical_subject E m did = Inr s" for s did
    using that by (cases m) (auto simp: pkh_canonical_subject_def key_canonical_subject_def
        peer_canonical_subject_def aqua_canonical_subject_def)
  show "has_chain_id m did" if "chain_id m did = Inr (Some c)" for did c
    using that by (cases m) (auto simp: no_chain_id_def dest: pkh_chain_flag)
  show "\<exists>w. e = UnsupportedMethod w \<or> e = InvalidDid w \<or> e = HexDecode w"
    if "address_for_message E m did = Inl e" for did e
    using that
    by (cases m)
       (auto simp: key_address_for_message_def peer_address_for_message_def
         aqua_address_for_message_def ok_or_eq_Inl rbind_eq_Inl
         dest: pkh_address_error extract_z_body_error multihash_error)
qed

section \<open>Dispatch\<close>

lemma find_did_method_Some:
  "find_did_method E did = Some m \<Longrightarrow> m \<in> set (all_did_methods E) \<and> supports_did m did"
  by (auto simp: find_did_method_def dest: find_SomeD)

lemma did_prefix_unique:
  assumes "starts_with (''did:'' @ a @ '':'') s" "starts_with (''did:'' @ b @ '':'') s"
    and "CHR '':'' \<notin> set a" "CHR '':'' \<notin> set b"
  shows "a = b"
proof -
  obtain r1 where s1: "s = ''did:'' @ a @ '':'' @ r1"
    using assms(1) by (auto simp: starts_with_iff)
  obtain r2 where s2: "s = ''did:'' @ b @ '':'' @ r2"
    using assms(2) by (auto simp: starts_with_iff)
  from s1 s2 have "split_once CHR '':'' (a @ CHR '':'' # r1) = split_once CHR '':'' (b @ CHR '':'' # r2)"
    by simp
  with assms(3,4) show ?thesis by simp
qed

lemma method_name_inject [simp]: "method_name m = method_name m' \<longleftrightarrow> m = m'"
  by (cases m; cases m') simp_all

lemma method_name_no_colon: "CHR '':'' \<notin> set (method_name m)"
  by (cases m) simp_all

lemma supports_did_unique: "supports_did m did \<Longrightarrow> supports_did m' did \<Longrightarrow> m = m'"
  using did_prefix_unique [OF supports_did_prefix supports_did_prefix method_name_no_colon
      method_name_no_colon] by simp

lemma find_first_unique:
  assumes "x \<in> set xs" "P x" "\<And>y. P y \<Longrightarrow> y = x"
  shows "find P xs = Some x"
proof (cases "find P xs")
  case None
  with assms(1,2) show ?thesis by (simp add: find_None_iff_all)
next
  case (Some y)
  then have "P y" by (simp add: find_SomeD)
  with assms(3) Some show ?thesis by simp
qed

lemma find_did_method_iff:
  "find_did_method E did = Some m \<longleftrightarrow> m \<in> set (all_did_methods E) \<and> supports_did m did"
proof
  assume m: "m \<in> set (all_did_methods E) \<and> supports_did m did"
  show "find_did_method E did = Some m"
    unfolding find_did_method_def
    by (rule find_first_unique) (use m supports_did_unique in blast)+
qed (rule find_did_method_Some)

lemma find_did_method_cases:
  assumes "find_did_method E did = Some m"
  obtains rest where "m = PkhMethod" "did = ''did:pkh:'' @ rest"
  | rest where "m = KeyMethod" "did = ''did:key:'' @ rest"
  | "m = PeerMethod" "peer_supports_did did"
  | rest where "m = AquaMethod" "did = ''did:aqua:'' @ rest" "did_aqua_feature E"
  using find_did_method_Some [OF assms]
  by (cases m) (auto simp: default_supports_did_def starts_with_iff all_did_methods_def)

lemma find_did_method_prefix [simp]:
  "find_did_method E (''did:pkh:'' @ rest) = Some PkhMethod"
  "find_did_method E (''did:key:'' @ rest) = Some KeyMethod"
  unfolding find_did_method_iff
  by (simp_all add: all_did_methods_def default_supports_did_def starts_with_def)

section \<open>What a login proves\<close>

text \<open>
  Proof of possession, stated by the shape of the DID and free of the registry: the Ethereum
  address a key recovered from the signature hashes to, an Ed25519 or P-256 key embedded in the
  DID that verifies the message, or an ML-DSA-87 key the DID commits to.
\<close>

definition recovers_address ::
  "('x, 'z) crates_scheme \<Rightarrow> bytes \<Rightarrow> string \<Rightarrow> bytes \<Rightarrow> bool" where
  "recovers_address E a msg sig \<longleftrightarrow>
     length sig = 65 \<and> 27 \<le> sig ! 64 \<and>
     (\<exists>rid s vk. k256_recovery_id E (sig ! 64 - 27) = Some rid \<and>
        k256_sig_from_slice E (take 64 sig) = Inr s \<and>
        k256_recover E (keccak256 E (as_bytes (eip191_prefix msg) @ as_bytes msg)) s rid = Inr vk \<and>
        address_from_verifying_key E vk = a)"

definition ed25519_signed :: "('x, 'z) crates_scheme \<Rightarrow> bytes \<Rightarrow> string \<Rightarrow> bytes \<Rightarrow> bool" where
  "ed25519_signed E k msg sig \<longleftrightarrow>
     length k = 32 \<and> strict_ed_key E k \<and> length sig = 64 \<and>
     (\<exists>vk s. ed_key_from_bytes E k = Inr vk \<and> ed_sig_from_slice E sig = Inr s \<and>
        ed_verify_strict E vk (as_bytes msg) s)"

definition p256_signed :: "('x, 'z) crates_scheme \<Rightarrow> bytes \<Rightarrow> string \<Rightarrow> bytes \<Rightarrow> bool" where
  "p256_signed E k msg sig \<longleftrightarrow>
     (\<exists>pt vk s. p256_point_from_bytes E k = Inr pt \<and> p256_key_from_point E pt = Inr vk \<and>
        p256_parse_sig E sig = Inr s \<and> p256_verify E vk (as_bytes msg) s)"

inductive possession ::
  "('x, 'z) crates_scheme \<Rightarrow> string \<Rightarrow> string \<Rightarrow> bytes \<Rightarrow> bytes option \<Rightarrow> bool"
  for E :: "('x, 'z) crates_scheme" where
  eip155: "address_from_did E did = Inr a \<Longrightarrow> recovers_address E a msg sig \<Longrightarrow>
     possession E did msg sig pk"
| pkh_ed25519: "pubkey_from_ed25519_did E did = Inr k \<Longrightarrow> ed25519_signed E k msg sig \<Longrightarrow>
     possession E did msg sig pk"
| pkh_p256: "pubkey_from_p256_did E did = Inr k \<Longrightarrow> p256_signed E k msg sig \<Longrightarrow>
     possession E did msg sig pk"
| key_ed25519: "did = ''did:key:z'' @ z \<Longrightarrow> bs58_decode E z = Inr (ED25519_PREFIX @ k) \<Longrightarrow>
     ed25519_signed E k msg sig \<Longrightarrow> possession E did msg sig pk"
| key_p256: "did = ''did:key:z'' @ z \<Longrightarrow> bs58_decode E z = Inr (P256_PREFIX @ k) \<Longrightarrow>
     length k = 33 \<Longrightarrow> p256_signed E k msg sig \<Longrightarrow> possession E did msg sig pk"
| peer_ed25519: "peer_supports_did did \<Longrightarrow> extract_z_body did = Inr z \<Longrightarrow>
     bs58_decode E z = Inr (ED25519_PREFIX @ k) \<Longrightarrow> ed25519_signed E k msg sig \<Longrightarrow>
     possession E did msg sig pk"
| peer_p256: "peer_supports_did did \<Longrightarrow> extract_z_body did = Inr z \<Longrightarrow>
     bs58_decode E z = Inr (P256_PREFIX @ k) \<Longrightarrow> length k = 33 \<Longrightarrow> p256_signed E k msg sig \<Longrightarrow>
     possession E did msg sig pk"
| aqua: "did_aqua_feature E \<Longrightarrow> aqua_did_binds_pubkey E did key = Inr True \<Longrightarrow>
     ml_dsa_verify E key sig (as_bytes msg) = Inr True \<Longrightarrow>
     possession E did msg sig (Some key)"

lemma eip155_verify_True:
  "eip155_verify E did msg sig = Inr True \<longleftrightarrow>
     (\<exists>a. address_from_did E did = Inr a \<and> recovers_address E a msg sig)"
  by (auto simp: eip155_verify_def recovers_address_def Let_def)

lemma strict_key_verify:
  "(\<exists>vk. strict_verifying_key E k = Inr vk \<and> P vk) \<longleftrightarrow>
     strict_ed_key E k \<and> (\<exists>vk. ed_key_from_bytes E k = Inr vk \<and> P vk)"
  by (auto simp: strict_verifying_key_Inr strict_ed_key_def)

lemma ed25519_suite_verify_True:
  "ed25519_suite_verify E did msg sig = Inr True \<longleftrightarrow>
     (\<exists>k. pubkey_from_ed25519_did E did = Inr k \<and> ed25519_signed E k msg sig)"
  by (auto simp: ed25519_suite_verify_def ed25519_signed_def strict_key_verify
      pubkey_from_ed25519_did_Inr)

lemma p256_suite_verify_True:
  "p256_suite_verify E did msg sig = Inr True \<longleftrightarrow>
     (\<exists>k. pubkey_from_p256_did E did = Inr k \<and> p256_signed E k msg sig)"
  by (auto simp: p256_suite_verify_def p256_signed_def)

lemma verify_with_key_True:
  "verify_with_key E (Ed25519Key k) msg sig = Inr True \<longleftrightarrow> ed25519_signed E k msg sig"
  "verify_with_key E (P256Key k) msg sig = Inr True \<longleftrightarrow> p256_signed E k msg sig"
  by (auto simp: verify_with_key_def ed25519_signed_def p256_signed_def strict_key_verify)

lemmas possession_of =
  eip155_verify_True ed25519_suite_verify_True p256_suite_verify_True verify_with_key_True

inductive_simps possession_iff: "possession E did msg sig pk"

text \<open>The namespace of a DID whose key a suite can read.\<close>

lemma suite_extract_namespace:
  assumes "suite_extract E cs did = Inr k"
  obtains rem where "split_namespace did = Inr (suite_namespace cs, rem)"
proof -
  have pkh: "\<exists>rem. split_namespace (''did:pkh:'' @ ns @ '':'' @ r) = Inr (ns, rem)"
    if "CHR '':'' \<notin> set ns" for ns r
    using that by (auto simp: split_namespace_Inr)
  show ?thesis
  proof (cases cs)
    case Eip155Suite
    with assms obtain r where "did = ''did:pkh:'' @ ''eip155'' @ '':'' @ r"
      by (auto simp: address_from_did_Inr)
    with pkh [of "''eip155''" r] Eip155Suite that show ?thesis by auto
  next
    case Ed25519Suite
    with assms obtain r where "did = ''did:pkh:'' @ ''ed25519'' @ '':'' @ r"
      by (auto simp: pubkey_from_ed25519_did_Inr)
    with pkh [of "''ed25519''" r] Ed25519Suite that show ?thesis by auto
  next
    case P256Suite
    with assms obtain r where "did = ''did:pkh:'' @ ''p256'' @ '':'' @ r"
      by (auto simp: pubkey_from_p256_did_Inr)
    with pkh [of "''p256''" r] P256Suite that show ?thesis by auto
  qed
qed

lemma suite_namespace_inject [simp]: "suite_namespace cs = suite_namespace cs' \<longleftrightarrow> cs = cs'"
  by (cases cs; cases cs') simp_all

lemma suite_extract_unique:
  "suite_extract E cs did = Inr k \<Longrightarrow> suite_extract E cs' did = Inr k' \<Longrightarrow> cs = cs'"
  by (elim suite_extract_namespace) simp

lemma find_cipher_suite_own [simp]: "find_cipher_suite (suite_namespace cs) = Some cs"
  by (cases cs) (simp_all add: find_cipher_suite_eq)

lemma validate_pkh_suites:
  "validate_pkh E did =
     rbind (parse_did_namespace did) (\<lambda>ns. case find_cipher_suite ns of
        None \<Rightarrow> Inl (UnsupportedMethod ns) | Some cs \<Rightarrow> rmap (\<lambda>_. ()) (suite_extract E cs did))"
  unfolding validate_pkh_def
  by (rule arg_cong [where f = "rbind _"]) (simp add: find_cipher_suite_eq fun_eq_iff)

lemma validate_pkh_Inr:
  "validate_pkh E did = Inr u \<longleftrightarrow> (\<exists>cs k. suite_extract E cs did = Inr k)"
proof
  assume "\<exists>cs k. suite_extract E cs did = Inr k"
  then obtain cs k where k: "suite_extract E cs did = Inr k" by blast
  then obtain rem where "split_namespace did = Inr (suite_namespace cs, rem)"
    by (rule suite_extract_namespace)
  with k show "validate_pkh E did = Inr u"
    by (simp add: validate_pkh_suites split_namespace_parse)
qed (auto simp: validate_pkh_suites split: option.splits, blast)

lemma validate_pkh_refuses:
  "\<not> (\<exists>cs k. suite_extract E cs did = Inr k) \<Longrightarrow> \<exists>e. validate_pkh E did = Inl e"
  by (cases "validate_pkh E did") (simp_all add: validate_pkh_Inr)

lemma pkh_verify_True:
  "pkh_verify E did msg sig = Inr True \<longleftrightarrow> (\<exists>cs. suite_verify E cs did msg sig = Inr True)"
proof
  assume "\<exists>cs. suite_verify E cs did msg sig = Inr True"
  then obtain cs where v: "suite_verify E cs did msg sig = Inr True" by blast
  then obtain k where "suite_extract E cs did = Inr k" by (rule suite.verify_needs_key)
  then obtain rem where "split_namespace did = Inr (suite_namespace cs, rem)"
    by (rule suite_extract_namespace)
  with v show "pkh_verify E did msg sig = Inr True"
    by (simp add: pkh_verify_def)
qed (auto simp: pkh_verify_def)

lemma ex_suite: "(\<exists>cs. P cs) \<longleftrightarrow> P Eip155Suite \<or> P Ed25519Suite \<or> P P256Suite"
  by (metis cipher_suite.exhaust)

lemma pkh_possession:
  assumes "did = ''did:pkh:'' @ rest"
  shows "validate_pkh E did = Inr () \<and> pkh_verify E did msg sig = Inr True \<longleftrightarrow>
           possession E did msg sig pk"
proof -
  have "validate_pkh E did = Inr () \<and> pkh_verify E did msg sig = Inr True \<longleftrightarrow>
          (\<exists>cs. suite_verify E cs did msg sig = Inr True)"
    unfolding validate_pkh_Inr pkh_verify_True using suite.verify_needs_key by metis
  also have "\<dots> \<longleftrightarrow> possession E did msg sig pk"
    using assms
    by (auto simp: ex_suite possession_of possession_iff peer_supports_did_def starts_with_iff
        aqua_did_binds_pubkey_def multihash_from_aqua_did_Inr)
  finally show ?thesis .
qed

text \<open>The two methods that embed a multibase key share one shape.\<close>

definition multibase_signed ::
  "('x, 'z) crates_scheme \<Rightarrow> string \<Rightarrow> string \<Rightarrow> bytes \<Rightarrow> bool" where
  "multibase_signed E z msg sig \<longleftrightarrow>
     (\<exists>k. bs58_decode E z = Inr (ED25519_PREFIX @ k) \<and> ed25519_signed E k msg sig) \<or>
     (\<exists>k. bs58_decode E z = Inr (P256_PREFIX @ k) \<and> length k = 33 \<and> p256_signed E k msg sig)"

lemma multibase_possession:
  "(validate_multibase_key_body E z = Inr () \<and>
    rbind (decode_multibase_key E z) (\<lambda>k. verify_with_key E k msg sig) = Inr True) \<longleftrightarrow>
   multibase_signed E z msg sig"
proof (cases "decode_multibase_key E z")
  case (Inl e)
  then have "\<not> multibase_signed E z msg sig"
    using decode_multibase_key_Ed [of E z] decode_multibase_key_P256 [of E z]
    by (auto simp: multibase_signed_def ed25519_signed_def)
  with Inl show ?thesis by (simp add: validate_multibase_key_body_def)
next
  case (Inr k)
  note defs = validate_multibase_key_body_def multibase_signed_def verify_with_key_True
    ED25519_PUBKEY_BYTES_def P256_COMPRESSED_PUBKEY_BYTES_def
  show ?thesis
  proof (cases k)
    case (Ed25519Key raw)
    with Inr have "bs58_decode E z = Inr (ED25519_PREFIX @ raw)"
      by (simp add: decode_multibase_key_Ed)
    with Inr Ed25519Key show ?thesis by (auto simp: defs ed25519_signed_def)
  next
    case (P256Key raw)
    with Inr have "bs58_decode E z = Inr (P256_PREFIX @ raw)"
      by (simp add: decode_multibase_key_P256)
    with Inr P256Key show ?thesis by (auto simp: defs)
  qed
qed

lemma key_possession:
  "possession E (''did:key:'' @ rest) msg sig pk \<longleftrightarrow>
     (\<exists>z. rest = ''z'' @ z \<and> multibase_signed E z msg sig)"
  by (auto simp: possession_iff multibase_signed_def address_from_did_Inr
      pubkey_from_ed25519_did_Inr pubkey_from_p256_did_Inr peer_supports_did_def starts_with_iff
      aqua_did_binds_pubkey_def multihash_from_aqua_did_Inr)

lemma peer_possession:
  "peer_supports_did did \<Longrightarrow> possession E did msg sig pk \<longleftrightarrow>
     (\<exists>z. extract_z_body did = Inr z \<and> multibase_signed E z msg sig)"
  by (auto simp: possession_iff multibase_signed_def address_from_did_Inr
      pubkey_from_ed25519_did_Inr pubkey_from_p256_did_Inr peer_supports_did_def starts_with_iff
      aqua_did_binds_pubkey_def multihash_from_aqua_did_Inr)

lemma aqua_possession:
  "did_aqua_feature E \<Longrightarrow> did = ''did:aqua:'' @ rest \<Longrightarrow>
     (rmap (\<lambda>_. ()) (multihash_from_aqua_did E did) = Inr () \<and>
      aqua_verify_with_public_key E did msg sig pk = Inr True) \<longleftrightarrow> possession E did msg sig pk"
  by (auto simp: possession_iff address_from_did_Inr aqua_verify_with_public_key_def
      pubkey_from_ed25519_did_Inr pubkey_from_p256_did_Inr peer_supports_did_def starts_with_iff
      aqua_did_binds_pubkey_def split: if_splits)

lemma validated_verify_iff:
  "(validate_did_well_formed E did = Inr () \<and>
    verify_caip122_with_public_key E did msg sig pk = Inr True) \<longleftrightarrow> possession E did msg sig pk"
proof (cases "find_did_method E did")
  case None
  have no: "\<not> supports_did m did" if "m \<in> set (all_did_methods E)" for m
    using None that find_did_method_iff [of E did m] by auto
  have "\<not> starts_with ''did:pkh:'' did" "\<not> starts_with ''did:key:'' did" "\<not> peer_supports_did did"
    "did_aqua_feature E \<Longrightarrow> \<not> starts_with ''did:aqua:'' did"
    using no [of PkhMethod] no [of KeyMethod] no [of PeerMethod] no [of AquaMethod]
    by (auto simp: all_did_methods_def default_supports_did_def)
  then have "\<not> possession E did msg sig pk"
    by (auto simp: possession_iff address_from_did_Inr pubkey_from_ed25519_did_Inr
        pubkey_from_p256_did_Inr starts_with_iff aqua_did_binds_pubkey_def
        multihash_from_aqua_did_Inr)
  with None show ?thesis by (simp add: validate_did_well_formed_def)
next
  case (Some m)
  note defs = validate_did_well_formed_def verify_caip122_with_public_key_def Some
  from Some show ?thesis
  proof (cases rule: find_did_method_cases)
    case (1 rest)
    show ?thesis using pkh_possession [OF 1(2)] by (simp add: defs 1(1))
  next
    case (2 rest)
    have z: "strip_prefix ''did:key:z'' did = Some z \<longleftrightarrow> rest = ''z'' @ z" for z
      by (simp add: strip_prefix_Some 2(2))
    have "(\<exists>z. rest = ''z'' @ z \<and> validate_multibase_key_body E z = Inr () \<and>
            rbind (decode_multibase_key E z) (\<lambda>k. verify_with_key E k msg sig) = Inr True) \<longleftrightarrow>
          possession E did msg sig pk"
      unfolding 2(2) key_possession multibase_possession [symmetric] ..
    then show ?thesis by (auto simp: defs 2(1) z key_verify_def key_z_body_def)
  next
    case 3
    have "(\<exists>z. extract_z_body did = Inr z \<and> validate_multibase_key_body E z = Inr () \<and>
            rbind (decode_multibase_key E z) (\<lambda>k. verify_with_key E k msg sig) = Inr True) \<longleftrightarrow>
          possession E did msg sig pk"
      unfolding peer_possession [OF 3(2)] multibase_possession [symmetric] ..
    then show ?thesis by (auto simp: defs 3(1) peer_verify_def)
  next
    case (4 rest)
    show ?thesis using aqua_possession [OF 4(3,2)] by (simp add: defs 4(1))
  qed
qed

lemma authenticate_with_key_Inr:
  "authenticate_with_public_key E did msg sig pk = Inr p \<longleftrightarrow>
     p = \<lparr>principal_did = did\<rparr> \<and> possession E did msg sig pk"
  unfolding validated_verify_iff [symmetric]
  by (auto simp: authenticate_with_public_key_def from_trusted_did_def split: if_splits)

text \<open>
  C1. A login succeeds exactly when the signature proves possession of the identity the DID
  names: the Ethereum address recovered from it, the Ed25519 or P-256 key embedded in the DID,
  or an ML-DSA-87 key the DID commits to. The principal that comes back names that DID and
  nothing else. \<open>possession\<close> is stated by the shape of the DID, without the registry, the
  format layer or the dispatch.
\<close>

theorem login_iff_possession:
  "authenticate_with_public_key E did msg sig pk = Inr p \<longleftrightarrow>
     p = \<lparr>principal_did = did\<rparr> \<and> possession E did msg sig pk"
  by (rule authenticate_with_key_Inr)

section \<open>The format layer against the verifiers\<close>

text \<open>A multibase body with a P-256 prefix and a point that is not 33 bytes long.\<close>

definition long_p256_body :: "('x, 'z) crates_scheme \<Rightarrow> string \<Rightarrow> bool" where
  "long_p256_body E did \<longleftrightarrow>
     (\<exists>z k. (did = ''did:key:z'' @ z \<or> extract_z_body did = Inr z) \<and>
            bs58_decode E z = Inr (P256_PREFIX @ k) \<and> length k \<noteq> 33)"

lemma validate_multibase_Inl:
  assumes "validate_multibase_key_body E z = Inl e"
    and "\<And>k. bs58_decode E z = Inr (P256_PREFIX @ k) \<Longrightarrow> length k = 33"
  shows "\<exists>e'. rbind (decode_multibase_key E z) (\<lambda>k. verify_with_key E k msg sig) = Inl e'"
proof (cases "decode_multibase_key E z")
  case (Inr k)
  show ?thesis
  proof (cases k)
    case (Ed25519Key raw)
    with assms(1) Inr have "length raw \<noteq> 32"
      by (auto simp: validate_multibase_key_body_def ED25519_PUBKEY_BYTES_def)
    with Inr Ed25519Key show ?thesis by (simp add: verify_with_key_def)
  next
    case (P256Key raw)
    with Inr assms(2) have "length raw = 33" by (simp add: decode_multibase_key_P256)
    with assms(1) Inr P256Key show ?thesis
      by (simp add: validate_multibase_key_body_def P256_COMPRESSED_PUBKEY_BYTES_def)
  qed
qed simp

lemma validate_pkh_Inl:
  assumes "validate_pkh E did = Inl e"
  shows "\<exists>e'. pkh_verify E did msg sig = Inl e'"
proof (cases "split_namespace did")
  case (Inr p)
  obtain ns rem where p: "p = (ns, rem)" by fastforce
  show ?thesis
  proof (cases "find_cipher_suite ns")
    case None
    with Inr p show ?thesis by (simp add: pkh_verify_def)
  next
    case (Some cs)
    from Inr p have "parse_did_namespace did = Inr ns" by (simp add: split_namespace_parse)
    with assms Some have "suite_extract E cs did = Inl e" by (simp add: validate_pkh_suites)
    then have "suite_verify E cs did msg sig = Inl e" by (rule suite.format_first)
    with Inr p Some show ?thesis by (simp add: pkh_verify_def)
  qed
qed (simp add: pkh_verify_def)

text \<open>
  C37. What the format layer refuses the verifier refuses too, with an error and whatever the
  message, signature and supplied key are. The one exception is a \<open>did:key\<close> or \<open>did:peer\<close>
  body that carries a P-256 point of another length than the compressed one.
\<close>

theorem format_refusal_is_verifier_refusal:
  assumes "validate_did_well_formed E did = Inl e" and "\<not> long_p256_body E did"
  shows "\<exists>e'. verify_caip122_with_public_key E did msg sig pk = Inl e'"
proof (cases "find_did_method E did")
  case None
  then show ?thesis by (simp add: verify_caip122_with_public_key_def)
next
  case (Some m)
  note defs = validate_did_well_formed_def verify_caip122_with_public_key_def Some
  from assms(2) have short: "length k = 33"
    if "did = ''did:key:z'' @ z \<or> extract_z_body did = Inr z"
      "bs58_decode E z = Inr (P256_PREFIX @ k)" for z k
    using that unfolding long_p256_body_def by blast
  show ?thesis
  proof (cases m)
    case PkhMethod
    with assms(1) show ?thesis by (simp add: defs validate_pkh_Inl)
  next
    case KeyMethod
    show ?thesis
    proof (cases "strip_prefix ''did:key:z'' did")
      case (Some z)
      then have z: "did = ''did:key:z'' @ z" by (simp add: strip_prefix_Some)
      have "validate_multibase_key_body E z = Inl e \<Longrightarrow>
          \<exists>e'. rbind (decode_multibase_key E z) (\<lambda>k. verify_with_key E k msg sig) = Inl e'"
        by (erule validate_multibase_Inl) (rule short [OF disjI1 [OF z]])
      then show ?thesis
        using assms(1) by (simp add: defs KeyMethod Some key_verify_def key_z_body_def)
    qed (simp add: defs KeyMethod key_verify_def key_z_body_def)
  next
    case PeerMethod
    have "extract_z_body did = Inr z \<Longrightarrow> validate_multibase_key_body E z = Inl e \<Longrightarrow>
        \<exists>e'. rbind (decode_multibase_key E z) (\<lambda>k. verify_with_key E k msg sig) = Inl e'" for z
      by (erule validate_multibase_Inl) (rule short [OF disjI2])
    with PeerMethod assms(1) show ?thesis
      by (cases "extract_z_body did") (simp_all add: defs peer_verify_def)
  next
    case AquaMethod
    with assms(1) show ?thesis
      by (cases pk) (simp_all add: defs aqua_verify_with_public_key_def aqua_did_binds_pubkey_def)
  qed
qed

text \<open>An empty \<open>did:key\<close> body: refused by both.\<close>

theorem format_refusal_is_verifier_refusal_witness:
  "\<exists>e'. verify_caip122_with_public_key ref_crates ''did:key:'' ''m'' [] None = Inl e'"
proof (rule format_refusal_is_verifier_refusal)
  show "validate_did_well_formed ref_crates ''did:key:'' =
          Inl (InvalidDid (''did:key body must be multibase 'z': '' @ ''did:key:''))"
    using find_did_method_prefix(2) [of ref_crates "[]"]
    by (simp add: validate_did_well_formed_def strip_prefix_def starts_with_def)
  show "\<not> long_p256_body ref_crates ''did:key:''"
    by (simp add: long_p256_body_def extract_z_body_def strip_prefix_def starts_with_def)
qed

text \<open>
  The exception is real: for every uncompressed SEC1 point that verifies a signature, the
  \<open>did:key\<close> spelled with it verifies the login message, while the format layer, and with it
  \<open>authenticate\<close> and the challenge endpoint, refuse the DID.
\<close>

theorem uncompressed_p256_did_key_gap:
  assumes "bs58_law E" and "length k = 65" and "p256_signed E k msg sig"
  defines "did \<equiv> encode_did_key E P256_PREFIX k"
  shows "verify_caip122 E did msg sig = Inr True \<and>
         validate_did_well_formed E did =
           Inl (InvalidDid ''P-256 compressed public key must be 33 bytes, got 65'') \<and>
         (\<exists>e. authenticate E did msg sig = Inl e)"
proof -
  have z: "strip_prefix ''did:key:z'' did = Some (bs58_encode E (P256_PREFIX @ k))"
    and m: "find_did_method E did = Some KeyMethod"
    using find_did_method_prefix(2) [of E "''z'' @ bs58_encode E (P256_PREFIX @ k)"]
    by (simp_all add: did_def encode_did_key_def strip_prefix_Some)
  have d: "decode_multibase_key E (bs58_encode E (P256_PREFIX @ k)) = Inr (P256Key k)"
    by (simp add: decode_multibase_key_P256 bs58_lawD(1) [OF assms(1)])
  have n: "show_nat 65 = ''65''" by code_simp
  have "verify_caip122 E did msg sig = Inr True"
    using assms(3) by (simp add: verify_caip122_def m key_verify_def key_z_body_def z d verify_with_key_True)
  moreover have v: "validate_did_well_formed E did =
           Inl (InvalidDid ''P-256 compressed public key must be 33 bytes, got 65'')"
    by (simp add: validate_did_well_formed_def m z d validate_multibase_key_body_def assms(2)
        P256_COMPRESSED_PUBKEY_BYTES_def n)
  moreover have "\<exists>e. authenticate E did msg sig = Inl e"
    by (simp add: authenticate_def authenticate_with_public_key_def v)
  ultimately show ?thesis by blast
qed

theorem uncompressed_p256_did_key_gap_witness:
  "verify_caip122 ref_crates (encode_did_key ref_crates P256_PREFIX (replicate 65 4)) ''m''
     (replicate 64 4) = Inr True"
  by (rule uncompressed_p256_did_key_gap [OF ref_bs58_law, THEN conjunct1])
     (simp_all add: p256_signed_def ref_crates_def p256_parse_sig_def)

text \<open>
  The format layer does look at the curve: an Ed25519 key that is 32 bytes long but not the
  canonical encoding of a point in the prime-order subgroup is refused by it in both its
  \<open>did:key\<close> and its \<open>did:pkh\<close> spelling, not only by the verifier.
\<close>

theorem format_layer_checks_ed25519_points:
  assumes "bs58_law E" and "hex_law E" and "length k = 32" and "\<not> strict_ed_key E k"
  shows "(\<exists>e. validate_did_well_formed E (ed25519_did_key_from_pubkey E k) = Inl e) \<and>
         (\<exists>e. validate_did_well_formed E (''did:pkh:ed25519:0x'' @ hex_encode E k) = Inl e)"
proof -
  let ?z = "bs58_encode E (ED25519_PREFIX @ k)"
  have z: "strip_prefix ''did:key:z'' (ed25519_did_key_from_pubkey E k) = Some ?z"
    and m: "find_did_method E (ed25519_did_key_from_pubkey E k) = Some KeyMethod"
    using find_did_method_prefix(2) [of E "''z'' @ ?z"]
    by (simp_all add: ed25519_did_key_from_pubkey_def encode_did_key_def strip_prefix_Some)
  obtain e where "strict_verifying_key E k = Inl e"
    using assms(4) strict_verifying_key_ok [of E k] by (auto simp: not_is_ok_iff)
  then have "decode_multibase_key E ?z = Inl e"
    using assms(3) by (simp add: decode_multibase_key_def bs58_lawD(1) [OF assms(1)] Let_def)
  with m z have "\<exists>e. validate_did_well_formed E (ed25519_did_key_from_pubkey E k) = Inl e"
    by (simp add: validate_did_well_formed_def validate_multibase_key_body_def)
  moreover have "\<not> (\<exists>cs k'. suite_extract E cs (''did:pkh:ed25519:0x'' @ hex_encode E k) = Inr k')"
    using assms(4) hex_lawD(1) [OF assms(2)]
    by (auto simp: ex_suite address_from_did_Inr pubkey_from_ed25519_did_Inr pubkey_from_p256_did_Inr)
  then have "\<exists>e. validate_pkh E (''did:pkh:ed25519:0x'' @ hex_encode E k) = Inl e"
    by (rule validate_pkh_refuses)
  then have "\<exists>e. validate_did_well_formed E (''did:pkh:ed25519:0x'' @ hex_encode E k) = Inl e"
    using find_did_method_prefix(1) [of E "''ed25519:0x'' @ hex_encode E k"]
    by (simp add: validate_did_well_formed_def)
  ultimately show ?thesis by blast
qed

theorem format_layer_checks_ed25519_points_witness:
  "\<exists>e. validate_did_well_formed ref_crates (ed25519_did_key_from_pubkey ref_crates (replicate 32 0)) = Inl e"
  by (rule format_layer_checks_ed25519_points [OF ref_bs58_law ref_hex_law, THEN conjunct1])
     (simp_all add: strict_ed_key_def ref_crates_def)

end
