(* ===== verification/Encodings.thy ===== *)
theory Encodings
  imports Identity
begin

text \<open>
  Round trips and canonicity of the DID encodings: a key and its \<open>did:aqua\<close> or \<open>did:key\<close>
  determine each other, the checksummed address of a \<open>did:pkh:eip155\<close> reads back, and no label
  of a well-formed DID panics.
\<close>

section \<open>did:aqua\<close>

definition aqua_multihash :: "('x, 'z) crates_scheme \<Rightarrow> bytes \<Rightarrow> bytes" where
  "aqua_multihash E pk =
     MULTIHASH_SHA2_256 # MULTIHASH_DIGEST_LEN # sha256 E (as_bytes (akp_jwk (b64_encode E pk)))"

lemma aqua_did_from_pubkey_eq:
  "aqua_did_from_pubkey E pk = ''did:aqua:z'' @ bs58_encode E (aqua_multihash E pk)"
  by (simp add: aqua_did_from_pubkey_def aqua_multihash_def Let_def)

text \<open>A byte string that starts with 0x12, read as a number.\<close>

lemma multihash_value:
  assumes "length d = n"
  shows "18 * 256 ^ n \<le> be_value 256 (map unat (MULTIHASH_SHA2_256 # d))"
    "be_value 256 (map unat (MULTIHASH_SHA2_256 # d)) < 19 * 256 ^ n"
  using be_value_bounds [of "map unat d" 256 18] assms bytes_unat_less [of d]
  by (simp_all add: MULTIHASH_SHA2_256_def)

lemma bs58_no_leading_one:
  assumes "bs58_law E" "leading_zeros (map unat b) = 0" "b \<noteq> []"
  shows "bs58_encode E b \<noteq> []" "hd (map b58_index (bs58_encode E b)) \<noteq> 0"
proof -
  have z: "leading_zeros (map b58_index (bs58_encode E b)) = 0"
    using assms(1,2) by (simp add: bs58_lawD(5))
  have "be_value 256 (map unat b) \<noteq> 0"
    using assms(2,3) by (cases b) (auto simp: leading_zeros_def be_value_Cons split: if_splits)
  then show ne: "bs58_encode E b \<noteq> []"
    using bs58_lawD(4) [OF assms(1), of b] by auto
  with z show "hd (map b58_index (bs58_encode E b)) \<noteq> 0"
    by (cases "bs58_encode E b") (auto simp: leading_zeros_def split: if_splits)
qed

lemma bs58_digits_less:
  "bs58_law E \<Longrightarrow> \<forall>d \<in> set (map b58_index (bs58_encode E b)). d < 58"
  by (auto dest!: bs58_lawD(3) b58_index_less)

lemma multihash_no_leading: "leading_zeros (map unat (MULTIHASH_SHA2_256 # d)) = 0"
  by (simp add: leading_zeros_def MULTIHASH_SHA2_256_def)

text \<open>34 bytes starting with 0x12 are 46 base58 characters, and 46 such characters are 34 bytes.\<close>

lemma multihash_length:
  assumes "bs58_law E"
  shows "length (bs58_encode E (MULTIHASH_SHA2_256 # d)) = 46 \<longleftrightarrow> length d = 33"
proof -
  let ?s = "map b58_index (bs58_encode E (MULTIHASH_SHA2_256 # d))"
  let ?v = "be_value 256 (map unat (MULTIHASH_SHA2_256 # d))"
  have v: "be_value 58 ?s = ?v" by (rule bs58_lawD(4) [OF assms])
  have s: "?s \<noteq> []" "hd ?s \<noteq> 0" "\<forall>x \<in> set ?s. x < 58"
    using bs58_no_leading_one [OF assms multihash_no_leading, of d] bs58_digits_less [OF assms]
    by simp_all
  note bounds = multihash_value [of d, OF refl]
  show ?thesis
  proof
    assume "length d = 33"
    then have "58 ^ 45 \<le> be_value 58 ?s" "be_value 58 ?s < 58 ^ Suc 45"
      using bounds unfolding v by simp_all
    with s show "length (bs58_encode E (MULTIHASH_SHA2_256 # d)) = 46"
      using be_value_length_unique [of 58 ?s 45] by simp
  next
    assume l: "length (bs58_encode E (MULTIHASH_SHA2_256 # d)) = 46"
    then obtain x r where xr: "?s = x # r" "length r = 45" "x \<noteq> 0"
      using s by (cases ?s) auto
    then have "1 * 58 ^ 45 \<le> x * 58 ^ 45" by (intro mult_le_mono1) simp
    also have "\<dots> \<le> ?v" using be_value_bounds(1) [of r 58 x] s xr unfolding v [symmetric] by simp
    finally have low: "58 ^ 45 \<le> ?v" by simp
    have up: "?v < 58 ^ 46" using be_value_less [OF s(3)] l v by simp
    show "length d = 33"
    proof (rule ccontr)
      assume "length d \<noteq> 33"
      then consider "length d \<le> 32" | "34 \<le> length d" by linarith
      then show False
      proof cases
        case 1
        then have "(256 :: nat) ^ length d \<le> 256 ^ 32" by (intro power_increasing) simp_all
        with bounds(2) low show False by simp
      next
        case 2
        then have "(256 :: nat) ^ 34 \<le> 256 ^ length d" by (intro power_increasing) simp_all
        with bounds(1) up show False by simp
      qed
    qed
  qed
qed

lemma aqua_did_multihash:
  assumes "bs58_law E" and "digest_law E"
  shows "multihash_from_aqua_did E (aqua_did_from_pubkey E pk) = Inr (aqua_multihash E pk)"
proof -
  have "\<not> list_ex forbidden_component b58_alphabet"
    by (simp add: b58_alphabet_def forbidden_component_def)
  then have "\<forall>c \<in> set (bs58_encode E b). \<not> forbidden_component c" for b
    using bs58_lawD(3) [OF assms(1), of _ b] by (auto simp: is_base58_def list_ex_iff)
  moreover have "length (bs58_encode E (aqua_multihash E pk)) = 46"
    using multihash_length [OF assms(1)] assms(2) by (simp add: aqua_multihash_def digest_law_def)
  moreover have "length (aqua_multihash E pk) = 34"
    using assms(2) by (simp add: aqua_multihash_def digest_law_def)
  ultimately show ?thesis
    using bs58_lawD(1) [OF assms(1)] unfolding multihash_from_aqua_did_Inr
    by (auto simp: aqua_did_from_pubkey_eq MULTIHASH_LEN_def DID_AQUA_LEN_def forbidden_component_def
        aqua_multihash_def)
qed

text \<open>
  A \<open>did:aqua\<close> binds a public key exactly when it is the DID derived from that key: the
  derived DID is always in the grammar (56 characters), the comparison of multihashes loses
  nothing, and no second spelling of the identity is accepted.
\<close>

theorem aqua_binding_iff_derived:
  assumes "bs58_law E" and "digest_law E"
  shows "aqua_did_binds_pubkey E did pk = Inr True \<longleftrightarrow> did = aqua_did_from_pubkey E pk"
proof
  assume "aqua_did_binds_pubkey E did pk = Inr True"
  then have "multihash_from_aqua_did E did = Inr (aqua_multihash E pk)"
    by (auto simp: aqua_did_binds_pubkey_def aqua_did_multihash [OF assms])
  then show "did = aqua_did_from_pubkey E pk"
    by (auto simp: multihash_from_aqua_did_Inr aqua_did_from_pubkey_eq
        dest: bs58_lawD(2) [OF assms(1)])
qed (simp add: aqua_did_binds_pubkey_def aqua_did_multihash [OF assms])

theorem aqua_binding_iff_derived_witness:
  "aqua_did_binds_pubkey ref_crates (aqua_did_from_pubkey ref_crates [1, 2, 3]) [1, 2, 3] = Inr True"
  using aqua_binding_iff_derived [OF ref_bs58_law ref_digest_law] by blast

text \<open>
  The last guard of the \<open>did:aqua\<close> parser never fires: a 56-character identifier whose
  body decodes to bytes that start with 0x12 0x20 has exactly 34 of them.
\<close>

theorem aqua_length_guard_unreachable:
  assumes "bs58_law E"
  shows "multihash_from_aqua_did E did \<noteq> Inl (aqua_bad ''multihash is not 34 bytes'')"
proof
  assume *: "multihash_from_aqua_did E did = Inl (aqua_bad ''multihash is not 34 bytes'')"
  then obtain body raw where did: "length did = 56" "did = ''did:aqua:z'' @ body"
    and raw: "bs58_decode E body = Inr raw" "take 1 raw = [MULTIHASH_SHA2_256]" "length raw \<noteq> 34"
    by (auto simp: multihash_from_aqua_did_def aqua_bad_def quoted_def rbind_eq_Inl ok_or_eq_Inl
        require_eq_Inl map_err_eq_Inl DID_AQUA_LEN_def MULTIHASH_LEN_def strip_prefix_Some
        split: if_splits)
  obtain d where d: "raw = MULTIHASH_SHA2_256 # d"
    using raw(2) by (cases raw) auto
  have "bs58_encode E (MULTIHASH_SHA2_256 # d) = body"
    using bs58_lawD(2) [OF assms] raw(1) d by blast
  moreover have "length body = 46" using did by simp
  ultimately have "length d = 33" using multihash_length [OF assms, of d] by simp
  with raw(3) d show False by simp
qed

theorem aqua_length_guard_unreachable_witness:
  "multihash_from_aqua_did ref_crates (aqua_did_from_pubkey ref_crates []) \<noteq>
     Inl (aqua_bad ''multihash is not 34 bytes'')"
  by (rule aqua_length_guard_unreachable [OF ref_bs58_law])

section \<open>did:key\<close>

text \<open>
  C36. \<open>did:key\<close> for Ed25519 and P-256 has one spelling per key: the decoder returns a key
  exactly on the DID the encoder makes from it, for the keys the crate accepts.
\<close>

theorem did_key_one_spelling:
  assumes "bs58_law E"
  shows "(ed25519_pubkey_from_did_key E did = Inr pk \<longleftrightarrow>
            did = ed25519_did_key_from_pubkey E pk \<and> length pk = 32 \<and> strict_ed_key E pk) \<and>
         (p256_pubkey_from_did_key E did = Inr pk \<longleftrightarrow>
            did = p256_did_key_from_pubkey E pk \<and> length pk = 33 \<and>
            is_ok (p256_pubkey_from_sec1 E pk))"
  using ed25519_did_key_canonical [OF assms] ed25519_did_key_roundtrip_aux [OF assms]
    p256_did_key_canonical [OF assms] p256_did_key_roundtrip_aux [OF assms]
    ed25519_pubkey_from_did_key_Inr [of E did pk] p256_pubkey_from_did_key_Inr [of E did pk]
  by blast

theorem did_key_one_spelling_witness:
  "ed25519_pubkey_from_did_key ref_crates (ed25519_did_key_from_pubkey ref_crates (replicate 32 7)) =
     Inr (replicate 32 7)"
  by (rule did_key_one_spelling [OF ref_bs58_law, THEN conjunct1, THEN iffD2])
     (simp add: strict_ed_key_def ref_crates_def)

section \<open>Labels\<close>

lemma slice_to_ascii_min: "is_ascii s \<Longrightarrow> slice_to s (min (length s) n) \<noteq> None"
  by simp

lemma is_ascii_drop: "is_ascii s \<Longrightarrow> is_ascii (drop n s)"
  by (auto simp: is_ascii_def list_all_iff dest: in_set_dropD)

lemma bs58_ascii:
  assumes "bs58_law E" "bs58_decode E z = Inr b"
  shows "is_ascii z"
  by (rule graphic_is_ascii) (auto intro: is_base58_graphic bs58_decode_alphabet [OF assms])

lemma multibase_ascii: "bs58_law E \<Longrightarrow> decode_multibase_key E z = Inr k \<Longrightarrow> is_ascii z"
  by (auto dest: decode_multibase_key_bytes bs58_ascii)

lemma eip55_is_ascii:
  assumes "hex_law E"
  shows "is_ascii (eip55_checksum E a)"
proof -
  have "(of_char c :: nat) < 128" if "(of_char (to_lower_char c) :: nat) < 128" for c
    using that by (auto simp: to_lower_char_def is_ascii_upper_def split: if_splits)
  moreover have "is_ascii (to_ascii_lowercase (eip55_checksum E a))"
    unfolding eip55_checksum_lower [OF assms]
    using hex_lawD(3) [OF assms] is_hex_lower_graphic by (blast intro: graphic_is_ascii)
  ultimately show ?thesis
    by (auto simp: is_ascii_def to_ascii_lowercase_def list_all_iff)
qed

lemma hex_decode_ascii: "hex_decode_law E \<Longrightarrow> hex_decode E h = Inr b \<Longrightarrow> is_ascii h"
  unfolding hex_decode_law_def by (blast intro: graphic_is_ascii)

lemma pkh_address_ascii:
  assumes "hex_law E" "hex_decode_law E" "suite_extract E cs did = Inr k"
    and "pkh_address_for_message E did = Inr a"
  shows "is_ascii a"
proof -
  obtain rem where ns: "split_namespace did = Inr (suite_namespace cs, rem)"
    using assms(3) by (rule suite_extract_namespace)
  have "did = ''did:pkh:'' @ suite_namespace cs @ '':'' @ rem"
    using ns by (simp add: split_namespace_Inr)
  with ns assms show ?thesis
    by (cases cs)
       (auto simp: pkh_address_for_message_def find_cipher_suite_eq checksummed_address_def
         eip55_is_ascii [unfolded is_ascii_def] pubkey_parse_did_parts_def pubkey_from_ed25519_did_Inr
         pubkey_from_p256_did_Inr is_ascii_def
         dest: hex_decode_ascii [OF assms(2), unfolded is_ascii_def])
qed

lemma pkh_display_label_ascii:
  "pkh_address_for_message E did = Inr a \<Longrightarrow> is_ascii a \<Longrightarrow> pkh_display_label E did \<noteq> None"
  by (auto simp: pkh_display_label_def Let_def split: sum.splits)

text \<open>
  No label of a DID that passed the format layer panics: the byte slices taken for display
  all fall on character boundaries.
\<close>

theorem labels_of_validated_dids_total:
  assumes "hex_law E" and "hex_decode_law E" and "bs58_law E"
    and "validate_did_well_formed E did = Inr ()" and "find_did_method E did = Some m"
  shows "display_label E m did \<noteq> None"
proof (cases m)
  case PkhMethod
  with assms(4,5) obtain cs k where "suite_extract E cs did = Inr k"
    by (auto simp: validate_did_well_formed_def validate_pkh_Inr)
  then show ?thesis
    using pkh_display_label_ascii [of E did] pkh_address_ascii [OF assms(1,2)] PkhMethod
    by (cases "pkh_address_for_message E did")
       (auto simp: pkh_display_label_def split: sum.splits)
next
  case KeyMethod
  then show ?thesis
    by (auto simp: key_display_label_def split: sum.splits dest: multibase_ascii [OF assms(3)])
next
  case PeerMethod
  then show ?thesis
    by (auto simp: peer_display_label_def split: sum.splits dest: multibase_ascii [OF assms(3)])
next
  case AquaMethod
  have "is_ascii did" "10 \<le> length did" if "multihash_from_aqua_did E did = Inr raw" for raw
    using that bs58_ascii [OF assms(3)] by (auto simp: multihash_from_aqua_did_Inr is_ascii_def)
  then show ?thesis
    using AquaMethod
    by (auto simp: aqua_display_label_def is_ascii_drop split: sum.splits)
qed

text \<open>A well-formed DID at the reference instance, which the witnesses use.\<close>

definition ref_did :: string where
  "ref_did = ed25519_did_key_from_pubkey ref_crates (replicate 32 7)"

definition ref_z_body :: string where
  "ref_z_body = bs58_encode ref_crates (ED25519_PREFIX @ replicate 32 7)"

lemma ref_did_facts:
  "ref_did = ''did:key:z'' @ ref_z_body"
  "find_did_method ref_crates ref_did = Some KeyMethod"
  "decode_multibase_key ref_crates ref_z_body = Inr (Ed25519Key (replicate 32 7))"
  "validate_did_well_formed ref_crates ref_did = Inr ()"
proof -
  show did: "ref_did = ''did:key:z'' @ ref_z_body"
    by (simp add: ref_did_def ref_z_body_def ed25519_did_key_from_pubkey_def encode_did_key_def)
  show m: "find_did_method ref_crates ref_did = Some KeyMethod"
    using find_did_method_prefix(2) [of ref_crates "''z'' @ ref_z_body"] by (simp add: did)
  show k: "decode_multibase_key ref_crates ref_z_body = Inr (Ed25519Key (replicate 32 7))"
    using bs58_lawD(1) [OF ref_bs58_law] unfolding ref_z_body_def
    by (simp add: decode_multibase_key_Ed) (simp add: strict_ed_key_def ref_crates_def)
  show "validate_did_well_formed ref_crates ref_did = Inr ()"
    unfolding validate_did_well_formed_def m
    by (simp add: did k validate_multibase_key_body_def ED25519_PUBKEY_BYTES_def strip_prefix_def
        starts_with_def)
qed

theorem labels_of_validated_dids_total_witness:
  "display_label ref_crates KeyMethod ref_did \<noteq> None"
  by (rule labels_of_validated_dids_total
        [OF ref_hex_law ref_hex_decode_law ref_bs58_law ref_did_facts(4,2)])

lemma pkh_address_ed25519:
  "split_namespace did = Inr (''ed25519'', r) \<Longrightarrow> pkh_address_for_message E did = Inr r"
  by (simp add: pkh_address_for_message_def find_cipher_suite_eq pubkey_parse_did_parts_def)

lemma pkh_display_label_bad_slice:
  "split_namespace did = Inr (ns, r) \<Longrightarrow> pkh_address_for_message E did = Inr a \<Longrightarrow>
     slice_to a 6 = None \<Longrightarrow> 12 < length a \<Longrightarrow> pkh_display_label E did = None"
  by (simp add: pkh_display_label_def Let_def)

text \<open>
  Without the format layer in front, a label does panic: this DID has a 13-byte identifier
  in which byte 6 is inside a two-byte character.
\<close>

theorem pkh_display_label_panics:
  "find_did_method E (''did:pkh:ed25519:a'' @ concat (replicate 6 [CHR 0xC3, CHR 0xA9])) =
     Some PkhMethod \<and>
   display_label E PkhMethod (''did:pkh:ed25519:a'' @ concat (replicate 6 [CHR 0xC3, CHR 0xA9])) =
     None"
proof -
  define r where "r = CHR ''a'' # concat (replicate 6 [CHR 0xC3, CHR 0xA9])"
  have ns: "split_namespace (''did:pkh:'' @ ''ed25519'' @ '':'' @ r) = Inr (''ed25519'', r)"
    by (simp add: split_namespace_Inr)
  have "slice_to r 6 = None" "12 < length r"
    unfolding r_def by code_simp+
  then have "pkh_display_label E (''did:pkh:'' @ ''ed25519'' @ '':'' @ r) = None"
    by (rule pkh_display_label_bad_slice [OF ns pkh_address_ed25519 [OF ns]])
  moreover have "find_did_method E (''did:pkh:'' @ ''ed25519'' @ '':'' @ r) = Some PkhMethod"
    by (rule find_did_method_prefix)
  moreover have "''did:pkh:'' @ ''ed25519'' @ '':'' @ r =
      ''did:pkh:ed25519:a'' @ concat (replicate 6 [CHR 0xC3, CHR 0xA9])"
    by (simp add: r_def)
  ultimately show ?thesis by (simp only: display_label.simps simp_thms)
qed

end
