(* ===== verification/Message.thy ===== *)
theory Message
  imports Encodings
begin

text \<open>
  The CAIP-122 sign-in message (message.rs), the error type of the session layer
  (auth\_error.rs), the records of the protocol (types.rs) and of the wire (wire.rs). Dates are
  values of the chrono crate: a record of the three functions the sources use, over a type
  \<open>'dt\<close> of instants, with the facts relied on as a predicate.
\<close>

section \<open>AuthError\<close>

datatype auth_error =
    Crypto crypto_error
  | ChallengeNotFound
  | ChallengeExpired
  | SessionNotFound
  | SessionExpired
  | SessionStoreFull nat
  | BackendUnavailable string

fun auth_error_display :: "auth_error \<Rightarrow> string" where
  "auth_error_display (Crypto e) = crypto_error_display e"
| "auth_error_display ChallengeNotFound = ''challenge not found or expired''"
| "auth_error_display ChallengeExpired = ''challenge expired''"
| "auth_error_display SessionNotFound = ''session not found or expired''"
| "auth_error_display SessionExpired = ''session expired''"
| "auth_error_display (SessionStoreFull cap) =
     ''session store at capacity ('' @ show_nat cap @ '' sessions); new session rejected''"
| "auth_error_display (BackendUnavailable s) = ''session backend unavailable: '' @ s"

section \<open>Protocol and wire records\<close>

record challenge =
  ch_did :: string
  ch_nonce :: string
  ch_message :: string
  ch_expires_at :: u64

record session =
  se_did :: string
  se_token :: string
  se_valid_until :: u64
  se_created_at :: u64

record session_info =
  si_did :: string
  si_created_at :: u64
  si_valid_until :: u64

record challenge_envelope =
  env_nonce :: string
  env_message :: string
  env_expires_at :: u64

record session_request =
  sr_did :: string
  sr_nonce :: string
  sr_signature :: string
  sr_public_key :: "string option"

record session_response =
  resp_did :: string
  resp_token :: string
  resp_valid_until :: u64
  resp_created_at :: u64

section \<open>chrono\<close>

text \<open>\<open>DateTime::format\<close> with the pattern the sources use, \<open>timestamp\<close> and the addition of
  \<open>Duration::seconds(n)\<close>, which panics when the sum is out of range.\<close>

record 'dt chrono =
  dt_format :: "'dt \<Rightarrow> string"
  dt_timestamp :: "'dt \<Rightarrow> int"
  dt_add_seconds :: "'dt \<Rightarrow> int \<Rightarrow> 'dt option"

definition chrono_law :: "'dt chrono \<Rightarrow> bool" where
  "chrono_law C \<longleftrightarrow>
     (\<forall>d. dt_format C d \<noteq> [] \<and> (\<forall>c \<in> set (dt_format C d). graphic c)) \<and>
     (\<forall>d n d'. dt_add_seconds C d n = Some d' \<longrightarrow> dt_timestamp C d' = dt_timestamp C d + n)"

text \<open>An instance at which theorems are evaluated: an instant is its second.\<close>

definition ref_chrono :: "int chrono" where
  "ref_chrono = \<lparr>dt_format = (\<lambda>d. show_int d @ ''Z''), dt_timestamp = (\<lambda>d. d),
     dt_add_seconds = (\<lambda>d n. Some (d + n))\<rparr>"

lemma chrono_format_graphic: "chrono_law C \<Longrightarrow> c \<in> set (dt_format C d) \<Longrightarrow> graphic c"
  by (simp add: chrono_law_def)

lemma ref_chrono_law: "chrono_law ref_chrono"
  by (auto simp: chrono_law_def ref_chrono_def show_int_def graphic_def is_ascii_digit_def
      dest: show_nat_digits split: if_splits)

text \<open>\<open>timestamp() as u64\<close>.\<close>

definition timestamp_u64 :: "'dt chrono \<Rightarrow> 'dt \<Rightarrow> u64" where
  "timestamp_u64 C d = word_of_int (dt_timestamp C d)"

section \<open>build\_message\<close>

record 'dt message_params =
  mp_did :: string
  mp_domain :: string
  mp_uri :: string
  mp_nonce :: string
  mp_issued_at :: 'dt
  mp_expiration_time :: 'dt

text \<open>The \<open>Chain ID\<close> line, for a DID whose method gives an \<open>eip155\<close> chain.\<close>

definition chain_suffix :: "did_method \<Rightarrow> string \<Rightarrow> string" where
  "chain_suffix m did =
     (case chain_id m did of
        Inr (Some chain) \<Rightarrow>
          (case strip_prefix ''eip155:'' chain of
             Some i \<Rightarrow> [LF] @ ''Chain ID: '' @ i
           | None \<Rightarrow> [])
      | _ \<Rightarrow> [])"

text \<open>The format string.\<close>

definition message_text ::
  "string \<Rightarrow> string \<Rightarrow> string \<Rightarrow> string \<Rightarrow> string \<Rightarrow> string \<Rightarrow> string \<Rightarrow> string" where
  "message_text domain label identifier uri nonce issued_at expiration_time =
     (domain @ '' wants you to sign in with your '' @ label @ '' account:'') @ [LF] @
     identifier @ [LF] @
     [LF] @
     ''Sign in to Aqua Node'' @ [LF] @
     [LF] @
     (''URI: '' @ uri) @ [LF] @
     ''Version: 1'' @ [LF] @
     (''Nonce: '' @ nonce) @ [LF] @
     (''Issued At: '' @ issued_at) @ [LF] @
     (''Expiration Time: '' @ expiration_time)"

definition build_message ::
  "('x, 'z) crates_scheme \<Rightarrow> 'dt chrono \<Rightarrow> 'dt message_params \<Rightarrow> auth_error + string" where
  "build_message E C params =
     rbind (ok_or (find_did_method E (mp_did params)) (Crypto (UnsupportedMethod (mp_did params))))
       (\<lambda>method.
     rbind (map_err Crypto (address_for_message E method (mp_did params)))
       (\<lambda>identifier.
     rbind (map_err Crypto (method_label E method (mp_did params)))
       (\<lambda>label.
     let issued_at = dt_format C (mp_issued_at params);
         expiration_time = dt_format C (mp_expiration_time params);
         msg = message_text (mp_domain params) label identifier (mp_uri params) (mp_nonce params)
                 issued_at expiration_time
     in Inr (msg @ chain_suffix method (mp_did params)))))"

section \<open>Lemmas\<close>

lemma graphic_LF [simp]: "\<not> graphic LF" "\<not> graphic CR"
  by (simp_all add: graphic_def)

lemma graphic_no_LF: "\<forall>c \<in> set s. graphic c \<Longrightarrow> LF \<notin> set s"
  by auto

lemma eip55_graphic:
  assumes "hex_law E" "c \<in> set (eip55_checksum E a)"
  shows "graphic c"
proof -
  have up: "graphic c" if "graphic (to_lower_char c)" for c
    using that by (auto simp: to_lower_char_def is_ascii_upper_def graphic_def split: if_splits)
  have "to_lower_char c \<in> set (to_ascii_lowercase (eip55_checksum E a))"
    using assms(2) by (simp add: to_ascii_lowercase_def)
  then have "is_hex_lower (to_lower_char c)"
    unfolding eip55_checksum_lower [OF assms(1)] by (rule hex_lawD(3) [OF assms(1)])
  then show ?thesis by (rule up [OF is_hex_lower_graphic])
qed

lemma hex_decode_graphic:
  "hex_decode_law E \<Longrightarrow> hex_decode E h = Inr b \<Longrightarrow> c \<in> set h \<Longrightarrow> graphic c"
  by (simp add: hex_decode_law_def)

lemma bs58_graphic: "bs58_law E \<Longrightarrow> bs58_decode E z = Inr b \<Longrightarrow> \<forall>c \<in> set z. graphic c"
  by (auto intro: is_base58_graphic bs58_decode_alphabet)

lemma graphic_char_consts [simp]: "graphic CHR ''0''" "graphic CHR ''x''" "graphic CHR ''z''"
  by (simp_all add: graphic_def)

lemma pkh_identifier_graphic:
  assumes "hex_law E" "hex_decode_law E" "suite_extract E cs did = Inr k"
    and "pkh_address_for_message E did = Inr a"
  shows "a \<noteq> [] \<and> (\<forall>c \<in> set a. graphic c)"
proof -
  obtain rem where ns: "split_namespace did = Inr (suite_namespace cs, rem)"
    using assms(3) by (rule suite_extract_namespace)
  have "did = ''did:pkh:'' @ suite_namespace cs @ '':'' @ rem"
    using ns by (simp add: split_namespace_Inr)
  with ns assms show ?thesis
    by (cases cs)
       (auto simp: pkh_address_for_message_def find_cipher_suite_eq checksummed_address_def
         pubkey_parse_did_parts_def pubkey_from_ed25519_did_Inr pubkey_from_p256_did_Inr
         dest: eip55_graphic [OF assms(1)] hex_decode_graphic [OF assms(2)])
qed

lemma multibase_valid_graphic:
  assumes "bs58_law E" "validate_multibase_key_body E z = Inr u"
  shows "\<forall>c \<in> set z. graphic c"
proof -
  obtain k where "decode_multibase_key E z = Inr k"
    using assms(2) by (auto simp: validate_multibase_key_body_def)
  then show ?thesis
    using bs58_graphic [OF assms(1)] decode_multibase_key_bytes by blast
qed

text \<open>The identifier line of a well-formed DID is printable ASCII and not empty.\<close>

lemma identifier_graphic:
  assumes laws: "hex_law E" "hex_decode_law E" "bs58_law E"
    and v: "validate_did_well_formed E did = Inr u" and m: "find_did_method E did = Some m"
    and a: "address_for_message E m did = Inr a"
  shows "a \<noteq> [] \<and> (\<forall>c \<in> set a. graphic c)"
proof (cases m)
  case PkhMethod
  with v m obtain cs k where "suite_extract E cs did = Inr k"
    by (auto simp: validate_did_well_formed_def validate_pkh_Inr)
  with PkhMethod a show ?thesis using pkh_identifier_graphic [OF laws(1,2)] by simp
next
  case KeyMethod
  then obtain z where z: "did = ''did:key:z'' @ z" "validate_multibase_key_body E z = Inr u"
    using v m by (auto simp: validate_did_well_formed_def strip_prefix_Some)
  have "a = ''z'' @ z" using a KeyMethod z(1) by (simp add: key_address_for_message_def strip_prefix_Some)
  then show ?thesis using multibase_valid_graphic [OF laws(3) z(2)] by simp
next
  case PeerMethod
  then obtain z where z: "extract_z_body did = Inr z" "validate_multibase_key_body E z = Inr u"
    using v m by (auto simp: validate_did_well_formed_def)
  have "a = ''z'' @ z" using a PeerMethod z(1) by (simp add: peer_address_for_message_def)
  then show ?thesis using multibase_valid_graphic [OF laws(3) z(2)] by simp
next
  case AquaMethod
  then obtain b raw where b: "did = ''did:aqua:z'' @ b" "bs58_decode E b = Inr raw"
    using a by (auto simp: aqua_address_for_message_def multihash_from_aqua_did_Inr)
  have "a = ''z'' @ b" using a AquaMethod b(1) by (auto simp: aqua_address_for_message_def strip_prefix_Some)
  then show ?thesis using bs58_graphic [OF laws(3) b(2)] by simp
qed

lemma method_label_cases:
  "method_label E m did = Inr l \<Longrightarrow> l \<in> {''Ethereum'', ''Ed25519'', ''P-256'', ''ML-DSA-87''}"
  by (cases m)
     (auto simp: pkh_method_label_def key_method_label_def peer_method_label_def
       aqua_method_label_def split: if_splits)

text \<open>The first line determines the domain and the label: no label ends in the same letter.\<close>

lemma first_line_inject:
  assumes "d @ '' wants you to sign in with your '' @ l @ '' account:'' =
           d' @ '' wants you to sign in with your '' @ l' @ '' account:''"
    and "l \<in> {''Ethereum'', ''Ed25519'', ''P-256'', ''ML-DSA-87''}"
    and "l' \<in> {''Ethereum'', ''Ed25519'', ''P-256'', ''ML-DSA-87''}"
  shows "d = d' \<and> l = l'"
proof -
  have "rev l @ rev '' wants you to sign in with your '' @ rev d =
        rev l' @ rev '' wants you to sign in with your '' @ rev d'"
    using arg_cong [OF assms(1), of rev] by simp
  with assms(2,3) show ?thesis by auto
qed

lemma chain_suffix_cases: "chain_suffix m did = [] \<or> (\<exists>i. chain_suffix m did = LF # ''Chain ID: '' @ i)"
  by (auto simp: chain_suffix_def split: sum.splits option.splits)

lemma before_suffix_inject:
  assumes "a @ s = b @ t" "c \<notin> set a" "c \<notin> set b"
    and "s = [] \<or> (\<exists>r. s = c # r)" "t = [] \<or> (\<exists>r. t = c # r)"
  shows "a = b \<and> s = t"
proof -
  have "takeWhile (\<lambda>x. x \<noteq> c) (a @ s) = a" if "c \<notin> set a" "s = [] \<or> (\<exists>r. s = c # r)" for a s
    using that by (induction a) auto
  then have "a = b" using assms by metis
  with assms(1) show ?thesis by simp
qed

lemma line_inject:
  assumes "a @ [LF] @ r = b @ [LF] @ r'" "LF \<notin> set a" "LF \<notin> set b"
  shows "a = b \<and> r = r'"
  using before_suffix_inject [of a "[LF] @ r" b "[LF] @ r'" LF] assms by simp

text \<open>The text determines its fields when none of them has a line feed.\<close>

definition one_line :: "string \<Rightarrow> bool" where
  "one_line s \<longleftrightarrow> LF \<notin> set s"

lemma message_text_inject:
  assumes "message_text d l i u n t x @ s = message_text d' l' i' u' n' t' x' @ s'"
    and "list_all one_line [d, l, i, u, n, t, x]" "list_all one_line [d', l', i', u', n', t', x']"
    and "l \<in> {''Ethereum'', ''Ed25519'', ''P-256'', ''ML-DSA-87''}"
    and "l' \<in> {''Ethereum'', ''Ed25519'', ''P-256'', ''ML-DSA-87''}"
    and "s = [] \<or> (\<exists>r. s = LF # r)" "s' = [] \<or> (\<exists>r. s' = LF # r)"
  shows "d = d' \<and> l = l' \<and> i = i' \<and> u = u' \<and> n = n' \<and> t = t' \<and> x = x' \<and> s = s'"
proof -
  note f = assms(2,3) [unfolded list.pred_inject one_line_def]
  have 1: "(d @ '' wants you to sign in with your '' @ l @ '' account:'') @ [LF] @ i @ [LF] @ [LF] @ ''Sign in to Aqua Node'' @ [LF] @ [LF] @ ''URI: '' @ u @ [LF] @
      ''Version: 1'' @ [LF] @ ''Nonce: '' @ n @ [LF] @ ''Issued At: '' @ t @ [LF] @
      ''Expiration Time: '' @ x @ s =
      (d' @ '' wants you to sign in with your '' @ l' @ '' account:'') @ [LF] @ i' @ [LF] @ [LF] @ ''Sign in to Aqua Node'' @ [LF] @ [LF] @ ''URI: '' @ u' @ [LF] @
      ''Version: 1'' @ [LF] @ ''Nonce: '' @ n' @ [LF] @ ''Issued At: '' @ t' @ [LF] @
      ''Expiration Time: '' @ x' @ s'"
    using assms(1) by (simp only: message_text_def append_assoc)
  have first: "LF \<notin> set (d @ '' wants you to sign in with your '' @ l @ '' account:'')"
    "LF \<notin> set (d' @ '' wants you to sign in with your '' @ l' @ '' account:'')" using f by auto
  note l1 = line_inject [OF 1 first]
  have dl: "d = d' \<and> l = l'" by (rule first_line_inject [OF conjunct1 [OF l1] assms(4,5)])
  note 2 = conjunct2 [OF l1]
  have i: "i = i'" using line_inject [OF 2] f by blast
  with 2 have 3: "u @ [LF] @ ''Version: 1'' @ [LF] @ ''Nonce: '' @ n @ [LF] @ ''Issued At: '' @ t @
      [LF] @ ''Expiration Time: '' @ x @ s =
      u' @ [LF] @ ''Version: 1'' @ [LF] @ ''Nonce: '' @ n' @ [LF] @ ''Issued At: '' @ t' @
      [LF] @ ''Expiration Time: '' @ x' @ s'" by simp
  have u: "u = u'" using line_inject [OF 3] f by blast
  with 3 have 4: "n @ [LF] @ ''Issued At: '' @ t @ [LF] @ ''Expiration Time: '' @ x @ s =
      n' @ [LF] @ ''Issued At: '' @ t' @ [LF] @ ''Expiration Time: '' @ x' @ s'" by simp
  have n: "n = n'" using line_inject [OF 4] f by blast
  with 4 have 5: "t @ [LF] @ ''Expiration Time: '' @ x @ s = t' @ [LF] @ ''Expiration Time: '' @ x' @ s'"
    by simp
  have t: "t = t'" using line_inject [OF 5] f by blast
  with 5 have 6: "x @ s = x' @ s'" by simp
  have "x = x' \<and> s = s'" by (rule before_suffix_inject [OF 6 _ _ assms(6,7)]) (use f in auto)
  with dl i u n t show ?thesis by blast
qed

text \<open>What a built message is made of.\<close>

lemma build_message_Inr:
  "build_message E C p = Inr msg \<longleftrightarrow>
     (\<exists>m ident label.
        find_did_method E (mp_did p) = Some m \<and>
        address_for_message E m (mp_did p) = Inr ident \<and>
        method_label E m (mp_did p) = Inr label \<and>
        msg = message_text (mp_domain p) label ident (mp_uri p) (mp_nonce p)
                (dt_format C (mp_issued_at p)) (dt_format C (mp_expiration_time p)) @
              chain_suffix m (mp_did p))"
  unfolding build_message_def Let_def by auto

lemma label_no_LF: "method_label E m did = Inr l \<Longrightarrow> LF \<notin> set l"
  by (auto dest: method_label_cases)

text \<open>The head of a message whose domain has no line feed is its first line.\<close>

lemma split_once_message:
  assumes "LF \<notin> set d" "method_label E m did = Inr l"
  shows "split_on LF ((d @ '' wants you to sign in with your '' @ l @ '' account:'') @ [LF] @ r) =
           (d @ '' wants you to sign in with your '' @ l @ '' account:'') # split_on LF r"
  using assms label_no_LF [OF assms(2)] by (subst append_Cons, subst append_Nil, subst split_on_append_free) auto

lemma message_identifier:
  assumes "hex_law E" and "hex_decode_law E" and "bs58_law E"
    and "validate_did_well_formed E (mp_did p) = Inr ()"
    and "LF \<notin> set (mp_domain p)"
    and "build_message E C p = Inr msg"
  shows "\<exists>m ident. find_did_method E (mp_did p) = Some m \<and>
           address_for_message E m (mp_did p) = Inr ident \<and>
           identifier_from_message msg = Some ident"
proof -
  from assms(6) obtain m ident label r where
    m: "find_did_method E (mp_did p) = Some m" and
    i: "address_for_message E m (mp_did p) = Inr ident" and
    l: "method_label E m (mp_did p) = Inr label" and
    msg: "msg = (mp_domain p @ '' wants you to sign in with your '' @ label @ '' account:'') @
                [LF] @ ident @ LF # r"
    unfolding build_message_Inr message_text_def append_assoc by fastforce
  have g: "ident \<noteq> []" "\<forall>c \<in> set ident. graphic c"
    using identifier_graphic [OF assms(1-4) m i] by auto
  have "split_on LF msg =
      (mp_domain p @ '' wants you to sign in with your '' @ label @ '' account:'') #
      ident # split_on LF r"
    unfolding msg split_once_message [OF assms(5) l]
    using graphic_no_LF [OF g(2)] by (simp add: split_on_append_free)
  moreover have "trim_end_char CR ident = ident"
    using g by (intro trim_end_char_id) (metis graphic_LF(2) last_in_set)
  ultimately have "identifier_from_message msg = Some ident"
    using g by (simp add: identifier_from_message_def trim_graphic)
  with m i show ?thesis by blast
qed

text \<open>
  The identifier a client reads out of a server's message is the one the DID's method put
  there, for every well-formed DID and every domain without a line feed: the comparison of the
  two is a check of the DID itself.
\<close>

theorem identifier_survives_message:
  assumes "hex_law E" and "hex_decode_law E" and "bs58_law E"
    and "validate_did_well_formed E (mp_did p) = Inr ()"
    and "LF \<notin> set (mp_domain p)"
    and "build_message E C p = Inr msg"
  shows "\<exists>m ident. find_did_method E (mp_did p) = Some m \<and>
           address_for_message E m (mp_did p) = Inr ident \<and>
           identifier_from_message msg = Some ident"
  using assms by (rule message_identifier)

text \<open>The message of the reference DID.\<close>

definition ref_params :: "string \<Rightarrow> int message_params" where
  "ref_params nonce = \<lparr>mp_did = ref_did, mp_domain = ''d'', mp_uri = ''u'', mp_nonce = nonce,
     mp_issued_at = 0, mp_expiration_time = 9\<rparr>"

definition ref_message :: "string \<Rightarrow> string" where
  "ref_message nonce =
     message_text ''d'' ''Ed25519'' (''z'' @ ref_z_body) ''u'' nonce ''0Z'' ''9Z''"

lemma ref_build_text:
  "build_message ref_crates ref_chrono ((ref_params nonce)\<lparr>mp_domain := domain, mp_uri := uri\<rparr>) =
     Inr (message_text domain ''Ed25519'' (''z'' @ ref_z_body) uri nonce ''0Z'' ''9Z'')"
proof -
  have "address_for_message ref_crates KeyMethod ref_did = Inr (''z'' @ ref_z_body)"
    "method_label ref_crates KeyMethod ref_did = Inr ''Ed25519''"
    "chain_suffix KeyMethod ref_did = []"
    using ref_did_facts(3)
    by (simp_all add: ref_did_facts(1) key_address_for_message_def key_method_label_def
        key_z_body_def chain_suffix_def no_chain_id_def strip_prefix_def starts_with_def)
  moreover have "dt_format ref_chrono 0 = ''0Z''" "dt_format ref_chrono 9 = ''9Z''"
    by (simp_all add: ref_chrono_def show_int_def show_nat.simps digit_char_def) code_simp+
  ultimately show ?thesis
    using ref_did_facts(2) by (simp add: build_message_def ref_params_def)
qed

lemma ref_build_message: "build_message ref_crates ref_chrono (ref_params nonce) = Inr (ref_message nonce)"
  using ref_build_text [where nonce = nonce and domain = "''d''" and uri = "''u''"] by (simp add: ref_params_def ref_message_def)

theorem identifier_survives_message_witness:
  "\<exists>m ident. find_did_method ref_crates ref_did = Some m \<and>
     address_for_message ref_crates m ref_did = Inr ident \<and>
     identifier_from_message (ref_message ''n'') = Some ident"
  using identifier_survives_message [OF ref_hex_law ref_hex_decode_law ref_bs58_law _ _
      ref_build_message [of "''n''"]] ref_did_facts(4)
  by (simp add: ref_params_def)

text \<open>
  C35. The text that is signed determines everything in it, as long as nothing that is written into it
  breaks a line: of two equal messages for well-formed DIDs, with no line feed in domain, URI or nonce, the
  domain, method label, identifier, URI, nonce, issue and expiration time and chain line are the
  same. Well-formed DIDs and nonces in hex are what \<open>ChallengeStore::create\<close> passes; domain and URI are the
  deployment's. Without the condition it is not so, see \<open>line_feed_collision\<close>.
\<close>

theorem message_determines_fields:
  assumes laws: "hex_law E" "hex_decode_law E" "bs58_law E" "chrono_law C"
    and valid: "validate_did_well_formed E (mp_did p) = Inr ()"
      "validate_did_well_formed E (mp_did q) = Inr ()"
    and p: "LF \<notin> set (mp_domain p)" "LF \<notin> set (mp_uri p)" "LF \<notin> set (mp_nonce p)"
    and q: "LF \<notin> set (mp_domain q)" "LF \<notin> set (mp_uri q)" "LF \<notin> set (mp_nonce q)"
    and msg: "build_message E C p = Inr msg" "build_message E C q = Inr msg"
  shows "\<exists>m m' ident label.
     find_did_method E (mp_did p) = Some m \<and> find_did_method E (mp_did q) = Some m' \<and>
     address_for_message E m (mp_did p) = Inr ident \<and>
     address_for_message E m' (mp_did q) = Inr ident \<and>
     method_label E m (mp_did p) = Inr label \<and> method_label E m' (mp_did q) = Inr label \<and>
     mp_domain p = mp_domain q \<and> mp_uri p = mp_uri q \<and> mp_nonce p = mp_nonce q \<and>
     dt_format C (mp_issued_at p) = dt_format C (mp_issued_at q) \<and>
     dt_format C (mp_expiration_time p) = dt_format C (mp_expiration_time q) \<and>
     chain_suffix m (mp_did p) = chain_suffix m' (mp_did q)"
proof -
  obtain m i l where m: "find_did_method E (mp_did p) = Some m"
    "address_for_message E m (mp_did p) = Inr i" "method_label E m (mp_did p) = Inr l"
    and mp: "msg = message_text (mp_domain p) l i (mp_uri p) (mp_nonce p)
                (dt_format C (mp_issued_at p)) (dt_format C (mp_expiration_time p)) @
              chain_suffix m (mp_did p)"
    using msg(1) unfolding build_message_Inr by blast
  obtain n j k where n: "find_did_method E (mp_did q) = Some n"
    "address_for_message E n (mp_did q) = Inr j" "method_label E n (mp_did q) = Inr k"
    and mq: "msg = message_text (mp_domain q) k j (mp_uri q) (mp_nonce q)
                (dt_format C (mp_issued_at q)) (dt_format C (mp_expiration_time q)) @
              chain_suffix n (mp_did q)"
    using msg(2) unfolding build_message_Inr by blast
  have g: "one_line i" "one_line j" "one_line (dt_format C d)" "one_line l" "one_line k" for d
    using identifier_graphic [OF laws(1-3) valid(1) m(1,2)] m(3) n(3)
      identifier_graphic [OF laws(1-3) valid(2) n(1,2)]
    by (auto simp: one_line_def dest: label_no_LF chrono_format_graphic [OF laws(4)])
  note eq = trans [OF mp [symmetric] mq]
  have "mp_domain p = mp_domain q \<and> l = k \<and> i = j \<and> mp_uri p = mp_uri q \<and> mp_nonce p = mp_nonce q \<and>
    dt_format C (mp_issued_at p) = dt_format C (mp_issued_at q) \<and>
    dt_format C (mp_expiration_time p) = dt_format C (mp_expiration_time q) \<and>
    chain_suffix m (mp_did p) = chain_suffix n (mp_did q)"
    by (rule message_text_inject [OF eq _ _ method_label_cases [OF m(3)] method_label_cases [OF n(3)]])
       (use g p q chain_suffix_cases in \<open>auto simp: one_line_def\<close>)
  with m n show ?thesis by blast
qed

theorem message_determines_fields_witness:
  "\<exists>m m' ident label.
     find_did_method ref_crates ref_did = Some m \<and> find_did_method ref_crates ref_did = Some m' \<and>
     address_for_message ref_crates m ref_did = Inr ident \<and>
     address_for_message ref_crates m' ref_did = Inr ident \<and>
     method_label ref_crates m ref_did = Inr label \<and>
     method_label ref_crates m' ref_did = Inr label \<and>
     chain_suffix m ref_did = chain_suffix m' ref_did"
  using message_determines_fields [OF ref_hex_law ref_hex_decode_law ref_bs58_law ref_chrono_law
      _ _ _ _ _ _ _ _ ref_build_message [of "''n''"] ref_build_message [of "''n''"]]
    ref_did_facts(4)
  by (simp add: ref_params_def)

text \<open>
  The line feeds matter: a domain with the head of a message in it, and a URI with the same, give one
  text for two domains and two URIs, for the same DID, nonce and times.
\<close>

definition ref_head :: string where
  "ref_head = '' wants you to sign in with your Ed25519 account:'' @ [LF] @ (''z'' @ ref_z_body) @ [LF] @ [LF] @
     ''Sign in to Aqua Node'' @ [LF] @ [LF] @ ''URI: ''"

lemma line_feed_collision:
  "build_message ref_crates ref_chrono ((ref_params ''n'')\<lparr>mp_domain := ''a'' @ ref_head @ ''b'', mp_uri := ''c''\<rparr>) =
     build_message ref_crates ref_chrono ((ref_params ''n'')\<lparr>mp_domain := ''a'', mp_uri := ''b'' @ ref_head @ ''c''\<rparr>) \<and>
   is_ok (build_message ref_crates ref_chrono ((ref_params ''n'')\<lparr>mp_domain := ''a'', mp_uri := ''b'' @ ref_head @ ''c''\<rparr>))"
  by (simp add: ref_build_text message_text_def ref_head_def is_ok_iff)

end
