(* ===== verification/Challenges.thy ===== *)
theory Challenges
  imports Message "HOL-Library.Product_Lexorder"
begin

text \<open>
  The challenge store (challenge.rs): pending challenges by nonce, the capacity bound with its
  eviction, and single use. Each operation takes the random bytes it draws and the clock values
  it reads as arguments, one for each call of \<open>Utc::now()\<close>; a panic of the date arithmetic is
  \<open>None\<close>.
\<close>

section \<open>The store\<close>

definition DEFAULT_CHALLENGE_TTL_SECS :: u64 where
  "DEFAULT_CHALLENGE_TTL_SECS = 300"

definition MAX_CHALLENGES :: nat where
  "MAX_CHALLENGES = 8192"

record challenge_store =
  cs_challenges :: "(string, challenge) dmap"
  cs_ttl_secs :: u64
  cs_domain :: string
  cs_uri :: string
  cs_max_challenges :: nat

definition challenge_with_capacity :: "u64 \<Rightarrow> string \<Rightarrow> string \<Rightarrow> nat \<Rightarrow> challenge_store" where
  "challenge_with_capacity ttl_secs domain uri max_challenges =
     \<lparr>cs_challenges = [], cs_ttl_secs = ttl_secs, cs_domain = domain, cs_uri = uri,
      cs_max_challenges = max_challenges\<rparr>"

definition challenge_new :: "u64 \<Rightarrow> string \<Rightarrow> string \<Rightarrow> challenge_store" where
  "challenge_new ttl_secs domain uri = challenge_with_capacity ttl_secs domain uri MAX_CHALLENGES"

definition challenge_cleanup_expired :: "u64 \<Rightarrow> challenge_store \<Rightarrow> challenge_store" where
  "challenge_cleanup_expired now st =
     st\<lparr>cs_challenges := retain (\<lambda>_ c. ch_expires_at c > now) (cs_challenges st)\<rparr>"

text \<open>The oldest entry: smallest \<open>expires_at\<close>, ties broken by nonce.\<close>

definition eviction_key :: "string \<times> challenge \<Rightarrow> u64 \<times> string" where
  "eviction_key = (\<lambda>(k, c). (ch_expires_at c, k))"

definition evict_oldest :: "challenge_store \<Rightarrow> challenge_store" where
  "evict_oldest st =
     (case min_by_key eviction_key (cs_challenges st) of
        Some (nonce, _) \<Rightarrow> st\<lparr>cs_challenges := AList.delete nonce (cs_challenges st)\<rparr>
      | None \<Rightarrow> st)"

definition make_room :: "u64 \<Rightarrow> challenge_store \<Rightarrow> challenge_store" where
  "make_room now_purge st =
     (if cs_max_challenges st \<le> length (cs_challenges st) then
        (let st' = challenge_cleanup_expired now_purge st in
         if cs_max_challenges st' \<le> length (cs_challenges st') then evict_oldest st' else st')
      else st)"

definition challenge_create ::
  "('x, 'z) crates_scheme \<Rightarrow> 'dt chrono \<Rightarrow> u64 \<Rightarrow> bytes \<Rightarrow> 'dt \<Rightarrow> string \<Rightarrow> challenge_store \<Rightarrow>
   (challenge_store \<times> (auth_error + challenge)) option" where
  "challenge_create E C now_purge nonce_bytes now did st =
     (case validate_did_well_formed E did of
        Inl e \<Rightarrow> Some (st, Inl (Crypto e))
      | Inr _ \<Rightarrow>
          (let st' = make_room now_purge st;
               nonce = ''0x'' @ hex_encode E nonce_bytes
           in case dt_add_seconds C now (sint (cs_ttl_secs st')) of
                None \<Rightarrow> None
              | Some expires \<Rightarrow>
                  (case build_message E C
                          \<lparr>mp_did = did, mp_domain = cs_domain st', mp_uri = cs_uri st',
                           mp_nonce = nonce, mp_issued_at = now, mp_expiration_time = expires\<rparr> of
                     Inl e \<Rightarrow> Some (st', Inl e)
                   | Inr message \<Rightarrow>
                       (let challenge = \<lparr>ch_did = did, ch_nonce = nonce, ch_message = message,
                              ch_expires_at = timestamp_u64 C expires\<rparr>
                        in Some (st'\<lparr>cs_challenges :=
                                   AList.update nonce challenge (cs_challenges st')\<rparr>,
                                 Inr challenge)))))"

definition challenge_validate ::
  "u64 \<Rightarrow> string \<Rightarrow> challenge_store \<Rightarrow> challenge_store \<times> (auth_error + challenge)" where
  "challenge_validate now nonce st =
     (case map_of (cs_challenges st) nonce of
        None \<Rightarrow> (st, Inl ChallengeNotFound)
      | Some challenge \<Rightarrow>
          (let st' = st\<lparr>cs_challenges := AList.delete nonce (cs_challenges st)\<rparr> in
           if ch_expires_at challenge \<le> now then (st', Inl ChallengeExpired)
           else (st', Inr challenge)))"

definition challenge_len :: "challenge_store \<Rightarrow> nat" where
  "challenge_len st = length (cs_challenges st)"

definition challenge_is_empty :: "challenge_store \<Rightarrow> bool" where
  "challenge_is_empty st = (cs_challenges st = [])"

section \<open>Making room\<close>

lemma cleanup_fields [simp]:
  "cs_max_challenges (challenge_cleanup_expired now st) = cs_max_challenges st"
  "cs_ttl_secs (challenge_cleanup_expired now st) = cs_ttl_secs st"
  "cs_domain (challenge_cleanup_expired now st) = cs_domain st"
  "cs_uri (challenge_cleanup_expired now st) = cs_uri st"
  by (simp_all add: challenge_cleanup_expired_def)

lemma evict_fields [simp]:
  "cs_max_challenges (evict_oldest st) = cs_max_challenges st"
  "cs_ttl_secs (evict_oldest st) = cs_ttl_secs st"
  "cs_domain (evict_oldest st) = cs_domain st"
  "cs_uri (evict_oldest st) = cs_uri st"
  by (simp_all add: evict_oldest_def split: option.splits prod.splits)

lemma make_room_fields [simp]:
  "cs_max_challenges (make_room now st) = cs_max_challenges st"
  "cs_ttl_secs (make_room now st) = cs_ttl_secs st"
  "cs_domain (make_room now st) = cs_domain st"
  "cs_uri (make_room now st) = cs_uri st"
  by (simp_all add: make_room_def Let_def)

lemma evict_oldest_length:
  assumes "dmap_wf (cs_challenges st)" "cs_challenges st \<noteq> []"
  shows "Suc (length (cs_challenges (evict_oldest st))) = length (cs_challenges st)"
proof -
  obtain k c where v: "min_by_key eviction_key (cs_challenges st) = Some (k, c)"
    using assms(2) by (cases "min_by_key eviction_key (cs_challenges st)") auto
  then have "map_of (cs_challenges st) k \<noteq> None"
    using min_by_key_in [OF v] assms(1) by (auto simp: dmap_wf_map_of_iff)
  with v length_delete_in [OF assms(1)] show ?thesis by (simp add: evict_oldest_def)
qed

lemma evict_oldest_wf [simp]:
  "dmap_wf (cs_challenges st) \<Longrightarrow> dmap_wf (cs_challenges (evict_oldest st))"
  by (auto simp: evict_oldest_def split: option.splits)

lemma make_room_wf [simp]:
  "dmap_wf (cs_challenges st) \<Longrightarrow> dmap_wf (cs_challenges (make_room now st))"
  by (auto simp: make_room_def Let_def challenge_cleanup_expired_def intro!: evict_oldest_wf)

text \<open>Nothing is added, and nothing but expired entries and one oldest entry goes.\<close>

lemma evict_oldest_map:
  assumes "dmap_wf (cs_challenges st)"
  shows "map_of (cs_challenges (evict_oldest st)) n = Some c \<Longrightarrow> map_of (cs_challenges st) n = Some c"
    and "map_of (cs_challenges st) n = Some c \<Longrightarrow> map_of (cs_challenges (evict_oldest st)) n = None \<Longrightarrow>
         \<forall>e \<in> set (cs_challenges st). eviction_key (n, c) \<le> eviction_key e"
proof -
  show "map_of (cs_challenges (evict_oldest st)) n = Some c \<Longrightarrow> map_of (cs_challenges st) n = Some c"
    by (auto simp: evict_oldest_def split: option.splits if_splits)
  assume n: "map_of (cs_challenges st) n = Some c" "map_of (cs_challenges (evict_oldest st)) n = None"
  then obtain c' where v: "min_by_key eviction_key (cs_challenges st) = Some (n, c')"
    by (auto simp: evict_oldest_def split: option.splits if_splits)
  with n assms have "c' = c"
    by (metis dmap_wf_map_of_iff min_by_key_in option.inject)
  with v show "\<forall>e \<in> set (cs_challenges st). eviction_key (n, c) \<le> eviction_key e"
    by (auto dest: min_by_key_le)
qed

lemma make_room_map:
  assumes "dmap_wf (cs_challenges st)"
  shows "map_of (cs_challenges (make_room now st)) n = Some c \<Longrightarrow>
           map_of (cs_challenges st) n = Some c"
    and "map_of (cs_challenges st) n = Some c \<Longrightarrow>
         map_of (cs_challenges (make_room now st)) n = None \<Longrightarrow>
         cs_max_challenges st \<le> length (cs_challenges st) \<and>
         (ch_expires_at c \<le> now \<or>
          (\<forall>(n', c') \<in> set (cs_challenges st).
             ch_expires_at c' \<le> now \<or> eviction_key (n, c) \<le> eviction_key (n', c')))"
proof -
  let ?st = "challenge_cleanup_expired now st"
  have wf: "dmap_wf (cs_challenges ?st)"
    using assms by (simp add: challenge_cleanup_expired_def)
  have old: "map_of (cs_challenges ?st) n =
      (case map_of (cs_challenges st) n of None \<Rightarrow> None
       | Some c \<Rightarrow> if now < ch_expires_at c then Some c else None)" for n
    using assms by (simp add: challenge_cleanup_expired_def map_of_retain)
  show "map_of (cs_challenges (make_room now st)) n = Some c \<Longrightarrow>
           map_of (cs_challenges st) n = Some c"
    by (auto simp: make_room_def Let_def old split: if_splits option.splits
        dest!: evict_oldest_map(1) [OF wf])
  assume n: "map_of (cs_challenges st) n = Some c"
    "map_of (cs_challenges (make_room now st)) n = None"
  then have full: "cs_max_challenges st \<le> length (cs_challenges st)"
    by (auto simp: make_room_def split: if_splits)
  moreover have "\<forall>(n', c') \<in> set (cs_challenges st).
      ch_expires_at c' \<le> now \<or> eviction_key (n, c) \<le> eviction_key (n', c')"
    if "now < ch_expires_at c"
  proof -
    have "map_of (cs_challenges ?st) n = Some c" using n that by (simp add: old)
    moreover from this n full have "map_of (cs_challenges (evict_oldest ?st)) n = None"
      by (auto simp: make_room_def Let_def split: if_splits)
    ultimately have "\<forall>e \<in> set (cs_challenges ?st). eviction_key (n, c) \<le> eviction_key e"
      by (rule evict_oldest_map(2) [OF wf])
    then show ?thesis by (auto simp: challenge_cleanup_expired_def retain_def) (metis not_le)
  qed
  ultimately show "cs_max_challenges st \<le> length (cs_challenges st) \<and>
         (ch_expires_at c \<le> now \<or>
          (\<forall>(n', c') \<in> set (cs_challenges st).
             ch_expires_at c' \<le> now \<or> eviction_key (n, c) \<le> eviction_key (n', c')))"
    using not_le by blast
qed

lemma make_room_length:
  assumes "dmap_wf (cs_challenges st)" "length (cs_challenges st) \<le> cs_max_challenges st"
    and "0 < cs_max_challenges st"
  shows "length (cs_challenges (make_room now st)) < cs_max_challenges st"
proof -
  let ?st = "challenge_cleanup_expired now st"
  have "length (cs_challenges ?st) \<le> length (cs_challenges st)" "dmap_wf (cs_challenges ?st)"
    using assms(1) by (simp_all add: challenge_cleanup_expired_def length_retain_le)
  with assms evict_oldest_length [of ?st] show ?thesis
    by (cases "cs_challenges ?st = []") (auto simp: make_room_def Let_def)
qed

section \<open>The operations\<close>

lemma challenge_create_Inr:
  "challenge_create E C now_purge b now did st = Some (st', Inr ch) \<longleftrightarrow>
     validate_did_well_formed E did = Inr () \<and>
     (\<exists>expires message. dt_add_seconds C now (sint (cs_ttl_secs st)) = Some expires \<and>
        build_message E C \<lparr>mp_did = did, mp_domain = cs_domain st, mp_uri = cs_uri st,
          mp_nonce = ''0x'' @ hex_encode E b, mp_issued_at = now, mp_expiration_time = expires\<rparr> =
          Inr message \<and>
        ch = \<lparr>ch_did = did, ch_nonce = ''0x'' @ hex_encode E b, ch_message = message,
              ch_expires_at = timestamp_u64 C expires\<rparr> \<and>
        st' = (make_room now_purge st)\<lparr>cs_challenges :=
                AList.update (ch_nonce ch) ch (cs_challenges (make_room now_purge st))\<rparr>)"
  by (auto simp: challenge_create_def Let_def split: sum.splits option.splits)

lemma challenge_create_Inl:
  "challenge_create E C now_purge b now did st = Some (st', Inl e) \<Longrightarrow>
     st' = st \<or> st' = make_room now_purge st"
  by (auto simp: challenge_create_def Let_def split: sum.splits option.splits)

lemma challenge_validate_Inr:
  "challenge_validate now n st = (st', Inr ch) \<longleftrightarrow>
     map_of (cs_challenges st) n = Some ch \<and> now < ch_expires_at ch \<and>
     st' = st\<lparr>cs_challenges := AList.delete n (cs_challenges st)\<rparr>"
  by (auto simp: challenge_validate_def Let_def split: option.splits if_splits)

lemma challenge_validate_Inl:
  "challenge_validate now n st = (st', Inl e) \<Longrightarrow>
     st' = st \<or> st' = st\<lparr>cs_challenges := AList.delete n (cs_challenges st)\<rparr>"
  by (auto simp: challenge_validate_def Let_def split: option.splits if_splits)

section \<open>Runs\<close>

text \<open>
  A run of the store: any operations in any order, with any clock values and random bytes. The
  trace keeps the challenges handed out and the challenges consumed.
\<close>

datatype challenge_event = Minted challenge | Consumed u64 string challenge

inductive challenge_run ::
  "('x, 'z) crates_scheme \<Rightarrow> 'dt chrono \<Rightarrow> challenge_store \<Rightarrow> challenge_event list \<Rightarrow>
   challenge_store \<Rightarrow> bool"
  for E :: "('x, 'z) crates_scheme" and C :: "'dt chrono" and st0 :: challenge_store where
  start: "challenge_run E C st0 [] st0"
| create: "challenge_run E C st0 evs st \<Longrightarrow>
     challenge_create E C now_purge b now did st = Some (st', Inr ch) \<Longrightarrow>
     challenge_run E C st0 (evs @ [Minted ch]) st'"
| create_error: "challenge_run E C st0 evs st \<Longrightarrow>
     challenge_create E C now_purge b now did st = Some (st', Inl e) \<Longrightarrow>
     challenge_run E C st0 evs st'"
| validate: "challenge_run E C st0 evs st \<Longrightarrow>
     challenge_validate now_secs n st = (st', Inr ch) \<Longrightarrow>
     challenge_run E C st0 (evs @ [Consumed now_secs n ch]) st'"
| validate_error: "challenge_run E C st0 evs st \<Longrightarrow>
     challenge_validate now_secs n st = (st', Inl e) \<Longrightarrow>
     challenge_run E C st0 evs st'"
| cleanup: "challenge_run E C st0 evs st \<Longrightarrow>
     challenge_run E C st0 evs (challenge_cleanup_expired now_secs st)"

definition mints :: "string \<Rightarrow> challenge_event \<Rightarrow> bool" where
  "mints n ev = (case ev of Minted ch \<Rightarrow> ch_nonce ch = n | _ \<Rightarrow> False)"

definition consumes :: "string \<Rightarrow> challenge_event \<Rightarrow> bool" where
  "consumes n ev = (case ev of Consumed _ n' _ \<Rightarrow> n' = n | _ \<Rightarrow> False)"

definition occurrences :: "('a \<Rightarrow> bool) \<Rightarrow> 'a list \<Rightarrow> nat" where
  "occurrences P xs = length (filter P xs)"

lemma occurrences_simps [simp]:
  "occurrences P [] = 0"
  "occurrences P (xs @ ys) = occurrences P xs + occurrences P ys"
  "occurrences P [x] = (if P x then 1 else 0)"
  by (simp_all add: occurrences_def)

lemma event_simps [simp]:
  "mints n (Minted ch) = (ch_nonce ch = n)" "\<not> mints n (Consumed t m ch)"
  "consumes n (Consumed t m ch) = (m = n)" "\<not> consumes n (Minted ch)"
  by (simp_all add: mints_def consumes_def)

definition held :: "('k, 'v) dmap \<Rightarrow> 'k \<Rightarrow> nat" where
  "held m k = (if map_of m k = None then 0 else 1)"

lemma held_update [simp]: "held (AList.update k v m) k' = (if k' = k then 1 else held m k')"
  by (simp add: held_def)

lemma held_delete [simp]: "held (AList.delete k m) k' = (if k' = k then 0 else held m k')"
  by (simp add: held_def)

lemma held_Nil [simp]: "held [] k = 0"
  by (simp add: held_def)

lemma held_Some: "map_of m k = Some v \<Longrightarrow> held m k = 1"
  by (simp add: held_def)

text \<open>The invariant of a run: what the store holds was minted, and the ledger balances.\<close>

definition challenge_inv :: "challenge_event list \<Rightarrow> challenge_store \<Rightarrow> bool" where
  "challenge_inv evs st \<longleftrightarrow>
     dmap_wf (cs_challenges st) \<and>
     (\<forall>n ch. map_of (cs_challenges st) n = Some ch \<longrightarrow> ch_nonce ch = n \<and> Minted ch \<in> set evs) \<and>
     (\<forall>n. occurrences (consumes n) evs + held (cs_challenges st) n \<le> occurrences (mints n) evs)"

lemma challenge_invI:
  assumes "dmap_wf (cs_challenges st)"
    and "\<And>n ch. map_of (cs_challenges st) n = Some ch \<Longrightarrow> ch_nonce ch = n \<and> Minted ch \<in> set evs"
    and "\<And>n. occurrences (consumes n) evs + held (cs_challenges st) n \<le> occurrences (mints n) evs"
  shows "challenge_inv evs st"
  using assms by (simp add: challenge_inv_def)

lemma challenge_invD:
  assumes "challenge_inv evs st"
  shows "dmap_wf (cs_challenges st)"
    and "map_of (cs_challenges st) n = Some ch \<Longrightarrow> ch_nonce ch = n \<and> Minted ch \<in> set evs"
    and "occurrences (consumes n) evs + held (cs_challenges st) n \<le> occurrences (mints n) evs"
  using assms by (simp_all add: challenge_inv_def)

text \<open>An operation that only removes entries keeps it.\<close>

lemma challenge_inv_shrink:
  assumes inv: "challenge_inv evs st" and wf: "dmap_wf (cs_challenges st')"
    and sub: "\<And>n ch. map_of (cs_challenges st') n = Some ch \<Longrightarrow> map_of (cs_challenges st) n = Some ch"
  shows "challenge_inv evs st'"
proof (rule challenge_invI [OF wf])
  show "ch_nonce ch = n \<and> Minted ch \<in> set evs" if "map_of (cs_challenges st') n = Some ch" for n ch
    by (rule challenge_invD(2) [OF inv sub [OF that]])
  have "held (cs_challenges st') n \<le> held (cs_challenges st) n" for n
    using sub [of n] by (auto simp: held_def)
  then show "occurrences (consumes n) evs + held (cs_challenges st') n \<le> occurrences (mints n) evs" for n
    using challenge_invD(3) [OF inv] by (meson add_left_mono order_trans)
qed

lemma challenge_inv_room: "challenge_inv evs st \<Longrightarrow> challenge_inv evs (make_room now st)"
  by (rule challenge_inv_shrink, assumption) (auto simp: challenge_inv_def dest: make_room_map(1))

lemma challenge_inv_cleanup:
  "challenge_inv evs st \<Longrightarrow> challenge_inv evs (challenge_cleanup_expired now st)"
  by (rule challenge_inv_shrink, assumption)
     (auto simp: challenge_inv_def challenge_cleanup_expired_def map_of_retain
       split: option.splits if_splits)

lemma challenge_inv_delete:
  "challenge_inv evs st \<Longrightarrow>
     challenge_inv evs (st\<lparr>cs_challenges := AList.delete n (cs_challenges st)\<rparr>)"
  by (rule challenge_inv_shrink, assumption) (auto simp: challenge_inv_def split: if_splits)

lemma challenge_inv_insert:
  assumes "challenge_inv evs st"
  shows "challenge_inv (evs @ [Minted ch])
           (st\<lparr>cs_challenges := AList.update (ch_nonce ch) ch (cs_challenges st)\<rparr>)"
proof (rule challenge_invI)
  fix n show "occurrences (consumes n) (evs @ [Minted ch]) +
      held (cs_challenges (st\<lparr>cs_challenges := AList.update (ch_nonce ch) ch (cs_challenges st)\<rparr>)) n
      \<le> occurrences (mints n) (evs @ [Minted ch])"
    using challenge_invD(3) [OF assms, of n] by simp
qed (use challenge_invD(1,2) [OF assms] in \<open>auto split: if_splits\<close>)

lemma challenge_inv_consume:
  assumes "challenge_inv evs st" "map_of (cs_challenges st) n = Some ch"
  shows "challenge_inv (evs @ [Consumed t n ch])
           (st\<lparr>cs_challenges := AList.delete n (cs_challenges st)\<rparr>)"
proof (rule challenge_invI)
  fix n' show "occurrences (consumes n') (evs @ [Consumed t n ch]) +
      held (cs_challenges (st\<lparr>cs_challenges := AList.delete n (cs_challenges st)\<rparr>)) n'
      \<le> occurrences (mints n') (evs @ [Consumed t n ch])"
    using challenge_invD(3) [OF assms(1), of n'] held_Some [OF assms(2)] by auto
qed (use challenge_invD(1,2) [OF assms(1)] in \<open>auto split: if_splits\<close>)

lemma challenge_run_inv:
  assumes "challenge_run E C st0 evs st" "cs_challenges st0 = []"
  shows "challenge_inv evs st"
  using assms
proof (induction rule: challenge_run.induct)
  case start
  then show ?case by (intro challenge_invI) simp_all
next
  case (create evs st now_purge b now did st' ch)
  then show ?case
    by (auto simp: challenge_create_Inr intro: challenge_inv_insert challenge_inv_room)
next
  case (create_error evs st now_purge b now did st' e)
  then show ?case using challenge_create_Inl [OF create_error.hyps(2)] challenge_inv_room by blast
next
  case (validate evs st now_secs n st' ch)
  then show ?case by (auto simp: challenge_validate_Inr intro: challenge_inv_consume)
next
  case (validate_error evs st now_secs n st' e)
  then show ?case
    using challenge_validate_Inl [OF validate_error.hyps(2)] challenge_inv_delete by blast
qed (simp add: challenge_inv_cleanup)

lemma challenge_run_consumed:
  assumes "challenge_run E C st0 evs st" "cs_challenges st0 = []"
    and "Consumed t n ch \<in> set evs"
  shows "ch_nonce ch = n \<and> Minted ch \<in> set evs \<and> t < ch_expires_at ch"
  using assms
proof (induction rule: challenge_run.induct)
  case (validate evs st now_secs n' st' ch')
  then have "challenge_inv evs st" by (auto intro: challenge_run_inv)
  with validate show ?case by (auto simp: challenge_validate_Inr dest: challenge_invD(2))
qed auto

lemma challenge_run_fields:
  "challenge_run E C st0 evs st \<Longrightarrow> cs_max_challenges st = cs_max_challenges st0"
  by (induction rule: challenge_run.induct)
     (auto simp: challenge_create_Inr challenge_validate_Inr
       dest: challenge_create_Inl challenge_validate_Inl)

lemma challenge_run_length:
  assumes "challenge_run E C st0 evs st" "cs_challenges st0 = []" "0 < cs_max_challenges st0"
  shows "length (cs_challenges st) \<le> cs_max_challenges st0"
  using assms
proof (induction rule: challenge_run.induct)
  case (create evs st now_purge b now did st' ch)
  have inv: "challenge_inv evs st" and cap: "cs_max_challenges st = cs_max_challenges st0"
    using create by (auto intro: challenge_run_inv challenge_run_fields)
  then have "length (cs_challenges (make_room now_purge st)) < cs_max_challenges st0"
    using make_room_length [of st now_purge] create challenge_invD(1) [OF inv] by simp
  with create length_update_le [of "ch_nonce ch" ch "cs_challenges (make_room now_purge st)"]
  show ?case by (auto simp: challenge_create_Inr)
next
  case (create_error evs st now_purge b now did st' e)
  have inv: "challenge_inv evs st" and cap: "cs_max_challenges st = cs_max_challenges st0"
    using create_error by (auto intro: challenge_run_inv challenge_run_fields)
  then show ?case
    using make_room_length [of st now_purge] create_error challenge_invD(1) [OF inv]
      challenge_create_Inl [OF create_error.hyps(2)] by auto
next
  case (validate evs st now_secs n st' ch)
  then show ?case
    using length_delete_le [of n "cs_challenges st"] by (auto simp: challenge_validate_Inr simp del: length_delete_le)
next
  case (validate_error evs st now_secs n st' e)
  then show ?case
    using length_delete_le [of n "cs_challenges st"] challenge_validate_Inl [OF validate_error.hyps(2)]
    by (auto simp del: length_delete_le)
next
  case (cleanup evs st now_secs)
  then show ?case
    using length_retain_le [of _ "cs_challenges st"]
    by (auto simp: challenge_cleanup_expired_def intro: order_trans)
qed simp

section \<open>Properties\<close>

text \<open>
  A challenge is used at most once. In every run of a new store, whatever the order of the
  operations, the clock and the random bytes, a nonce is consumed at most as often as it was
  handed out, and what a consumption returns is a challenge that was handed out under that
  nonce and had not expired at the time.
\<close>

theorem challenge_single_use:
  assumes "challenge_run E C (challenge_with_capacity ttl domain uri cap) evs st"
  shows "occurrences (consumes n) evs \<le> occurrences (mints n) evs \<and>
         (\<forall>t ch. Consumed t n ch \<in> set evs \<longrightarrow>
            ch_nonce ch = n \<and> Minted ch \<in> set evs \<and> t < ch_expires_at ch)"
proof -
  have empty: "cs_challenges (challenge_with_capacity ttl domain uri cap) = []"
    by (simp add: challenge_with_capacity_def)
  have "occurrences (consumes n) evs + held (cs_challenges st) n \<le> occurrences (mints n) evs"
    by (rule challenge_invD(3) [OF challenge_run_inv [OF assms empty]])
  then show ?thesis
    using challenge_run_consumed [OF assms empty] by auto
qed

text \<open>A run of one creation, at the reference instance.\<close>

definition ref_store :: challenge_store where
  "ref_store = challenge_with_capacity 9 ''d'' ''u'' 1"

definition ref_challenge :: challenge where
  "ref_challenge = \<lparr>ch_did = ref_did, ch_nonce = ''0x00'', ch_message = ref_message ''0x00'',
     ch_expires_at = 9\<rparr>"

lemma ref_challenge_create:
  "challenge_create ref_crates ref_chrono 0 [0] 0 ref_did ref_store =
     Some (ref_store\<lparr>cs_challenges := [(''0x00'', ref_challenge)]\<rparr>, Inr ref_challenge)"
proof -
  have nonce: "''0x'' @ hex_encode ref_crates [0] = ''0x00''"
    by (simp add: ref_crates_def ref_hex_encode_def show_byte_02x_def hex_digit_def) code_simp
  have "build_message ref_crates ref_chrono
      \<lparr>mp_did = ref_did, mp_domain = ''d'', mp_uri = ''u'', mp_nonce = ''0x00'',
       mp_issued_at = 0, mp_expiration_time = 9\<rparr> = Inr (ref_message ''0x00'')"
    using ref_build_message [of "''0x00''"] by (simp only: ref_params_def)
  moreover have "dt_add_seconds ref_chrono 0 9 = Some 9" "timestamp_u64 ref_chrono 9 = 9"
    by (simp_all add: ref_chrono_def timestamp_u64_def)
  ultimately show ?thesis
    using nonce
    by (simp add: challenge_create_def ref_did_facts(4) ref_store_def challenge_with_capacity_def
        make_room_def Let_def ref_challenge_def)
qed

lemma ref_run:
  "challenge_run ref_crates ref_chrono (challenge_with_capacity 9 ''d'' ''u'' 1) [Minted ref_challenge]
     (ref_store\<lparr>cs_challenges := [(''0x00'', ref_challenge)]\<rparr>)"
  using challenge_run.create [OF challenge_run.start ref_challenge_create]
  by (simp add: ref_store_def)

theorem challenge_single_use_witness:
  "occurrences (consumes ''0x00'') [Minted ref_challenge] \<le>
   occurrences (mints ''0x00'') [Minted ref_challenge]"
  using challenge_single_use [OF ref_run] by blast

text \<open>
  The store never holds more than its capacity: after any run of a new store whose
  capacity is not zero, \<open>len\<close> is at most the capacity.
\<close>

theorem challenge_capacity:
  assumes "0 < cap"
    and "challenge_run E C (challenge_with_capacity ttl domain uri cap) evs st"
  shows "challenge_len st \<le> cap"
  using challenge_run_length [OF assms(2)] assms(1)
  by (simp add: challenge_len_def challenge_with_capacity_def)

theorem challenge_capacity_witness:
  "challenge_len (ref_store\<lparr>cs_challenges := [(''0x00'', ref_challenge)]\<rparr>) \<le> 1"
  by (rule challenge_capacity [OF _ ref_run]) simp

text \<open>
  What a successful creation changes: the new challenge is in the store under its nonce,
  every other entry was there before, and an entry that is gone was pushed out by capacity
  pressure, either because it had expired or because no unexpired entry is older.
\<close>

theorem challenge_create_effect:
  assumes "dmap_wf (cs_challenges st)"
    and "challenge_create E C now_purge b now did st = Some (st', Inr ch)"
  shows "map_of (cs_challenges st') (ch_nonce ch) = Some ch \<and>
    (\<forall>n c. n \<noteq> ch_nonce ch \<longrightarrow> map_of (cs_challenges st') n = Some c \<longrightarrow>
       map_of (cs_challenges st) n = Some c) \<and>
    (\<forall>n c. n \<noteq> ch_nonce ch \<longrightarrow> map_of (cs_challenges st) n = Some c \<longrightarrow>
       map_of (cs_challenges st') n = None \<longrightarrow>
       cs_max_challenges st \<le> challenge_len st \<and>
       (ch_expires_at c \<le> now_purge \<or>
        (\<forall>(n', c') \<in> set (cs_challenges st).
           ch_expires_at c' \<le> now_purge \<or>
           (ch_expires_at c, n) \<le> (ch_expires_at c', n'))))"
proof -
  have st': "cs_challenges st' =
      AList.update (ch_nonce ch) ch (cs_challenges (make_room now_purge st))"
    using assms(2) by (auto simp: challenge_create_Inr)
  have "cs_max_challenges st \<le> challenge_len st \<and>
      (ch_expires_at c \<le> now_purge \<or>
        (\<forall>(n', c') \<in> set (cs_challenges st).
           ch_expires_at c' \<le> now_purge \<or> (ch_expires_at c, n) \<le> (ch_expires_at c', n')))"
    if "n \<noteq> ch_nonce ch" "map_of (cs_challenges st) n = Some c" "map_of (cs_challenges st') n = None"
    for n c
  proof -
    have "map_of (cs_challenges (make_room now_purge st)) n = None" using that st' by simp
    from make_room_map(2) [OF assms(1) that(2) this] show ?thesis
      by (simp only: challenge_len_def eviction_key_def prod.case)
  qed
  moreover have "map_of (cs_challenges st) n = Some c"
    if "n \<noteq> ch_nonce ch" "map_of (cs_challenges st') n = Some c" for n c
    using that st' make_room_map(1) [OF assms(1)] by simp
  ultimately show ?thesis using st' by simp
qed

theorem challenge_create_effect_witness:
  "map_of (cs_challenges (ref_store\<lparr>cs_challenges := [(''0x00'', ref_challenge)]\<rparr>))
     (ch_nonce ref_challenge) = Some ref_challenge"
  by (rule challenge_create_effect [OF _ ref_challenge_create, THEN conjunct1])
     (simp add: ref_store_def challenge_with_capacity_def)

text \<open>
  A fresh challenge lives exactly its time to live: it validates at every second before
  \<open>now + ttl\<close> and at none from there on, as long as the sum stays in 64 bits and the time to
  live in the positive half of \<open>i64\<close>.
\<close>

theorem challenge_lifetime:
  assumes "chrono_law C" and "challenge_create E C now_purge b now did st = Some (st', Inr ch)"
    and "0 \<le> dt_timestamp C now" and "uint (cs_ttl_secs st) < 2 ^ 63"
    and "dt_timestamp C now + uint (cs_ttl_secs st) < 2 ^ 64"
  shows "snd (challenge_validate t (ch_nonce ch) st') =
           (if uint t < dt_timestamp C now + uint (cs_ttl_secs st) then Inr ch
            else Inl ChallengeExpired)"
proof -
  obtain expires where x: "dt_add_seconds C now (sint (cs_ttl_secs st)) = Some expires"
    and e: "ch_expires_at ch = timestamp_u64 C expires"
    and st': "map_of (cs_challenges st') (ch_nonce ch) = Some ch"
    using assms(2) by (auto simp: challenge_create_Inr)
  have "- (2 ^ 63) \<le> uint (cs_ttl_secs st)" by (rule order_trans [OF _ uint_ge_0]) simp
  then have "sint (cs_ttl_secs st) = uint (cs_ttl_secs st)"
    using signed_take_bit_int_eq_self [of 63 "uint (cs_ttl_secs st)"] assms(4) by (simp add: sint_uint)
  with x assms(1) have "dt_timestamp C expires = dt_timestamp C now + uint (cs_ttl_secs st)"
    by (auto simp: chrono_law_def)
  moreover have "take_bit 64 (dt_timestamp C now + uint (cs_ttl_secs st)) =
      dt_timestamp C now + uint (cs_ttl_secs st)"
    using assms(3,5) by (intro take_bit_int_eq_self) simp_all
  ultimately have "uint (ch_expires_at ch) = dt_timestamp C now + uint (cs_ttl_secs st)"
    unfolding e timestamp_u64_def by (simp only: uint_word_of_int_eq len_num1 len_bit0) simp
  then show ?thesis
    using st' by (simp add: challenge_validate_def Let_def word_le_def)
qed

theorem challenge_lifetime_witness:
  "snd (challenge_validate 8 (ch_nonce ref_challenge)
     (ref_store\<lparr>cs_challenges := [(''0x00'', ref_challenge)]\<rparr>)) = Inr ref_challenge"
  using challenge_lifetime [OF ref_chrono_law ref_challenge_create, of 8]
  by (simp add: ref_chrono_def ref_store_def challenge_with_capacity_def)

text \<open>
  A DID without a chain segment shows where the order of the checks in \<open>create\<close> matters:
  the format layer accepts \<open>did:pkh:eip155:0x..\<close>, room is made for its challenge at the cost
  of a pending one, and only then does the message builder refuse it. The store ends up smaller
  and nobody holds a challenge for the slot.
\<close>

theorem chainless_eip155_evicts:
  assumes "hex_law E" and "length a = 20"
    and "dt_add_seconds C now (sint (cs_ttl_secs st)) \<noteq> None"
    and "dmap_wf (cs_challenges st)" and "0 < cs_max_challenges st"
    and "challenge_len st = cs_max_challenges st"
    and "\<forall>(n, c) \<in> set (cs_challenges st). now_purge < ch_expires_at c"
  defines "did \<equiv> ''did:pkh:eip155:0x'' @ hex_encode E a"
  shows "validate_did_well_formed E did = Inr () \<and>
         (\<exists>st' e. challenge_create E C now_purge b now did st = Some (st', Inl e) \<and>
                  Suc (challenge_len st') = challenge_len st)"
proof -
  let ?h = "hex_encode E a"
  have "CHR '':'' \<notin> set (''0x'' @ ?h)"
    using hex_lawD(3) [OF assms(1), of "CHR '':''" a] by (auto simp: is_hex_lower_def is_ascii_digit_def)
  then have colon: "split_on CHR '':'' (''0x'' @ ?h) = [''0x'' @ ?h]" by (rule split_on_none)
  have addr: "address_from_did E did = Inr a"
    unfolding address_from_did_Inr did_def
    using colon assms(2) hex_lawD(1,2) [OF assms(1)]
    by (intro conjI exI [of _ "''0x'' @ ?h"] exI [of _ ?h]) simp_all
  have m: "find_did_method E did = Some PkhMethod"
    using find_did_method_prefix(1) [of E "''eip155:0x'' @ ?h"] by (simp add: did_def)
  have "suite_extract E Eip155Suite did = Inr a" using addr by simp
  then have "validate_pkh E did = Inr ()" unfolding validate_pkh_Inr by blast
  then have v: "validate_did_well_formed E did = Inr ()"
    unfolding validate_did_well_formed_def m by simp
  have ns: "split_namespace did = Inr (''eip155'', ''0x'' @ ?h)"
    unfolding split_namespace_Inr by (simp add: did_def)
  have "eip155_parse_did_parts (''0x'' @ ?h) =
      Inl (InvalidDid (''missing address in eip155 remainder: '' @ ''0x'' @ ?h))"
    using \<open>CHR '':'' \<notin> set (''0x'' @ ?h)\<close> by (simp add: eip155_parse_did_parts_def)
  then have "\<exists>e. address_for_message E PkhMethod did = Inl e"
    unfolding address_for_message.simps pkh_address_for_message_def ns
    by (simp add: find_cipher_suite_eq)
  then obtain e where "build_message E C \<lparr>mp_did = did, mp_domain = d, mp_uri = u, mp_nonce = n,
      mp_issued_at = i, mp_expiration_time = x\<rparr> = Inl e" for d u n i x
    by (auto simp: build_message_def m)
  with v assms(3) have c: "\<exists>e. challenge_create E C now_purge b now did st =
      Some (make_room now_purge st, Inl e)"
    by (auto simp: challenge_create_def Let_def)
  have keep: "challenge_cleanup_expired now_purge st = st"
  proof -
    have "retain (\<lambda>_ c. ch_expires_at c > now_purge) (cs_challenges st) = cs_challenges st"
      using assms(7) unfolding retain_def by (intro filter_True) auto
    then show ?thesis by (simp add: challenge_cleanup_expired_def)
  qed
  have "cs_challenges st \<noteq> []" using assms(5,6) by (auto simp: challenge_len_def)
  then have "Suc (challenge_len (make_room now_purge st)) = challenge_len st"
    using evict_oldest_length [OF assms(4)] assms(6)
    by (simp add: make_room_def keep Let_def challenge_len_def)
  with c v show ?thesis by blast
qed

theorem chainless_eip155_evicts_witness:
  "validate_did_well_formed ref_crates
     (''did:pkh:eip155:0x'' @ hex_encode ref_crates (replicate 20 1)) = Inr ()"
  by (rule chainless_eip155_evicts [OF ref_hex_law, where C = ref_chrono and now = 0 and now_purge = 0
        and st = "ref_store\<lparr>cs_challenges := [(''0x00'', ref_challenge)]\<rparr>", THEN conjunct1])
     (simp_all add: ref_chrono_def ref_store_def challenge_with_capacity_def ref_challenge_def
       dmap_wf_def challenge_len_def)

text \<open>A store of capacity zero holds one challenge after the first creation.\<close>

lemma zero_capacity_holds_one:
  "\<exists>st'. challenge_create ref_crates ref_chrono 0 [0] 0 ref_did
     (challenge_with_capacity 9 ''d'' ''u'' 0) = Some (st', Inr ref_challenge) \<and> challenge_len st' = 1"
  using ref_challenge_create
  by (auto simp: challenge_create_def ref_did_facts(4) ref_store_def challenge_with_capacity_def
      make_room_def Let_def challenge_cleanup_expired_def retain_def evict_oldest_def challenge_len_def
      split: option.splits sum.splits)

end
