(* ===== verification/Shared_Challenges.thy ===== *)
theory Shared_Challenges
  imports Interleaving Challenges
begin

text \<open>
  The challenge store under concurrent callers (challenge.rs). A call is the sequence of its
  accesses to the shared \<open>DashMap\<close>, each atomic, and calls interleave. \<open>retain\<close> drops one entry at a
  time; the scan for a victim and the end of a \<open>retain\<close> are atomic when \<open>atomic\<close> holds, and otherwise
  see whatever the map went through meanwhile: any victim, any entries left.
\<close>

section \<open>Calls\<close>

datatype challenge_pc =
    CreateCheck | CreateLen | CreatePurge | CreateLenAgain | CreateScan | CreateEvict string | CreateInsert
  | ValidateRemove string
  | SweepRetain
  | CallPanicked
  | CallReturned "auth_error + challenge"
  | SweepReturned

record 'dt challenge_call =
  cc_did :: string
  cc_nonce_bytes :: bytes
  cc_now :: 'dt
  cc_clock :: u64
  cc_pc :: challenge_pc

datatype challenge_event = Issued challenge | Redeemed u64 string challenge

text \<open>The challenge a creation makes once it has room, with the draws of the call.\<close>

definition challenge_mint ::
  "('x, 'z) crates_scheme \<Rightarrow> 'dt chrono \<Rightarrow> 'dt challenge_call \<Rightarrow> challenge_store \<Rightarrow> (auth_error + challenge) option" where
  "challenge_mint E C t st =
     (let nonce = ''0x'' @ hex_encode E (cc_nonce_bytes t)
      in map_option (\<lambda>expires.
           rmap (\<lambda>message. \<lparr>ch_did = cc_did t, ch_nonce = nonce, ch_message = message,
                            ch_expires_at = timestamp_u64 C expires\<rparr>)
             (build_message E C
                \<lparr>mp_did = cc_did t, mp_domain = cs_domain st, mp_uri = cs_uri st, mp_nonce = nonce,
                 mp_issued_at = cc_now t, mp_expiration_time = expires\<rparr>))
         (dt_add_seconds C (cc_now t) (sint (cs_ttl_secs st))))"

definition drop_nonce :: "string \<Rightarrow> challenge_store \<Rightarrow> challenge_store" where
  "drop_nonce n st = st\<lparr>cs_challenges := AList.delete n (cs_challenges st)\<rparr>"

definition put_challenge :: "challenge \<Rightarrow> challenge_store \<Rightarrow> challenge_store" where
  "put_challenge c st = st\<lparr>cs_challenges := AList.update (ch_nonce c) c (cs_challenges st)\<rparr>"

definition none_expired :: "u64 \<Rightarrow> challenge_store \<Rightarrow> bool" where
  "none_expired now st \<longleftrightarrow> (\<forall>(n, c) \<in> set (cs_challenges st). now < ch_expires_at c)"

inductive challenge_access ::
  "bool \<Rightarrow> ('x, 'z) crates_scheme \<Rightarrow> 'dt chrono \<Rightarrow> challenge_store \<Rightarrow> 'dt challenge_call \<Rightarrow> challenge_event list \<Rightarrow>
   challenge_store \<Rightarrow> 'dt challenge_call \<Rightarrow> bool"
  for atomic E C where
  refused: "cc_pc t = CreateCheck \<Longrightarrow> validate_did_well_formed E (cc_did t) = Inl e \<Longrightarrow>
     challenge_access atomic E C st t [] st (t\<lparr>cc_pc := CallReturned (Inl (Crypto e))\<rparr>)"
| checked: "cc_pc t = CreateCheck \<Longrightarrow> validate_did_well_formed E (cc_did t) = Inr u \<Longrightarrow>
     challenge_access atomic E C st t [] st (t\<lparr>cc_pc := CreateLen\<rparr>)"
| len_full: "cc_pc t = CreateLen \<Longrightarrow> cs_max_challenges st \<le> length (cs_challenges st) \<Longrightarrow>
     challenge_access atomic E C st t [] st (t\<lparr>cc_pc := CreatePurge\<rparr>)"
| len_room: "cc_pc t = CreateLen \<Longrightarrow> length (cs_challenges st) < cs_max_challenges st \<Longrightarrow>
     challenge_access atomic E C st t [] st (t\<lparr>cc_pc := CreateInsert\<rparr>)"
| purge_drop: "cc_pc t = CreatePurge \<or> cc_pc t = SweepRetain \<Longrightarrow> map_of (cs_challenges st) n = Some c \<Longrightarrow>
     ch_expires_at c \<le> cc_clock t \<Longrightarrow> challenge_access atomic E C st t [] (drop_nonce n st) t"
| purge_end: "cc_pc t = CreatePurge \<Longrightarrow> atomic \<longrightarrow> none_expired (cc_clock t) st \<Longrightarrow>
     challenge_access atomic E C st t [] st (t\<lparr>cc_pc := CreateLenAgain\<rparr>)"
| again_full: "cc_pc t = CreateLenAgain \<Longrightarrow> cs_max_challenges st \<le> length (cs_challenges st) \<Longrightarrow>
     challenge_access atomic E C st t [] st (t\<lparr>cc_pc := CreateScan\<rparr>)"
| again_room: "cc_pc t = CreateLenAgain \<Longrightarrow> length (cs_challenges st) < cs_max_challenges st \<Longrightarrow>
     challenge_access atomic E C st t [] st (t\<lparr>cc_pc := CreateInsert\<rparr>)"
| scan: "cc_pc t = CreateScan \<Longrightarrow>
     atomic \<longrightarrow> (\<exists>c. min_by_key eviction_key (cs_challenges st) = Some (n, c)) \<Longrightarrow>
     challenge_access atomic E C st t [] st (t\<lparr>cc_pc := CreateEvict n\<rparr>)"
| scan_none: "cc_pc t = CreateScan \<Longrightarrow> atomic \<longrightarrow> cs_challenges st = [] \<Longrightarrow>
     challenge_access atomic E C st t [] st (t\<lparr>cc_pc := CreateInsert\<rparr>)"
| evict: "cc_pc t = CreateEvict n \<Longrightarrow>
     challenge_access atomic E C st t [] (drop_nonce n st) (t\<lparr>cc_pc := CreateInsert\<rparr>)"
| insert: "cc_pc t = CreateInsert \<Longrightarrow> challenge_mint E C t st = Some (Inr c) \<Longrightarrow>
     challenge_access atomic E C st t [Issued c] (put_challenge c st) (t\<lparr>cc_pc := CallReturned (Inr c)\<rparr>)"
| no_message: "cc_pc t = CreateInsert \<Longrightarrow> challenge_mint E C t st = Some (Inl e) \<Longrightarrow>
     challenge_access atomic E C st t [] st (t\<lparr>cc_pc := CallReturned (Inl e)\<rparr>)"
| panic: "cc_pc t = CreateInsert \<Longrightarrow> challenge_mint E C t st = None \<Longrightarrow>
     challenge_access atomic E C st t [] st (t\<lparr>cc_pc := CallPanicked\<rparr>)"
| unknown: "cc_pc t = ValidateRemove n \<Longrightarrow> map_of (cs_challenges st) n = None \<Longrightarrow>
     challenge_access atomic E C st t [] st (t\<lparr>cc_pc := CallReturned (Inl ChallengeNotFound)\<rparr>)"
| expired: "cc_pc t = ValidateRemove n \<Longrightarrow> map_of (cs_challenges st) n = Some c \<Longrightarrow> ch_expires_at c \<le> cc_clock t \<Longrightarrow>
     challenge_access atomic E C st t [] (drop_nonce n st) (t\<lparr>cc_pc := CallReturned (Inl ChallengeExpired)\<rparr>)"
| accepted: "cc_pc t = ValidateRemove n \<Longrightarrow> map_of (cs_challenges st) n = Some c \<Longrightarrow> cc_clock t < ch_expires_at c \<Longrightarrow>
     challenge_access atomic E C st t [Redeemed (cc_clock t) n c] (drop_nonce n st) (t\<lparr>cc_pc := CallReturned (Inr c)\<rparr>)"
| sweep_end: "cc_pc t = SweepRetain \<Longrightarrow> atomic \<longrightarrow> none_expired (cc_clock t) st \<Longrightarrow>
     challenge_access atomic E C st t [] st (t\<lparr>cc_pc := SweepReturned\<rparr>)"

text \<open>A thread whose call is over takes up another.\<close>

fun call_over :: "challenge_pc \<Rightarrow> bool" where
  "call_over CallPanicked = True"
| "call_over (CallReturned r) = True"
| "call_over SweepReturned = True"
| "call_over _ = False"

definition challenge_starts :: "'dt challenge_call \<Rightarrow> 'dt challenge_call \<Rightarrow> bool" where
  "challenge_starts t t' \<longleftrightarrow> call_over (cc_pc t) \<and>
     (cc_pc t' = CreateCheck \<or> cc_pc t' = SweepRetain \<or> (\<exists>n. cc_pc t' = ValidateRemove n))"

section \<open>Lemmas\<close>

lemmas last_access = alone_last [where acc = "challenge_access atomic E C" for atomic E C]

lemmas silent_access = alone_silent [where acc = "challenge_access atomic E C" for atomic E C]

lemma store_fields [simp]:
  "cs_challenges (drop_nonce n st) = AList.delete n (cs_challenges st)"
  "cs_challenges (put_challenge c st) = AList.update (ch_nonce c) c (cs_challenges st)"
  "cs_max_challenges (drop_nonce n st) = cs_max_challenges st" "cs_max_challenges (put_challenge c st) = cs_max_challenges st"
  by (simp_all add: drop_nonce_def put_challenge_def)

lemma mint_fields [simp]:
  "challenge_mint E C (t\<lparr>cc_pc := pc\<rparr>) st = challenge_mint E C t st"
  "challenge_mint E C t (drop_nonce n st) = challenge_mint E C t st"
  "challenge_mint E C t (put_challenge c st) = challenge_mint E C t st"
  "challenge_mint E C t (st\<lparr>cs_challenges := m\<rparr>) = challenge_mint E C t st"
  by (simp_all add: challenge_mint_def drop_nonce_def put_challenge_def)

text \<open>A call with no other in between is the operation of the store.\<close>

lemma purge_alone:
  assumes "cc_pc t = CreatePurge" "dmap_wf (cs_challenges st)"
  shows "alone (challenge_access True E C) st t [] (challenge_cleanup_expired (cc_clock t) st)
    (t\<lparr>cc_pc := CreateLenAgain\<rparr>)"
  using assms
proof (induction "length (cs_challenges st)" arbitrary: st rule: less_induct)
  case less
  show ?case
  proof (cases "none_expired (cc_clock t) st")
    case True
    then have "challenge_cleanup_expired (cc_clock t) st = st"
      by (auto simp: none_expired_def challenge_cleanup_expired_def retain_def filter_id_conv)
    then show ?thesis using purge_end [of t True st E C] less.prems True by (simp add: last_access)
  next
    case False
    then obtain n c where c: "map_of (cs_challenges st) n = Some c" "ch_expires_at c \<le> cc_clock t"
      using less.prems(2) by (auto simp: none_expired_def dmap_wf_map_of_iff not_less)
    have len: "length (cs_challenges (drop_nonce n st)) < length (cs_challenges st)"
      using length_delete_in [OF less.prems(2)] c(1) by fastforce
    have "challenge_cleanup_expired (cc_clock t) (drop_nonce n st) = challenge_cleanup_expired (cc_clock t) st"
      using retain_delete [OF less.prems(2) c(1), of "\<lambda>_ c. cc_clock t < ch_expires_at c"] c(2)
      by (simp add: challenge_cleanup_expired_def drop_nonce_def)
    with less.hyps [OF len] less.prems show ?thesis
      by (auto intro: silent_access [OF purge_drop [of t st n c]] simp: c)
  qed
qed

lemma room_alone:
  assumes "cc_pc t = CreateLen" "dmap_wf (cs_challenges st)"
  shows "alone (challenge_access True E C) st t [] (make_room (cc_clock t) st) (t\<lparr>cc_pc := CreateInsert\<rparr>)"
proof (cases "cs_max_challenges st \<le> length (cs_challenges st)")
  case False
  then show ?thesis using len_room [of t st True E C] assms(1) by (simp add: last_access make_room_def)
next
  case True
  let ?st = "challenge_cleanup_expired (cc_clock t) st" and ?t = "t\<lparr>cc_pc := CreateLenAgain\<rparr>"
  have purged: "alone (challenge_access True E C) st t [] ?st ?t"
    using silent_access [OF len_full [OF assms(1) True] purge_alone [of "t\<lparr>cc_pc := CreatePurge\<rparr>" st E C]] assms(2) by simp
  have "alone (challenge_access True E C) ?st ?t [] (make_room (cc_clock t) st) (t\<lparr>cc_pc := CreateInsert\<rparr>)"
  proof (cases "cs_max_challenges ?st \<le> length (cs_challenges ?st)")
    case False
    then show ?thesis using again_room [of ?t ?st True E C] True by (simp add: last_access make_room_def Let_def)
  next
    case full: True
    have scanned: "alone (challenge_access True E C) ?st ?t evs s2 t2"
      if "alone (challenge_access True E C) ?st (t\<lparr>cc_pc := CreateScan\<rparr>) evs s2 t2" for evs s2 t2
      using silent_access [OF again_full [of ?t ?st True E C]] full that by simp
    show ?thesis
    proof (cases "min_by_key eviction_key (cs_challenges ?st)")
      case None
      then have "evict_oldest ?st = ?st" "cs_challenges ?st = []" by (simp_all add: evict_oldest_def)
      then show ?thesis using scanned [OF last_access, OF scan_none] True full by (simp add: make_room_def Let_def)
    next
      case (Some nc)
      then obtain n c where nc: "min_by_key eviction_key (cs_challenges ?st) = Some (n, c)" by (cases nc) auto
      have "evict_oldest ?st = drop_nonce n ?st" using nc by (simp add: evict_oldest_def drop_nonce_def)
      then have "make_room (cc_clock t) st = drop_nonce n ?st" using True full by (simp add: make_room_def Let_def)
      moreover have "alone (challenge_access True E C) ?st (t\<lparr>cc_pc := CreateScan\<rparr>) [] (drop_nonce n ?st)
          (t\<lparr>cc_pc := CreateInsert\<rparr>)"
      proof -
        have "challenge_access True E C ?st (t\<lparr>cc_pc := CreateScan\<rparr>) [] ?st (t\<lparr>cc_pc := CreateEvict n\<rparr>)"
          using scan [of "t\<lparr>cc_pc := CreateScan\<rparr>" True ?st n E C] nc by simp
        moreover have "challenge_access True E C ?st (t\<lparr>cc_pc := CreateEvict n\<rparr>) [] (drop_nonce n ?st)
            (t\<lparr>cc_pc := CreateInsert\<rparr>)" using evict [of "t\<lparr>cc_pc := CreateEvict n\<rparr>" n True E C ?st] by simp
        ultimately show ?thesis by (rule silent_access [OF _ last_access])
      qed
      ultimately show ?thesis using scanned by simp
    qed
  qed
  from alone_trans [OF purged this] show ?thesis by simp
qed

text \<open>The operation of \<open>challenge_create\<close> is the check, the room, and the mint.\<close>

lemma challenge_create_mint:
  "challenge_create E C (cc_clock t) (cc_nonce_bytes t) (cc_now t) (cc_did t) st =
     (case validate_did_well_formed E (cc_did t) of
        Inl e \<Rightarrow> Some (st, Inl (Crypto e))
      | Inr _ \<Rightarrow>
          map_option (\<lambda>r. case r of
              Inl e \<Rightarrow> (make_room (cc_clock t) st, Inl e)
            | Inr c \<Rightarrow> (put_challenge c (make_room (cc_clock t) st), Inr c))
            (challenge_mint E C t (make_room (cc_clock t) st)))"
  by (simp add: challenge_create_def challenge_mint_def put_challenge_def rmap_def Let_def split: sum.split option.split)

theorem create_alone:
  assumes "cc_pc t = CreateCheck" "dmap_wf (cs_challenges st)"
    and "challenge_create E C (cc_clock t) (cc_nonce_bytes t) (cc_now t) (cc_did t) st = Some (st', r)"
  shows "alone (challenge_access True E C) st t (case r of Inl _ \<Rightarrow> [] | Inr c \<Rightarrow> [Issued c]) st'
    (t\<lparr>cc_pc := CallReturned r\<rparr>)"
proof (cases "validate_did_well_formed E (cc_did t)")
  case (Inl e)
  then show ?thesis using assms last_access [OF refused [OF assms(1) Inl]] by (auto simp: challenge_create_mint)
next
  case (Inr u)
  let ?t = "t\<lparr>cc_pc := CreateInsert\<rparr>" and ?st = "make_room (cc_clock t) st"
  have room: "alone (challenge_access True E C) st t [] ?st ?t"
    using silent_access [OF checked [OF assms(1) Inr] room_alone [of "t\<lparr>cc_pc := CreateLen\<rparr>" st E C]] assms(2) by simp
  from assms(3) Inr obtain m where m: "challenge_mint E C t ?st = Some m" by (auto simp: challenge_create_mint)
  have "alone (challenge_access True E C) ?st ?t (case r of Inl _ \<Rightarrow> [] | Inr c \<Rightarrow> [Issued c]) st'
      (t\<lparr>cc_pc := CallReturned r\<rparr>)"
    using assms(3) m Inr last_access [OF insert [of ?t E C ?st]] last_access [OF no_message [of ?t E C ?st]]
    by (cases m) (auto simp: challenge_create_mint)
  from alone_trans [OF room this] show ?thesis by simp
qed


lemma validate_alone:
  assumes "cc_pc t = ValidateRemove n" "challenge_validate (cc_clock t) n st = (st', r)"
  shows "alone (challenge_access atomic E C) st t (case r of Inl _ \<Rightarrow> [] | Inr c \<Rightarrow> [Redeemed (cc_clock t) n c]) st'
    (t\<lparr>cc_pc := CallReturned r\<rparr>)"
  using assms(2) unknown [OF assms(1)] expired [OF assms(1)] accepted [OF assms(1)]
  by (auto simp: challenge_validate_def drop_nonce_def Let_def not_le intro!: last_access split: option.splits if_splits)

section \<open>Single use\<close>

definition issued :: "string \<Rightarrow> challenge_event \<Rightarrow> bool" where
  "issued n e \<longleftrightarrow> (\<exists>c. e = Issued c \<and> ch_nonce c = n)"

definition redeemed :: "string \<Rightarrow> challenge_event \<Rightarrow> bool" where
  "redeemed n e \<longleftrightarrow> (\<exists>now c. e = Redeemed now n c)"

definition live :: "string \<Rightarrow> challenge_store \<Rightarrow> nat" where
  "live n st = (if map_of (cs_challenges st) n = None then 0 else 1)"

text \<open>A redemption takes the entry away, and only an issue puts one in.\<close>

lemma access_balanced:
  "challenge_access atomic E C st t es st' t' \<Longrightarrow>
     live n st' + length (filter (redeemed n) es) \<le> live n st + length (filter (issued n) es)"
  by (induction rule: challenge_access.induct) (auto simp: live_def redeemed_def issued_def)

interpretation nonces: ledger "challenge_access atomic E C" challenge_starts "live n" "redeemed n" "issued n"
  for atomic E C n
  by unfold_locales (rule access_balanced)

text \<open>Every entry was there at the start or was issued, and a redemption found one that was not over.\<close>

definition provenance :: "challenge_store \<Rightarrow> challenge_event list \<Rightarrow> string \<Rightarrow> challenge \<Rightarrow> bool" where
  "provenance st0 evs n c \<longleftrightarrow> map_of (cs_challenges st0) n = Some c \<or> (Issued c \<in> set evs \<and> ch_nonce c = n)"

lemma provenance_append: "provenance st0 evs n c \<Longrightarrow> provenance st0 (evs @ es) n c"
  by (auto simp: provenance_def)

lemma access_provenance:
  assumes "challenge_access atomic E C st t es st' t'" "\<forall>n c. map_of (cs_challenges st) n = Some c \<longrightarrow> provenance st0 evs n c"
  shows "(\<forall>n c. map_of (cs_challenges st') n = Some c \<longrightarrow> provenance st0 (evs @ es) n c) \<and>
    (\<forall>now n c. Redeemed now n c \<in> set es \<longrightarrow> now < ch_expires_at c \<and> provenance st0 evs n c)"
  using assms by induction (auto simp: provenance_def split: if_splits)

lemma run_provenance:
  assumes "interleaving (challenge_access atomic E C) challenge_starts st0 ts0 evs st ts"
  shows "(\<forall>n c. map_of (cs_challenges st) n = Some c \<longrightarrow> provenance st0 evs n c) \<and>
    (\<forall>now n c. Redeemed now n c \<in> set evs \<longrightarrow> now < ch_expires_at c \<and> provenance st0 evs n c)"
  using assms
proof (induction rule: interleaving.induct)
  case (access evs st ts i es st' t')
  have "\<forall>n c. map_of (cs_challenges st) n = Some c \<longrightarrow> provenance st0 evs n c" using access.IH by blast
  from access_provenance [OF access.hyps(3) this] access.IH show ?case by (auto intro: provenance_append)
qed (simp_all add: provenance_def)

text \<open>
  C7. A nonce is redeemed once however calls interleave: in every run of concurrent creations,
  validations and sweeps over one store, whatever the scans see, the successful validations of a nonce are
  at most the challenges issued under it, with one more if it was pending at the start; and each
  returned a challenge that was issued or pending under that nonce and not over.
\<close>

theorem concurrent_single_use:
  assumes "interleaving (challenge_access atomic E C) challenge_starts st0 ts0 evs st ts"
  shows "length (filter (redeemed n) evs) \<le>
      length (filter (issued n) evs) + (if map_of (cs_challenges st0) n = None then 0 else 1) \<and>
    (Redeemed now n c \<in> set evs \<longrightarrow> now < ch_expires_at c \<and>
       (map_of (cs_challenges st0) n = Some c \<or> (Issued c \<in> set evs \<and> ch_nonce c = n)))"
  using nonces.run_balanced [OF assms, of n] run_provenance [OF assms] by (auto simp: live_def provenance_def)

section \<open>The capacity under concurrent callers\<close>






text \<open>A creation that will succeed, with the challenge it makes.\<close>

definition ready_call ::
  "('x, 'z) crates_scheme \<Rightarrow> 'dt chrono \<Rightarrow> u64 \<Rightarrow> challenge_store \<Rightarrow> 'dt challenge_call \<Rightarrow> challenge \<Rightarrow> bool" where
  "ready_call E C clk st t c \<longleftrightarrow> cc_pc t = CreateCheck \<and> is_ok (validate_did_well_formed E (cc_did t)) \<and>
     cc_clock t = clk \<and> challenge_mint E C t st = Some (Inr c) \<and> clk < ch_expires_at c"







lemma ready_call_store [simp]:
  "ready_call E C clk (put_challenge d st) t c \<longleftrightarrow> ready_call E C clk st t c"
  "ready_call E C clk (drop_nonce n st) t c \<longleftrightarrow> ready_call E C clk st t c"
  by (simp_all add: ready_call_def)





section \<open>Runs at concrete values\<close>

definition ref_call :: "8 word \<Rightarrow> u64 \<Rightarrow> challenge_pc \<Rightarrow> int challenge_call" where
  "ref_call b clk pc = \<lparr>cc_did = ref_did, cc_nonce_bytes = [b], cc_now = 0, cc_clock = clk, cc_pc = pc\<rparr>"


definition ref_full :: challenge_store where
  "ref_full = ref_store\<lparr>cs_challenges := [(''0x00'', ref_challenge)]\<rparr>"





theorem concurrent_single_use_witness:
  "length (filter (redeemed ''0x00'') [Issued ref_challenge, Redeemed 5 ''0x00'' ref_challenge]) \<le>
     length (filter (issued ''0x00'') [Issued ref_challenge, Redeemed 5 ''0x00'' ref_challenge])"
proof -
  let ?run = "interleaving (challenge_access True ref_crates ref_chrono) challenge_starts ref_store"
  let ?ts = "[ref_call 0 0 CreateCheck, ref_call 0 5 (ValidateRemove ''0x00'')]"
  have a: "alone (challenge_access True ref_crates ref_chrono) ref_store (ref_call 0 0 CreateCheck) [Issued ref_challenge]
      ref_full (ref_call 0 0 (CallReturned (Inr ref_challenge)))"
    using create_alone [of "ref_call 0 0 CreateCheck" ref_store ref_crates ref_chrono ref_full "Inr ref_challenge"]
      ref_challenge_create by (simp add: ref_call_def ref_full_def ref_store_def challenge_with_capacity_def)
  have b: "challenge_access True ref_crates ref_chrono ref_full (ref_call 0 5 (ValidateRemove ''0x00''))
      [Redeemed 5 ''0x00'' ref_challenge] (drop_nonce ''0x00'' ref_full) (ref_call 0 5 (CallReturned (Inr ref_challenge)))"
    using accepted [of "ref_call 0 5 (ValidateRemove ''0x00'')" "''0x00''" ref_full ref_challenge True ref_crates ref_chrono]
    by (simp add: ref_call_def ref_full_def ref_challenge_def)
  have "?run ?ts [Issued ref_challenge] ref_full [ref_call 0 0 (CallReturned (Inr ref_challenge)), ref_call 0 5 (ValidateRemove ''0x00'')]"
    using alone_interleaves [OF a, of 0 ?ts challenge_starts] by simp
  from interleaving.access [OF this, of 1] b
  have "\<exists>st ts. ?run ?ts [Issued ref_challenge, Redeemed 5 ''0x00'' ref_challenge] st ts" by fastforce
  then obtain st ts where "?run ?ts [Issued ref_challenge, Redeemed 5 ''0x00'' ref_challenge] st ts" by blast
  from concurrent_single_use [OF this, of "''0x00''"] show ?thesis by (simp add: ref_store_def challenge_with_capacity_def)
qed

end
