(* ===== verification/Session_Backend.thy ===== *)
theory Session_Backend
  imports Message "HOL-Library.Product_Lexorder"
begin

text \<open>
  The storage seam of the session store (session\_backend.rs): the operations of the
  \<open>SessionBackend\<close> trait as a record over a type \<open>'b\<close> of back-end states, the trait's default
  sweep, the in-memory back end, the laws a back end promises, and the proof that the in-memory
  one keeps them.
\<close>

section \<open>The trait\<close>

record 'b session_backend =
  be_insert :: "session \<Rightarrow> 'b \<Rightarrow> 'b \<times> (auth_error + unit)"
  be_get :: "string \<Rightarrow> 'b \<Rightarrow> session option"
  be_remove :: "string \<Rightarrow> 'b \<Rightarrow> 'b \<times> bool"
  be_sessions_for_did :: "string \<Rightarrow> 'b \<Rightarrow> session list"
  be_remove_all_for_did :: "string \<Rightarrow> 'b \<Rightarrow> 'b \<times> nat"
  be_purge_expired :: "u64 \<Rightarrow> 'b \<Rightarrow> 'b \<times> nat"
  be_all :: "'b \<Rightarrow> session list"
  be_len :: "'b \<Rightarrow> nat"

text \<open>The default \<open>is_empty\<close>, and the default \<open>purge_expired\<close>, which counts the removals that
  found something.\<close>

definition default_is_empty :: "'b session_backend \<Rightarrow> 'b \<Rightarrow> bool" where
  "default_is_empty B b = (be_len B b = 0)"

fun remove_counting :: "'b session_backend \<Rightarrow> string list \<Rightarrow> 'b \<Rightarrow> 'b \<times> nat" where
  "remove_counting B [] b = (b, 0)"
| "remove_counting B (t # ts) b =
     (let (b1, removed) = be_remove B t b;
          (b2, n) = remove_counting B ts b1
      in (b2, if removed then Suc n else n))"

definition default_purge_expired :: "'b session_backend \<Rightarrow> u64 \<Rightarrow> 'b \<Rightarrow> 'b \<times> nat" where
  "default_purge_expired B now_secs b =
     (let expired = map se_token (filter (\<lambda>s. se_valid_until s \<le> now_secs) (be_all B b))
      in remove_counting B expired b)"

section \<open>InMemoryBackend\<close>

type_synonym in_memory_state = "(string, session) dmap"

definition in_memory_new :: in_memory_state where
  "in_memory_new = []"

definition in_memory_insert :: "session \<Rightarrow> in_memory_state \<Rightarrow> in_memory_state \<times> (auth_error + unit)" where
  "in_memory_insert session b = (AList.update (se_token session) session b, Inr ())"

definition in_memory_remove :: "string \<Rightarrow> in_memory_state \<Rightarrow> in_memory_state \<times> bool" where
  "in_memory_remove token b = (AList.delete token b, map_of b token \<noteq> None)"

definition in_memory_sessions_for_did :: "string \<Rightarrow> in_memory_state \<Rightarrow> session list" where
  "in_memory_sessions_for_did did b = map snd (filter (\<lambda>(_, s). se_did s = did) b)"

definition in_memory_remove_all_for_did :: "string \<Rightarrow> in_memory_state \<Rightarrow> in_memory_state \<times> nat" where
  "in_memory_remove_all_for_did did b =
     (let tokens = map fst (filter (\<lambda>(_, s). se_did s = did) b)
      in (foldl (\<lambda>b token. AList.delete token b) b tokens, length tokens))"

definition in_memory_purge_expired :: "u64 \<Rightarrow> in_memory_state \<Rightarrow> in_memory_state \<times> nat" where
  "in_memory_purge_expired now_secs b =
     (let b' = retain (\<lambda>_ s. se_valid_until s > now_secs) b in (b', length b - length b'))"

definition in_memory :: "in_memory_state session_backend" where
  "in_memory = \<lparr>
     be_insert = in_memory_insert,
     be_get = (\<lambda>token b. map_of b token),
     be_remove = in_memory_remove,
     be_sessions_for_did = in_memory_sessions_for_did,
     be_remove_all_for_did = in_memory_remove_all_for_did,
     be_purge_expired = in_memory_purge_expired,
     be_all = map snd,
     be_len = length\<rparr>"

section \<open>The laws\<close>

text \<open>
  What the store relies on, over an abstraction of the back-end state to a finite map from
  tokens to sessions. A back end whose store expires entries on its own may sweep nothing: the
  law of \<open>purge_expired\<close> is that live sessions stay and nothing appears.
\<close>

locale session_backend_laws =
  fixes B :: "'b session_backend"
    and inv :: "'b \<Rightarrow> bool"
    and abs :: "'b \<Rightarrow> string \<Rightarrow> session option"
  assumes keyed: "inv b \<Longrightarrow> abs b t = Some s \<Longrightarrow> se_token s = t"
    and finite_dom: "inv b \<Longrightarrow> finite (dom (abs b))"
    and insert_ok: "inv b \<Longrightarrow> be_insert B s b = (b', Inr ()) \<Longrightarrow>
          inv b' \<and> abs b' = (abs b)(se_token s \<mapsto> s)"
    and insert_error: "inv b \<Longrightarrow> be_insert B s b = (b', Inl e) \<Longrightarrow> inv b' \<and> abs b' = abs b"
    and get: "inv b \<Longrightarrow> be_get B t b = abs b t"
    and remove: "inv b \<Longrightarrow> be_remove B t b = (b', r) \<Longrightarrow>
          inv b' \<and> abs b' = (abs b)(t := None) \<and> r = (abs b t \<noteq> None)"
    and for_did: "inv b \<Longrightarrow> distinct (be_sessions_for_did B d b) \<and>
          set (be_sessions_for_did B d b) = {s. \<exists>t. abs b t = Some s \<and> se_did s = d}"
    and remove_all: "inv b \<Longrightarrow> be_remove_all_for_did B d b = (b', n) \<Longrightarrow>
          inv b' \<and> n = length (be_sessions_for_did B d b) \<and>
          abs b' = (\<lambda>t. case abs b t of None \<Rightarrow> None
                        | Some s \<Rightarrow> if se_did s = d then None else Some s)"
    and purge: "inv b \<Longrightarrow> be_purge_expired B now b = (b', n) \<Longrightarrow>
          inv b' \<and> (\<forall>t s. abs b' t = Some s \<longrightarrow> abs b t = Some s) \<and>
          (\<forall>t s. abs b t = Some s \<longrightarrow> now < se_valid_until s \<longrightarrow> abs b' t = Some s)"
    and all: "inv b \<Longrightarrow> set (be_all B b) = {s. \<exists>t. abs b t = Some s}"
    and len: "inv b \<Longrightarrow> be_len B b = card (dom (abs b))"

section \<open>The in-memory back end keeps them\<close>

definition in_memory_inv :: "in_memory_state \<Rightarrow> bool" where
  "in_memory_inv b \<longleftrightarrow> dmap_wf b \<and> (\<forall>(t, s) \<in> set b. se_token s = t)"

lemma delete_eq_filter: "AList.delete k m = filter (\<lambda>(k', _). k' \<noteq> k) m"
  by (simp add: AList.delete_eq eq_commute [of k])

lemma foldl_delete:
  "foldl (\<lambda>b token. AList.delete token b) b ts = filter (\<lambda>(k, _). k \<notin> set ts) b"
proof (induction ts arbitrary: b)
  case (Cons t ts)
  then show ?case
    by (simp add: delete_eq_filter) (rule filter_cong, auto)
qed simp

lemma dmap_wf_in: "dmap_wf m \<Longrightarrow> (k, v) \<in> set m \<Longrightarrow> (k, v') \<in> set m \<Longrightarrow> v = v'"
  by (metis dmap_wf_map_of_iff option.inject)

lemma key_in_filter:
  assumes "dmap_wf b" "(t, s) \<in> set b"
  shows "t \<in> set (map fst (filter (\<lambda>(_, s). P s) b)) \<longleftrightarrow> P s"
proof
  assume "t \<in> set (map fst (filter (\<lambda>(_, s). P s) b))"
  then obtain s' where "(t, s') \<in> set b" "P s'" by auto
  then show "P s" using dmap_wf_in [OF assms] by simp
next
  assume "P s"
  with assms(2) have "(t, s) \<in> set (filter (\<lambda>(_, s). P s) b)" by simp
  then show "t \<in> set (map fst (filter (\<lambda>(_, s). P s) b))" by (simp only: set_map) (rule rev_image_eqI, auto)
qed

lemma in_memory_remove_all_eq:
  "dmap_wf b \<Longrightarrow> in_memory_remove_all_for_did d b =
     (retain (\<lambda>_ s. se_did s \<noteq> d) b, length (filter (\<lambda>(_, s). se_did s = d) b))"
proof -
  assume wf: "dmap_wf b"
  have "filter (\<lambda>(k, _). k \<notin> set (map fst (filter (\<lambda>(_, s). se_did s = d) b))) b =
      filter (\<lambda>(_, s). se_did s \<noteq> d) b"
    by (rule filter_cong [OF refl]) (simp only: split_paired_all prod.case key_in_filter [OF wf])
  then show ?thesis
    by (simp add: in_memory_remove_all_for_did_def foldl_delete retain_def)
qed

lemma dmap_wf_snd_distinct:
  assumes "in_memory_inv b"
  shows "distinct (map snd (filter P b))"
proof -
  have "map se_token (map snd (filter P b)) = map fst (filter P b)"
    using assms by (auto simp: in_memory_inv_def)
  moreover have "distinct (map fst (filter P b))"
    using assms dmap_wf_filter [of b P] by (simp add: in_memory_inv_def dmap_wf_def)
  ultimately show ?thesis by (metis distinct_map)
qed

lemma in_memory_inv_map_of:
  "in_memory_inv b \<Longrightarrow> map_of b t = Some s \<longleftrightarrow> (t, s) \<in> set b"
  by (simp add: in_memory_inv_def dmap_wf_map_of_iff)

lemma in_memory_inv_filter: "in_memory_inv b \<Longrightarrow> in_memory_inv (filter P b)"
  by (auto simp: in_memory_inv_def)

lemma in_memory_inv_delete: "in_memory_inv b \<Longrightarrow> in_memory_inv (AList.delete t b)"
  unfolding delete_eq_filter by (rule in_memory_inv_filter)

lemma in_memory_inv_retain: "in_memory_inv b \<Longrightarrow> in_memory_inv (retain P b)"
  unfolding retain_def by (rule in_memory_inv_filter)

lemma in_memory_inv_update:
  "in_memory_inv b \<Longrightarrow> in_memory_inv (AList.update (se_token s) s b)"
proof -
  assume inv: "in_memory_inv b"
  have "(t, s') \<in> set (AList.update (se_token s) s b) \<Longrightarrow> se_token s' = t" for t s'
    using inv dmap_wf_update [of b "se_token s" s]
    by (subst (asm) dmap_wf_map_of_iff [symmetric])
       (auto simp: in_memory_inv_def dmap_wf_map_of_iff split: if_splits)
  with inv show ?thesis by (auto simp: in_memory_inv_def)
qed

interpretation mem: session_backend_laws in_memory in_memory_inv map_of
proof unfold_locales
  show "se_token s = t" if "in_memory_inv b" "map_of b t = Some s" for b t s
    using that by (auto simp: in_memory_inv_map_of) (auto simp: in_memory_inv_def)
  show "finite (dom (map_of b))" for b :: in_memory_state
    by (rule finite_dom_map_of)
  show "in_memory_inv b' \<and> map_of b' = (map_of b)(se_token s \<mapsto> s)"
    if "in_memory_inv b" "be_insert in_memory s b = (b', Inr ())" for b s b'
    using that in_memory_inv_update by (auto simp: in_memory_def in_memory_insert_def)
  show "in_memory_inv b' \<and> map_of b' = map_of b"
    if "in_memory_inv b" "be_insert in_memory s b = (b', Inl e)" for b s b' e
    using that by (auto simp: in_memory_def in_memory_insert_def)
  show "be_get in_memory t b = map_of b t" for t b
    by (simp add: in_memory_def)
  show "in_memory_inv b' \<and> map_of b' = (map_of b)(t := None) \<and> r = (map_of b t \<noteq> None)"
    if "in_memory_inv b" "be_remove in_memory t b = (b', r)" for b t b' r
    using that by (auto simp: in_memory_def in_memory_remove_def intro: in_memory_inv_delete)
  show "distinct (be_sessions_for_did in_memory d b) \<and>
      set (be_sessions_for_did in_memory d b) = {s. \<exists>t. map_of b t = Some s \<and> se_did s = d}"
    if "in_memory_inv b" for b d
    using that dmap_wf_snd_distinct [OF that]
    by (auto simp: in_memory_def in_memory_sessions_for_did_def in_memory_inv_map_of image_iff)
  show "in_memory_inv b' \<and> n = length (be_sessions_for_did in_memory d b) \<and>
      map_of b' = (\<lambda>t. case map_of b t of None \<Rightarrow> None
                       | Some s \<Rightarrow> if se_did s = d then None else Some s)"
    if "in_memory_inv b" "be_remove_all_for_did in_memory d b = (b', n)" for b d b' n
  proof -
    have wf: "dmap_wf b" using that(1) by (simp add: in_memory_inv_def)
    show ?thesis
      using that
      by (auto simp: in_memory_def in_memory_remove_all_eq [OF wf] map_of_retain [OF wf] fun_eq_iff
          in_memory_sessions_for_did_def in_memory_inv_retain split: option.splits)
  qed
  show "in_memory_inv b' \<and> (\<forall>t s. map_of b' t = Some s \<longrightarrow> map_of b t = Some s) \<and>
      (\<forall>t s. map_of b t = Some s \<longrightarrow> now < se_valid_until s \<longrightarrow> map_of b' t = Some s)"
    if "in_memory_inv b" "be_purge_expired in_memory now b = (b', n)" for b now b' n
  proof -
    have wf: "dmap_wf b" using that(1) by (simp add: in_memory_inv_def)
    show ?thesis
      using that
      by (auto simp: in_memory_def in_memory_purge_expired_def Let_def map_of_retain [OF wf]
          in_memory_inv_retain split: option.splits if_splits)
  qed
  show "set (be_all in_memory b) = {s. \<exists>t. map_of b t = Some s}" if "in_memory_inv b" for b
    using that by (force simp: in_memory_def in_memory_inv_map_of)
  show "be_len in_memory b = card (dom (map_of b))" if "in_memory_inv b" for b
  proof -
    have "distinct (map fst b)" using that by (simp add: in_memory_inv_def dmap_wf_def)
    then show ?thesis
      by (metis (no_types) distinct_card dom_map_of_conv_image_fst in_memory_def length_map
          session_backend.select_convs(8) set_map)
  qed
qed

section \<open>The default sweep\<close>

lemma remove_counting_in_memory:
  assumes "dmap_wf b" "distinct ts" "set ts \<subseteq> fst ` set b"
  shows "remove_counting in_memory ts b = (filter (\<lambda>(k, _). k \<notin> set ts) b, length ts)"
  using assms
proof (induction ts arbitrary: b)
  case (Cons t ts)
  let ?b = "AList.delete t b"
  have "set ts \<subseteq> fst ` set ?b"
    using Cons.prems by (force simp: delete_eq_filter)
  with Cons have "remove_counting in_memory ts ?b = (filter (\<lambda>(k, _). k \<notin> set ts) ?b, length ts)"
    by simp
  moreover have "map_of b t \<noteq> None"
    using Cons.prems(3) by (auto simp: map_of_eq_None_iff)
  moreover have "filter (\<lambda>(k, _). k \<notin> set ts) ?b = filter (\<lambda>(k, _). k \<notin> set (t # ts)) b"
    by (auto simp: delete_eq_filter intro!: filter_cong)
  ultimately show ?case
    by (simp add: in_memory_def in_memory_remove_def)
qed simp

text \<open>
  The sweep the in-memory back end overrides and the default it replaces are the same
  operation: the same sessions remain and the same number is reported.
\<close>

theorem purge_override_is_default:
  assumes "in_memory_inv b"
  shows "be_purge_expired in_memory now b = default_purge_expired in_memory now b"
proof -
  define ex where "ex = map se_token (filter (\<lambda>s. se_valid_until s \<le> now) (map snd b))"
  have wf: "dmap_wf b" and tok: "\<And>t s. (t, s) \<in> set b \<Longrightarrow> se_token s = t"
    using assms by (auto simp: in_memory_inv_def)
  have ex: "ex = map fst (filter (\<lambda>(_, s). se_valid_until s \<le> now) b)"
    unfolding ex_def filter_map using tok by (auto simp: comp_def split_beta intro!: map_cong filter_cong)
  then have "distinct ex"
    using wf dmap_wf_filter [of b] by (simp add: dmap_wf_def)
  moreover have "set ex \<subseteq> fst ` set b" by (auto simp: ex)
  ultimately have "default_purge_expired in_memory now b =
      (filter (\<lambda>(k, _). k \<notin> set ex) b, length ex)"
    using remove_counting_in_memory [OF wf]
    by (simp add: default_purge_expired_def ex_def in_memory_def)
  moreover have mem: "(t \<in> set ex) = (se_valid_until s \<le> now)" if "(t, s) \<in> set b" for t s
    unfolding ex by (rule key_in_filter [OF wf that])
  then have keep: "filter (\<lambda>(k, _). k \<notin> set ex) b = filter (\<lambda>(_, s). now < se_valid_until s) b"
    by (intro filter_cong) (auto simp: not_le)
  moreover have "length b - length (filter (\<lambda>(_, s). now < se_valid_until s) b) = length ex"
    using sum_length_filter_compl [of "\<lambda>p. now < se_valid_until (snd p)" b]
    by (simp add: ex split_beta' not_less)
  ultimately show ?thesis
    by (simp add: in_memory_def in_memory_purge_expired_def retain_def Let_def)
qed

theorem purge_override_is_default_witness:
  "be_purge_expired in_memory 5 [(''t'', \<lparr>se_did = ''d'', se_token = ''t'', se_valid_until = 5,
      se_created_at = 1\<rparr>)] =
   default_purge_expired in_memory 5 [(''t'', \<lparr>se_did = ''d'', se_token = ''t'', se_valid_until = 5,
      se_created_at = 1\<rparr>)]"
  by (rule purge_override_is_default) (simp add: in_memory_inv_def dmap_wf_def)

end
