(* ===== verification/Sessions.thy ===== *)
theory Sessions
  imports Session_Backend Challenges
begin

text \<open>
  The session store (session.rs), written over the operations of a back end, with one step of
  its background sweep. Its properties are proved for every back end that keeps the laws of
  \<open>session_backend_laws\<close> and read off for the in-memory one.
\<close>

section \<open>The store\<close>

definition DEFAULT_SESSION_TTL_SECS :: u64 where
  "DEFAULT_SESSION_TTL_SECS = 3600"

definition DEFAULT_CLEANUP_INTERVAL_SECS :: u64 where
  "DEFAULT_CLEANUP_INTERVAL_SECS = 60"

definition MAX_SESSIONS :: nat where
  "MAX_SESSIONS = 8192"

definition MAX_SESSIONS_PER_DID :: nat where
  "MAX_SESSIONS_PER_DID = 32"

record 'b session_store =
  ss_backend :: 'b
  ss_ttl_secs :: u64
  ss_max_sessions :: nat
  ss_max_sessions_per_did :: nat

definition session_with_backend :: "u64 \<Rightarrow> nat \<Rightarrow> nat \<Rightarrow> 'b \<Rightarrow> 'b session_store" where
  "session_with_backend ttl_secs max_sessions max_sessions_per_did backend =
     \<lparr>ss_backend = backend, ss_ttl_secs = ttl_secs, ss_max_sessions = max_sessions,
      ss_max_sessions_per_did = max_sessions_per_did\<rparr>"

definition session_with_capacity :: "u64 \<Rightarrow> nat \<Rightarrow> nat \<Rightarrow> in_memory_state session_store" where
  "session_with_capacity ttl_secs max_sessions max_sessions_per_did =
     session_with_backend ttl_secs max_sessions max_sessions_per_did in_memory_new"

definition session_new :: "u64 \<Rightarrow> in_memory_state session_store" where
  "session_new ttl_secs = session_with_capacity ttl_secs MAX_SESSIONS MAX_SESSIONS_PER_DID"

definition session_cleanup_expired ::
  "'b session_backend \<Rightarrow> u64 \<Rightarrow> 'b session_store \<Rightarrow> 'b session_store" where
  "session_cleanup_expired B now st = st\<lparr>ss_backend := fst (be_purge_expired B now (ss_backend st))\<rparr>"

definition enforce_per_did_cap ::
  "'b session_backend \<Rightarrow> string \<Rightarrow> 'b session_store \<Rightarrow> 'b session_store" where
  "enforce_per_did_cap B did st =
     (let this_did = map (\<lambda>s. (se_token s, se_created_at s)) (be_sessions_for_did B did (ss_backend st))
      in if length this_did < ss_max_sessions_per_did st then st
         else (case sort_key (\<lambda>(token, created_at). (created_at, token)) this_did of
                 (oldest_token, _) # _ \<Rightarrow>
                   st\<lparr>ss_backend := fst (be_remove B oldest_token (ss_backend st))\<rparr>
               | [] \<Rightarrow> st))"

definition session_create ::
  "'b session_backend \<Rightarrow> ('x, 'z) crates_scheme \<Rightarrow> u64 \<Rightarrow> bytes \<Rightarrow> u64 \<Rightarrow> string \<Rightarrow>
   'b session_store \<Rightarrow> 'b session_store \<times> (auth_error + session)" where
  "session_create B E now_purge token_bytes now did st =
     (let full = ss_max_sessions st \<le> be_len B (ss_backend st);
          st1 = (if full then session_cleanup_expired B now_purge st else st)
      in if full \<and> ss_max_sessions st1 \<le> be_len B (ss_backend st1)
         then (st1, Inl (SessionStoreFull (ss_max_sessions st1)))
         else
           (let st2 = enforce_per_did_cap B did st1;
                token = hex_encode E token_bytes;
                session = \<lparr>se_did = did, se_token = token, se_valid_until = now + ss_ttl_secs st2,
                           se_created_at = now\<rparr>
            in (case be_insert B session (ss_backend st2) of
                  (b, Inl e) \<Rightarrow> (st2\<lparr>ss_backend := b\<rparr>, Inl e)
                | (b, Inr _) \<Rightarrow> (st2\<lparr>ss_backend := b\<rparr>, Inr session))))"

definition session_revoke ::
  "'b session_backend \<Rightarrow> string \<Rightarrow> 'b session_store \<Rightarrow> 'b session_store \<times> bool" where
  "session_revoke B token st =
     (let (b, removed) = be_remove B token (ss_backend st) in (st\<lparr>ss_backend := b\<rparr>, removed))"

definition session_revoke_all_for_did ::
  "'b session_backend \<Rightarrow> string \<Rightarrow> 'b session_store \<Rightarrow> 'b session_store \<times> nat" where
  "session_revoke_all_for_did B did st =
     (let (b, n) = be_remove_all_for_did B did (ss_backend st) in (st\<lparr>ss_backend := b\<rparr>, n))"

definition session_validate ::
  "'b session_backend \<Rightarrow> u64 \<Rightarrow> string \<Rightarrow> 'b session_store \<Rightarrow>
   'b session_store \<times> (auth_error + string)" where
  "session_validate B now token st =
     (case be_get B token (ss_backend st) of
        None \<Rightarrow> (st, Inl SessionNotFound)
      | Some session \<Rightarrow>
          if se_valid_until session \<le> now
          then (st\<lparr>ss_backend := fst (be_remove B token (ss_backend st))\<rparr>, Inl SessionExpired)
          else (st, Inr (se_did session)))"

definition list_sessions :: "'b session_backend \<Rightarrow> u64 \<Rightarrow> 'b session_store \<Rightarrow> session_info list" where
  "list_sessions B now st =
     map (\<lambda>s. \<lparr>si_did = se_did s, si_created_at = se_created_at s, si_valid_until = se_valid_until s\<rparr>)
       (filter (\<lambda>s. se_valid_until s > now) (be_all B (ss_backend st)))"

definition active_count :: "'b session_backend \<Rightarrow> 'b session_store \<Rightarrow> u32" where
  "active_count B st = of_nat (be_len B (ss_backend st))"

text \<open>One tick of the background task: both stores are swept, then the task stops when no one
  else holds the session store (\<open>strong_count\<close> counts the task's own reference).\<close>

definition cleanup_tick ::
  "'b session_backend \<Rightarrow> u64 \<Rightarrow> u64 \<Rightarrow> nat \<Rightarrow> 'b session_store \<times> challenge_store \<Rightarrow>
   ('b session_store \<times> challenge_store) \<times> bool" where
  "cleanup_tick B now1 now2 strong_count = (\<lambda>(st, cst).
     ((session_cleanup_expired B now1 st, challenge_cleanup_expired now2 cst), strong_count \<le> 1))"

section \<open>The operations over a lawful back end\<close>

text \<open>The state of a creation after the sweep it makes at capacity.\<close>

definition swept :: "'b session_backend \<Rightarrow> u64 \<Rightarrow> 'b session_store \<Rightarrow> 'b session_store" where
  "swept B now_purge st =
     (if ss_max_sessions st \<le> be_len B (ss_backend st) then session_cleanup_expired B now_purge st
      else st)"

text \<open>The calls a client of the store makes, and the state each leaves behind.\<close>

datatype session_op =
    SCreate u64 bytes u64 string
  | SValidate u64 string
  | SRevoke string
  | SRevokeAll string
  | SCleanup u64

fun session_step ::
  "'b session_backend \<Rightarrow> ('x, 'z) crates_scheme \<Rightarrow> session_op \<Rightarrow> 'b session_store \<Rightarrow> 'b session_store"
where
  "session_step B E (SCreate now_purge tb now did) st = fst (session_create B E now_purge tb now did st)"
| "session_step B E (SValidate now token) st = fst (session_validate B now token st)"
| "session_step B E (SRevoke token) st = fst (session_revoke B token st)"
| "session_step B E (SRevokeAll did) st = fst (session_revoke_all_for_did B did st)"
| "session_step B E (SCleanup now) st = session_cleanup_expired B now st"

definition session_steps ::
  "'b session_backend \<Rightarrow> ('x, 'z) crates_scheme \<Rightarrow> session_op list \<Rightarrow> 'b session_store \<Rightarrow> 'b session_store"
where
  "session_steps B E ops st = foldl (\<lambda>st op. session_step B E op st) st ops"

text \<open>A call that neither names the session, nor opens another one for its DID, nor reads a
  clock at which the session is over.\<close>

fun spares :: "('x, 'z) crates_scheme \<Rightarrow> session \<Rightarrow> session_op \<Rightarrow> bool" where
  "spares E s (SCreate now_purge tb now did) =
     (did \<noteq> se_did s \<and> hex_encode E tb \<noteq> se_token s \<and> now_purge < se_valid_until s)"
| "spares E s (SValidate now token) = (token = se_token s \<longrightarrow> now < se_valid_until s)"
| "spares E s (SRevoke token) = (token \<noteq> se_token s)"
| "spares E s (SRevokeAll did) = (did \<noteq> se_did s)"
| "spares E s (SCleanup now) = (now < se_valid_until s)"

text \<open>A creation whose random bytes give the token.\<close>

fun draws :: "('x, 'z) crates_scheme \<Rightarrow> string \<Rightarrow> session_op \<Rightarrow> bool" where
  "draws E t (SCreate now_purge tb now did) = (hex_encode E tb = t)"
| "draws E t _ = False"

context session_backend_laws
begin

lemma cleanup_abs:
  assumes "inv (ss_backend st)"
  shows "inv (ss_backend (session_cleanup_expired B now st))"
    and "abs (ss_backend (session_cleanup_expired B now st)) t = Some s \<Longrightarrow> abs (ss_backend st) t = Some s"
    and "abs (ss_backend st) t = Some s \<Longrightarrow> now < se_valid_until s \<Longrightarrow>
         abs (ss_backend (session_cleanup_expired B now st)) t = Some s"
proof -
  obtain b' n where b: "be_purge_expired B now (ss_backend st) = (b', n)" by fastforce
  then have st: "ss_backend (session_cleanup_expired B now st) = b'"
    by (simp add: session_cleanup_expired_def)
  note p = purge [OF assms b]
  show "inv (ss_backend (session_cleanup_expired B now st))"
    "abs (ss_backend (session_cleanup_expired B now st)) t = Some s \<Longrightarrow> abs (ss_backend st) t = Some s"
    "abs (ss_backend st) t = Some s \<Longrightarrow> now < se_valid_until s \<Longrightarrow>
         abs (ss_backend (session_cleanup_expired B now st)) t = Some s"
    unfolding st using p by blast+
qed

lemma remove_fst:
  assumes "inv b"
  shows "inv (fst (be_remove B t b))" "abs (fst (be_remove B t b)) = (abs b)(t := None)"
  using remove [OF assms, of t] by (cases "be_remove B t b"; simp)+

text \<open>The victim of the per-DID cap: a session of that DID, no younger than any other of it.\<close>

lemma cap_cases:
  assumes "inv (ss_backend st)"
  obtains "enforce_per_did_cap B did st = st"
      "length (be_sessions_for_did B did (ss_backend st)) < ss_max_sessions_per_did st \<or>
       be_sessions_for_did B did (ss_backend st) = []"
  | v where "abs (ss_backend st) (se_token v) = Some v" "se_did v = did"
      "ss_max_sessions_per_did st \<le> length (be_sessions_for_did B did (ss_backend st))"
      "\<And>t s. abs (ss_backend st) t = Some s \<Longrightarrow> se_did s = did \<Longrightarrow>
         (se_created_at v, se_token v) \<le> (se_created_at s, t)"
      "enforce_per_did_cap B did st =
         st\<lparr>ss_backend := fst (be_remove B (se_token v) (ss_backend st))\<rparr>"
proof -
  let ?l = "be_sessions_for_did B did (ss_backend st)"
  let ?k = "\<lambda>(token, created_at). (created_at :: u64, token :: string)"
  let ?pairs = "map (\<lambda>s. (se_token s, se_created_at s)) ?l"
  show thesis
  proof (cases "length ?l < ss_max_sessions_per_did st \<or> ?l = []")
    case True
    then have "enforce_per_did_cap B did st = st"
      by (auto simp: enforce_per_did_cap_def Let_def)
    with that(1) True show thesis by blast
  next
    case False
    have "set (sort_key ?k ?pairs) = set ?pairs" by simp
    moreover have "sort_key ?k ?pairs \<noteq> []"
      using False length_sort [of ?k ?pairs] by (auto simp del: length_sort)
    then obtain p ps where p: "sort_key ?k ?pairs = p # ps"
      by (meson neq_Nil_conv)
    ultimately have "p \<in> set ?pairs" by (metis list.set_intros(1))
    then obtain v where v: "v \<in> set ?l" "p = (se_token v, se_created_at v)" by auto
    have "sorted (map ?k (p # ps))" using sorted_sort_key [of ?k ?pairs] p by simp
    then have min: "?k p \<le> ?k q" if "q \<in> set ?pairs" for q
      using that p set_sort [of ?k ?pairs] by auto
    have vs: "abs (ss_backend st) (se_token v) = Some v" "se_did v = did"
      using v(1) for_did [OF assms, of did] keyed [OF assms] by auto
    show thesis
    proof (rule that(2) [OF vs])
      show "ss_max_sessions_per_did st \<le> length ?l" using False by simp
      show "(se_created_at v, se_token v) \<le> (se_created_at s, t)"
        if "abs (ss_backend st) t = Some s" "se_did s = did" for t s
      proof -
        have "s \<in> set ?l" using that for_did [OF assms, of did] by auto
        then have "(se_token s, se_created_at s) \<in> set ?pairs" by auto
        then have "?k p \<le> ?k (se_token s, se_created_at s)" by (rule min)
        then show ?thesis using keyed [OF assms that(1)] v(2) by simp
      qed
      show "enforce_per_did_cap B did st =
          st\<lparr>ss_backend := fst (be_remove B (se_token v) (ss_backend st))\<rparr>"
        using False p v(2) by (simp add: enforce_per_did_cap_def Let_def)
    qed
  qed
qed

lemma cap_abs:
  assumes "inv (ss_backend st)"
  shows "inv (ss_backend (enforce_per_did_cap B did st))"
    and "abs (ss_backend (enforce_per_did_cap B did st)) t = Some s \<Longrightarrow> abs (ss_backend st) t = Some s"
    and "abs (ss_backend st) t = Some s \<Longrightarrow>
         abs (ss_backend (enforce_per_did_cap B did st)) t = None \<Longrightarrow>
         se_did s = did \<and>
         ss_max_sessions_per_did st \<le> length (be_sessions_for_did B did (ss_backend st)) \<and>
         (\<forall>t' s'. abs (ss_backend st) t' = Some s' \<longrightarrow> se_did s' = did \<longrightarrow>
            (se_created_at s, t) \<le> (se_created_at s', t'))"
proof -
  note assms [THEN cap_cases, of did]
  then show "inv (ss_backend (enforce_per_did_cap B did st))"
    by (rule) (simp_all add: assms remove_fst)
  show "abs (ss_backend (enforce_per_did_cap B did st)) t = Some s \<Longrightarrow> abs (ss_backend st) t = Some s"
    by (rule cap_cases [OF assms, of did]) (simp_all add: remove_fst [OF assms] split: if_splits)
  assume s: "abs (ss_backend st) t = Some s"
    and gone: "abs (ss_backend (enforce_per_did_cap B did st)) t = None"
  show "se_did s = did \<and>
         ss_max_sessions_per_did st \<le> length (be_sessions_for_did B did (ss_backend st)) \<and>
         (\<forall>t' s'. abs (ss_backend st) t' = Some s' \<longrightarrow> se_did s' = did \<longrightarrow>
            (se_created_at s, t) \<le> (se_created_at s', t'))"
  proof (rule cap_cases [OF assms, of did])
    assume "enforce_per_did_cap B did st = st"
    with s gone show ?thesis by simp
  next
    fix v
    assume v: "abs (ss_backend st) (se_token v) = Some v" "se_did v = did"
      "ss_max_sessions_per_did st \<le> length (be_sessions_for_did B did (ss_backend st))"
      "\<And>t s. abs (ss_backend st) t = Some s \<Longrightarrow> se_did s = did \<Longrightarrow>
         (se_created_at v, se_token v) \<le> (se_created_at s, t)"
      "enforce_per_did_cap B did st =
         st\<lparr>ss_backend := fst (be_remove B (se_token v) (ss_backend st))\<rparr>"
    have "t = se_token v" using gone s by (simp add: v(5) remove_fst [OF assms] split: if_splits)
    with s v(1) have "s = v" by simp
    with v \<open>t = se_token v\<close> show ?thesis by blast
  qed
qed

lemma cap_fields [simp]:
  "ss_ttl_secs (enforce_per_did_cap B did st) = ss_ttl_secs st"
  "ss_max_sessions (enforce_per_did_cap B did st) = ss_max_sessions st"
  "ss_max_sessions_per_did (enforce_per_did_cap B did st) = ss_max_sessions_per_did st"
  by (simp_all add: enforce_per_did_cap_def Let_def split: list.splits)

lemma session_cleanup_fields [simp]:
  "ss_ttl_secs (session_cleanup_expired B now st) = ss_ttl_secs st"
  "ss_max_sessions (session_cleanup_expired B now st) = ss_max_sessions st"
  "ss_max_sessions_per_did (session_cleanup_expired B now st) = ss_max_sessions_per_did st"
  by (simp_all add: session_cleanup_expired_def)

lemma swept_abs:
  assumes "inv (ss_backend st)"
  shows "inv (ss_backend (swept B now st))"
    and "abs (ss_backend (swept B now st)) t = Some s \<Longrightarrow> abs (ss_backend st) t = Some s"
    and "abs (ss_backend st) t = Some s \<Longrightarrow> abs (ss_backend (swept B now st)) t = None \<Longrightarrow>
         ss_max_sessions st \<le> be_len B (ss_backend st) \<and> se_valid_until s \<le> now"
proof -
  note c = cleanup_abs [OF assms, where now = now]
  show "inv (ss_backend (swept B now st))"
    "abs (ss_backend (swept B now st)) t = Some s \<Longrightarrow> abs (ss_backend st) t = Some s"
    using c(1,2) assms by (simp_all add: swept_def split: if_splits)
  assume s: "abs (ss_backend st) t = Some s" "abs (ss_backend (swept B now st)) t = None"
  then have full: "ss_max_sessions st \<le> be_len B (ss_backend st)"
    by (auto simp: swept_def split: if_splits)
  moreover have "\<not> now < se_valid_until s" using s full c(3) by (auto simp: swept_def)
  ultimately show "ss_max_sessions st \<le> be_len B (ss_backend st) \<and> se_valid_until s \<le> now" by simp
qed

lemma swept_fields [simp]:
  "ss_ttl_secs (swept B now st) = ss_ttl_secs st"
  "ss_max_sessions (swept B now st) = ss_max_sessions st"
  "ss_max_sessions_per_did (swept B now st) = ss_max_sessions_per_did st"
  by (simp_all add: swept_def)

lemma create_cases:
  assumes "session_create B E now_purge tb now did st = (st', r)"
  obtains "r = Inl (SessionStoreFull (ss_max_sessions st))" "st' = swept B now_purge st"
      "ss_max_sessions st \<le> be_len B (ss_backend (swept B now_purge st))"
  | e b where "r = Inl e" "st' = (enforce_per_did_cap B did (swept B now_purge st))\<lparr>ss_backend := b\<rparr>"
      "be_insert B \<lparr>se_did = did, se_token = hex_encode E tb, se_valid_until = now + ss_ttl_secs st,
         se_created_at = now\<rparr> (ss_backend (enforce_per_did_cap B did (swept B now_purge st))) = (b, Inl e)"
  | s b where "r = Inr s" "s = \<lparr>se_did = did, se_token = hex_encode E tb,
         se_valid_until = now + ss_ttl_secs st, se_created_at = now\<rparr>"
      "st' = (enforce_per_did_cap B did (swept B now_purge st))\<lparr>ss_backend := b\<rparr>"
      "be_insert B s (ss_backend (enforce_per_did_cap B did (swept B now_purge st))) = (b, Inr ())"
      "be_len B (ss_backend (swept B now_purge st)) < ss_max_sessions st"
  using assms
  by (auto simp: session_create_def Let_def swept_def not_le split: if_splits prod.splits sum.splits)

lemma create_abs:
  assumes "inv (ss_backend st)" "session_create B E now_purge tb now did st = (st', r)"
  shows "inv (ss_backend st')"
    and "abs (ss_backend st') t = Some s \<Longrightarrow> abs (ss_backend st) t = Some s \<or> r = Inr s \<and> t = se_token s"
    and "abs (ss_backend st) t = Some s \<Longrightarrow> abs (ss_backend st') t = None \<Longrightarrow>
         (ss_max_sessions st \<le> be_len B (ss_backend st) \<and> se_valid_until s \<le> now_purge) \<or>
         (se_did s = did \<and>
          (\<forall>t' s'. abs (ss_backend st) t' = Some s' \<longrightarrow> se_did s' = did \<longrightarrow>
             se_valid_until s' \<le> now_purge \<or> (se_created_at s, t) \<le> (se_created_at s', t')))"
    and "t \<noteq> hex_encode E tb \<Longrightarrow> abs (ss_backend st) t = Some s \<Longrightarrow>
         abs (ss_backend st') t = None \<or> abs (ss_backend st') t = Some s"
    and "r = Inr s \<Longrightarrow> abs (ss_backend st') (se_token s) = Some s"
proof -
  let ?st1 = "swept B now_purge st"
  let ?st2 = "enforce_per_did_cap B did ?st1"
  note w = swept_abs [OF assms(1), where now = now_purge]
  note c = cap_abs [OF w(1), where did = did]
  obtain m where m: "inv (ss_backend st')"
    "abs (ss_backend st') = m \<or> (\<exists>s. r = Inr s \<and> se_token s = hex_encode E tb \<and>
       abs (ss_backend st') = m(se_token s \<mapsto> s))"
    "m = abs (ss_backend ?st1) \<and> \<not> is_ok r \<or> m = abs (ss_backend ?st2)"
    "r = Inr s \<Longrightarrow> abs (ss_backend st') (se_token s) = Some s" for s
    using assms(2)
  proof (cases rule: create_cases)
    case 1
    with that [of "abs (ss_backend ?st1)"] w(1) show thesis by simp
  next
    case (2 e b)
    with that [of "abs (ss_backend ?st2)"] insert_error [OF c(1) 2(3)] show thesis by simp
  next
    case (3 s b)
    with that [of "abs (ss_backend ?st2)"] insert_ok [OF c(1) 3(4)] show thesis by auto
  qed
  show "inv (ss_backend st')" by (rule m(1))
  show "r = Inr s \<Longrightarrow> abs (ss_backend st') (se_token s) = Some s" by (rule m(4))
  have sub: "m t = Some s \<Longrightarrow> abs (ss_backend st) t = Some s" for t s
    using m(3) c(2) w(2) by auto
  show "abs (ss_backend st') t = Some s \<Longrightarrow> abs (ss_backend st) t = Some s \<or> r = Inr s \<and> t = se_token s"
    using m(2) sub by (auto split: if_splits)
  show "t \<noteq> hex_encode E tb \<Longrightarrow> abs (ss_backend st) t = Some s \<Longrightarrow>
         abs (ss_backend st') t = None \<or> abs (ss_backend st') t = Some s"
    using m(2) sub by (cases "m t") (auto split: if_splits)
  assume s: "abs (ss_backend st) t = Some s" "abs (ss_backend st') t = None"
  then have gone: "m t = None" using m(2) by (auto split: if_splits)
  show "(ss_max_sessions st \<le> be_len B (ss_backend st) \<and> se_valid_until s \<le> now_purge) \<or>
         (se_did s = did \<and>
          (\<forall>t' s'. abs (ss_backend st) t' = Some s' \<longrightarrow> se_did s' = did \<longrightarrow>
             se_valid_until s' \<le> now_purge \<or> (se_created_at s, t) \<le> (se_created_at s', t')))"
  proof (cases "abs (ss_backend ?st1) t")
    case None
    then show ?thesis using w(3) [OF s(1)] by simp
  next
    case (Some s1)
    then have s1: "s1 = s" using w(2) s(1) by force
    with Some gone m(3) have "abs (ss_backend ?st2) t = None" by auto
    from c(3) [OF Some [unfolded s1] this]
    have own: "se_did s = did" and min: "\<And>t' s'. abs (ss_backend ?st1) t' = Some s' \<Longrightarrow>
        se_did s' = did \<Longrightarrow> (se_created_at s, t) \<le> (se_created_at s', t')" by blast+
    have "se_valid_until s' \<le> now_purge \<or> (se_created_at s, t) \<le> (se_created_at s', t')"
      if "abs (ss_backend st) t' = Some s'" "se_did s' = did" for t' s'
    proof (cases "abs (ss_backend ?st1) t'")
      case None
      then show ?thesis using w(3) [OF that(1)] by simp
    next
      case (Some s2)
      then have "s2 = s'" using w(2) that(1) by force
      with Some min that(2) show ?thesis by blast
    qed
    with own show ?thesis by blast
  qed
qed

text \<open>Counting.\<close>

definition tokens_of :: "string \<Rightarrow> 'b \<Rightarrow> string set" where
  "tokens_of d b = {t. \<exists>s. abs b t = Some s \<and> se_did s = d}"

lemma tokens_of_finite: "inv b \<Longrightarrow> finite (tokens_of d b)"
  by (rule finite_subset [OF _ finite_dom]) (auto simp: tokens_of_def)

lemma did_card:
  assumes "inv b"
  shows "length (be_sessions_for_did B d b) = card (tokens_of d b)"
proof -
  have "inj_on se_token (set (be_sessions_for_did B d b))"
    using for_did [OF assms, of d] keyed [OF assms] by (auto simp: inj_on_def)
  moreover have "se_token ` set (be_sessions_for_did B d b) = tokens_of d b"
    using for_did [OF assms, of d] keyed [OF assms] by (auto simp: tokens_of_def image_iff)
  ultimately show ?thesis
    using for_did [OF assms, of d] by (metis card_image distinct_card)
qed

lemma tokens_of_shrink:
  "inv b \<Longrightarrow> (\<And>t s. abs b' t = Some s \<Longrightarrow> abs b t = Some s) \<Longrightarrow> card (tokens_of d b') \<le> card (tokens_of d b)"
  by (intro card_mono tokens_of_finite) (auto simp: tokens_of_def)

lemma len_shrink:
  "inv b \<Longrightarrow> inv b' \<Longrightarrow> (\<And>t s. abs b' t = Some s \<Longrightarrow> abs b t = Some s) \<Longrightarrow> be_len B b' \<le> be_len B b"
  unfolding len by (intro card_mono finite_dom) auto

lemma cap_count:
  assumes "inv (ss_backend st)" "card (tokens_of did (ss_backend st)) \<le> max (ss_max_sessions_per_did st) 1"
  shows "card (tokens_of did (ss_backend (enforce_per_did_cap B did st))) < max (ss_max_sessions_per_did st) 1"
proof (rule cap_cases [OF assms(1), of did])
  assume "enforce_per_did_cap B did st = st"
    "length (be_sessions_for_did B did (ss_backend st)) < ss_max_sessions_per_did st \<or>
     be_sessions_for_did B did (ss_backend st) = []"
  then show ?thesis using did_card [OF assms(1), of did] by auto
next
  fix v
  assume v: "abs (ss_backend st) (se_token v) = Some v" "se_did v = did"
    "enforce_per_did_cap B did st =
       st\<lparr>ss_backend := fst (be_remove B (se_token v) (ss_backend st))\<rparr>"
  have "tokens_of did (ss_backend (enforce_per_did_cap B did st)) =
      tokens_of did (ss_backend st) - {se_token v}"
    by (auto simp: v(3) tokens_of_def remove_fst [OF assms(1)] split: if_splits)
  moreover have "se_token v \<in> tokens_of did (ss_backend st)" using v by (auto simp: tokens_of_def)
  ultimately have "card (tokens_of did (ss_backend (enforce_per_did_cap B did st))) <
      card (tokens_of did (ss_backend st))"
    using tokens_of_finite [OF assms(1), of did] by (simp only: card_Diff1_less)
  with assms(2) show ?thesis by simp
qed

text \<open>The two bounds, as one predicate of a store.\<close>

definition within_caps :: "'b session_store \<Rightarrow> bool" where
  "within_caps st \<longleftrightarrow> inv (ss_backend st) \<and> be_len B (ss_backend st) \<le> ss_max_sessions st \<and>
     (\<forall>d. card (tokens_of d (ss_backend st)) \<le> max (ss_max_sessions_per_did st) 1)"

lemma within_caps_shrink:
  assumes "within_caps st" "inv (ss_backend st')"
    and "\<And>t s. abs (ss_backend st') t = Some s \<Longrightarrow> abs (ss_backend st) t = Some s"
    and "ss_max_sessions st' = ss_max_sessions st"
    and "ss_max_sessions_per_did st' = ss_max_sessions_per_did st"
  shows "within_caps st'"
  using assms len_shrink [of "ss_backend st" "ss_backend st'"]
    tokens_of_shrink [of "ss_backend st" "ss_backend st'"]
  unfolding within_caps_def by (metis order_trans)

lemma card_insert_le: "finite A \<Longrightarrow> card (insert x A) \<le> Suc (card A)"
  by (simp add: card_insert_if)

lemma within_caps_create:
  assumes "within_caps st"
    and "session_create B E now_purge tb now did st = (st', r)"
  shows "within_caps st'"
  using assms(2)
proof (cases rule: create_cases)
  case 1
  have inv: "inv (ss_backend st)" using assms(1) by (simp add: within_caps_def)
  show ?thesis using assms(1) swept_abs(1,2) [OF inv, where now = now_purge]
    unfolding 1 by (rule within_caps_shrink) simp_all
next
  case (2 e b)
  have inv: "inv (ss_backend st)" using assms(1) by (simp add: within_caps_def)
  note w = swept_abs [OF inv, where now = now_purge]
  note c = cap_abs [OF w(1), where did = did]
  note b = insert_error [OF c(1) 2(3)]
  show ?thesis using assms(1) by (rule within_caps_shrink) (use b c(2) w(2) in \<open>auto simp: 2(2)\<close>)
next
  case (3 s b)
  let ?st1 = "swept B now_purge st" and ?st2 = "enforce_per_did_cap B did (swept B now_purge st)"
  have inv: "inv (ss_backend st)" using assms(1) by (simp add: within_caps_def)
  note w = swept_abs [OF inv, where now = now_purge]
  note c = cap_abs [OF w(1), where did = did]
  note b = insert_ok [OF c(1) 3(4)]
  have caps1: "within_caps ?st1" using assms(1) w(1,2) by (rule within_caps_shrink) simp_all
  then have "within_caps ?st2" using c(1,2) by (rule within_caps_shrink) simp_all
  then have others: "card (tokens_of d (ss_backend ?st2)) \<le> max (ss_max_sessions_per_did st) 1" for d
    by (simp add: within_caps_def)
  have own: "card (tokens_of did (ss_backend ?st2)) < max (ss_max_sessions_per_did st) 1"
    using cap_count [OF w(1)] caps1 by (simp add: within_caps_def)
  have "be_len B b \<le> Suc (be_len B (ss_backend ?st2))"
    using b len [of b] len [OF c(1)] card_insert_le [OF finite_dom [OF c(1)], of "se_token s"] by simp
  also have "\<dots> \<le> Suc (be_len B (ss_backend ?st1))" using len_shrink [OF w(1) c(1,2)] by simp
  also have "\<dots> \<le> ss_max_sessions st" using 3(5) by simp
  finally have "be_len B b \<le> ss_max_sessions st" .
  moreover have "card (tokens_of d b) \<le> max (ss_max_sessions_per_did st) 1" for d
  proof (cases "d = did")
    case True
    have "tokens_of d b \<subseteq> insert (se_token s) (tokens_of d (ss_backend ?st2))"
      using b by (auto simp: tokens_of_def split: if_splits)
    then have "card (tokens_of d b) \<le> Suc (card (tokens_of d (ss_backend ?st2)))"
      using tokens_of_finite [OF c(1), of d] card_insert_le
      by (meson card_mono finite.insertI order_trans)
    with own True show ?thesis by simp
  next
    case False
    have "tokens_of d b \<subseteq> tokens_of d (ss_backend ?st2)"
      using b False 3(2) by (auto simp: tokens_of_def split: if_splits)
    then show ?thesis using others tokens_of_finite [OF c(1), of d] by (meson card_mono order_trans)
  qed
  ultimately show ?thesis using b by (simp add: within_caps_def 3(3))
qed

text \<open>The other calls only remove.\<close>

lemma validate_abs:
  assumes "inv (ss_backend st)" "session_validate B now token st = (st', r)"
  shows "inv (ss_backend st')"
    and "abs (ss_backend st') t = Some s \<Longrightarrow> abs (ss_backend st) t = Some s"
    and "abs (ss_backend st) t = Some s \<Longrightarrow> t = token \<longrightarrow> now < se_valid_until s \<Longrightarrow>
         abs (ss_backend st') t = Some s"
    and "r = (case abs (ss_backend st) token of None \<Rightarrow> Inl SessionNotFound
              | Some s \<Rightarrow> if se_valid_until s \<le> now then Inl SessionExpired else Inr (se_did s))"
    and "ss_max_sessions st' = ss_max_sessions st"
    and "ss_max_sessions_per_did st' = ss_max_sessions_per_did st"
  using assms(2) remove_fst [OF assms(1), of token] assms(1)
  by (auto simp: session_validate_def get [OF assms(1)] split: option.splits if_splits)

lemma revoke_abs:
  assumes "inv (ss_backend st)" "session_revoke B token st = (st', r)"
  shows "inv (ss_backend st')" "abs (ss_backend st') = (abs (ss_backend st))(token := None)"
    "r = (abs (ss_backend st) token \<noteq> None)"
    "ss_max_sessions st' = ss_max_sessions st"
    "ss_max_sessions_per_did st' = ss_max_sessions_per_did st"
  using assms(2) remove [OF assms(1), of token]
  by (auto simp: session_revoke_def split: prod.splits)

lemma revoke_all_abs:
  assumes "inv (ss_backend st)" "session_revoke_all_for_did B d st = (st', n)"
  shows "inv (ss_backend st')"
    "abs (ss_backend st') = (\<lambda>t. case abs (ss_backend st) t of None \<Rightarrow> None
                        | Some s \<Rightarrow> if se_did s = d then None else Some s)"
    "n = card (tokens_of d (ss_backend st))"
    "ss_max_sessions st' = ss_max_sessions st"
    "ss_max_sessions_per_did st' = ss_max_sessions_per_did st"
  using assms(2) remove_all [OF assms(1), of d] did_card [OF assms(1), of d]
  by (auto simp: session_revoke_all_for_did_def split: prod.splits)

lemma step_caps:
  assumes "within_caps st"
  shows "within_caps (session_step B E op st)"
proof -
  have inv: "inv (ss_backend st)" using assms(1) by (simp add: within_caps_def)
  show ?thesis
  proof (cases op)
    case (SCreate np tb now did)
    obtain st' r where v: "session_create B E np tb now did st = (st', r)" by fastforce
    from within_caps_create [OF assms v] SCreate v show ?thesis by simp
  next
    case (SValidate now token)
    obtain st' r where v: "session_validate B now token st = (st', r)" by fastforce
    note a = validate_abs [OF inv v]
    from assms(1) a(1,2,5,6) have "within_caps st'" by (rule within_caps_shrink)
    with SValidate v show ?thesis by simp
  next
    case (SRevoke token)
    obtain st' r where v: "session_revoke B token st = (st', r)" by fastforce
    note a = revoke_abs [OF inv v]
    have "abs (ss_backend st') t = Some s \<Longrightarrow> abs (ss_backend st) t = Some s" for t s
      by (simp add: a(2) split: if_splits)
    from assms(1) a(1) this a(4,5) have "within_caps st'" by (rule within_caps_shrink)
    with SRevoke v show ?thesis by simp
  next
    case (SRevokeAll d)
    obtain st' r where v: "session_revoke_all_for_did B d st = (st', r)" by fastforce
    note a = revoke_all_abs [OF inv v]
    have "abs (ss_backend st') t = Some s \<Longrightarrow> abs (ss_backend st) t = Some s" for t s
      by (simp add: a(2) split: option.splits if_splits)
    from assms(1) a(1) this a(4,5) have "within_caps st'" by (rule within_caps_shrink)
    with SRevokeAll v show ?thesis by simp
  next
    case (SCleanup now)
    from assms(1) cleanup_abs(1,2) [OF inv] session_cleanup_fields(2,3)
    have "within_caps (session_cleanup_expired B now st)" by (rule within_caps_shrink)
    with SCleanup show ?thesis by simp
  qed
qed

lemma step_fields:
  assumes "inv (ss_backend st)"
  shows "ss_max_sessions (session_step B E op st) = ss_max_sessions st"
    "ss_max_sessions_per_did (session_step B E op st) = ss_max_sessions_per_did st"
  by (cases op; auto simp: session_create_def session_validate_def session_revoke_def
      session_revoke_all_for_did_def Let_def split: prod.splits option.splits sum.splits)+

lemma steps_caps:
  assumes "within_caps st"
  shows "within_caps (session_steps B E ops st) \<and>
         ss_max_sessions (session_steps B E ops st) = ss_max_sessions st \<and>
         ss_max_sessions_per_did (session_steps B E ops st) = ss_max_sessions_per_did st"
  using assms
proof (induction ops arbitrary: st)
  case (Cons op ops)
  have inv: "inv (ss_backend st)" using Cons.prems by (simp add: within_caps_def)
  show ?case
    using Cons.IH [OF step_caps [OF Cons.prems, of E op]] step_fields [OF inv, of E op] Cons.prems
    by (simp add: session_steps_def)
qed (simp add: session_steps_def)

text \<open>A session survives every call that spares it.\<close>

lemma step_survives:
  assumes "inv (ss_backend st)" "abs (ss_backend st) (se_token s) = Some s" "spares E s op"
  shows "inv (ss_backend (session_step B E op st)) \<and>
         abs (ss_backend (session_step B E op st)) (se_token s) = Some s"
proof (cases op)
  case (SCreate np tb now did)
  obtain st' r where v: "session_create B E np tb now did st = (st', r)" by fastforce
  note a = create_abs [OF assms(1) v]
  from SCreate assms(3) have sp: "did \<noteq> se_did s" "se_token s \<noteq> hex_encode E tb"
    "np < se_valid_until s" by auto
  have "abs (ss_backend st') (se_token s) \<noteq> None"
    using a(3) [OF assms(2)] sp by (auto simp: not_le [symmetric])
  with a(4) [OF sp(2) assms(2)] a(1) SCreate v show ?thesis by simp
next
  case (SValidate now token)
  obtain st' r where v: "session_validate B now token st = (st', r)" by fastforce
  from validate_abs(1,3) [OF assms(1) v] SValidate assms v show ?thesis by auto
next
  case (SRevoke token)
  obtain st' r where v: "session_revoke B token st = (st', r)" by fastforce
  from revoke_abs(1,2) [OF assms(1) v] SRevoke assms v show ?thesis by auto
next
  case (SRevokeAll d)
  obtain st' r where v: "session_revoke_all_for_did B d st = (st', r)" by fastforce
  from revoke_all_abs(1,2) [OF assms(1) v] SRevokeAll assms v show ?thesis by auto
next
  case (SCleanup now)
  with cleanup_abs(1,3) [OF assms(1)] assms show ?thesis by simp
qed

lemma steps_survive:
  assumes "inv (ss_backend st)" "abs (ss_backend st) (se_token s) = Some s"
    and "\<And>op. op \<in> set ops \<Longrightarrow> spares E s op"
  shows "inv (ss_backend (session_steps B E ops st)) \<and>
         abs (ss_backend (session_steps B E ops st)) (se_token s) = Some s"
  using assms
proof (induction ops arbitrary: st)
  case (Cons op ops)
  then have "inv (ss_backend (session_step B E op st)) \<and>
      abs (ss_backend (session_step B E op st)) (se_token s) = Some s"
    by (intro step_survives) auto
  with Cons show ?case by (simp add: session_steps_def)
qed (simp add: session_steps_def)

text \<open>A token that is gone comes back only when a creation draws it.\<close>

lemma step_absent:
  assumes "inv (ss_backend st)" "abs (ss_backend st) t = None"
    and "\<not> draws E t op"
  shows "inv (ss_backend (session_step B E op st)) \<and> abs (ss_backend (session_step B E op st)) t = None"
proof (cases op)
  case (SCreate np tb now did)
  obtain st' r where v: "session_create B E np tb now did st = (st', r)" by fastforce
  note a = create_abs [OF assms(1) v]
  have "t \<noteq> se_token s" if "r = Inr s" for s
    using v that assms(3) SCreate by (auto elim!: create_cases)
  then have "abs (ss_backend st') t = None" using a(2) [of t] assms(2) by (cases "abs (ss_backend st') t") auto
  with a(1) SCreate v show ?thesis by simp
next
  case (SValidate now token)
  obtain st' r where v: "session_validate B now token st = (st', r)" by fastforce
  have "abs (ss_backend st') t = None"
    using validate_abs(2) [OF assms(1) v, of t] assms(2) by (cases "abs (ss_backend st') t") auto
  with validate_abs(1) [OF assms(1) v] SValidate v show ?thesis by simp
next
  case (SRevoke token)
  obtain st' r where v: "session_revoke B token st = (st', r)" by fastforce
  from revoke_abs(1,2) [OF assms(1) v] SRevoke assms v show ?thesis by auto
next
  case (SRevokeAll d)
  obtain st' r where v: "session_revoke_all_for_did B d st = (st', r)" by fastforce
  from revoke_all_abs(1,2) [OF assms(1) v] SRevokeAll assms v show ?thesis by auto
next
  case (SCleanup now)
  have "abs (ss_backend (session_cleanup_expired B now st)) t = None"
    using cleanup_abs(2) [OF assms(1), of now t] assms(2)
    by (cases "abs (ss_backend (session_cleanup_expired B now st)) t") auto
  with SCleanup cleanup_abs(1) [OF assms(1)] show ?thesis by simp
qed

lemma steps_absent:
  assumes "inv (ss_backend st)" "abs (ss_backend st) t = None"
    and "\<forall>op \<in> set ops. \<not> draws E t op"
  shows "inv (ss_backend (session_steps B E ops st)) \<and> abs (ss_backend (session_steps B E ops st)) t = None"
  using assms
proof (induction ops arbitrary: st)
  case (Cons op ops)
  have "inv (ss_backend (session_step B E op st)) \<and> abs (ss_backend (session_step B E op st)) t = None"
    by (rule step_absent [OF Cons.prems(1,2)]) (use Cons.prems(3) in simp)
  with Cons.IH [of "session_step B E op st"] Cons.prems(3) show ?case
    by (simp add: session_steps_def)
qed (simp add: session_steps_def)

lemma validate_result:
  "inv (ss_backend st) \<Longrightarrow> snd (session_validate B now token st) =
     (case abs (ss_backend st) token of None \<Rightarrow> Inl SessionNotFound
      | Some s \<Rightarrow> if se_valid_until s \<le> now then Inl SessionExpired else Inr (se_did s))"
  using validate_abs(4) by (cases "session_validate B now token st") auto

end

section \<open>Properties of the store over the in-memory back end\<close>

lemma in_memory_inv_Nil [simp]: "in_memory_inv []"
  by (simp add: in_memory_inv_def)

text \<open>
  C15. Sessions of different identities do not interfere. A session that was opened stays valid
  for its DID until its time is over, through any sequence of calls by anyone, as long as none
  of them revokes it, opens another session for the same DID or happens to draw its token: no
  flood of logins evicts it and no sweep before its end removes it.
\<close>

theorem session_survives:
  assumes "in_memory_inv (ss_backend st)"
    and "session_create in_memory E now_purge tb now did st = (st1, Inr s)"
    and "\<forall>op \<in> set ops. spares E s op"
    and "t < se_valid_until s"
  shows "snd (session_validate in_memory t (se_token s) (session_steps in_memory E ops st1)) = Inr did"
proof -
  note a = mem.create_abs [OF assms(1,2)]
  have "se_did s = did" using assms(2) by (auto elim!: mem.create_cases)
  with mem.steps_survive [OF a(1) a(5) [OF refl], of ops E] assms(3,4) show ?thesis
    by (simp add: mem.validate_result not_le [symmetric])
qed

definition ref_session :: session where
  "ref_session = \<lparr>se_did = ''d'', se_token = ''00'', se_valid_until = 110, se_created_at = 100\<rparr>"

lemma ref_session_create:
  "session_create in_memory ref_crates 0 [0] 100 ''d'' (session_with_capacity 10 2 1) =
     ((session_with_capacity 10 2 1)\<lparr>ss_backend := [(''00'', ref_session)]\<rparr>, Inr ref_session)"
proof -
  have "hex_encode ref_crates [0] = ''00''"
    by (simp add: ref_crates_def ref_hex_encode_def show_byte_02x_def hex_digit_def) code_simp
  then show ?thesis
    by (simp add: session_create_def session_with_capacity_def session_with_backend_def
        in_memory_new_def in_memory_def in_memory_insert_def enforce_per_did_cap_def
        in_memory_sessions_for_did_def ref_session_def Let_def)
qed

theorem session_survives_witness:
  "snd (session_validate in_memory 109 (se_token ref_session)
     (session_steps in_memory ref_crates [SCleanup 109, SRevoke ''x'', SRevokeAll ''e'', SValidate 105 ''00'']
       ((session_with_capacity 10 2 1)\<lparr>ss_backend := [(''00'', ref_session)]\<rparr>))) = Inr ''d''"
  by (rule session_survives [OF _ ref_session_create])
     (simp_all add: ref_session_def session_with_capacity_def session_with_backend_def in_memory_new_def)

text \<open>
  C17. Both caps hold after every sequence of calls on a new store, one call at a time: the total never exceeds
  \<open>max_sessions\<close>, and no DID ever holds more than \<open>max_sessions_per_did\<close> sessions, or one
  where that is zero: the quota evicts before it inserts and never refuses.
\<close>

theorem session_caps:
  "be_len in_memory (ss_backend (session_steps in_memory E ops
     (session_with_capacity ttl max_total max_per_did))) \<le> max_total \<and>
   length (be_sessions_for_did in_memory did (ss_backend (session_steps in_memory E ops
     (session_with_capacity ttl max_total max_per_did)))) \<le> max max_per_did 1"
proof -
  let ?st = "session_with_capacity ttl max_total max_per_did"
  have "mem.within_caps ?st"
    unfolding mem.within_caps_def mem.tokens_of_def
    by (simp add: session_with_capacity_def session_with_backend_def in_memory_new_def in_memory_def)
  from mem.steps_caps [OF this, of E ops]
  have "mem.within_caps (session_steps in_memory E ops ?st)"
    "ss_max_sessions (session_steps in_memory E ops ?st) = max_total"
    "ss_max_sessions_per_did (session_steps in_memory E ops ?st) = max_per_did"
    by (simp_all add: session_with_capacity_def session_with_backend_def)
  then show ?thesis
    by (simp add: mem.within_caps_def mem.did_card)
qed

text \<open>With a quota of zero a DID does hold one session.\<close>

lemma zero_quota_holds_one:
  "session_create in_memory ref_crates 0 [0] 100 ''d'' (session_with_capacity 10 2 0) =
     ((session_with_capacity 10 2 0)\<lparr>ss_backend := [(''00'', ref_session)]\<rparr>, Inr ref_session)"
proof -
  have "hex_encode ref_crates [0] = ''00''"
    by (simp add: ref_crates_def ref_hex_encode_def show_byte_02x_def hex_digit_def) code_simp
  then show ?thesis
    by (simp add: session_create_def session_with_capacity_def session_with_backend_def
        in_memory_new_def in_memory_def in_memory_insert_def enforce_per_did_cap_def
        in_memory_sessions_for_did_def ref_session_def Let_def)
qed

text \<open>
  What one creation does to the other sessions. Nothing appears but the new session; a
  session that disappears had expired while the store was full, or belongs to the same DID and
  is the oldest of its unexpired ones. If the call is refused the store was full of sessions
  and nothing unexpired is lost.
\<close>

theorem session_create_effect:
  assumes "in_memory_inv (ss_backend st)"
    and "session_create in_memory E now_purge tb now did st = (st', r)"
  shows "(\<forall>t s. map_of (ss_backend st') t = Some s \<longrightarrow>
            map_of (ss_backend st) t = Some s \<or> r = Inr s \<and> t = se_token s) \<and>
         (\<forall>t s. map_of (ss_backend st) t = Some s \<longrightarrow> map_of (ss_backend st') t = None \<longrightarrow>
            ss_max_sessions st \<le> length (ss_backend st) \<and> se_valid_until s \<le> now_purge \<or>
            is_ok r \<and> se_did s = did \<and>
            (\<forall>t' s'. map_of (ss_backend st) t' = Some s' \<longrightarrow> se_did s' = did \<longrightarrow>
               se_valid_until s' \<le> now_purge \<or> (se_created_at s, t) \<le> (se_created_at s', t'))) \<and>
         (\<forall>e. r = Inl e \<longrightarrow> e = SessionStoreFull (ss_max_sessions st) \<and>
            ss_max_sessions st \<le> length (ss_backend st'))"
proof -
  note a = mem.create_abs [OF assms]
  have err: "e = SessionStoreFull (ss_max_sessions st) \<and> st' = swept in_memory now_purge st \<and>
      ss_max_sessions st \<le> length (ss_backend st')" if "r = Inl e" for e
    using assms(2)
  proof (cases rule: mem.create_cases)
    case (2 e b)
    then show ?thesis by (simp add: in_memory_def in_memory_insert_def)
  qed (use that in \<open>auto simp: in_memory_def\<close>)
  have gone: "ss_max_sessions st \<le> length (ss_backend st) \<and> se_valid_until s \<le> now_purge"
    if "r = Inl e" "map_of (ss_backend st) t = Some s" "map_of (ss_backend st') t = None" for e t s
    using mem.swept_abs(3) [OF assms(1) that(2), of now_purge] err [OF that(1)] that(3)
    by (simp add: in_memory_def)
  have "ss_max_sessions st \<le> length (ss_backend st) \<and> se_valid_until s \<le> now_purge \<or>
      is_ok r \<and> se_did s = did \<and>
      (\<forall>t' s'. map_of (ss_backend st) t' = Some s' \<longrightarrow> se_did s' = did \<longrightarrow>
         se_valid_until s' \<le> now_purge \<or> (se_created_at s, t) \<le> (se_created_at s', t'))"
    if "map_of (ss_backend st) t = Some s" "map_of (ss_backend st') t = None" for t s
  proof (cases r)
    case (Inl e)
    with gone [OF Inl that] show ?thesis by blast
  next
    case (Inr x)
    with a(3) [OF that] show ?thesis by (simp add: in_memory_def)
  qed
  with a(2) err show ?thesis by blast
qed

theorem session_create_effect_witness:
  "map_of (ss_backend (session_with_capacity 10 2 1)) ''00'' = Some ref_session \<or>
   Inr ref_session = (Inr ref_session :: auth_error + session) \<and> ''00'' = se_token ref_session"
  by (rule session_create_effect [OF _ ref_session_create, THEN conjunct1, rule_format])
     (simp_all add: session_with_capacity_def session_with_backend_def in_memory_new_def)

text \<open>
  C16. Revocation is final: after \<open>revoke\<close> or \<open>revoke_all_for_did\<close> the token is refused with
  \<open>SessionNotFound\<close>, through any further calls, unless a later creation draws the same token.
\<close>

theorem revoked_stays_revoked:
  assumes "in_memory_inv (ss_backend st)"
    and "st1 = fst (session_revoke in_memory token st) \<or>
         st1 = fst (session_revoke_all_for_did in_memory did st) \<and>
           (\<exists>s. map_of (ss_backend st) token = Some s \<and> se_did s = did)"
    and "\<forall>op \<in> set ops. \<not> draws E token op"
  shows "snd (session_validate in_memory t token (session_steps in_memory E ops st1)) =
           Inl SessionNotFound"
proof -
  have "in_memory_inv (ss_backend st1) \<and> map_of (ss_backend st1) token = None"
    using assms(2)
  proof
    assume "st1 = fst (session_revoke in_memory token st)"
    then show ?thesis
      using mem.revoke_abs(1,2) [OF assms(1)] by (cases "session_revoke in_memory token st") auto
  next
    assume "st1 = fst (session_revoke_all_for_did in_memory did st) \<and>
           (\<exists>s. map_of (ss_backend st) token = Some s \<and> se_did s = did)"
    then show ?thesis
      using mem.revoke_all_abs(1,2) [OF assms(1)]
      by (cases "session_revoke_all_for_did in_memory did st") auto
  qed
  then have "in_memory_inv (ss_backend (session_steps in_memory E ops st1)) \<and>
      map_of (ss_backend (session_steps in_memory E ops st1)) token = None"
    using assms(3) by (intro mem.steps_absent) auto
  then show ?thesis by (simp add: mem.validate_result)
qed

theorem revoked_stays_revoked_witness:
  "snd (session_validate in_memory 105 ''00'' (session_steps in_memory ref_crates [SCleanup 103]
     (fst (session_revoke in_memory ''00''
       ((session_with_capacity 10 2 1)\<lparr>ss_backend := [(''00'', ref_session)]\<rparr>))))) =
   Inl SessionNotFound"
  by (rule revoked_stays_revoked [where did = "''d''", OF _ disjI1 [OF refl]])
     (simp_all add: in_memory_inv_def dmap_wf_def ref_session_def)

end
