(* ===== verification/Shared_Sessions.thy ===== *)
theory Shared_Sessions
  imports Interleaving Sessions
begin

text \<open>
  The session store with its in-memory back end under concurrent callers (session.rs and
  session\_backend.rs). A call is the sequence of its accesses to the shared \<open>DashMap\<close>, each atomic,
  and calls interleave; \<open>atomic\<close> says that a scan or a \<open>retain\<close> sees the map at one moment (\<open>len\<close>
  always does). \<open>checks\<close> is a build with overflow checks: there the subtraction of \<open>purge_expired\<close>
  panics below zero. Without them the count wraps and \<open>cleanup_expired\<close> drops it.
\<close>

section \<open>Calls\<close>

datatype session_ret =
    RetCreate "auth_error + session" | RetValidate "auth_error + string" | RetRevoke bool | RetRevokeAll nat | RetCleanup

datatype session_pc =
    OpenLen | OpenBefore | OpenPurge nat | OpenAfter nat | OpenLenAgain | OpenScan | OpenEvict string | OpenInsert
  | CheckGet | CheckRemove
  | RevokeOne
  | RevokeScan | RevokeEach "string list" nat
  | SweepBefore | SweepSessions nat | SweepAfter nat
  | SessionPanicked
  | SessionReturned session_ret

record session_call =
  sc_did :: string
  sc_token :: string
  sc_token_bytes :: bytes
  sc_now :: u64
  sc_clock :: u64
  sc_pc :: session_pc

datatype session_event = Opened session | Accepted u64 string session

type_synonym shared_sessions = "in_memory_state session_store"

definition drop_session :: "string \<Rightarrow> shared_sessions \<Rightarrow> shared_sessions" where
  "drop_session tok st = st\<lparr>ss_backend := AList.delete tok (ss_backend st)\<rparr>"

definition put_session :: "session \<Rightarrow> shared_sessions \<Rightarrow> shared_sessions" where
  "put_session s st = st\<lparr>ss_backend := AList.update (se_token s) s (ss_backend st)\<rparr>"

definition no_session_over :: "u64 \<Rightarrow> shared_sessions \<Rightarrow> bool" where
  "no_session_over now st \<longleftrightarrow> (\<forall>(_, s) \<in> set (ss_backend st). now < se_valid_until s)"

text \<open>The session \<open>enforce_per_did_cap\<close> removes, if any.\<close>

definition cap_victim :: "string \<Rightarrow> shared_sessions \<Rightarrow> string option" where
  "cap_victim did st =
     (let this_did = map (\<lambda>s. (se_token s, se_created_at s)) (in_memory_sessions_for_did did (ss_backend st))
      in if length this_did < ss_max_sessions_per_did st then None
         else (case sort_key (\<lambda>(token, created_at). (created_at, token)) this_did of
                 (oldest_token, _) # _ \<Rightarrow> Some oldest_token | [] \<Rightarrow> None))"

definition new_session :: "('x, 'z) crates_scheme \<Rightarrow> session_call \<Rightarrow> shared_sessions \<Rightarrow> session" where
  "new_session E t st =
     \<lparr>se_did = sc_did t, se_token = hex_encode E (sc_token_bytes t), se_valid_until = sc_now t + ss_ttl_secs st,
      se_created_at = sc_now t\<rparr>"

definition did_tokens :: "string \<Rightarrow> shared_sessions \<Rightarrow> string list" where
  "did_tokens did st = map fst (filter (\<lambda>(_, s). se_did s = did) (ss_backend st))"

inductive session_access ::
  "bool \<Rightarrow> bool \<Rightarrow> ('x, 'z) crates_scheme \<Rightarrow> shared_sessions \<Rightarrow> session_call \<Rightarrow> session_event list \<Rightarrow> shared_sessions \<Rightarrow>
   session_call \<Rightarrow> bool"
  for atomic checks E where
  len_full: "sc_pc t = OpenLen \<Longrightarrow> ss_max_sessions st \<le> length (ss_backend st) \<Longrightarrow>
     session_access atomic checks E st t [] st (t\<lparr>sc_pc := OpenBefore\<rparr>)"
| len_room: "sc_pc t = OpenLen \<Longrightarrow> length (ss_backend st) < ss_max_sessions st \<Longrightarrow>
     session_access atomic checks E st t [] st (t\<lparr>sc_pc := OpenScan\<rparr>)"
| before: "sc_pc t = OpenBefore \<Longrightarrow>
     session_access atomic checks E st t [] st (t\<lparr>sc_pc := OpenPurge (length (ss_backend st))\<rparr>)"
| purge_drop: "sc_pc t = OpenPurge n \<or> sc_pc t = SweepSessions n \<Longrightarrow> map_of (ss_backend st) tok = Some s \<Longrightarrow>
     se_valid_until s \<le> sc_clock t \<Longrightarrow> session_access atomic checks E st t [] (drop_session tok st) t"
| purge_end: "sc_pc t = OpenPurge n \<Longrightarrow> atomic \<longrightarrow> no_session_over (sc_clock t) st \<Longrightarrow>
     session_access atomic checks E st t [] st (t\<lparr>sc_pc := OpenAfter n\<rparr>)"
| after: "sc_pc t = OpenAfter n \<Longrightarrow> checks \<longrightarrow> length (ss_backend st) \<le> n \<Longrightarrow>
     session_access atomic checks E st t [] st (t\<lparr>sc_pc := OpenLenAgain\<rparr>)"
| underflow: "sc_pc t = OpenAfter n \<or> sc_pc t = SweepAfter n \<Longrightarrow> checks \<Longrightarrow> n < length (ss_backend st) \<Longrightarrow>
     session_access atomic checks E st t [] st (t\<lparr>sc_pc := SessionPanicked\<rparr>)"
| again_full: "sc_pc t = OpenLenAgain \<Longrightarrow> ss_max_sessions st \<le> length (ss_backend st) \<Longrightarrow>
     session_access atomic checks E st t [] st
       (t\<lparr>sc_pc := SessionReturned (RetCreate (Inl (SessionStoreFull (ss_max_sessions st))))\<rparr>)"
| again_room: "sc_pc t = OpenLenAgain \<Longrightarrow> length (ss_backend st) < ss_max_sessions st \<Longrightarrow>
     session_access atomic checks E st t [] st (t\<lparr>sc_pc := OpenScan\<rparr>)"
| scan: "sc_pc t = OpenScan \<Longrightarrow> atomic \<longrightarrow> cap_victim (sc_did t) st = Some tok \<Longrightarrow>
     session_access atomic checks E st t [] st (t\<lparr>sc_pc := OpenEvict tok\<rparr>)"
| scan_none: "sc_pc t = OpenScan \<Longrightarrow> atomic \<longrightarrow> cap_victim (sc_did t) st = None \<Longrightarrow>
     session_access atomic checks E st t [] st (t\<lparr>sc_pc := OpenInsert\<rparr>)"
| evict: "sc_pc t = OpenEvict tok \<Longrightarrow>
     session_access atomic checks E st t [] (drop_session tok st) (t\<lparr>sc_pc := OpenInsert\<rparr>)"
| insert: "sc_pc t = OpenInsert \<Longrightarrow> s = new_session E t st \<Longrightarrow>
     session_access atomic checks E st t [Opened s] (put_session s st) (t\<lparr>sc_pc := SessionReturned (RetCreate (Inr s))\<rparr>)"
| get_unknown: "sc_pc t = CheckGet \<Longrightarrow> map_of (ss_backend st) (sc_token t) = None \<Longrightarrow>
     session_access atomic checks E st t [] st (t\<lparr>sc_pc := SessionReturned (RetValidate (Inl SessionNotFound))\<rparr>)"
| get_over: "sc_pc t = CheckGet \<Longrightarrow> map_of (ss_backend st) (sc_token t) = Some s \<Longrightarrow> se_valid_until s \<le> sc_now t \<Longrightarrow>
     session_access atomic checks E st t [] st (t\<lparr>sc_pc := CheckRemove\<rparr>)"
| get_valid: "sc_pc t = CheckGet \<Longrightarrow> map_of (ss_backend st) (sc_token t) = Some s \<Longrightarrow> sc_now t < se_valid_until s \<Longrightarrow>
     session_access atomic checks E st t [Accepted (sc_now t) (sc_token t) s] st
       (t\<lparr>sc_pc := SessionReturned (RetValidate (Inr (se_did s)))\<rparr>)"
| remove_over: "sc_pc t = CheckRemove \<Longrightarrow>
     session_access atomic checks E st t [] (drop_session (sc_token t) st)
       (t\<lparr>sc_pc := SessionReturned (RetValidate (Inl SessionExpired))\<rparr>)"
| revoke_one: "sc_pc t = RevokeOne \<Longrightarrow>
     session_access atomic checks E st t [] (drop_session (sc_token t) st)
       (t\<lparr>sc_pc := SessionReturned (RetRevoke (map_of (ss_backend st) (sc_token t) \<noteq> None))\<rparr>)"
| revoke_scan: "sc_pc t = RevokeScan \<Longrightarrow> atomic \<longrightarrow> toks = did_tokens (sc_did t) st \<Longrightarrow>
     session_access atomic checks E st t [] st (t\<lparr>sc_pc := RevokeEach toks (length toks)\<rparr>)"
| revoke_each: "sc_pc t = RevokeEach (tok # toks) n \<Longrightarrow>
     session_access atomic checks E st t [] (drop_session tok st) (t\<lparr>sc_pc := RevokeEach toks n\<rparr>)"
| revoke_end: "sc_pc t = RevokeEach [] n \<Longrightarrow>
     session_access atomic checks E st t [] st (t\<lparr>sc_pc := SessionReturned (RetRevokeAll n)\<rparr>)"
| sweep_before: "sc_pc t = SweepBefore \<Longrightarrow>
     session_access atomic checks E st t [] st (t\<lparr>sc_pc := SweepSessions (length (ss_backend st))\<rparr>)"
| sweep_end: "sc_pc t = SweepSessions n \<Longrightarrow> atomic \<longrightarrow> no_session_over (sc_clock t) st \<Longrightarrow>
     session_access atomic checks E st t [] st (t\<lparr>sc_pc := SweepAfter n\<rparr>)"
| sweep_after: "sc_pc t = SweepAfter n \<Longrightarrow> checks \<longrightarrow> length (ss_backend st) \<le> n \<Longrightarrow>
     session_access atomic checks E st t [] st (t\<lparr>sc_pc := SessionReturned RetCleanup\<rparr>)"

definition session_over :: "session_call \<Rightarrow> bool" where
  "session_over t \<longleftrightarrow> sc_pc t = SessionPanicked \<or> (\<exists>r. sc_pc t = SessionReturned r)"

definition session_starts :: "session_call \<Rightarrow> session_call \<Rightarrow> bool" where
  "session_starts t t' \<longleftrightarrow> session_over t \<and> sc_pc t' \<in> {OpenLen, CheckGet, RevokeOne, RevokeScan, SweepBefore}"

section \<open>Lemmas\<close>

lemmas last_session_access = alone_last [where acc = "session_access atomic checks E" for atomic checks E]

lemmas silent_session_access = alone_silent [where acc = "session_access atomic checks E" for atomic checks E]

lemma session_store_fields [simp]:
  "ss_backend (drop_session tok st) = AList.delete tok (ss_backend st)"
  "ss_backend (put_session s st) = AList.update (se_token s) s (ss_backend st)"
  "ss_max_sessions (drop_session tok st) = ss_max_sessions st" "ss_max_sessions (put_session s st) = ss_max_sessions st"
  "ss_max_sessions_per_did (drop_session tok st) = ss_max_sessions_per_did st"
  "ss_max_sessions_per_did (put_session s st) = ss_max_sessions_per_did st"
  "ss_ttl_secs (drop_session tok st) = ss_ttl_secs st" "ss_ttl_secs (put_session s st) = ss_ttl_secs st"
  by (simp_all add: drop_session_def put_session_def)

lemma new_session_fields [simp]:
  "new_session E (t\<lparr>sc_pc := pc\<rparr>) st = new_session E t st"
  "new_session E t (drop_session tok st) = new_session E t st"
  "new_session E t (put_session s st) = new_session E t st"
  by (simp_all add: new_session_def)

section \<open>What a validation accepts\<close>

definition session_source :: "shared_sessions \<Rightarrow> session_event list \<Rightarrow> string \<Rightarrow> session \<Rightarrow> bool" where
  "session_source st0 evs tok s \<longleftrightarrow>
     map_of (ss_backend st0) tok = Some s \<or> (Opened s \<in> set evs \<and> se_token s = tok)"

lemma session_source_append: "session_source st0 evs tok s \<Longrightarrow> session_source st0 (evs @ es) tok s"
  by (auto simp: session_source_def)

lemma access_source:
  assumes "session_access atomic checks E st t es st' t'"
    and "\<forall>tok s. map_of (ss_backend st) tok = Some s \<longrightarrow> session_source st0 evs tok s"
  shows "(\<forall>tok s. map_of (ss_backend st') tok = Some s \<longrightarrow> session_source st0 (evs @ es) tok s) \<and>
    (\<forall>now tok s. Accepted now tok s \<in> set es \<longrightarrow> now < se_valid_until s \<and> session_source st0 evs tok s)"
  using assms by induction (auto simp: session_source_def split: if_splits)

lemma run_source:
  assumes "interleaving (session_access atomic checks E) session_starts st0 ts0 evs st ts"
  shows "(\<forall>tok s. map_of (ss_backend st) tok = Some s \<longrightarrow> session_source st0 evs tok s) \<and>
    (\<forall>now tok s. Accepted now tok s \<in> set evs \<longrightarrow> now < se_valid_until s \<and> session_source st0 evs tok s)"
  using assms
proof (induction rule: interleaving.induct)
  case (access evs st ts i es st' t')
  have "\<forall>tok s. map_of (ss_backend st) tok = Some s \<longrightarrow> session_source st0 evs tok s" using access.IH by blast
  from access_source [OF access.hyps(3) this] access.IH show ?case by (auto intro: session_source_append)
qed (simp_all add: session_source_def)

text \<open>
  A session token is accepted only while its session lives, however calls interleave: in
  every run of concurrent logins, checks, revocations and sweeps, a check that accepts a token found the
  session of that token unexpired, and the session was in the store at the start or was opened in the
  run. So a token that is revoked before the run starts is never accepted again, unless it is drawn again.
\<close>

theorem concurrent_sessions_sound:
  assumes "interleaving (session_access atomic checks E) session_starts st0 ts0 evs st ts" "Accepted now tok s \<in> set evs"
  shows "now < se_valid_until s \<and>
    (map_of (ss_backend st0) tok = Some s \<or> (Opened s \<in> set evs \<and> se_token s = tok))"
  using run_source [OF assms(1)] assms(2) unfolding session_source_def by blast

section \<open>The global capacity\<close>

definition past_check :: "session_call \<Rightarrow> bool" where
  "past_check t \<longleftrightarrow> sc_pc t = OpenScan \<or> sc_pc t = OpenInsert \<or> (\<exists>tok. sc_pc t = OpenEvict tok)"

lemma length_update_Suc: "length (AList.update k v m) \<le> Suc (length m)"
  by (induction m) auto

interpretation sessions: checked_bound "session_access atomic checks E" session_starts "\<lambda>st. length (ss_backend st)"
  ss_max_sessions past_check for atomic checks E
proof
  fix st t es st' t'
  assume a: "session_access atomic checks E st t es st' t'"
  show "ss_max_sessions st' = ss_max_sessions st" using a by induction simp_all
  show "length (ss_backend st) < ss_max_sessions st \<and> length (ss_backend st') \<le> length (ss_backend st)"
    if "\<not> past_check t" "past_check t'" using a that by induction (auto simp: past_check_def)
  show "length (ss_backend st') \<le> length (ss_backend st)" if "past_check t = past_check t'"
    using a that by induction (auto simp: past_check_def)
  show "length (ss_backend st') \<le> Suc (length (ss_backend st))" if "past_check t" "\<not> past_check t'"
    using a that by induction (auto simp: past_check_def length_update_Suc)
qed (auto simp: session_starts_def past_check_def)

text \<open>
  C18. The cap on all sessions holds up to the number of callers: whatever \<open>N\<close> concurrent callers
  do, and whatever their scans see, a store that starts within its cap never holds as much as the cap
  and \<open>N\<close> together. One caller at a time keeps the cap itself.
\<close>

theorem concurrent_session_bound:
  assumes "interleaving (session_access atomic checks E) session_starts st0 ts0 evs st ts"
    and "length (ss_backend st0) \<le> ss_max_sessions st0" "\<forall>t \<in> set ts0. session_over t" "ts0 \<noteq> []"
  shows "length (ss_backend st) < ss_max_sessions st0 + length ts0"
proof -
  have "passing past_check ts0 = 0"
    using assms(3) by (auto simp: passing_def past_check_def session_over_def filter_empty_conv)
  with assms(2,4) have "length (ss_backend st0) + passing past_check ts0 < ss_max_sessions st0 + length ts0"
    by (cases ts0) auto
  from sessions.overshoot [OF assms(1) this] show ?thesis by simp
qed


section \<open>A login on its own\<close>

text \<open>A call with no other in between is the operation of the store.\<close>

lemma enforce_victim:
  "enforce_per_did_cap in_memory did st =
     (case cap_victim did st of None \<Rightarrow> st | Some tok \<Rightarrow> drop_session tok st)"
  by (auto simp: enforce_per_did_cap_def cap_victim_def in_memory_def in_memory_remove_def drop_session_def Let_def
      split: list.split)

lemma purge_session_alone:
  assumes "sc_pc t = OpenPurge n" "dmap_wf (ss_backend st)"
  shows "alone (session_access True checks E) st t [] (session_cleanup_expired in_memory (sc_clock t) st)
    (t\<lparr>sc_pc := OpenAfter n\<rparr>)"
  using assms
proof (induction "length (ss_backend st)" arbitrary: st rule: less_induct)
  case less
  have swept: "session_cleanup_expired in_memory (sc_clock t) st =
      st\<lparr>ss_backend := retain (\<lambda>_ s. sc_clock t < se_valid_until s) (ss_backend st)\<rparr>" for st
    by (simp add: session_cleanup_expired_def in_memory_def in_memory_purge_expired_def Let_def)
  show ?case
  proof (cases "no_session_over (sc_clock t) st")
    case True
    then have "session_cleanup_expired in_memory (sc_clock t) st = st"
      unfolding swept by (auto simp: no_session_over_def retain_def filter_id_conv)
    then show ?thesis using purge_end [of t n True st checks E] less.prems True by (simp add: last_session_access)
  next
    case False
    then obtain tok s where s: "map_of (ss_backend st) tok = Some s" "se_valid_until s \<le> sc_clock t"
      using less.prems(2) by (auto simp: no_session_over_def dmap_wf_map_of_iff not_less)
    have len: "length (ss_backend (drop_session tok st)) < length (ss_backend st)"
      using length_delete_in [OF less.prems(2)] s(1) by fastforce
    have "session_cleanup_expired in_memory (sc_clock t) (drop_session tok st) =
        session_cleanup_expired in_memory (sc_clock t) st"
      using retain_delete [OF less.prems(2) s(1), of "\<lambda>_ s. sc_clock t < se_valid_until s"] s(2)
      unfolding swept by (simp add: drop_session_def)
    with less.hyps [OF len] less.prems show ?thesis
      by (auto intro: silent_session_access [OF purge_drop [of t n st tok s]] simp: s)
  qed
qed

lemma sweep_length: "length (ss_backend (session_cleanup_expired in_memory now st)) \<le> length (ss_backend st)"
  by (simp add: session_cleanup_expired_def in_memory_def in_memory_purge_expired_def retain_def Let_def)

lemma sweep_session_alone:
  assumes "sc_pc t = OpenBefore" "dmap_wf (ss_backend st)"
  shows "alone (session_access True checks E) st t [] (session_cleanup_expired in_memory (sc_clock t) st)
    (t\<lparr>sc_pc := OpenLenAgain\<rparr>)"
proof -
  let ?n = "length (ss_backend st)" and ?st = "session_cleanup_expired in_memory (sc_clock t) st"
  have "session_access True checks E ?st (t\<lparr>sc_pc := OpenAfter ?n\<rparr>) [] ?st (t\<lparr>sc_pc := OpenLenAgain\<rparr>)"
    using after [of "t\<lparr>sc_pc := OpenAfter ?n\<rparr>" ?n checks ?st True E] sweep_length by simp
  moreover have "alone (session_access True checks E) st (t\<lparr>sc_pc := OpenPurge ?n\<rparr>) [] ?st (t\<lparr>sc_pc := OpenAfter ?n\<rparr>)"
    using purge_session_alone [of "t\<lparr>sc_pc := OpenPurge ?n\<rparr>" ?n st checks E] assms(2) by simp
  ultimately have "alone (session_access True checks E) st (t\<lparr>sc_pc := OpenPurge ?n\<rparr>) [] ?st (t\<lparr>sc_pc := OpenLenAgain\<rparr>)"
    using alone_trans [OF _ last_session_access] by fastforce
  from silent_session_access [OF before [OF assms(1)] this] show ?thesis .
qed

lemma insert_session_alone:
  assumes "sc_pc t = OpenScan"
  shows "alone (session_access True checks E) st t [Opened (new_session E t st)]
    (put_session (new_session E t st) (enforce_per_did_cap in_memory (sc_did t) st))
    (t\<lparr>sc_pc := SessionReturned (RetCreate (Inr (new_session E t st)))\<rparr>)"
proof -
  let ?s = "new_session E t st" and ?i = "t\<lparr>sc_pc := OpenInsert\<rparr>"
  have put: "alone (session_access True checks E) st' ?i [Opened ?s] (put_session ?s st')
      (t\<lparr>sc_pc := SessionReturned (RetCreate (Inr ?s))\<rparr>)" if "new_session E t st' = ?s" for st'
    using last_session_access [OF insert [of ?i ?s E st' True checks]] that by simp
  show ?thesis
  proof (cases "cap_victim (sc_did t) st")
    case None
    have "session_access True checks E st t [] st ?i" using scan_none [OF assms, of True st checks E] None by simp
    from silent_session_access [OF this put] None show ?thesis by (simp add: enforce_victim)
  next
    case (Some tok)
    have "session_access True checks E st t [] st (t\<lparr>sc_pc := OpenEvict tok\<rparr>)" using scan [OF assms, of True st tok checks E] Some by simp
    moreover have "session_access True checks E st (t\<lparr>sc_pc := OpenEvict tok\<rparr>) [] (drop_session tok st) ?i"
      using evict [of "t\<lparr>sc_pc := OpenEvict tok\<rparr>" tok True checks E st] by simp
    ultimately show ?thesis
      using silent_session_access [OF _ silent_session_access [OF _ put [of "drop_session tok st"]]] Some
      by (simp add: enforce_victim)
  qed
qed

text \<open>The operation of \<open>session_create\<close>: the room, the quota, and the new session.\<close>

lemma session_create_steps:
  "session_create in_memory E (sc_clock t) (sc_token_bytes t) (sc_now t) (sc_did t) st =
     (let st1 = swept in_memory (sc_clock t) st in
      if ss_max_sessions st \<le> length (ss_backend st1) then (st1, Inl (SessionStoreFull (ss_max_sessions st)))
      else (put_session (new_session E t st) (enforce_per_did_cap in_memory (sc_did t) st1), Inr (new_session E t st)))"
proof -
  have "ss_ttl_secs (enforce_per_did_cap in_memory did st1) = ss_ttl_secs st1" for did st1
    by (simp add: enforce_victim split: option.split)
  then show ?thesis
    by (auto simp: session_create_def swept_def session_cleanup_expired_def in_memory_def in_memory_insert_def
        put_session_def new_session_def Let_def)
qed

lemma create_session_alone:
  assumes "sc_pc t = OpenLen" "dmap_wf (ss_backend st)"
    and "session_create in_memory E (sc_clock t) (sc_token_bytes t) (sc_now t) (sc_did t) st = (st', r)"
  shows "alone (session_access True checks E) st t (case r of Inl _ \<Rightarrow> [] | Inr s \<Rightarrow> [Opened s]) st'
    (t\<lparr>sc_pc := SessionReturned (RetCreate r)\<rparr>)"
proof -
  let ?scan = "t\<lparr>sc_pc := OpenScan\<rparr>" and ?again = "t\<lparr>sc_pc := OpenLenAgain\<rparr>"
  let ?st = "swept in_memory (sc_clock t) st"
  have fields: "ss_max_sessions ?st = ss_max_sessions st" "new_session E t ?st = new_session E t st"
    by (simp_all add: swept_def session_cleanup_expired_def new_session_def)
  have room: "alone (session_access True checks E) st t (case r of Inl _ \<Rightarrow> [] | Inr s \<Rightarrow> [Opened s]) st'
      (t\<lparr>sc_pc := SessionReturned (RetCreate r)\<rparr>)"
    if "alone (session_access True checks E) st t [] ?st ?scan" "\<not> ss_max_sessions st \<le> length (ss_backend ?st)"
    using alone_trans [OF that(1) insert_session_alone [of ?scan checks E ?st]] that(2) assms(3) fields
    by (auto simp: session_create_steps Let_def)
  show ?thesis
  proof (cases "ss_max_sessions st \<le> length (ss_backend st)")
    case False
    then have "?st = st" by (simp add: swept_def in_memory_def)
    with False room last_session_access [OF len_room [OF assms(1), of st True checks E]] show ?thesis by simp
  next
    case True
    then have st: "?st = session_cleanup_expired in_memory (sc_clock t) st" by (simp add: swept_def in_memory_def)
    from silent_session_access [OF len_full [OF assms(1) True] sweep_session_alone [of "t\<lparr>sc_pc := OpenBefore\<rparr>" st checks E]]
    have purged: "alone (session_access True checks E) st t [] ?st ?again" using assms(2) st by simp
    show ?thesis
    proof (cases "ss_max_sessions st \<le> length (ss_backend ?st)")
      case full: True
      from alone_trans [OF purged last_session_access [OF again_full [of ?again ?st True checks E]]] full fields assms(3)
      show ?thesis by (auto simp: session_create_steps Let_def)
    next
      case False
      from alone_trans [OF purged last_session_access [OF again_room [of ?again ?st True checks E]]] False fields
      show ?thesis by (intro room) simp_all
    qed
  qed
qed


lemma validate_session_alone:
  assumes "sc_pc t = CheckGet" "session_validate in_memory (sc_now t) (sc_token t) st = (st', r)"
  shows "\<exists>evs. alone (session_access atomic checks E) st t evs st' (t\<lparr>sc_pc := SessionReturned (RetValidate r)\<rparr>)"
proof (cases "map_of (ss_backend st) (sc_token t)")
  case None
  from last_session_access [OF get_unknown [OF assms(1) this]] None assms(2) show ?thesis
    by (auto simp: session_validate_def in_memory_def)
next
  case (Some s)
  show ?thesis
  proof (cases "se_valid_until s \<le> sc_now t")
    case True
    have "session_access atomic checks E st (t\<lparr>sc_pc := CheckRemove\<rparr>) [] (drop_session (sc_token t) st)
        (t\<lparr>sc_pc := SessionReturned (RetValidate (Inl SessionExpired))\<rparr>)"
      using remove_over [of "t\<lparr>sc_pc := CheckRemove\<rparr>" atomic checks E st] by simp
    from silent_session_access [OF get_over [OF assms(1) Some True] last_session_access [OF this]] Some True assms(2)
    show ?thesis by (auto simp: session_validate_def in_memory_def in_memory_remove_def drop_session_def)
  next
    case False
    then have "st' = st" "r = Inr (se_did s)" using Some assms(2) by (simp_all add: session_validate_def in_memory_def)
    with last_session_access [OF get_valid [OF assms(1) Some]] False show ?thesis by (auto simp: not_le)
  qed
qed

lemma revoke_session_alone:
  assumes "sc_pc t = RevokeOne" "session_revoke in_memory (sc_token t) st = (st', r)"
  shows "alone (session_access atomic checks E) st t [] st' (t\<lparr>sc_pc := SessionReturned (RetRevoke r)\<rparr>)"
  using last_session_access [OF revoke_one [OF assms(1), of atomic checks E st]] assms(2)
  by (auto simp: session_revoke_def in_memory_def in_memory_remove_def drop_session_def)

lemma revoke_each_alone:
  "alone (session_access atomic checks E) st (t\<lparr>sc_pc := RevokeEach toks n\<rparr>) []
     (foldl (\<lambda>st tok. drop_session tok st) st toks) (t\<lparr>sc_pc := SessionReturned (RetRevokeAll n)\<rparr>)"
proof (induction toks arbitrary: st)
  case Nil
  show ?case using last_session_access [OF revoke_end [of "t\<lparr>sc_pc := RevokeEach [] n\<rparr>" n atomic checks E st]] by simp
next
  case (Cons tok toks)
  have "session_access atomic checks E st (t\<lparr>sc_pc := RevokeEach (tok # toks) n\<rparr>) [] (drop_session tok st)
      (t\<lparr>sc_pc := RevokeEach toks n\<rparr>)"
    using revoke_each [of "t\<lparr>sc_pc := RevokeEach (tok # toks) n\<rparr>" tok toks n atomic checks E st] by simp
  from silent_session_access [OF this Cons.IH] show ?case by simp
qed

lemma foldl_drop_session:
  "foldl (\<lambda>st tok. drop_session tok st) st toks = st\<lparr>ss_backend := foldl (\<lambda>b tok. AList.delete tok b) (ss_backend st) toks\<rparr>"
  by (induction toks arbitrary: st) (simp_all add: drop_session_def)

lemma revoke_all_alone:
  assumes "sc_pc t = RevokeScan" "session_revoke_all_for_did in_memory (sc_did t) st = (st', r)"
  shows "alone (session_access True checks E) st t [] st' (t\<lparr>sc_pc := SessionReturned (RetRevokeAll r)\<rparr>)"
proof -
  let ?toks = "did_tokens (sc_did t) st"
  have "session_access True checks E st t [] st (t\<lparr>sc_pc := RevokeEach ?toks (length ?toks)\<rparr>)"
    using revoke_scan [OF assms(1), of True ?toks st checks E] by simp
  from silent_session_access [OF this revoke_each_alone] assms(2) show ?thesis
    by (simp add: foldl_drop_session session_revoke_all_for_did_def in_memory_def in_memory_remove_all_for_did_def did_tokens_def
        Let_def)
qed

section \<open>The quota of a DID under concurrent logins\<close>

definition did_count :: "string \<Rightarrow> shared_sessions \<Rightarrow> nat" where
  "did_count did st = length (in_memory_sessions_for_did did (ss_backend st))"

definition at_quota :: "string \<Rightarrow> shared_sessions \<Rightarrow> bool" where
  "at_quota did st \<longleftrightarrow> dmap_wf (ss_backend st) \<and> (\<forall>(tok, s) \<in> set (ss_backend st). se_token s = tok) \<and>
     ss_max_sessions_per_did st \<le> did_count did st \<and> 0 < did_count did st"

lemma quota_victim:
  assumes "at_quota did st"
  shows "\<exists>tok s. cap_victim did st = Some tok \<and> map_of (ss_backend st) tok = Some s \<and> se_did s = did"
proof -
  let ?mine = "map (\<lambda>s. (se_token s, se_created_at s)) (in_memory_sessions_for_did did (ss_backend st))"
  let ?sorted = "sort_key (\<lambda>(token, created_at). (created_at, token)) ?mine"
  have "?mine \<noteq> []" "\<not> length ?mine < ss_max_sessions_per_did st"
    using assms by (auto simp: at_quota_def did_count_def)
  moreover have "length ?sorted = length ?mine" by (rule length_sort)
  ultimately have "?sorted \<noteq> []" by force
  then obtain p rest where p: "?sorted = p # rest" by (auto simp only: neq_Nil_conv)
  obtain tok at where s: "?sorted = (tok, at) # rest" by (cases p) (simp only: p)
  then have v: "cap_victim did st = Some tok" using \<open>\<not> length ?mine < _\<close> by (simp add: cap_victim_def Let_def)
  have "(tok, at) \<in> set ?sorted" unfolding s by simp
  then have "(tok, at) \<in> set ?mine" by simp
  then obtain s where "(se_token s, s) \<in> set (ss_backend st)" "se_did s = did" "se_token s = tok"
    using assms by (auto simp: in_memory_sessions_for_did_def at_quota_def)
  then show ?thesis using v assms by (auto simp: at_quota_def dmap_wf_map_of_iff)
qed

lemma did_count_drop:
  assumes "dmap_wf (ss_backend st)" "map_of (ss_backend st) tok = Some s" "se_did s = did"
  shows "Suc (did_count did (drop_session tok st)) = did_count did st"
proof -
  let ?of = "filter (\<lambda>(_, s). se_did s = did)"
  have comm: "?of (AList.delete tok m) = AList.delete tok (?of m)" for m :: "(string \<times> session) list"
    by (induction m) auto
  have "map_of (?of (ss_backend st)) tok \<noteq> None" using assms by (simp add: map_of_filter)
  from length_delete_in [OF dmap_wf_filter [OF assms(1)] this] show ?thesis
    unfolding comm [symmetric] by (simp add: did_count_def in_memory_sessions_for_did_def)
qed

lemma did_count_put:
  "map_of (ss_backend st) (se_token s) = None \<Longrightarrow> se_did s = did \<Longrightarrow> did_count did (put_session s st) = Suc (did_count did st)"
  by (simp add: did_count_def in_memory_sessions_for_did_def update_new)

lemma quota_race_effect:
  assumes "at_quota did st" "map_of (ss_backend st) tok = Some v" "se_did v = did" "se_did sa = did" "se_did sb = did"
    and "map_of (ss_backend st) (se_token sa) = None" "map_of (ss_backend st) (se_token sb) = None"
    and "se_token sa \<noteq> se_token sb"
  shows "at_quota did (put_session sb (put_session sa (drop_session tok st))) \<and>
    did_count did (put_session sb (put_session sa (drop_session tok st))) = Suc (did_count did st) \<and>
    length (ss_backend (put_session sb (put_session sa (drop_session tok st)))) = Suc (length (ss_backend st))"
proof -
  have q: "dmap_wf (ss_backend st)" "\<forall>(tok, s) \<in> set (ss_backend st). se_token s = tok" using assms(1) by (simp_all add: at_quota_def)
  have "map_of (ss_backend st) tok \<noteq> None" using assms(2) by simp
  note len = length_delete_in [OF q(1) this]
  have new: "map_of (AList.delete tok (ss_backend st)) (se_token sa) = None"
    "map_of (AList.update (se_token sa) sa (AList.delete tok (ss_backend st))) (se_token sb) = None"
    using assms(6-8) by simp_all
  have "did_count did (put_session sb (put_session sa (drop_session tok st))) = Suc (did_count did st)"
    using did_count_drop [OF q(1) assms(2,3)] did_count_put [of "drop_session tok st" sa did]
      did_count_put [of "put_session sa (drop_session tok st)" sb did] assms(4,5) new by simp
  moreover have "\<forall>(k, s) \<in> set (ss_backend (put_session sb (put_session sa (drop_session tok st)))). se_token s = k"
    using q(2) new by (auto simp: update_new AList.delete_eq)
  moreover have "length (ss_backend (put_session sb (put_session sa (drop_session tok st)))) = Suc (length (ss_backend st))"
    using len new by (simp add: update_new)
  ultimately show ?thesis using assms(1) q(1) by (simp add: at_quota_def)
qed

text \<open>Two logins of one DID that choose the same victim.\<close>

definition login_call :: "string \<Rightarrow> session_call \<Rightarrow> bool" where
  "login_call did t \<longleftrightarrow> sc_pc t = OpenLen \<and> sc_did t = did"

lemma quota_race_round:
  assumes "login_call did a" "login_call did b" "session_over x" "session_over y"
    and "length (ss_backend st) < ss_max_sessions st" "cap_victim did st = Some tok"
  shows "\<exists>x' y'. interleaving (session_access True checks E) session_starts st [x, y]
      [Opened (new_session E a st), Opened (new_session E b st)]
      (put_session (new_session E b st) (put_session (new_session E a st) (drop_session tok st))) [x', y'] \<and>
    session_over x' \<and> session_over y'"
proof -
  let ?run = "interleaving (session_access True checks E) session_starts st [x, y]"
  let ?pc = "\<lambda>t pc. t\<lparr>sc_pc := pc\<rparr>" and ?d = "drop_session tok st"
  let ?a = "new_session E a st" and ?b = "new_session E b st"
  have choose: "alone (session_access True checks E) st t [] st (?pc t (OpenEvict tok))" if "login_call did t" for t
  proof -
    have "session_access True checks E st t [] st (?pc t OpenScan)" using that assms(5) by (auto simp: login_call_def intro: len_room)
    moreover have "session_access True checks E st (?pc t OpenScan) [] st (?pc t (OpenEvict tok))"
      using scan [of "?pc t OpenScan" True st tok checks E] assms(6) that by (simp add: login_call_def)
    ultimately show ?thesis by (rule silent_session_access [OF _ last_session_access])
  qed
  have drop: "alone (session_access True checks E) st' (?pc t (OpenEvict tok)) [] (drop_session tok st') (?pc t OpenInsert)" for st' t
    using last_session_access [OF evict [of "?pc t (OpenEvict tok)" tok True checks E st']] by simp
  have put: "alone (session_access True checks E) st' (?pc t OpenInsert) [Opened (new_session E t st')]
      (put_session (new_session E t st') st') (?pc t (SessionReturned (RetCreate (Inr (new_session E t st')))))" for st' t
    using last_session_access [OF insert [where t = "?pc t OpenInsert" and E = E and st = st' and atomic = True and checks = checks]] by simp
  have "?run [] st [a, b]" using assms(1-4) by (intro both_start) (simp_all add: session_starts_def login_call_def)
  from second_thread [OF first_thread [OF this choose [OF assms(1)]] choose [OF assms(2)]]
  have "?run [] st [?pc a (OpenEvict tok), ?pc b (OpenEvict tok)]" by simp
  from second_thread [OF first_thread [OF this drop] drop]
  have "?run [] ?d [?pc a OpenInsert, ?pc b OpenInsert]" by (simp add: drop_session_def AList.delete_idem)
  from second_thread [OF first_thread [OF this put] put]
  show ?thesis
    by (intro exI [of _ "?pc a (SessionReturned (RetCreate (Inr ?a)))"] exI [of _ "?pc b (SessionReturned (RetCreate (Inr ?b)))"])
      (simp add: session_over_def)
qed

text \<open>The sessions of the logins of a round, at a store of the same lifetime.\<close>

definition round_tokens :: "('x, 'z) crates_scheme \<Rightarrow> (session_call \<times> session_call) list \<Rightarrow> string list" where
  "round_tokens E rounds = concat (map (\<lambda>(a, b). [hex_encode E (sc_token_bytes a), hex_encode E (sc_token_bytes b)]) rounds)"

lemma new_session_parts [simp]:
  "se_token (new_session E t st) = hex_encode E (sc_token_bytes t)" "se_did (new_session E t st) = sc_did t"
  by (simp_all add: new_session_def)

text \<open>
  C20. The quota of a DID does not hold under concurrent logins: two threads that log in the same DID
  at its quota can choose the same oldest session, so that one goes and two come. From its quota a DID
  reaches any number of sessions that way, as long as the store has room, with atomic scans and no session
  over.
\<close>

theorem quota_race:
  assumes "at_quota did st" "\<forall>(a, b) \<in> set rounds. login_call did a \<and> login_call did b"
    and "distinct (round_tokens E rounds)" "\<forall>tok \<in> set (round_tokens E rounds). map_of (ss_backend st) tok = None"
    and "session_over x" "session_over y" "length (ss_backend st) + length rounds \<le> ss_max_sessions st"
  shows "\<exists>evs st' x' y'. interleaving (session_access True checks E) session_starts st [x, y] evs st' [x', y'] \<and>
    did_count did st' = did_count did st + length rounds \<and>
    ss_max_sessions_per_did st' = ss_max_sessions_per_did st"
  using assms
proof (induction rounds arbitrary: st x y)
  case Nil
  have "interleaving (session_access True checks E) session_starts st [x, y] [] st [x, y]" by (rule interleaving.none)
  then show ?case by auto
next
  case (Cons r rounds)
  obtain a b where r: "r = (a, b)" by (cases r)
  then have ab: "login_call did a" "login_call did b" using Cons.prems(2) by simp_all
  obtain tok v where tok: "cap_victim did st = Some tok" "map_of (ss_backend st) tok = Some v" "se_did v = did"
    using quota_victim [OF Cons.prems(1)] by blast
  let ?st = "put_session (new_session E b st) (put_session (new_session E a st) (drop_session tok st))"
  have e: "at_quota did ?st" "did_count did ?st = Suc (did_count did st)" "length (ss_backend ?st) = Suc (length (ss_backend st))"
    using quota_race_effect [OF Cons.prems(1) tok(2,3), of "new_session E a st" "new_session E b st"] Cons.prems(3,4) ab r
    by (simp_all add: round_tokens_def login_call_def)
  obtain x' y' where run: "interleaving (session_access True checks E) session_starts st [x, y]
      [Opened (new_session E a st), Opened (new_session E b st)] ?st [x', y']" "session_over x'" "session_over y'"
    using quota_race_round [OF ab Cons.prems(5,6) _ tok(1), of checks E] Cons.prems(7) by auto
  have "\<exists>evs st' x'' y''. interleaving (session_access True checks E) session_starts ?st [x', y'] evs st' [x'', y''] \<and>
      did_count did st' = did_count did ?st + length rounds \<and> ss_max_sessions_per_did st' = ss_max_sessions_per_did ?st"
    using Cons.prems(2-4,7) e(3) r by (intro Cons.IH [OF e(1) _ _ _ run(2,3)]) (auto simp: round_tokens_def)
  then obtain evs st' x'' y'' where "interleaving (session_access True checks E) session_starts ?st [x', y'] evs st' [x'', y'']"
    "did_count did st' = did_count did ?st + length rounds" "ss_max_sessions_per_did st' = ss_max_sessions_per_did ?st" by blast
  with interleaving_trans [OF this(1) run(1)] e(2) show ?case by auto
qed


section \<open>A sweep that a login overtakes\<close>

text \<open>
  C21. \<open>purge_expired\<close> subtracts the length after its \<open>retain\<close> from the length before. A login whose
  session goes in between the two reads, at a store with no session over, makes the difference negative:
  in a build with overflow checks the sweep panics, in \<open>start_cleanup\<close> with its task.
\<close>

theorem sweep_underflow:
  assumes "session_over x" "session_over y" "sc_pc sweep = SweepBefore" "no_session_over (sc_clock sweep) st"
    and "login_call did a" "length (ss_backend st) < ss_max_sessions st" "cap_victim did st = None"
    and "map_of (ss_backend st) (hex_encode E (sc_token_bytes a)) = None"
  shows "\<exists>y'. interleaving (session_access True True E) session_starts st [x, y] [Opened (new_session E a st)]
    (put_session (new_session E a st) st) [sweep\<lparr>sc_pc := SessionPanicked\<rparr>, y']"
proof -
  let ?run = "interleaving (session_access True True E) session_starts st [x, y]"
  let ?s = "new_session E a st" and ?n = "length (ss_backend st)" and ?pc = "\<lambda>t pc. t\<lparr>sc_pc := pc\<rparr>"
  have "session_access True True E st (?pc sweep (SweepSessions ?n)) [] st (?pc sweep (SweepAfter ?n))"
    using sweep_end [of "?pc sweep (SweepSessions ?n)" ?n True st True E] assms(4) by simp
  from silent_session_access [OF sweep_before [OF assms(3)] last_session_access [OF this]]
  have read: "alone (session_access True True E) st sweep [] st (?pc sweep (SweepAfter ?n))" .
  have "session_access True True E st a [] st (?pc a OpenScan)" using assms(5,6) by (auto simp: login_call_def intro: len_room)
  from silent_session_access [OF this insert_session_alone] assms(5,7)
  have login: "alone (session_access True True E) st a [Opened ?s] (put_session ?s st) (?pc a (SessionReturned (RetCreate (Inr ?s))))"
    by (simp add: enforce_victim login_call_def)
  have "?n < length (ss_backend (put_session ?s st))" using assms(8) by (simp add: update_new)
  then have panic: "alone (session_access True True E) (put_session ?s st) (?pc sweep (SweepAfter ?n)) [] (put_session ?s st)
      (?pc sweep SessionPanicked)"
    using last_session_access [OF underflow [of "?pc sweep (SweepAfter ?n)" ?n True "put_session ?s st" True E]] by simp
  have "?run [] st [sweep, a]" using assms(1-3,5) by (intro both_start) (simp_all add: session_starts_def login_call_def)
  from second_thread [OF first_thread [OF this read] login]
  have "?run [Opened ?s] (put_session ?s st) [?pc sweep (SweepAfter ?n), ?pc a (SessionReturned (RetCreate (Inr ?s)))]" by simp
  from first_thread [OF this panic] show ?thesis by auto
qed

section \<open>Runs at concrete values\<close>

definition ref_login :: "8 word \<Rightarrow> session_pc \<Rightarrow> session_call" where
  "ref_login b pc = \<lparr>sc_did = ''d'', sc_token = ''00'', sc_token_bytes = [b], sc_now = 100, sc_clock = 0, sc_pc = pc\<rparr>"

definition ref_quota :: shared_sessions where
  "ref_quota = (session_with_capacity 10 2 1)\<lparr>ss_backend := [(''00'', ref_session)]\<rparr>"

lemma ref_quota_facts:
  "at_quota ''d'' ref_quota" "ss_max_sessions ref_quota = 2" "ss_max_sessions_per_did ref_quota = 1"
  "did_count ''d'' ref_quota = 1" "ss_backend ref_quota = [(''00'', ref_session)]"
  by (simp_all add: at_quota_def did_count_def in_memory_sessions_for_did_def ref_quota_def ref_session_def
      session_with_capacity_def session_with_backend_def dmap_wf_def)

lemma ref_round_tokens:
  "round_tokens ref_crates [(ref_login 1 OpenLen, ref_login 2 OpenLen)] = [''01'', ''02'']"
  by (simp add: round_tokens_def ref_login_def ref_crates_def ref_hex_encode_def show_byte_02x_def hex_digit_def) code_simp

theorem quota_race_witness:
  "\<exists>evs st' x' y'. interleaving (session_access True True ref_crates) session_starts ref_quota
      [ref_login 0 (SessionReturned RetCleanup), ref_login 0 (SessionReturned RetCleanup)] evs st' [x', y'] \<and>
    did_count ''d'' st' = 2 \<and> ss_max_sessions_per_did st' = 1"
  using quota_race [OF ref_quota_facts(1), of "[(ref_login 1 OpenLen, ref_login 2 OpenLen)]" ref_crates
      "ref_login 0 (SessionReturned RetCleanup)" "ref_login 0 (SessionReturned RetCleanup)"]
    ref_quota_facts(2-5) ref_round_tokens
  by (simp add: login_call_def session_over_def ref_login_def numeral_2_eq_2)

text \<open>A login by one thread, then a check by another.\<close>

lemma ref_session_run:
  "\<exists>st ts. interleaving (session_access True True ref_crates) session_starts (session_with_capacity 10 2 1)
     (replicate 2 (ref_login 0 (SessionReturned RetCleanup))) [Opened ref_session, Accepted 100 ''00'' ref_session] st ts"
proof -
  let ?run = "interleaving (session_access True True ref_crates) session_starts (session_with_capacity 10 2 1)"
  let ?ts = "replicate 2 (ref_login 0 (SessionReturned RetCleanup))"
  have a: "alone (session_access True True ref_crates) (session_with_capacity 10 2 1) (ref_login 0 OpenLen) [Opened ref_session]
      ref_quota (ref_login 0 (SessionReturned (RetCreate (Inr ref_session))))"
    using create_session_alone [of "ref_login 0 OpenLen" "session_with_capacity 10 2 1" ref_crates ref_quota "Inr ref_session"]
      ref_session_create
    by (simp add: ref_login_def ref_quota_def session_with_capacity_def session_with_backend_def in_memory_new_def)
  have b: "session_access True True ref_crates ref_quota (ref_login 0 CheckGet) [Accepted 100 ''00'' ref_session]
      ref_quota (ref_login 0 (SessionReturned (RetValidate (Inr ''d''))))"
    using get_valid [of "ref_login 0 CheckGet" ref_quota ref_session True True ref_crates] ref_quota_facts(5)
    by (simp add: ref_login_def ref_session_def)
  have "?run ?ts [Opened ref_session] ref_quota [ref_login 0 (SessionReturned (RetCreate (Inr ref_session))), ref_login 0 CheckGet]"
    using first_thread [OF both_start a, of session_starts _ _ "ref_login 0 CheckGet"]
    by (simp add: session_starts_def session_over_def ref_login_def numeral_2_eq_2)
  from interleaving.access [OF this, of 1] b show ?thesis by fastforce
qed

theorem concurrent_sessions_sound_witness:
  "100 < se_valid_until ref_session \<and>
   (map_of (ss_backend (session_with_capacity 10 2 1)) ''00'' = Some ref_session \<or>
    (Opened ref_session \<in> set [Opened ref_session, Accepted 100 ''00'' ref_session] \<and> se_token ref_session = ''00''))"
proof -
  obtain st ts where "interleaving (session_access True True ref_crates) session_starts (session_with_capacity 10 2 1)
     (replicate 2 (ref_login 0 (SessionReturned RetCleanup))) [Opened ref_session, Accepted 100 ''00'' ref_session] st ts"
    using ref_session_run by blast
  from concurrent_sessions_sound [OF this, of 100 "''00''" ref_session] show ?thesis by simp
qed


theorem concurrent_session_bound_witness:
  "\<exists>evs st ts. interleaving (session_access True True ref_crates) session_starts (session_with_capacity 10 2 1)
     (replicate 2 (ref_login 0 (SessionReturned RetCleanup))) evs st ts \<and> length (ss_backend st) < 4"
proof -
  obtain st ts where run: "interleaving (session_access True True ref_crates) session_starts (session_with_capacity 10 2 1)
     (replicate 2 (ref_login 0 (SessionReturned RetCleanup))) [Opened ref_session, Accepted 100 ''00'' ref_session] st ts"
    using ref_session_run by blast
  with concurrent_session_bound [OF run] show ?thesis
    by (auto simp: session_with_capacity_def session_with_backend_def in_memory_new_def session_over_def ref_login_def)
qed

theorem sweep_underflow_witness:
  "\<exists>y'. interleaving (session_access True True ref_crates) session_starts (session_with_capacity 10 2 1)
     (replicate 2 (ref_login 0 (SessionReturned RetCleanup))) [Opened ref_session] ref_quota
     [ref_login 0 SessionPanicked, y']"
proof -
  let ?st = "session_with_capacity 10 2 1 :: shared_sessions"
  have st: "ss_backend (session_with_capacity ttl m q) = []" "ss_max_sessions (session_with_capacity ttl m q) = m"
    "ss_max_sessions_per_did (session_with_capacity ttl m q) = q" "ss_ttl_secs (session_with_capacity ttl m q) = ttl" for ttl m q
    by (simp_all add: session_with_capacity_def session_with_backend_def in_memory_new_def)
  have hex: "hex_encode ref_crates [0] = ''00''"
    by (simp add: ref_crates_def ref_hex_encode_def show_byte_02x_def hex_digit_def) code_simp
  have "cap_victim ''d'' ?st = None" by (simp add: cap_victim_def in_memory_sessions_for_did_def st)
  moreover have "new_session ref_crates (ref_login 0 OpenLen) ?st = ref_session"
    by (simp add: new_session_def ref_login_def hex st ref_session_def)
  moreover have "put_session ref_session ?st = ref_quota" by (simp add: put_session_def ref_quota_def st ref_session_def)
  ultimately show ?thesis
    using sweep_underflow [of "ref_login 0 (SessionReturned RetCleanup)" "ref_login 0 (SessionReturned RetCleanup)"
        "ref_login 0 SweepBefore" ?st "''d''" "ref_login 0 OpenLen" ref_crates]
    by (simp add: session_over_def no_session_over_def login_call_def ref_login_def st numeral_2_eq_2)
qed

end
