(* ===== verification/Http_Sig.thy ===== *)
theory Http_Sig
  imports Message
begin

text \<open>
  The RFC 9421 request-signature profile: its constants, records and errors (http\_sig/mod.rs),
  the algorithm a DID implies, and the structured-field crate (RFC 8941) as a record of the
  functions the sources use.
\<close>

section \<open>Constants\<close>

definition SIGNATURE_LABEL :: string where
  "SIGNATURE_LABEL = ''sig1''"

definition TAG_AQUA_INTERNAL :: string where
  "TAG_AQUA_INTERNAL = ''aqua-auth''"

definition TAG_WEB_BOT_AUTH :: string where
  "TAG_WEB_BOT_AUTH = ''web-bot-auth''"

text \<open>\<open>std::time::Duration\<close>: whole seconds and the nanoseconds below one second.\<close>

record duration =
  dur_secs :: u64
  dur_nanos :: u32

definition duration_from_secs :: "u64 \<Rightarrow> duration" where
  "duration_from_secs s = \<lparr>dur_secs = s, dur_nanos = 0\<rparr>"

definition duration_greater :: "duration \<Rightarrow> duration \<Rightarrow> bool" where
  "duration_greater a b =
     (dur_secs a > dur_secs b \<or> (dur_secs a = dur_secs b \<and> dur_nanos a > dur_nanos b))"

definition MAX_VALIDITY :: duration where
  "MAX_VALIDITY = duration_from_secs (24 * 60 * 60)"

definition DEFAULT_CLOCK_SKEW :: duration where
  "DEFAULT_CLOCK_SKEW = duration_from_secs 60"

definition NONCE_BYTES :: nat where
  "NONCE_BYTES = 64"

definition ALG_ED25519 :: string where
  "ALG_ED25519 = ''ed25519''"

definition ALG_ECDSA_P256_SHA256 :: string where
  "ALG_ECDSA_P256_SHA256 = ''ecdsa-p256-sha256''"

definition ALG_EIP191_SECP256K1 :: string where
  "ALG_EIP191_SECP256K1 = ''eip191-secp256k1''"

section \<open>Requests, profiles, headers\<close>

record request_parts =
  rp_method :: string
  rp_target_uri :: string
  rp_signature_agent :: "string option"

definition request_parts_new :: "string \<Rightarrow> string \<Rightarrow> request_parts" where
  "request_parts_new m target_uri =
     \<lparr>rp_method = m, rp_target_uri = target_uri, rp_signature_agent = None\<rparr>"

definition with_signature_agent :: "string \<Rightarrow> request_parts \<Rightarrow> request_parts" where
  "with_signature_agent v parts = parts\<lparr>rp_signature_agent := Some v\<rparr>"

datatype profile = AquaInternal | WebBotAuth string

record signed_headers =
  sh_signature_input :: string
  sh_signature :: string

section \<open>HttpSigError\<close>

datatype http_sig_error =
    InvalidTargetUri string
  | UnsupportedScheme string
  | UnsupportedComponent string
  | MissingComponent string
  | DuplicateComponent string
  | InvalidComponentValue string string
  | NonAsciiBase
  | StructuredField string
  | MalformedSignatureInput string
  | MalformedSignature string
  | ValidityTooLong nat nat
  | ValidityZero
  | InvalidWindow int int
  | ProfileRequiresEd25519 string
  | EmptyThumbprint
  | TagMismatch string string
  | AlgMismatch string string string
  | CreatedInFuture int int nat
  | Expired int int
  | NonceReplayed
  | Sign string
  | HttpCrypto crypto_error

fun http_sig_error_display :: "http_sig_error \<Rightarrow> string" where
  "http_sig_error_display (InvalidTargetUri s) = ''invalid target URI: '' @ s"
| "http_sig_error_display (UnsupportedScheme s) =
     ''unsupported URI scheme (expected http or https): '' @ s"
| "http_sig_error_display (UnsupportedComponent s) =
     ''covered component outside this profile: '' @ s"
| "http_sig_error_display (MissingComponent s) =
     ''covered component '' @ s @ '' has no value in this request''"
| "http_sig_error_display (DuplicateComponent s) = ''duplicate covered component: '' @ s"
| "http_sig_error_display (InvalidComponentValue n r) =
     ''invalid value for covered component '' @ n @ '': '' @ r"
| "http_sig_error_display NonAsciiBase = ''signature base contains non-ASCII characters''"
| "http_sig_error_display (StructuredField s) = ''structured field error: '' @ s"
| "http_sig_error_display (MalformedSignatureInput s) = ''malformed Signature-Input: '' @ s"
| "http_sig_error_display (MalformedSignature s) = ''malformed Signature: '' @ s"
| "http_sig_error_display (ValidityTooLong a m) =
     ''validity window of '' @ show_nat a @ ''s exceeds the '' @ show_nat m @ ''s maximum''"
| "http_sig_error_display ValidityZero = ''validity window must be non-zero''"
| "http_sig_error_display (InvalidWindow c e) =
     ''invalid validity window: expires '' @ show_int e @ '' is not after created '' @ show_int c"
| "http_sig_error_display (ProfileRequiresEd25519 d) =
     ''the web-bot-auth profile requires an Ed25519 DID, got '' @ d"
| "http_sig_error_display EmptyThumbprint =
     ''the web-bot-auth profile requires a non-empty JWK thumbprint keyid''"
| "http_sig_error_display (TagMismatch e a) =
     ''tag mismatch: expected '' @ e @ '', signature carries '' @ a"
| "http_sig_error_display (AlgMismatch d e a) =
     ''alg mismatch: '' @ d @ '' implies '' @ e @ '', signature declares '' @ a"
| "http_sig_error_display (CreatedInFuture c n s) =
     ''signature created at '' @ show_int c @ '' is beyond the accepted skew (now '' @ show_int n @
     '', skew '' @ show_nat s @ ''s)''"
| "http_sig_error_display (Expired e n) =
     ''signature expired at '' @ show_int e @ '' (now '' @ show_int n @ '')''"
| "http_sig_error_display NonceReplayed = ''nonce replayed''"
| "http_sig_error_display (Sign s) = ''signing failed: '' @ s"
| "http_sig_error_display (HttpCrypto e) = crypto_error_display e"

section \<open>alg\_for\_did\<close>

definition alg_for_did :: "('x, 'z) crates_scheme \<Rightarrow> string \<Rightarrow> http_sig_error + string" where
  "alg_for_did E did =
     rbind (ok_or (find_did_method E did) (HttpCrypto (UnsupportedMethod did)))
       (\<lambda>m.
     rbind (map_err HttpCrypto (method_label E m did))
       (\<lambda>l.
          if l = ''Ed25519'' then Inr ALG_ED25519
          else if l = ''P-256'' then Inr ALG_ECDSA_P256_SHA256
          else if l = ''Ethereum'' then Inr ALG_EIP191_SECP256K1
          else Inl (HttpCrypto (UnsupportedMethod l))))"

text \<open>\<open>unix_now\<close>: whole seconds since the epoch, 0 for a clock before it. The clock is the
  argument.\<close>

definition unix_now :: "int \<Rightarrow> int" where
  "unix_now clock = (if clock < 0 then 0 else clock)"

text \<open>\<open>i64\<close> values are integers; \<open>saturating_add\<close> is written out.\<close>

definition saturating_add_i64 :: "int \<Rightarrow> int \<Rightarrow> int" where
  "saturating_add_i64 a b = max (- (2 ^ 63)) (min (2 ^ 63 - 1) (a + b))"

section \<open>Structured fields\<close>

text \<open>
  The sfv crate: the bare items the profile uses, entries of a dictionary, the checks that turn a
  string or an integer into a key, a string or an integer of RFC 8941, the serializers and the
  dictionary parser. A serializer returns \<open>None\<close> when there is nothing to serialize.
\<close>

datatype sf_bare = SfInteger int | SfString string | SfBytes bytes | SfOther

type_synonym sf_params = "(string \<times> sf_bare) list"

datatype sf_entry = SfItem sf_bare sf_params | SfInnerList "(sf_bare \<times> sf_params) list" sf_params

record sfv =
  sf_key_check :: "string \<Rightarrow> string + unit"
  sf_string_check :: "string \<Rightarrow> string + unit"
  sf_integer_check :: "int \<Rightarrow> string + unit"
  sf_list_of_inner :: "string list \<Rightarrow> sf_params \<Rightarrow> string option"
  sf_dict_of_inner :: "string \<Rightarrow> string list \<Rightarrow> sf_params \<Rightarrow> string option"
  sf_dict_of_bytes :: "string \<Rightarrow> bytes \<Rightarrow> string option"
  sf_parse_dict :: "string \<Rightarrow> string + (string \<times> sf_entry) list"

text \<open>
  RFC 8941: a dictionary of one inner list is the key, an equals sign and the list as it
  serializes in a list of its own; what the serializers print is one line of printable ASCII
  that starts and ends with a visible character; the parser reads back what they print.
\<close>

definition sf_valid_params :: "sfv \<Rightarrow> sf_params \<Rightarrow> bool" where
  "sf_valid_params V ps \<longleftrightarrow> distinct (map fst ps) \<and>
     (\<forall>(k, v) \<in> set ps. is_ok (sf_key_check V k) \<and>
        (case v of SfInteger i \<Rightarrow> is_ok (sf_integer_check V i)
         | SfString s \<Rightarrow> is_ok (sf_string_check V s) | _ \<Rightarrow> False))"

definition sf_prints :: "sfv \<Rightarrow> string list \<Rightarrow> sf_params \<Rightarrow> string \<Rightarrow> bool" where
  "sf_prints V xs ps t \<longleftrightarrow>
     sf_list_of_inner V xs ps = Some t \<and> t \<noteq> [] \<and> graphic (last t) \<and>
     (\<forall>c \<in> set t. c = CHR '' '' \<or> graphic c) \<and>
     (\<forall>k. is_ok (sf_key_check V k) \<longrightarrow>
        sf_dict_of_inner V k xs ps = Some (k @ ''='' @ t) \<and>
        sf_parse_dict V (k @ ''='' @ t) =
          Inr [(k, SfInnerList (map (\<lambda>x. (SfString x, [])) xs) ps)])"

definition sfv_law :: "sfv \<Rightarrow> bool" where
  "sfv_law V \<longleftrightarrow>
     (\<forall>xs ps. (\<forall>x \<in> set xs. is_ok (sf_string_check V x)) \<longrightarrow> sf_valid_params V ps \<longrightarrow>
        (\<exists>t. sf_prints V xs ps t)) \<and>
     (\<forall>k b. is_ok (sf_key_check V k) \<longrightarrow>
        (\<exists>t. sf_dict_of_bytes V k b = Some t \<and> sf_parse_dict V t = Inr [(k, SfItem (SfBytes b) [])])) \<and>
     (\<forall>k. is_ok (sf_key_check V k) \<longrightarrow> k \<noteq> [] \<and> (\<forall>c \<in> set k. graphic c)) \<and>
     (\<forall>k \<in> set [''created'', ''expires'', ''keyid'', ''alg'', ''nonce'', ''tag'', ''sig1''].
        is_ok (sf_key_check V k)) \<and>
     (\<forall>s. is_ok (sf_string_check V s) \<longleftrightarrow> (\<forall>c \<in> set s. c = CHR '' '' \<or> graphic c)) \<and>
     (\<forall>i. is_ok (sf_integer_check V i) \<longleftrightarrow> - 999999999999999 \<le> i \<and> i \<le> 999999999999999)"

end
