(* ===== verification/Replay_Guard.thy ===== *)
theory Replay_Guard
  imports Http_Sig "HOL-Library.Product_Lexorder"
begin

text \<open>
  Single use of signature nonces (http\_sig/replay.rs): the nonces already honoured with the time
  each signature expires, a hard capacity, purge before eviction. The operations run to the end
  first; the last section splits \<open>check_and_record_at\<close> into its atomic accesses to the shared map
  and lets threads interleave.
\<close>

section \<open>The guard\<close>

definition MAX_SEEN_NONCES :: nat where
  "MAX_SEEN_NONCES = 8192"

record nonce_replay_guard =
  ng_seen :: "(string, int) dmap"
  ng_capacity :: nat

definition guard_with_capacity :: "nat \<Rightarrow> nonce_replay_guard" where
  "guard_with_capacity capacity = \<lparr>ng_seen = [], ng_capacity = max capacity 1\<rparr>"

definition guard_new :: nonce_replay_guard where
  "guard_new = guard_with_capacity MAX_SEEN_NONCES"

definition guard_cleanup_expired_at :: "int \<Rightarrow> nonce_replay_guard \<Rightarrow> nonce_replay_guard" where
  "guard_cleanup_expired_at now g = g\<lparr>ng_seen := retain (\<lambda>_ expires_at. expires_at > now) (ng_seen g)\<rparr>"

text \<open>The least remaining life, ties broken by nonce.\<close>

definition life_key :: "string \<times> int \<Rightarrow> int \<times> string" where
  "life_key = (\<lambda>(nonce, expires_at). (expires_at, nonce))"

definition evict_soonest_expiring :: "nonce_replay_guard \<Rightarrow> nonce_replay_guard" where
  "evict_soonest_expiring g =
     (case min_by_key life_key (ng_seen g) of
        Some (nonce, _) \<Rightarrow> g\<lparr>ng_seen := AList.delete nonce (ng_seen g)\<rparr>
      | None \<Rightarrow> g)"

definition guard_make_room :: "int \<Rightarrow> nonce_replay_guard \<Rightarrow> nonce_replay_guard" where
  "guard_make_room now g =
     (if ng_capacity g \<le> length (ng_seen g) then
        (let g' = guard_cleanup_expired_at now g in
         if ng_capacity g' \<le> length (ng_seen g') then evict_soonest_expiring g' else g')
      else g)"

definition check_and_record_at ::
  "string \<Rightarrow> int \<Rightarrow> int \<Rightarrow> nonce_replay_guard \<Rightarrow> nonce_replay_guard \<times> (http_sig_error + unit)" where
  "check_and_record_at nonce expires_at now g =
     (if contains_key nonce (ng_seen g) then (g, Inl NonceReplayed)
      else
        (let g' = guard_make_room now g in
         if contains_key nonce (ng_seen g') then (g', Inl NonceReplayed)
         else (g'\<lparr>ng_seen := AList.update nonce expires_at (ng_seen g')\<rparr>, Inr ())))"

definition check_and_record ::
  "string \<Rightarrow> int \<Rightarrow> int \<Rightarrow> nonce_replay_guard \<Rightarrow> nonce_replay_guard \<times> (http_sig_error + unit)" where
  "check_and_record nonce expires_at clock g = check_and_record_at nonce expires_at (unix_now clock) g"

definition guard_cleanup_expired :: "int \<Rightarrow> nonce_replay_guard \<Rightarrow> nonce_replay_guard" where
  "guard_cleanup_expired clock g = guard_cleanup_expired_at (unix_now clock) g"

definition guard_len :: "nonce_replay_guard \<Rightarrow> nat" where
  "guard_len g = length (ng_seen g)"

definition guard_is_empty :: "nonce_replay_guard \<Rightarrow> bool" where
  "guard_is_empty g = (ng_seen g = [])"

text \<open>Operations in sequence.\<close>

datatype guard_op = Present string int int | Sweep int

fun guard_step :: "guard_op \<Rightarrow> nonce_replay_guard \<Rightarrow> nonce_replay_guard" where
  "guard_step (Present n e now) g = fst (check_and_record_at n e now g)"
| "guard_step (Sweep now) g = guard_cleanup_expired_at now g"

fun op_clock :: "guard_op \<Rightarrow> int" where
  "op_clock (Present n e now) = now"
| "op_clock (Sweep now) = now"

text \<open>A presented nonce that lives at least as long as a given entry.\<close>

fun outlives :: "string \<times> int \<Rightarrow> guard_op \<Rightarrow> bool" where
  "outlives p (Present n e now) = (life_key p \<le> life_key (n, e))"
| "outlives p (Sweep now) = False"

definition rivals :: "string \<times> int \<Rightarrow> nonce_replay_guard \<Rightarrow> nat" where
  "rivals p g = length (filter (\<lambda>q. life_key p \<le> life_key q) (ng_seen g))"

section \<open>Sequential behaviour\<close>

lemma room_fields [simp]:
  "ng_capacity (guard_cleanup_expired_at now g) = ng_capacity g"
  "ng_capacity (evict_soonest_expiring g) = ng_capacity g"
  "ng_capacity (guard_make_room now g) = ng_capacity g"
  "ng_capacity (fst (check_and_record_at n e now g)) = ng_capacity g"
  "ng_capacity (guard_step op g) = ng_capacity g"
proof -
  show evict: "ng_capacity (evict_soonest_expiring g) = ng_capacity g" for g
    by (simp add: evict_soonest_expiring_def split: option.splits prod.splits)
  show clean: "ng_capacity (guard_cleanup_expired_at now g) = ng_capacity g" for now
    by (simp add: guard_cleanup_expired_at_def)
  show "ng_capacity (guard_make_room now g) = ng_capacity g" for now
    using clean by (simp add: guard_make_room_def Let_def evict)
  then show cr: "ng_capacity (fst (check_and_record_at n e now g)) = ng_capacity g" for n e now
    by (simp add: check_and_record_at_def Let_def)
  show "ng_capacity (guard_step op g) = ng_capacity g"
    by (cases op) (simp_all add: cr clean)
qed

lemma evict_wf: "dmap_wf (ng_seen g) \<Longrightarrow> dmap_wf (ng_seen (evict_soonest_expiring g))"
  by (auto simp: evict_soonest_expiring_def split: option.splits)

lemma cleanup_wf: "dmap_wf (ng_seen g) \<Longrightarrow> dmap_wf (ng_seen (guard_cleanup_expired_at now g))"
  by (simp add: guard_cleanup_expired_at_def)

lemma room_wf: "dmap_wf (ng_seen g) \<Longrightarrow> dmap_wf (ng_seen (guard_make_room now g))"
  by (simp add: guard_make_room_def Let_def evict_wf cleanup_wf)

lemma evict_subset: "set (ng_seen (evict_soonest_expiring g)) \<subseteq> set (ng_seen g)"
  by (auto simp: evict_soonest_expiring_def AList.delete_eq split: option.splits)

lemma room_subset: "set (ng_seen (guard_make_room now g)) \<subseteq> set (ng_seen g)"
  using evict_subset [of "guard_cleanup_expired_at now g"]
  by (auto simp: guard_make_room_def Let_def guard_cleanup_expired_at_def retain_def)

lemma room_fresh:
  assumes "dmap_wf (ng_seen g)" "map_of (ng_seen g) n = None"
  shows "map_of (ng_seen (guard_make_room now g)) n = None"
  using room_subset [of now g] assms(2) by (force simp: map_of_eq_None_iff)

text \<open>Exactly the nonces that are not remembered are accepted, and they are remembered.\<close>

lemma check_result:
  assumes "dmap_wf (ng_seen g)"
  shows "check_and_record_at n e now g =
     (if map_of (ng_seen g) n = None
      then ((guard_make_room now g)\<lparr>ng_seen := AList.update n e (ng_seen (guard_make_room now g))\<rparr>, Inr ())
      else (g, Inl NonceReplayed))"
  using room_fresh [OF assms] by (auto simp: check_and_record_at_def contains_key_def Let_def)

lemma step_wf: "dmap_wf (ng_seen g) \<Longrightarrow> dmap_wf (ng_seen (guard_step op g))"
  by (cases op) (simp_all add: check_result cleanup_wf room_wf)

lemma evict_length:
  assumes "dmap_wf (ng_seen g)" "ng_seen g \<noteq> []"
  shows "Suc (length (ng_seen (evict_soonest_expiring g))) = length (ng_seen g)"
proof -
  obtain k e where v: "min_by_key life_key (ng_seen g) = Some (k, e)"
    using assms(2) by (cases "min_by_key life_key (ng_seen g)") auto
  then have "map_of (ng_seen g) k \<noteq> None"
    using min_by_key_in [OF v] assms(1) by (auto simp: dmap_wf_map_of_iff)
  with v length_delete_in [OF assms(1)] show ?thesis by (simp add: evict_soonest_expiring_def)
qed

definition guard_inv :: "nonce_replay_guard \<Rightarrow> bool" where
  "guard_inv g \<longleftrightarrow> dmap_wf (ng_seen g) \<and> length (ng_seen g) \<le> ng_capacity g \<and> 0 < ng_capacity g"

lemma room_length: "guard_inv g \<Longrightarrow> length (ng_seen (guard_make_room now g)) < ng_capacity g"
proof -
  assume g: "guard_inv g"
  let ?g = "guard_cleanup_expired_at now g"
  have "length (ng_seen ?g) \<le> length (ng_seen g)" "dmap_wf (ng_seen ?g)"
    using g by (simp_all add: guard_inv_def guard_cleanup_expired_at_def length_retain_le)
  with g evict_length [of ?g] show ?thesis
    by (cases "ng_seen ?g = []") (auto simp: guard_make_room_def Let_def guard_inv_def)
qed

lemma step_inv: "guard_inv g \<Longrightarrow> guard_inv (guard_step op g)"
proof (cases op)
  case (Present n e now)
  assume g: "guard_inv g"
  have "length (AList.update n e (ng_seen (guard_make_room now g))) \<le> ng_capacity g"
    using room_length [OF g, of now] length_update_le [of n e "ng_seen (guard_make_room now g)"] by linarith
  with g Present show ?thesis by (simp add: guard_inv_def check_result room_wf)
next
  case (Sweep now)
  assume "guard_inv g"
  with Sweep show ?thesis
    using length_retain_le [of "\<lambda>_ x. now < x" "ng_seen g"]
    by (simp add: guard_inv_def guard_cleanup_expired_at_def)
qed

lemma steps_inv: "guard_inv g \<Longrightarrow> guard_inv (fold guard_step ops g)"
  by (induction ops arbitrary: g) (simp_all add: step_inv)

text \<open>An entry goes only when it has expired, or when every remembered entry outlives it.\<close>

lemma length_filter_filter: "length (filter P (filter Q xs)) \<le> length (filter P xs)"
  by (induction xs) auto

lemma room_keeps:
  assumes "dmap_wf (ng_seen g)" "(n, e) \<in> set (ng_seen g)" "now < e" "rivals (n, e) g < ng_capacity g"
  shows "(n, e) \<in> set (ng_seen (guard_make_room now g))"
proof -
  let ?g = "guard_cleanup_expired_at now g"
  have in': "(n, e) \<in> set (ng_seen ?g)" using assms(2,3) by (simp add: guard_cleanup_expired_at_def retain_def)
  have wf: "dmap_wf (ng_seen ?g)" using assms(1) by (rule cleanup_wf)
  have le: "rivals (n, e) ?g \<le> rivals (n, e) g"
    by (simp add: rivals_def guard_cleanup_expired_at_def retain_def length_filter_filter del: filter_filter)
  have "(n, e) \<in> set (ng_seen (evict_soonest_expiring ?g))" if full: "ng_capacity g \<le> length (ng_seen ?g)"
  proof -
    obtain k x where v: "min_by_key life_key (ng_seen ?g) = Some (k, x)"
      using in' by (cases "min_by_key life_key (ng_seen ?g)") auto
    have "k \<noteq> n"
    proof
      assume "k = n"
      with v wf in' have "x = e" by (metis dmap_wf_map_of_iff min_by_key_in option.inject)
      with v \<open>k = n\<close> have "\<forall>q \<in> set (ng_seen ?g). life_key (n, e) \<le> life_key q"
        by (auto dest: min_by_key_le)
      then have "rivals (n, e) ?g = length (ng_seen ?g)" by (simp add: rivals_def)
      with le full assms(4) show False by simp
    qed
    with v in' show ?thesis by (auto simp: evict_soonest_expiring_def AList.delete_eq)
  qed
  with in' assms(2) show ?thesis by (auto simp: guard_make_room_def Let_def)
qed

lemma rivals_shrink:
  assumes "ng_seen g' = filter P (ng_seen g)"
  shows "rivals p g' \<le> rivals p g"
  unfolding rivals_def assms by (rule length_filter_filter)

lemma room_filter: "\<exists>P. ng_seen (guard_make_room now g) = filter P (ng_seen g)"
proof -
  have "\<exists>P. ng_seen (evict_soonest_expiring g) = filter P (ng_seen g)" for g
    by (auto simp: evict_soonest_expiring_def AList.delete_eq split: option.splits intro: exI [of _ "\<lambda>_. True"])
  then obtain Q where "ng_seen (evict_soonest_expiring (guard_cleanup_expired_at now g)) =
      filter Q (ng_seen (guard_cleanup_expired_at now g))" by blast
  then show ?thesis
    by (auto simp: guard_make_room_def Let_def guard_cleanup_expired_at_def retain_def
        intro: exI [of _ "\<lambda>_. True"])
qed

lemma step_rivals:
  assumes "dmap_wf (ng_seen g)"
  shows "rivals p (guard_step op g) \<le> rivals p g + (if outlives p op then 1 else 0)"
proof (cases op)
  case (Present n e now)
  obtain P where P: "ng_seen (guard_make_room now g) = filter P (ng_seen g)" using room_filter by blast
  have "rivals p (guard_step op g) \<le> rivals p (guard_make_room now g) + (if outlives p op then 1 else 0)"
    if "map_of (ng_seen g) n = None"
  proof -
    have "AList.update n e m = m @ [(n, e)]" if "map_of m n = None" for m :: "(string, int) dmap"
      using that by (induction m) (auto split: if_splits)
    then show ?thesis
      using Present that by (simp add: check_result [OF assms] rivals_def room_fresh [OF assms that])
  qed
  with Present rivals_shrink [OF P, of p] show ?thesis by (auto simp: check_result [OF assms])
next
  case (Sweep now)
  then show ?thesis
    using rivals_shrink [of "guard_step op g" _ g p] by (simp add: guard_cleanup_expired_at_def retain_def)
qed

lemma step_keeps:
  assumes "dmap_wf (ng_seen g)" "(n, e) \<in> set (ng_seen g)" "op_clock op < e" "rivals (n, e) g < ng_capacity g"
  shows "(n, e) \<in> set (ng_seen (guard_step op g))"
proof (cases op)
  case (Present m x now)
  then have kept: "(n, e) \<in> set (ng_seen (guard_make_room now g))" using room_keeps assms by simp
  show ?thesis
  proof (cases "map_of (ng_seen g) m")
    case None
    then have "m \<noteq> n" using assms(2) by (force simp: map_of_eq_None_iff)
    have "dmap_wf (AList.update m x (ng_seen (guard_make_room now g)))" using assms(1) room_wf by simp
    moreover have "map_of (ng_seen (guard_make_room now g)) n = Some e"
      using kept assms(1) room_wf dmap_wf_map_of_iff by metis
    ultimately show ?thesis
      using None Present \<open>m \<noteq> n\<close>
      by (simp add: check_result [OF assms(1)] dmap_wf_map_of_iff [symmetric])
  qed (use assms Present in \<open>simp add: check_result\<close>)
qed (use assms in \<open>simp add: guard_cleanup_expired_at_def retain_def\<close>)

lemma steps_keep:
  assumes "dmap_wf (ng_seen g)" "(n, e) \<in> set (ng_seen g)" "\<forall>op \<in> set ops. op_clock op < e"
    and "rivals (n, e) g + length (filter (outlives (n, e)) ops) < ng_capacity g"
  shows "map_of (ng_seen (fold guard_step ops g)) n = Some e \<and> dmap_wf (ng_seen (fold guard_step ops g))"
  using assms
proof (induction ops arbitrary: g)
  case Nil
  then show ?case by (simp add: dmap_wf_map_of_iff)
next
  case (Cons op ops)
  have "(n, e) \<in> set (ng_seen (guard_step op g))" using Cons.prems step_keeps by auto
  moreover have "rivals (n, e) (guard_step op g) + length (filter (outlives (n, e)) ops) < ng_capacity g"
    using step_rivals [OF Cons.prems(1), of "(n, e)" op] Cons.prems(4) by (auto split: if_splits)
  ultimately show ?case using Cons step_wf by simp
qed

section \<open>Properties\<close>

text \<open>
  C27. A nonce is honoured once inside its window: after it was accepted, and while the clock
  readings stay before its expiry, presenting it again is refused, whatever else is presented or
  swept in between, as long as the remembered nonces that live at least as long, with those
  presented since, stay below the capacity. This is the exact price of the bound: only a guard
  full of longer-lived nonces forgets a live one.
\<close>

theorem nonce_single_use:
  assumes "dmap_wf (ng_seen g)" and "check_and_record_at n e now g = (g1, Inr ())"
    and "\<forall>op \<in> set ops. op_clock op < e"
    and "rivals (n, e) g + length (filter (outlives (n, e)) ops) + 1 < ng_capacity g"
  shows "check_and_record_at n e' now' (fold guard_step ops g1) =
           (fold guard_step ops g1, Inl NonceReplayed)"
proof -
  have g1: "g1 = guard_step (Present n e now) g" using assms(2) by simp
  have "map_of (ng_seen g1) n = Some e"
    using assms(2) by (auto simp: check_result [OF assms(1)] split: if_splits)
  moreover have wf: "dmap_wf (ng_seen g1)" unfolding g1 by (rule step_wf [OF assms(1)])
  moreover have "rivals (n, e) g1 + length (filter (outlives (n, e)) ops) < ng_capacity g1"
    using step_rivals [OF assms(1), of "(n, e)" "Present n e now"] assms(4) room_fields(5) [of "Present n e now" g]
    unfolding g1 by simp
  ultimately show ?thesis
    using steps_keep [of g1 n e ops] assms(3) by (simp add: dmap_wf_map_of_iff check_result)
qed

theorem nonce_single_use_witness:
  "check_and_record_at ''n1'' 200 150
     (fold guard_step [Present ''n2'' 50 101, Sweep 120] (\<lparr>ng_seen = [(''n1'', 160)], ng_capacity = 2\<rparr>)) =
   (fold guard_step [Present ''n2'' 50 101, Sweep 120] (\<lparr>ng_seen = [(''n1'', 160)], ng_capacity = 2\<rparr>),
    Inl NonceReplayed)"
proof (rule nonce_single_use)
  show "check_and_record_at ''n1'' 160 100 (guard_with_capacity 2) =
      (\<lparr>ng_seen = [(''n1'', 160)], ng_capacity = 2\<rparr>, Inr ())"
    by (simp add: check_and_record_at_def guard_with_capacity_def contains_key_def guard_make_room_def)
qed (simp_all add: guard_with_capacity_def rivals_def life_key_def)

text \<open>
  C28. The guard is bounded, and its decision is exact: through any operations it remembers at
  most its capacity, which is never zero, and a presented nonce is accepted exactly when it is
  not remembered. Room is made only after that question, so a full guard still recognises every
  nonce it holds.
\<close>

theorem guard_bounded_and_exact:
  "length (ng_seen (fold guard_step ops (guard_with_capacity cap))) \<le> max cap 1 \<and>
   (snd (check_and_record_at n e now (fold guard_step ops (guard_with_capacity cap))) = Inr () \<longleftrightarrow>
      map_of (ng_seen (fold guard_step ops (guard_with_capacity cap))) n = None)"
proof -
  let ?g = "fold guard_step ops (guard_with_capacity cap)"
  have "guard_inv (guard_with_capacity cap)" by (simp add: guard_inv_def guard_with_capacity_def)
  then have inv: "guard_inv ?g" by (rule steps_inv)
  have "ng_capacity (fold guard_step ops g) = ng_capacity g" for g
    by (induction ops arbitrary: g) simp_all
  then have "ng_capacity ?g = max cap 1" by (simp add: guard_with_capacity_def)
  with inv show ?thesis by (simp add: guard_inv_def check_result)
qed

section \<open>Interleavings\<close>

text \<open>
  Threads that call \<open>check_and_record_at\<close> on one shared guard. Each access to the concurrent map
  is one step: the lookup, the two length reads, each entry \<open>retain\<close> drops, the choice of a
  victim, its removal, and the entry that inserts or finds the slot taken. The scan for the
  victim is not atomic, so the victim may be any nonce by the time it is removed.
\<close>

datatype guard_pc = AtLookup | AtLen | AtCleanup | AtLenAgain | AtVictim | AtRemove string | AtEntry
  | Returned "http_sig_error + unit"

record guard_thread =
  gt_nonce :: string
  gt_expires_at :: int
  gt_now :: int
  gt_pc :: guard_pc

datatype guard_event = Honoured string | Forgotten string

inductive guard_access ::
  "nonce_replay_guard \<Rightarrow> guard_thread \<Rightarrow> guard_event list \<Rightarrow> nonce_replay_guard \<Rightarrow> guard_thread \<Rightarrow> bool" where
  lookup_hit: "gt_pc t = AtLookup \<Longrightarrow> contains_key (gt_nonce t) (ng_seen g) \<Longrightarrow>
     guard_access g t [] g (t\<lparr>gt_pc := Returned (Inl NonceReplayed)\<rparr>)"
| lookup_miss: "gt_pc t = AtLookup \<Longrightarrow> \<not> contains_key (gt_nonce t) (ng_seen g) \<Longrightarrow>
     guard_access g t [] g (t\<lparr>gt_pc := AtLen\<rparr>)"
| len_full: "gt_pc t = AtLen \<Longrightarrow> ng_capacity g \<le> length (ng_seen g) \<Longrightarrow>
     guard_access g t [] g (t\<lparr>gt_pc := AtCleanup\<rparr>)"
| len_room: "gt_pc t = AtLen \<Longrightarrow> length (ng_seen g) < ng_capacity g \<Longrightarrow>
     guard_access g t [] g (t\<lparr>gt_pc := AtEntry\<rparr>)"
| cleanup_drop: "gt_pc t = AtCleanup \<Longrightarrow> map_of (ng_seen g) k = Some e \<Longrightarrow> e \<le> gt_now t \<Longrightarrow>
     guard_access g t [Forgotten k] (g\<lparr>ng_seen := AList.delete k (ng_seen g)\<rparr>) t"
| cleanup_end: "gt_pc t = AtCleanup \<Longrightarrow> guard_access g t [] g (t\<lparr>gt_pc := AtLenAgain\<rparr>)"
| len_again_full: "gt_pc t = AtLenAgain \<Longrightarrow> ng_capacity g \<le> length (ng_seen g) \<Longrightarrow>
     guard_access g t [] g (t\<lparr>gt_pc := AtVictim\<rparr>)"
| len_again_room: "gt_pc t = AtLenAgain \<Longrightarrow> length (ng_seen g) < ng_capacity g \<Longrightarrow>
     guard_access g t [] g (t\<lparr>gt_pc := AtEntry\<rparr>)"
| victim: "gt_pc t = AtVictim \<Longrightarrow> guard_access g t [] g (t\<lparr>gt_pc := AtRemove k\<rparr>)"
| victim_none: "gt_pc t = AtVictim \<Longrightarrow> guard_access g t [] g (t\<lparr>gt_pc := AtEntry\<rparr>)"
| remove: "gt_pc t = AtRemove k \<Longrightarrow>
     guard_access g t (if contains_key k (ng_seen g) then [Forgotten k] else [])
       (g\<lparr>ng_seen := AList.delete k (ng_seen g)\<rparr>) (t\<lparr>gt_pc := AtEntry\<rparr>)"
| entry_occupied: "gt_pc t = AtEntry \<Longrightarrow> contains_key (gt_nonce t) (ng_seen g) \<Longrightarrow>
     guard_access g t [] g (t\<lparr>gt_pc := Returned (Inl NonceReplayed)\<rparr>)"
| entry_vacant: "gt_pc t = AtEntry \<Longrightarrow> \<not> contains_key (gt_nonce t) (ng_seen g) \<Longrightarrow>
     guard_access g t [Honoured (gt_nonce t)]
       (g\<lparr>ng_seen := AList.update (gt_nonce t) (gt_expires_at t) (ng_seen g)\<rparr>)
       (t\<lparr>gt_pc := Returned (Inr ())\<rparr>)"

inductive guard_interleaving ::
  "nonce_replay_guard \<Rightarrow> guard_thread list \<Rightarrow> guard_event list \<Rightarrow> nonce_replay_guard \<Rightarrow>
   guard_thread list \<Rightarrow> bool"
  for g0 :: nonce_replay_guard and ts0 :: "guard_thread list" where
  start: "guard_interleaving g0 ts0 [] g0 ts0"
| access: "guard_interleaving g0 ts0 evs g ts \<Longrightarrow> i < length ts \<Longrightarrow>
     guard_access g (ts ! i) es g' t' \<Longrightarrow> guard_interleaving g0 ts0 (evs @ es) g' (ts[i := t'])"

definition winner :: "string \<Rightarrow> guard_thread \<Rightarrow> bool" where
  "winner n t \<longleftrightarrow> gt_nonce t = n \<and> gt_pc t = Returned (Inr ())"

definition remembered :: "string \<Rightarrow> nonce_replay_guard \<Rightarrow> nat" where
  "remembered n g = (if contains_key n (ng_seen g) then 1 else 0)"

lemma length_filter_update:
  "i < length xs \<Longrightarrow> \<not> P (xs ! i) \<Longrightarrow>
     length (filter P (xs[i := y])) = length (filter P xs) + (if P y then 1 else 0)"
  by (induction xs arbitrary: i) (auto split: nat.splits)

text \<open>One access pays for a winner with an entry, and for a lost entry with a \<open>Forgotten\<close> event.\<close>

lemma access_ledger:
  assumes "guard_access g t es g' t'"
  shows "\<not> winner n t \<and>
    (if winner n t' then 1 else 0) + remembered n g \<le>
      length (filter (\<lambda>e. e = Forgotten n) es) + remembered n g'"
  using assms by induction (auto simp: winner_def remembered_def contains_key_def)

lemma interleaving_ledger:
  assumes "guard_interleaving g0 ts0 evs g ts"
  shows "length (filter (winner n) ts) + remembered n g0 \<le>
    length (filter (\<lambda>e. e = Forgotten n) evs) + remembered n g + length (filter (winner n) ts0)"
  using assms
proof induction
  case (access evs g ts i es g' t')
  from access_ledger [OF access.hyps(3), of n] access.hyps(2) access.IH show ?case
    by (auto simp: length_filter_update split: if_splits)
qed simp

text \<open>
  C14. Two concurrent presentations of one nonce cannot both be honoured: however the accesses of
  the threads interleave, the calls that returned success for a nonce are at most one more than
  the times the nonce was forgotten, by the purge of an expired entry or by an eviction.
\<close>

theorem no_double_honour:
  assumes "guard_interleaving g0 ts0 evs g ts" and "\<forall>t \<in> set ts0. gt_pc t = AtLookup"
  shows "length (filter (winner n) ts) \<le> Suc (length (filter (\<lambda>e. e = Forgotten n) evs))"
proof -
  have "filter (winner n) ts0 = []" using assms(2) by (auto simp: winner_def filter_empty_conv)
  with interleaving_ledger [OF assms(1), of n] show ?thesis by (simp add: remembered_def split: if_splits)
qed

definition ref_thread :: "guard_pc \<Rightarrow> guard_thread" where
  "ref_thread pc = \<lparr>gt_nonce = ''n1'', gt_expires_at = 160, gt_now = 100, gt_pc = pc\<rparr>"

lemma ref_thread_fields [simp]:
  "gt_pc (ref_thread pc) = pc" "gt_nonce (ref_thread pc) = ''n1''" "gt_expires_at (ref_thread pc) = 160"
  "(ref_thread pc)\<lparr>gt_pc := pc'\<rparr> = ref_thread pc'"
  by (simp_all add: ref_thread_def)

text \<open>Both threads miss in the lookup and find room; the second finds the slot taken.\<close>

lemma ref_race:
  "guard_interleaving (guard_with_capacity 2) [ref_thread AtLookup, ref_thread AtLookup]
     [Honoured ''n1''] \<lparr>ng_seen = [(''n1'', 160)], ng_capacity = 2\<rparr>
     [ref_thread (Returned (Inr ())), ref_thread (Returned (Inl NonceReplayed))]"
proof -
  let ?run = "guard_interleaving (guard_with_capacity 2) [ref_thread AtLookup, ref_thread AtLookup]"
  let ?g = "guard_with_capacity 2"
  note defs = guard_with_capacity_def contains_key_def
  have "?run [] ?g [ref_thread AtLen, ref_thread AtLookup]"
    using guard_interleaving.access [OF guard_interleaving.start, of 0 "[ref_thread AtLookup, ref_thread AtLookup]" ?g]
      lookup_miss [of "ref_thread AtLookup" ?g] by (fastforce simp: defs)
  from guard_interleaving.access [OF this, of 1] lookup_miss [of "ref_thread AtLookup" ?g]
  have "?run [] ?g [ref_thread AtLen, ref_thread AtLen]" by (fastforce simp: defs)
  from guard_interleaving.access [OF this, of 0] len_room [of "ref_thread AtLen" ?g]
  have "?run [] ?g [ref_thread AtEntry, ref_thread AtLen]" by (fastforce simp: defs)
  from guard_interleaving.access [OF this, of 1] len_room [of "ref_thread AtLen" ?g]
  have "?run [] ?g [ref_thread AtEntry, ref_thread AtEntry]" by (fastforce simp: defs)
  moreover have "guard_access ?g (ref_thread AtEntry) [Honoured ''n1'']
      \<lparr>ng_seen = [(''n1'', 160)], ng_capacity = 2\<rparr> (ref_thread (Returned (Inr ())))"
    using entry_vacant [of "ref_thread AtEntry" ?g] by (simp add: defs numeral_2_eq_2)
  ultimately have "?run [Honoured ''n1''] \<lparr>ng_seen = [(''n1'', 160)], ng_capacity = 2\<rparr>
      [ref_thread (Returned (Inr ())), ref_thread AtEntry]"
    using guard_interleaving.access [of ?g _ "[]" ?g "[ref_thread AtEntry, ref_thread AtEntry]" 0] by fastforce
  from guard_interleaving.access [OF this, of 1]
    entry_occupied [of "ref_thread AtEntry" "\<lparr>ng_seen = [(''n1'', 160)], ng_capacity = 2\<rparr>"]
  show ?thesis by (fastforce simp: defs)
qed

theorem no_double_honour_witness:
  "length (filter (winner ''n1'') [ref_thread (Returned (Inr ())), ref_thread (Returned (Inl NonceReplayed))])
     \<le> Suc (length (filter (\<lambda>e. e = Forgotten ''n1'') [Honoured ''n1'']))"
  by (rule no_double_honour [OF ref_race]) simp

end
