(* ===== verification/Shared_Guard.thy ===== *)
theory Shared_Guard
  imports Interleaving Replay_Guard
begin

text \<open>
  The capacity of the replay guard under concurrent callers (http\_sig/replay.rs), over the accesses
  of \<open>guard_access\<close>.
\<close>

lemma as_guard_interleaving:
  "interleaving guard_access (\<lambda>_ _. False) g0 ts0 evs g ts \<Longrightarrow> guard_interleaving g0 ts0 evs g ts"
  by (induction rule: interleaving.induct) (auto intro: guard_interleaving.intros)

definition record_nonce :: "guard_thread \<Rightarrow> nonce_replay_guard \<Rightarrow> nonce_replay_guard" where
  "record_nonce t g = g\<lparr>ng_seen := AList.update (gt_nonce t) (gt_expires_at t) (ng_seen g)\<rparr>"

text \<open>A presentation of a new nonce at a full guard with nothing expired, up to the victim it chooses.\<close>

definition presents :: "nonce_replay_guard \<Rightarrow> guard_thread \<Rightarrow> bool" where
  "presents g t \<longleftrightarrow> gt_pc t = AtLookup \<and> \<not> contains_key (gt_nonce t) (ng_seen g) \<and> guard_cleanup_expired_at (gt_now t) g = g"

lemma choose_victim:
  assumes "presents g t" "ng_capacity g \<le> length (ng_seen g)"
  shows "alone guard_access g t [] g (t\<lparr>gt_pc := AtRemove k\<rparr>)"
proof -
  let ?pc = "\<lambda>pc. t\<lparr>gt_pc := pc\<rparr>"
  have "guard_access g t [] g (?pc AtLen)" using assms(1) by (auto simp: presents_def intro: lookup_miss)
  moreover have "guard_access g (?pc AtLen) [] g (?pc AtCleanup)" using len_full [of "?pc AtLen" g] assms(2) by simp
  moreover have "guard_access g (?pc AtCleanup) [] g (?pc AtLenAgain)" using cleanup_end [of "?pc AtCleanup" g] by simp
  moreover have "guard_access g (?pc AtLenAgain) [] g (?pc AtVictim)" using len_again_full [of "?pc AtLenAgain" g] assms(2) by simp
  moreover have "guard_access g (?pc AtVictim) [] g (?pc (AtRemove k))" using victim [of "?pc AtVictim" g k] by simp
  ultimately show ?thesis
    by (meson alone_silent [where acc = guard_access] alone_last [where acc = guard_access])
qed

lemma remove_victim:
  "alone guard_access g (t\<lparr>gt_pc := AtRemove k\<rparr>) (if contains_key k (ng_seen g) then [Forgotten k] else [])
     (g\<lparr>ng_seen := AList.delete k (ng_seen g)\<rparr>) (t\<lparr>gt_pc := AtEntry\<rparr>)"
  using alone_last [where acc = guard_access, OF remove [of "t\<lparr>gt_pc := AtRemove k\<rparr>" k g]] by simp

lemma take_entry:
  "\<not> contains_key (gt_nonce t) (ng_seen g) \<Longrightarrow>
     alone guard_access g (t\<lparr>gt_pc := AtEntry\<rparr>) [Honoured (gt_nonce t)] (record_nonce t g) (t\<lparr>gt_pc := Returned (Inr ())\<rparr>)"
  using alone_last [where acc = guard_access, OF entry_vacant [of "t\<lparr>gt_pc := AtEntry\<rparr>" g]] by (simp add: record_nonce_def)

text \<open>
  Two threads that present new nonces to a full guard, none of whose nonces is over, can both choose
  the nonce that expires soonest: one goes and two come, so the guard is past its capacity by one more
  than before. A call on its own at such a guard replaces one nonce by one.
\<close>

theorem guard_race:
  assumes "dmap_wf (ng_seen g)" "ng_seen g \<noteq> []" "ng_capacity g \<le> length (ng_seen g)"
    and "presents g a" "presents g b" "gt_nonce a \<noteq> gt_nonce b"
  shows "\<exists>evs a' b'. guard_interleaving g [a, b] evs (record_nonce b (record_nonce a (evict_soonest_expiring g))) [a', b'] \<and>
      gt_pc a' = Returned (Inr ()) \<and> gt_pc b' = Returned (Inr ())"
    "length (ng_seen (record_nonce b (record_nonce a (evict_soonest_expiring g)))) = Suc (length (ng_seen g))"
    "length (ng_seen (fst (check_and_record_at (gt_nonce a) (gt_expires_at a) (gt_now a) g))) = length (ng_seen g)"
proof -
  let ?run = "interleaving guard_access (\<lambda>_ _. False) g [a, b]"
  obtain k e where k: "min_by_key life_key (ng_seen g) = Some (k, e)"
    using assms(2) by (cases "min_by_key life_key (ng_seen g)") auto
  let ?g = "g\<lparr>ng_seen := AList.delete k (ng_seen g)\<rparr>"
  have ev: "evict_soonest_expiring g = ?g" by (simp add: evict_soonest_expiring_def k)
  have held: "map_of (ng_seen g) k = Some e" using min_by_key_in [OF k] assms(1) by (simp add: dmap_wf_map_of_iff)
  have new: "map_of (ng_seen g) (gt_nonce a) = None" "map_of (ng_seen g) (gt_nonce b) = None"
    using assms(4,5) by (simp_all add: presents_def contains_key_def)
  have "?run [] g [a, b]" by (rule interleaving.none)
  from second_thread [OF first_thread [OF this choose_victim [OF assms(4,3), of k]] choose_victim [OF assms(5,3), of k]]
  have "?run [] g [a\<lparr>gt_pc := AtRemove k\<rparr>, b\<lparr>gt_pc := AtRemove k\<rparr>]" by simp
  from second_thread [OF first_thread [OF this remove_victim] remove_victim]
  have "?run [Forgotten k] ?g [a\<lparr>gt_pc := AtEntry\<rparr>, b\<lparr>gt_pc := AtEntry\<rparr>]"
    using held by (simp add: contains_key_def AList.delete_idem)
  from first_thread [OF this take_entry]
  have "?run [Forgotten k, Honoured (gt_nonce a)] (record_nonce a ?g) [a\<lparr>gt_pc := Returned (Inr ())\<rparr>, b\<lparr>gt_pc := AtEntry\<rparr>]"
    using new(1) by (simp add: contains_key_def)
  from second_thread [OF this take_entry]
  have "?run [Forgotten k, Honoured (gt_nonce a), Honoured (gt_nonce b)] (record_nonce b (record_nonce a ?g))
      [a\<lparr>gt_pc := Returned (Inr ())\<rparr>, b\<lparr>gt_pc := Returned (Inr ())\<rparr>]"
    using new(2) assms(6) by (simp add: contains_key_def record_nonce_def)
  from as_guard_interleaving [OF this]
  show "\<exists>evs a' b'. guard_interleaving g [a, b] evs (record_nonce b (record_nonce a (evict_soonest_expiring g))) [a', b'] \<and>
      gt_pc a' = Returned (Inr ()) \<and> gt_pc b' = Returned (Inr ())" unfolding ev by fastforce
  have len: "Suc (length (AList.delete k (ng_seen g))) = length (ng_seen g)"
    using length_delete_in [OF assms(1), of k] held by simp
  with new assms(6) show "length (ng_seen (record_nonce b (record_nonce a (evict_soonest_expiring g)))) = Suc (length (ng_seen g))"
    unfolding ev by (simp add: record_nonce_def update_new)
  have "guard_make_room (gt_now a) g = ?g"
    using assms(3,4) ev by (simp add: guard_make_room_def presents_def)
  with new(1) len show "length (ng_seen (fst (check_and_record_at (gt_nonce a) (gt_expires_at a) (gt_now a) g))) = length (ng_seen g)"
    by (simp add: check_and_record_at_def contains_key_def update_new)
qed

end
