(* ===== verification/Signature_Base.thy ===== *)
theory Signature_Base
  imports Http_Sig
begin

text \<open>
  The signature base of RFC 9421 section 2.5 (http\_sig/base.rs): the covered components and
  their values, the authority of a target URI, and the text that is signed.
\<close>

section \<open>Components\<close>

definition COMPONENT_AUTHORITY :: string where
  "COMPONENT_AUTHORITY = ''@authority''"

definition COMPONENT_SIGNATURE_AGENT :: string where
  "COMPONENT_SIGNATURE_AGENT = ''signature-agent''"

definition COMPONENT_SIGNATURE_PARAMS :: string where
  "COMPONENT_SIGNATURE_PARAMS = ''@signature-params''"

definition ALLOWED_COMPONENTS :: "string list" where
  "ALLOWED_COMPONENTS = [COMPONENT_AUTHORITY, COMPONENT_SIGNATURE_AGENT]"

definition PARAM_ORDER :: "string list" where
  "PARAM_ORDER = [''created'', ''expires'', ''keyid'', ''alg'', ''nonce'', ''tag'']"

record signature_params =
  sp_covered :: "string list"
  sp_created :: int
  sp_expires :: int
  sp_keyid :: string
  sp_alg :: string
  sp_nonce :: string
  sp_tag :: string

definition covered_components :: "request_parts \<Rightarrow> string list" where
  "covered_components parts =
     [COMPONENT_AUTHORITY] @
     (if rp_signature_agent parts \<noteq> None then [COMPONENT_SIGNATURE_AGENT] else [])"

section \<open>The authority\<close>

text \<open>The host and the port of an authority: a bracketed IPv6 literal may hold colons.\<close>

definition split_host_port :: "string \<Rightarrow> string \<Rightarrow> http_sig_error + (string \<times> string option)" where
  "split_host_port target_uri authority =
     (case rsplit_once CHR '']'' authority of
        Some (before, tail) \<Rightarrow>
          if starts_with ''['' authority then
            (let host = before @ '']'' in
             if tail = '''' then Inr (host, None)
             else rbind (ok_or (strip_prefix '':'' tail) (InvalidTargetUri target_uri))
                    (\<lambda>port. Inr (host, Some port)))
          else Inl (InvalidTargetUri target_uri)
      | None \<Rightarrow>
          (case split_once CHR '':'' authority of
             Some (host, port) \<Rightarrow> Inr (host, Some port)
           | None \<Rightarrow> Inr (authority, None)))"

definition authority_delimiter :: "char \<Rightarrow> bool" where
  "authority_delimiter c = (c \<in> set ''/?#'')"

definition default_port :: "string \<Rightarrow> http_sig_error + nat" where
  "default_port scheme =
     (if scheme = ''http'' then Inr 80
      else if scheme = ''https'' then Inr 443
      else Inl (UnsupportedScheme scheme))"

definition authority_from_uri :: "string \<Rightarrow> http_sig_error + string" where
  "authority_from_uri target_uri =
     rbind (ok_or (split_once_str ''://'' target_uri) (InvalidTargetUri target_uri))
       (\<lambda>(scheme0, rest).
     rbind (default_port (to_ascii_lowercase scheme0))
       (\<lambda>dport.
     let authority0 = hd (split_by authority_delimiter rest);
         authority = (case rsplit_once CHR ''@'' authority0 of
                        Some (userinfo, host_port) \<Rightarrow> host_port
                      | None \<Rightarrow> authority0)
     in
     if authority = '''' then Inl (InvalidTargetUri target_uri)
     else
     rbind (split_host_port target_uri authority)
       (\<lambda>(host0, port).
     let host = to_ascii_lowercase host0 in
     if host = '''' \<or> host = ''[]'' then Inl (InvalidTargetUri target_uri)
     else
       (case port of
          None \<Rightarrow> Inr host
        | Some p \<Rightarrow>
            rbind (ok_or (parse_u16 p) (InvalidTargetUri target_uri))
              (\<lambda>n. if n = dport then Inr host else Inr (host @ '':'' @ show_nat n))))))"

definition component_value :: "string \<Rightarrow> request_parts \<Rightarrow> http_sig_error + string" where
  "component_value name parts =
     (if name = COMPONENT_AUTHORITY then authority_from_uri (rp_target_uri parts)
      else if name = COMPONENT_SIGNATURE_AGENT then
        rbind (ok_or (rp_signature_agent parts) (MissingComponent name))
          (\<lambda>raw.
        let v = trim raw in
        if v = '''' then Inl (MissingComponent name)
        else if CR \<in> set v \<or> LF \<in> set v then
          Inl (InvalidComponentValue name ''value contains a line break'')
        else Inr v)
      else Inl (UnsupportedComponent name))"

section \<open>Serialization\<close>

definition sf_key :: "sfv \<Rightarrow> string \<Rightarrow> http_sig_error + unit" where
  "sf_key V name = map_err StructuredField (sf_key_check V name)"

definition sf_string :: "sfv \<Rightarrow> string \<Rightarrow> http_sig_error + unit" where
  "sf_string V v = map_err StructuredField (sf_string_check V v)"

definition sf_integer :: "sfv \<Rightarrow> int \<Rightarrow> http_sig_error + unit" where
  "sf_integer V v =
     map_err (\<lambda>e. StructuredField (show_int v @ '' is not a valid integer: '' @ e))
       (sf_integer_check V v)"

definition sf_integer_param :: "sfv \<Rightarrow> string \<Rightarrow> int \<Rightarrow> http_sig_error + (string \<times> sf_bare)" where
  "sf_integer_param V name v =
     rbind (sf_key V name) (\<lambda>_. rbind (sf_integer V v) (\<lambda>_. Inr (name, SfInteger v)))"

definition sf_string_param :: "sfv \<Rightarrow> string \<Rightarrow> string \<Rightarrow> http_sig_error + (string \<times> sf_bare)" where
  "sf_string_param V name v =
     rbind (sf_key V name) (\<lambda>_. rbind (sf_string V v) (\<lambda>_. Inr (name, SfString v)))"

definition write_params_inner_list ::
  "sfv \<Rightarrow> signature_params \<Rightarrow> http_sig_error + (string list \<times> sf_params)" where
  "write_params_inner_list V params =
     rbind (collect_results (\<lambda>name. rbind (sf_string V name) (\<lambda>_. Inr name)) (sp_covered params))
       (\<lambda>items.
     rbind (sf_integer_param V ''created'' (sp_created params)) (\<lambda>p1.
     rbind (sf_integer_param V ''expires'' (sp_expires params)) (\<lambda>p2.
     rbind (sf_string_param V ''keyid'' (sp_keyid params)) (\<lambda>p3.
     rbind (sf_string_param V ''alg'' (sp_alg params)) (\<lambda>p4.
     rbind (sf_string_param V ''nonce'' (sp_nonce params)) (\<lambda>p5.
     rbind (sf_string_param V ''tag'' (sp_tag params)) (\<lambda>p6.
       Inr (items, [p1, p2, p3, p4, p5, p6]))))))))"

definition serialize_signature_params :: "sfv \<Rightarrow> signature_params \<Rightarrow> http_sig_error + string" where
  "serialize_signature_params V params =
     rbind (write_params_inner_list V params)
       (\<lambda>(items, ps). ok_or (sf_list_of_inner V items ps) (StructuredField ''empty signature parameters''))"

definition signature_input_header :: "sfv \<Rightarrow> string \<Rightarrow> signature_params \<Rightarrow> http_sig_error + string" where
  "signature_input_header V label params =
     rbind (sf_key V label) (\<lambda>_.
     rbind (write_params_inner_list V params)
       (\<lambda>(items, ps). ok_or (sf_dict_of_inner V label items ps) (StructuredField ''empty Signature-Input'')))"

definition signature_header :: "sfv \<Rightarrow> string \<Rightarrow> bytes \<Rightarrow> http_sig_error + string" where
  "signature_header V label signature =
     rbind (sf_key V label) (\<lambda>_.
       ok_or (sf_dict_of_bytes V label signature) (StructuredField ''empty Signature''))"

section \<open>The base\<close>

fun base_lines :: "request_parts \<Rightarrow> string list \<Rightarrow> string list \<Rightarrow> http_sig_error + string" where
  "base_lines parts seen [] = Inr ''''"
| "base_lines parts seen (name # names) =
     (if name \<notin> set ALLOWED_COMPONENTS then Inl (UnsupportedComponent name)
      else if name \<in> set seen then Inl (DuplicateComponent name)
      else rbind (component_value name parts) (\<lambda>v.
           rbind (base_lines parts (seen @ [name]) names) (\<lambda>rest.
             Inr (quoted name @ '': '' @ v @ [LF] @ rest))))"

definition build_signature_base ::
  "sfv \<Rightarrow> request_parts \<Rightarrow> signature_params \<Rightarrow> http_sig_error + string" where
  "build_signature_base V parts params =
     rbind (base_lines parts [] (sp_covered params)) (\<lambda>out.
     if COMPONENT_AUTHORITY \<notin> set (sp_covered params) then
       Inl (MissingComponent COMPONENT_AUTHORITY)
     else
       rbind (serialize_signature_params V params) (\<lambda>s.
       let base = out @ quoted COMPONENT_SIGNATURE_PARAMS @ '': '' @ s in
       if \<not> is_ascii base then Inl NonAsciiBase else Inr base))"

definition check_signature_agent_coverage ::
  "request_parts \<Rightarrow> string list \<Rightarrow> http_sig_error + unit" where
  "check_signature_agent_coverage parts covered =
     (let present = rp_signature_agent parts \<noteq> None;
          is_covered = COMPONENT_SIGNATURE_AGENT \<in> set covered
      in if present \<and> \<not> is_covered then
           Inl (MalformedSignatureInput
             ''request carries a Signature-Agent header that the signature does not cover'')
         else if \<not> present \<and> is_covered then Inl (MissingComponent COMPONENT_SIGNATURE_AGENT)
         else Inr ())"

section \<open>What the base binds\<close>

lemma component_names [simp]:
  "COMPONENT_AUTHORITY \<noteq> COMPONENT_SIGNATURE_AGENT"
  "COMPONENT_SIGNATURE_AGENT \<noteq> COMPONENT_AUTHORITY"
  by (simp_all add: COMPONENT_AUTHORITY_def COMPONENT_SIGNATURE_AGENT_def)

definition params_fields :: "signature_params \<Rightarrow> sf_params" where
  "params_fields p =
     [(''created'', SfInteger (sp_created p)), (''expires'', SfInteger (sp_expires p)),
      (''keyid'', SfString (sp_keyid p)), (''alg'', SfString (sp_alg p)),
      (''nonce'', SfString (sp_nonce p)), (''tag'', SfString (sp_tag p))]"

definition params_valid :: "sfv \<Rightarrow> signature_params \<Rightarrow> bool" where
  "params_valid V p \<longleftrightarrow>
     (\<forall>x \<in> set (sp_covered p). is_ok (sf_string_check V x)) \<and> sf_valid_params V (params_fields p)"

lemma collect_strings:
  "collect_results (\<lambda>name. rbind (sf_string V name) (\<lambda>_. Inr name)) xs = Inr ys \<longleftrightarrow>
     ys = xs \<and> (\<forall>x \<in> set xs. is_ok (sf_string_check V x))"
  by (induction xs arbitrary: ys) (auto simp: sf_string_def is_ok_iff)

lemma write_params_Inr:
  "write_params_inner_list V p = Inr r \<longleftrightarrow> params_valid V p \<and> r = (sp_covered p, params_fields p)"
  by (auto simp: write_params_inner_list_def collect_strings [unfolded sf_string_def] params_valid_def params_fields_def
      sf_integer_param_def sf_string_param_def sf_key_def sf_string_def sf_integer_def
      sf_valid_params_def is_ok_iff)

lemma params_fields_inject:
  "sp_covered p = sp_covered q \<Longrightarrow> params_fields p = params_fields q \<Longrightarrow> p = q"
  by (cases p; cases q) (simp add: params_fields_def)

lemma sfv_list:
  "sfv_law V \<Longrightarrow> \<forall>x \<in> set xs. is_ok (sf_string_check V x) \<Longrightarrow> sf_valid_params V ps \<Longrightarrow>
     \<exists>t. sf_prints V xs ps t"
  by (simp add: sfv_law_def)

lemma sfv_label: "sfv_law V \<Longrightarrow> is_ok (sf_key_check V ''sig1'')"
  by (simp add: sfv_law_def)

lemma serialize_text:
  assumes "sfv_law V" "serialize_signature_params V p = Inr t"
  shows "params_valid V p" "t \<noteq> []" "graphic (last t)" "LF \<notin> set t" "\<forall>c \<in> set t. c = CHR '' '' \<or> graphic c"
    "is_ok (sf_key_check V k) \<Longrightarrow> signature_input_header V k p = Inr (k @ ''='' @ t)"
    "is_ok (sf_key_check V k) \<Longrightarrow> sf_parse_dict V (k @ ''='' @ t) =
       Inr [(k, SfInnerList (map (\<lambda>x. (SfString x, [])) (sp_covered p)) (params_fields p))]"
proof -
  have v: "params_valid V p" and t: "sf_list_of_inner V (sp_covered p) (params_fields p) = Some t"
    using assms(2) by (auto simp: serialize_signature_params_def write_params_Inr)
  obtain t' where t': "sf_prints V (sp_covered p) (params_fields p) t'"
    using sfv_list [OF assms(1), of "sp_covered p" "params_fields p"] v by (auto simp: params_valid_def)
  with t have "t' = t" by (simp add: sf_prints_def)
  with t' have *: "sf_prints V (sp_covered p) (params_fields p) t" by simp
  show "params_valid V p" by (rule v)
  note parts = *[unfolded sf_prints_def]
  show "t \<noteq> []" by (rule parts [THEN conjunct2, THEN conjunct1])
  show "graphic (last t)" by (rule parts [THEN conjunct2, THEN conjunct2, THEN conjunct1])
  show g: "\<forall>c \<in> set t. c = CHR '' '' \<or> graphic c"
    by (rule parts [THEN conjunct2, THEN conjunct2, THEN conjunct2, THEN conjunct1])
  show "LF \<notin> set t"
  proof
    assume "LF \<in> set t"
    with g have "LF = CHR '' '' \<or> graphic LF" by (rule bspec)
    then show False by (simp add: graphic_def)
  qed
  show "is_ok (sf_key_check V k) \<Longrightarrow> sf_parse_dict V (k @ ''='' @ t) =
       Inr [(k, SfInnerList (map (\<lambda>x. (SfString x, [])) (sp_covered p)) (params_fields p))]"
    using parts [THEN conjunct2, THEN conjunct2, THEN conjunct2, THEN conjunct2] by blast
  have w: "write_params_inner_list V p = Inr (sp_covered p, params_fields p)"
    using v by (simp add: write_params_Inr)
  assume k: "is_ok (sf_key_check V k)"
  then have "sf_dict_of_inner V k (sp_covered p) (params_fields p) = Some (k @ ''='' @ t)"
    using parts [THEN conjunct2, THEN conjunct2, THEN conjunct2, THEN conjunct2] by blast
  then show "signature_input_header V k p = Inr (k @ ''='' @ t)"
    using k by (auto simp: signature_input_header_def w sf_key_def is_ok_iff)
qed

lemma serialize_inject:
  assumes "sfv_law V" "serialize_signature_params V p = Inr t" "serialize_signature_params V q = Inr t"
  shows "p = q"
proof -
  have k: "is_ok (sf_key_check V ''sig1'')" by (rule sfv_label [OF assms(1)])
  have "map (\<lambda>x. (SfString x, [] :: sf_params)) (sp_covered p) =
      map (\<lambda>x. (SfString x, [])) (sp_covered q)" and f: "params_fields p = params_fields q"
    using serialize_text(7) [OF assms(1,2) k] serialize_text(7) [OF assms(1,3) k] by simp_all
  then have "sp_covered p = sp_covered q" by (simp add: inj_on_def inj_map_eq_map)
  with f show ?thesis by (rule params_fields_inject [rotated])
qed

text \<open>The shapes of a covered list that passes the loop.\<close>

lemma base_lines_shape:
  assumes "base_lines parts [] cov = Inr out" "COMPONENT_AUTHORITY \<in> set cov"
  shows "cov \<in> {[COMPONENT_AUTHORITY], [COMPONENT_AUTHORITY, COMPONENT_SIGNATURE_AGENT],
                [COMPONENT_SIGNATURE_AGENT, COMPONENT_AUTHORITY]}"
proof -
  have seen: "base_lines parts seen names = Inr out \<Longrightarrow>
      distinct names \<and> set names \<inter> set seen = {} \<and> set names \<subseteq> set ALLOWED_COMPONENTS" for seen names out
    by (induction parts seen names arbitrary: out rule: base_lines.induct) (auto split: if_splits)
  from seen [OF assms(1)] have d: "distinct cov"
    and sub: "set cov \<subseteq> {COMPONENT_AUTHORITY, COMPONENT_SIGNATURE_AGENT}"
    by (auto simp: ALLOWED_COMPONENTS_def)
  show ?thesis
  proof (cases cov)
    case (Cons a xs)
    note c = Cons
    show ?thesis
    proof (cases xs)
      case Nil
      with c assms(2) show ?thesis by simp
    next
      case (Cons b ys)
      have "ys = []"
      proof (cases ys)
        case (Cons e zs)
        with \<open>xs = b # ys\<close> c d sub show ?thesis by auto
      qed
      with Cons c d sub show ?thesis by auto
    qed
  qed (use assms(2) in simp)
qed

lemma agent_one_line: "component_value COMPONENT_SIGNATURE_AGENT parts = Inr v \<Longrightarrow> LF \<notin> set v"
  by (auto simp: component_value_def Let_def split: if_splits)

text \<open>Splitting at the last line break.\<close>

lemma last_line_inject:
  assumes "a @ [LF] @ r = b @ [LF] @ r'" "LF \<notin> set r" "LF \<notin> set r'"
  shows "a = b \<and> r = r'"
proof -
  have "rsplit_once LF (a @ [LF] @ r) = Some (a, r)" "rsplit_once LF (b @ [LF] @ r') = Some (b, r')"
    using assms(2,3) by (simp_all add: rsplit_once_Some)
  with assms(1) show ?thesis by simp
qed

lemma base_lines_one:
  "base_lines parts [] [COMPONENT_AUTHORITY] = Inr out \<longleftrightarrow>
     (\<exists>x. component_value COMPONENT_AUTHORITY parts = Inr x \<and>
          out = quoted COMPONENT_AUTHORITY @ '': '' @ x @ [LF])"
  by (auto simp: ALLOWED_COMPONENTS_def)

lemma base_lines_two:
  "base_lines parts [] [COMPONENT_AUTHORITY, COMPONENT_SIGNATURE_AGENT] = Inr out \<longleftrightarrow>
     (\<exists>x y. component_value COMPONENT_AUTHORITY parts = Inr x \<and>
            component_value COMPONENT_SIGNATURE_AGENT parts = Inr y \<and>
            out = quoted COMPONENT_AUTHORITY @ '': '' @ x @ [LF] @
                  quoted COMPONENT_SIGNATURE_AGENT @ '': '' @ y @ [LF])"
  "base_lines parts [] [COMPONENT_SIGNATURE_AGENT, COMPONENT_AUTHORITY] = Inr out \<longleftrightarrow>
     (\<exists>x y. component_value COMPONENT_AUTHORITY parts = Inr x \<and>
            component_value COMPONENT_SIGNATURE_AGENT parts = Inr y \<and>
            out = quoted COMPONENT_SIGNATURE_AGENT @ '': '' @ y @ [LF] @
                  quoted COMPONENT_AUTHORITY @ '': '' @ x @ [LF])"
  by (auto simp: ALLOWED_COMPONENTS_def)

lemma one_line_labels: "LF \<notin> set (quoted COMPONENT_AUTHORITY)" "LF \<notin> set (quoted COMPONENT_SIGNATURE_AGENT)"
  "LF \<notin> set (quoted COMPONENT_SIGNATURE_PARAMS)"
  by (simp_all add: quoted_def COMPONENT_AUTHORITY_def COMPONENT_SIGNATURE_AGENT_def
      COMPONENT_SIGNATURE_PARAMS_def)

text \<open>Equal component lines, for the same covered list, carry equal values.\<close>

lemma base_lines_inject:
  assumes "base_lines parts [] cov = Inr out" "base_lines parts' [] cov = Inr out"
    and "COMPONENT_AUTHORITY \<in> set cov" "name \<in> set cov"
  shows "component_value name parts = component_value name parts'"
proof -
  let ?A = "quoted COMPONENT_AUTHORITY" and ?S = "quoted COMPONENT_SIGNATURE_AGENT"
  from base_lines_shape [OF assms(1,3)]
  consider (a) "cov = [COMPONENT_AUTHORITY]"
    | (as) "cov = [COMPONENT_AUTHORITY, COMPONENT_SIGNATURE_AGENT]"
    | (sa) "cov = [COMPONENT_SIGNATURE_AGENT, COMPONENT_AUTHORITY]" by blast
  then show ?thesis
  proof cases
    case a
    with assms show ?thesis unfolding a base_lines_one by auto
  next
    case as
    from assms(1,2) obtain x y x' y' where
      v: "component_value COMPONENT_AUTHORITY parts = Inr x"
        "component_value COMPONENT_SIGNATURE_AGENT parts = Inr y"
        "component_value COMPONENT_AUTHORITY parts' = Inr x'"
        "component_value COMPONENT_SIGNATURE_AGENT parts' = Inr y'"
      and o: "?A @ '': '' @ x @ [LF] @ ?S @ '': '' @ y @ [LF] =
              ?A @ '': '' @ x' @ [LF] @ ?S @ '': '' @ y' @ [LF]"
      unfolding as base_lines_two by metis
    have "x @ [LF] @ (?S @ '': '' @ y) = x' @ [LF] @ (?S @ '': '' @ y')"
      using o by simp
    then have "x = x' \<and> ?S @ '': '' @ y = ?S @ '': '' @ y'"
      by (rule last_line_inject) (use v(2,4) agent_one_line one_line_labels(2) in auto)
    with v assms(4) show ?thesis by (auto simp: as)
  next
    case sa
    from assms(1,2) obtain x y x' y' where
      v: "component_value COMPONENT_AUTHORITY parts = Inr x"
        "component_value COMPONENT_SIGNATURE_AGENT parts = Inr y"
        "component_value COMPONENT_AUTHORITY parts' = Inr x'"
        "component_value COMPONENT_SIGNATURE_AGENT parts' = Inr y'"
      and o: "?S @ '': '' @ y @ [LF] @ ?A @ '': '' @ x @ [LF] =
              ?S @ '': '' @ y' @ [LF] @ ?A @ '': '' @ x' @ [LF]"
      unfolding sa base_lines_two by metis
    have "y @ [LF] @ (?A @ '': '' @ x) = y' @ [LF] @ (?A @ '': '' @ x')"
      using o by simp
    then have "y = y' \<and> ?A @ '': '' @ x = ?A @ '': '' @ x'"
      by (rule line_inject) (use v(2,4) agent_one_line in auto)
    with v assms(4) show ?thesis by (auto simp: sa)
  qed
qed

lemma base_lines_end:
  assumes "base_lines parts seen cov = Inr out" "cov \<noteq> []"
  obtains r where "out = r @ [LF]"
  using assms
proof (induction parts seen cov arbitrary: out thesis rule: base_lines.induct)
  case (2 parts seen name names)
  then obtain v rest where *: "base_lines parts (seen @ [name]) names = Inr rest"
    "out = quoted name @ '': '' @ v @ [LF] @ rest"
    and ok: "name \<in> set ALLOWED_COMPONENTS" "name \<notin> set seen" "component_value name parts = Inr v"
    by (auto split: if_splits)
  show ?case
  proof (cases "names = []")
    case True
    with * have "out = (quoted name @ '': '' @ v) @ [LF]" by simp
    then show ?thesis by (rule 2(2))
  next
    case False
    have "\<not> name \<notin> set ALLOWED_COMPONENTS" using ok(1) by simp
    from 2(1) [OF this ok(2) _ *(1) False] obtain r where "rest = r @ [LF]" by blast
    with * have "out = (quoted name @ '': '' @ v @ [LF] @ r) @ [LF]" by simp
    then show ?thesis by (rule 2(2))
  qed
qed simp

text \<open>
  C26. A signature base binds everything it covers: two requests with the same base have the
  same signature parameters (covered list, window, key, algorithm, nonce and tag) and the same
  authority, and the same \<open>Signature-Agent\<close> value when it is covered. No value can imitate a
  line of the base.
\<close>

theorem signature_base_binds:
  assumes "sfv_law V" and "build_signature_base V parts p = Inr base"
    and "build_signature_base V parts' q = Inr base"
  shows "p = q \<and> (\<forall>name \<in> set (sp_covered p).
           component_value name parts = component_value name parts')"
proof -
  let ?L = "quoted COMPONENT_SIGNATURE_PARAMS @ '': ''"
  obtain out s where p: "base_lines parts [] (sp_covered p) = Inr out"
    "COMPONENT_AUTHORITY \<in> set (sp_covered p)" "serialize_signature_params V p = Inr s"
    "base = out @ ?L @ s"
    using assms(2) by (auto simp: build_signature_base_def Let_def split: if_splits)
  obtain out' s' where q: "base_lines parts' [] (sp_covered q) = Inr out'"
    "COMPONENT_AUTHORITY \<in> set (sp_covered q)" "serialize_signature_params V q = Inr s'"
    "base = out' @ ?L @ s'"
    using assms(3) by (auto simp: build_signature_base_def Let_def split: if_splits)
  obtain r r' where r: "out = r @ [LF]" "out' = r' @ [LF]"
    using base_lines_end [OF p(1)] base_lines_end [OF q(1)] p(2) q(2) by (metis empty_iff empty_set)
  have "r @ [LF] @ (?L @ s) = r' @ [LF] @ (?L @ s')"
    using p(4) q(4) r by simp
  then have "r = r' \<and> ?L @ s = ?L @ s'"
    by (rule last_line_inject)
       (use serialize_text(4) [OF assms(1)] p(3) q(3) one_line_labels(3) in auto)
  then have eq: "out = out'" "s = s'" using r by simp_all
  have pq: "p = q" using serialize_inject [OF assms(1) p(3)] q(3) eq by simp
  have "component_value name parts = component_value name parts'" if "name \<in> set (sp_covered p)" for name
    using base_lines_inject [OF p(1) _ p(2) that] q(1) eq pq by simp
  with pq show ?thesis by blast
qed

end
