(* ===== verification/Signers.thy ===== *)
theory Signers
  imports Did
begin

text \<open>
  The signing contract (signer.rs) and the signer over a private key held in the process
  (local\_key.rs). A signer is a record of its three methods; an awaited call is its result.
\<close>

section \<open>The contract\<close>

datatype sign_error = SignError string

fun sign_error_display :: "sign_error \<Rightarrow> string" where
  "sign_error_display (SignError m) = ''signing failed: '' @ m"

record signer =
  signer_did :: string
  signer_sign :: "string \<Rightarrow> sign_error + bytes"
  signer_public_key :: "bytes option"

text \<open>\<open>FnSigner\<close>: a DID and a closure, with the default \<open>public_key\<close>.\<close>

definition fn_signer :: "string \<Rightarrow> (string \<Rightarrow> sign_error + bytes) \<Rightarrow> signer" where
  "fn_signer did sign = \<lparr>signer_did = did, signer_sign = sign, signer_public_key = None\<rparr>"

section \<open>A key held in the process\<close>

text \<open>
  The private-key half of ed25519-dalek and p256, with keys in the type \<open>'k\<close>: the PKCS#8 decoders,
  the public key (32 bytes, and the compressed point of 33 bytes), and the signatures. The file
  system is the reader argument of the file constructors.
\<close>

record 'k key_store =
  ed_from_pkcs8_pem :: "string \<Rightarrow> string + 'k"
  ed_public :: "'k \<Rightarrow> bytes"
  ed_sign :: "'k \<Rightarrow> bytes \<Rightarrow> bytes"
  p256_from_pkcs8_pem :: "string \<Rightarrow> string + 'k"
  p256_public :: "'k \<Rightarrow> bytes"
  p256_sign :: "'k \<Rightarrow> bytes \<Rightarrow> bytes"

datatype local_key_error = KeyIo string string | Pkcs8 string string

fun local_key_error_display :: "local_key_error \<Rightarrow> string" where
  "local_key_error_display (KeyIo path source) = ''read key file '' @ path @ '': '' @ source"
| "local_key_error_display (Pkcs8 curve detail) = ''not a PKCS#8 '' @ curve @ '' private key: '' @ detail"

datatype 'k local_key = Ed25519Signing 'k | P256Signing 'k

record 'k local_key_signer =
  lk_key :: "'k local_key"
  lk_did :: string

definition ed25519_from_pem ::
  "('x, 'z) crates_scheme \<Rightarrow> ('k, 'y) key_store_scheme \<Rightarrow> string \<Rightarrow> local_key_error + 'k local_key_signer" where
  "ed25519_from_pem E K pem =
     rbind (map_err (Pkcs8 ''Ed25519'') (ed_from_pkcs8_pem K pem)) (\<lambda>key.
       Inr \<lparr>lk_key = Ed25519Signing key, lk_did = ed25519_did_key_from_pubkey E (ed_public K key)\<rparr>)"

definition p256_from_pem ::
  "('x, 'z) crates_scheme \<Rightarrow> ('k, 'y) key_store_scheme \<Rightarrow> string \<Rightarrow> local_key_error + 'k local_key_signer" where
  "p256_from_pem E K pem =
     rbind (map_err (Pkcs8 ''P-256'') (p256_from_pkcs8_pem K pem)) (\<lambda>key.
       Inr \<lparr>lk_key = P256Signing key, lk_did = p256_did_key_from_pubkey E (p256_public K key)\<rparr>)"

definition read_pem :: "(string \<Rightarrow> string + string) \<Rightarrow> string \<Rightarrow> local_key_error + string" where
  "read_pem fs path = map_err (KeyIo path) (fs path)"

definition ed25519_from_pem_file ::
  "('x, 'z) crates_scheme \<Rightarrow> ('k, 'y) key_store_scheme \<Rightarrow> (string \<Rightarrow> string + string) \<Rightarrow> string \<Rightarrow>
   local_key_error + 'k local_key_signer" where
  "ed25519_from_pem_file E K fs path = rbind (read_pem fs path) (ed25519_from_pem E K)"

definition p256_from_pem_file ::
  "('x, 'z) crates_scheme \<Rightarrow> ('k, 'y) key_store_scheme \<Rightarrow> (string \<Rightarrow> string + string) \<Rightarrow> string \<Rightarrow>
   local_key_error + 'k local_key_signer" where
  "p256_from_pem_file E K fs path = rbind (read_pem fs path) (p256_from_pem E K)"

definition local_sign :: "('k, 'y) key_store_scheme \<Rightarrow> 'k local_key_signer \<Rightarrow> string \<Rightarrow> sign_error + bytes" where
  "local_sign K s message =
     Inr (case lk_key s of
            Ed25519Signing k \<Rightarrow> ed_sign K k (as_bytes message)
          | P256Signing k \<Rightarrow> p256_sign K k (as_bytes message))"

definition local_signer :: "('k, 'y) key_store_scheme \<Rightarrow> 'k local_key_signer \<Rightarrow> signer" where
  "local_signer K s = \<lparr>signer_did = lk_did s, signer_sign = local_sign K s, signer_public_key = None\<rparr>"

text \<open>The redacted \<open>Debug\<close>: the DID and the curve, never the key.\<close>

definition local_debug :: "'k local_key_signer \<Rightarrow> (string \<times> string) list" where
  "local_debug s =
     [(''did'', lk_did s),
      (''curve'', case lk_key s of Ed25519Signing _ \<Rightarrow> ''Ed25519'' | P256Signing _ \<Rightarrow> ''P-256''),
      (''key'', ''<redacted>'')]"

end
