(* ===== verification/Http_Sign.thy ===== *)
theory Http_Sign
  imports Signature_Base Signers
begin

text \<open>
  Producing a request signature (http\_sig/sign.rs): the window, the profile's key, algorithm and
  tag, a fresh nonce, the signature base handed to the signer, and the two headers. The random
  bytes and the clock reading are arguments.
\<close>

definition validity_seconds :: "duration \<Rightarrow> http_sig_error + int" where
  "validity_seconds validity =
     (let seconds = dur_secs validity in
      if seconds = 0 then Inl ValidityZero
      else if duration_greater validity MAX_VALIDITY then
        Inl (ValidityTooLong (unat seconds) (unat (dur_secs MAX_VALIDITY)))
      else Inr (sint seconds))"

definition profile_parameters ::
  "('x, 'z) crates_scheme \<Rightarrow> profile \<Rightarrow> string \<Rightarrow> http_sig_error + (string \<times> string \<times> string)" where
  "profile_parameters E profile did =
     (case profile of
        AquaInternal \<Rightarrow> rbind (alg_for_did E did) (\<lambda>alg. Inr (did, alg, TAG_AQUA_INTERNAL))
      | WebBotAuth jwk_thumbprint \<Rightarrow>
          rbind (alg_for_did E did) (\<lambda>alg.
          if alg \<noteq> ALG_ED25519 then Inl (ProfileRequiresEd25519 did)
          else
            (let thumbprint = trim jwk_thumbprint in
             if thumbprint = '''' then Inl EmptyThumbprint
             else Inr (thumbprint, ALG_ED25519, TAG_WEB_BOT_AUTH))))"

text \<open>The nonce: \<open>NONCE_BYTES\<close> random bytes, base64url without padding.\<close>

definition generate_nonce :: "('x, 'z) crates_scheme \<Rightarrow> bytes \<Rightarrow> string" where
  "generate_nonce E random = b64_encode E random"

definition request_params ::
  "('x, 'z) crates_scheme \<Rightarrow> bytes \<Rightarrow> request_parts \<Rightarrow> int \<Rightarrow> int \<Rightarrow> string \<times> string \<times> string \<Rightarrow> signature_params" where
  "request_params E random parts created window = (\<lambda>(keyid, alg, tag).
     \<lparr>sp_covered = covered_components parts, sp_created = created,
      sp_expires = saturating_add_i64 created window, sp_keyid = keyid, sp_alg = alg,
      sp_nonce = generate_nonce E random, sp_tag = tag\<rparr>)"

definition sign_request_at ::
  "('x, 'z) crates_scheme \<Rightarrow> sfv \<Rightarrow> bytes \<Rightarrow> signer \<Rightarrow> request_parts \<Rightarrow> profile \<Rightarrow> duration \<Rightarrow> int \<Rightarrow>
   http_sig_error + signed_headers" where
  "sign_request_at E V random signer parts profile validity created =
     rbind (validity_seconds validity) (\<lambda>window.
     rbind (profile_parameters E profile (signer_did signer)) (\<lambda>kat.
     let params = request_params E random parts created window kat in
     rbind (build_signature_base V parts params) (\<lambda>base.
     rbind (map_err (\<lambda>e. Sign (sign_error_display e)) (signer_sign signer base)) (\<lambda>signature.
     rbind (signature_input_header V SIGNATURE_LABEL params) (\<lambda>input.
     rbind (signature_header V SIGNATURE_LABEL signature) (\<lambda>sig.
       Inr \<lparr>sh_signature_input = input, sh_signature = sig\<rparr>))))))"

definition sign_request ::
  "('x, 'z) crates_scheme \<Rightarrow> sfv \<Rightarrow> bytes \<Rightarrow> signer \<Rightarrow> request_parts \<Rightarrow> profile \<Rightarrow> duration \<Rightarrow> int \<Rightarrow>
   http_sig_error + signed_headers" where
  "sign_request E V random signer parts profile validity clock =
     sign_request_at E V random signer parts profile validity (unix_now clock)"

section \<open>The window\<close>

lemma validity_secondsD:
  assumes "validity_seconds v = Inr w"
  shows "0 < w" "w \<le> 86400"
proof -
  from assms have nz: "dur_secs v \<noteq> 0" and le: "dur_secs v \<le> 86400" and w: "w = sint (dur_secs v)"
    by (auto simp: validity_seconds_def Let_def duration_greater_def MAX_VALIDITY_def
        duration_from_secs_def split: if_splits)
  have u: "uint (dur_secs v) \<le> 86400" using le by (simp add: word_le_def)
  moreover have "- 9223372036854775808 \<le> uint (dur_secs v)"
    using uint_ge_0 [of "dur_secs v"] by linarith
  ultimately have "sint (dur_secs v) = uint (dur_secs v)"
    by (simp add: sint_uint signed_take_bit_int_eq_self_iff)
  moreover have "0 < uint (dur_secs v)"
    using nz uint_ge_0 [of "dur_secs v"] by (metis order_le_less unsigned_eq_0_iff)
  ultimately show "0 < w" "w \<le> 86400" using u w by simp_all
qed

text \<open>What a signed request consists of.\<close>

lemma sign_requestD:
  assumes "sign_request_at E V random s parts profile validity created = Inr h"
  obtains w kat base sig where "validity_seconds validity = Inr w"
    and "profile_parameters E profile (signer_did s) = Inr kat"
    and "build_signature_base V parts (request_params E random parts created w kat) = Inr base"
    and "signer_sign s base = Inr sig"
    and "signature_input_header V SIGNATURE_LABEL (request_params E random parts created w kat) =
           Inr (sh_signature_input h)"
    and "signature_header V SIGNATURE_LABEL sig = Inr (sh_signature h)"
  using assms by (auto simp: sign_request_at_def Let_def)

end
