(* ===== verification/Http_Verify.thy ===== *)
theory Http_Verify
  imports Http_Sign Replay_Guard Identity
begin

text \<open>
  Verifying a request signature (http\_sig/verify.rs): the policy, the parsers for the two headers,
  the checks on tag, window and algorithm, the canonical form, the rebuilt signature base, and the
  nonce recorded after the signature verified. The guard the options may carry is state: the
  verifier returns it with its result.
\<close>

section \<open>The policy\<close>

record verify_options =
  vo_expected_tag :: string
  vo_clock_skew :: duration
  vo_replay_guard :: "nonce_replay_guard option"

definition verify_options_new :: "string \<Rightarrow> verify_options" where
  "verify_options_new expected_tag =
     \<lparr>vo_expected_tag = expected_tag, vo_clock_skew = DEFAULT_CLOCK_SKEW, vo_replay_guard = None\<rparr>"

definition with_replay_guard :: "nonce_replay_guard \<Rightarrow> verify_options \<Rightarrow> verify_options" where
  "with_replay_guard guard opts = opts\<lparr>vo_replay_guard := Some guard\<rparr>"

definition options_aqua_internal :: verify_options where
  "options_aqua_internal = verify_options_new TAG_AQUA_INTERNAL"

definition options_web_bot_auth :: verify_options where
  "options_web_bot_auth = verify_options_new TAG_WEB_BOT_AUTH"

definition with_clock_skew :: "duration \<Rightarrow> verify_options \<Rightarrow> verify_options" where
  "with_clock_skew skew opts = opts\<lparr>vo_clock_skew := skew\<rparr>"

section \<open>The headers\<close>

text \<open>The \<open>Debug\<close> form of a list of keys: keys hold no character that is escaped.\<close>

definition debug_list :: "string list \<Rightarrow> string" where
  "debug_list xs = ''['' @ concat (case map quoted xs of [] \<Rightarrow> [] | y # ys \<Rightarrow> y # map (\<lambda>z. '', '' @ z) ys) @ '']''"

definition integer_param :: "sf_params \<Rightarrow> string \<Rightarrow> http_sig_error + int" where
  "integer_param params name =
     ok_or (case map_of params name of Some (SfInteger i) \<Rightarrow> Some i | _ \<Rightarrow> None)
       (MalformedSignatureInput (name @ '' must be an integer''))"

definition string_param :: "sf_params \<Rightarrow> string \<Rightarrow> http_sig_error + string" where
  "string_param params name =
     ok_or (case map_of params name of Some (SfString s) \<Rightarrow> Some s | _ \<Rightarrow> None)
       (MalformedSignatureInput (name @ '' must be a string''))"

definition covered_component :: "sf_bare \<times> sf_params \<Rightarrow> http_sig_error + string" where
  "covered_component = (\<lambda>(bare_item, params).
     if params \<noteq> [] then
       Inl (MalformedSignatureInput ''covered components in this profile carry no parameters'')
     else
       (case bare_item of
          SfString name \<Rightarrow>
            if name \<in> set ALLOWED_COMPONENTS then Inr name else Inl (UnsupportedComponent name)
        | _ \<Rightarrow> Inl (MalformedSignatureInput ''covered component names must be strings'')))"

definition parse_params :: "string list \<Rightarrow> sf_params \<Rightarrow> http_sig_error + signature_params" where
  "parse_params covered params =
     rbind (integer_param params ''created'') (\<lambda>created.
     rbind (integer_param params ''expires'') (\<lambda>expires.
     rbind (string_param params ''keyid'') (\<lambda>keyid.
     rbind (string_param params ''alg'') (\<lambda>alg.
     rbind (string_param params ''nonce'') (\<lambda>nonce.
     rbind (string_param params ''tag'') (\<lambda>tag.
       Inr \<lparr>sp_covered = covered, sp_created = created, sp_expires = expires, sp_keyid = keyid,
            sp_alg = alg, sp_nonce = nonce, sp_tag = tag\<rparr>))))))"

definition parse_signature_input ::
  "sfv \<Rightarrow> string \<Rightarrow> http_sig_error + (string \<times> signature_params)" where
  "parse_signature_input V header =
     rbind (map_err MalformedSignatureInput (sf_parse_dict V header)) (\<lambda>dict.
     (case dict of
        [(label, entry)] \<Rightarrow>
          (case entry of
             SfItem _ _ \<Rightarrow> Inl (MalformedSignatureInput ''signature parameters must be an inner list'')
           | SfInnerList items params \<Rightarrow>
               rbind (collect_results covered_component items) (\<lambda>covered.
               if COMPONENT_AUTHORITY \<notin> set covered then Inl (MissingComponent COMPONENT_AUTHORITY)
               else if map fst params \<noteq> PARAM_ORDER then
                 Inl (MalformedSignatureInput
                   (''expected parameters '' @ debug_list PARAM_ORDER @ '' in that order, found '' @
                    debug_list (map fst params)))
               else rbind (parse_params covered params) (\<lambda>p. Inr (label, p))))
      | _ \<Rightarrow>
          Inl (MalformedSignatureInput
            (''expected exactly one signature, found '' @ show_nat (length dict)))))"

definition parse_signature :: "sfv \<Rightarrow> string \<Rightarrow> string \<Rightarrow> http_sig_error + bytes" where
  "parse_signature V header label =
     rbind (map_err MalformedSignature (sf_parse_dict V header)) (\<lambda>dict.
     rbind (ok_or (map_of dict label)
              (MalformedSignature (''no signature under the label '' @ label))) (\<lambda>entry.
     (case entry of
        SfItem bare_item _ \<Rightarrow>
          (case bare_item of
             SfBytes b \<Rightarrow> Inr b
           | _ \<Rightarrow> Inl (MalformedSignature ''signature must be a byte sequence''))
      | SfInnerList _ _ \<Rightarrow> Inl (MalformedSignature ''signature must be a single item''))))"

section \<open>The checks\<close>

definition check_tag :: "signature_params \<Rightarrow> verify_options \<Rightarrow> http_sig_error + unit" where
  "check_tag params opts =
     (if sp_tag params = vo_expected_tag opts then Inr ()
      else Inl (TagMismatch (vo_expected_tag opts) (sp_tag params)))"

text \<open>
  The window. \<open>as i64\<close> reads the seconds of the skew as a signed word, \<open>as u64\<close> puts it back.
  Timestamps are structured-field integers, so their difference does not leave \<open>i64\<close>.
\<close>

definition check_window :: "signature_params \<Rightarrow> verify_options \<Rightarrow> int \<Rightarrow> http_sig_error + unit" where
  "check_window params opts now =
     (if sp_expires params \<le> sp_created params then
        Inl (InvalidWindow (sp_created params) (sp_expires params))
      else
        (let window = sp_expires params - sp_created params;
             max_secs = sint (dur_secs MAX_VALIDITY) in
         if window > max_secs then Inl (ValidityTooLong (nat window) (nat max_secs))
         else
           (let skew = sint (dur_secs (vo_clock_skew opts)) in
            if sp_created params > saturating_add_i64 now skew then
              Inl (CreatedInFuture (sp_created params) now (unat (dur_secs (vo_clock_skew opts))))
            else if now \<ge> sp_expires params then Inl (Expired (sp_expires params) now)
            else Inr ())))"

definition check_alg :: "('x, 'z) crates_scheme \<Rightarrow> signature_params \<Rightarrow> http_sig_error + unit" where
  "check_alg E params =
     rbind (alg_for_did E (sp_keyid params)) (\<lambda>alg.
       if alg \<noteq> sp_alg params then Inl (AlgMismatch (sp_keyid params) alg (sp_alg params))
       else Inr ())"

definition check_canonical ::
  "sfv \<Rightarrow> string \<Rightarrow> signature_params \<Rightarrow> string \<Rightarrow> http_sig_error + unit" where
  "check_canonical V label params signature_input =
     rbind (signature_input_header V label params) (\<lambda>canonical.
       if canonical \<noteq> trim signature_input then
         Inl (MalformedSignatureInput ''Signature-Input is not in this profile's canonical form'')
       else Inr ())"

text \<open>Everything up to the guard: the parameters and the identity of a valid request.\<close>

definition verify_signature_at ::
  "('x, 'z) crates_scheme \<Rightarrow> sfv \<Rightarrow> request_parts \<Rightarrow> string \<Rightarrow> string \<Rightarrow> verify_options \<Rightarrow> int \<Rightarrow>
   http_sig_error + (signature_params \<times> principal)" where
  "verify_signature_at E V parts signature_input signature opts now =
     rbind (parse_signature_input V signature_input) (\<lambda>(label, params).
     rbind (parse_signature V signature label) (\<lambda>signature_bytes.
     rbind (check_signature_agent_coverage parts (sp_covered params)) (\<lambda>_.
     rbind (check_tag params opts) (\<lambda>_.
     rbind (check_window params opts now) (\<lambda>_.
     rbind (check_alg E params) (\<lambda>_.
     rbind (check_canonical V label params signature_input) (\<lambda>_.
     rbind (build_signature_base V parts params) (\<lambda>base.
     rbind (map_err HttpCrypto (authenticate E (sp_keyid params) base signature_bytes)) (\<lambda>who.
       Inr (params, who))))))))))"

definition verify_request_at ::
  "('x, 'z) crates_scheme \<Rightarrow> sfv \<Rightarrow> request_parts \<Rightarrow> string \<Rightarrow> string \<Rightarrow> verify_options \<Rightarrow> int \<Rightarrow>
   nonce_replay_guard option \<times> (http_sig_error + principal)" where
  "verify_request_at E V parts signature_input signature opts now =
     (case verify_signature_at E V parts signature_input signature opts now of
        Inl e \<Rightarrow> (vo_replay_guard opts, Inl e)
      | Inr (params, who) \<Rightarrow>
          (case vo_replay_guard opts of
             None \<Rightarrow> (None, Inr who)
           | Some guard \<Rightarrow>
               (case check_and_record_at (sp_nonce params) (sp_expires params) now guard of
                  (guard', Inl e) \<Rightarrow> (Some guard', Inl e)
                | (guard', Inr _) \<Rightarrow> (Some guard', Inr who))))"

definition verify_request ::
  "('x, 'z) crates_scheme \<Rightarrow> sfv \<Rightarrow> request_parts \<Rightarrow> string \<Rightarrow> string \<Rightarrow> verify_options \<Rightarrow> int \<Rightarrow>
   nonce_replay_guard option \<times> (http_sig_error + principal)" where
  "verify_request E V parts signature_input signature opts clock =
     verify_request_at E V parts signature_input signature opts (unix_now clock)"

section \<open>Lemmas\<close>

lemma max_validity: "sint (dur_secs MAX_VALIDITY) = 86400"
  by (simp add: MAX_VALIDITY_def duration_from_secs_def)

lemma check_window_Inr:
  "check_window p opts now = Inr u \<longleftrightarrow>
     sp_created p < sp_expires p \<and> sp_expires p - sp_created p \<le> 86400 \<and> now < sp_expires p \<and>
     sp_created p \<le> saturating_add_i64 now (sint (dur_secs (vo_clock_skew opts)))"
  by (auto simp: check_window_def max_validity Let_def)

lemma coverage_Inr:
  "check_signature_agent_coverage parts cov = Inr u \<longleftrightarrow>
     (rp_signature_agent parts \<noteq> None \<longleftrightarrow> COMPONENT_SIGNATURE_AGENT \<in> set cov)"
  by (auto simp: check_signature_agent_coverage_def Let_def)

lemma check_alg_Inr: "check_alg E p = Inr u \<longleftrightarrow> alg_for_did E (sp_keyid p) = Inr (sp_alg p)"
  by (auto simp: check_alg_def split: if_splits)

lemma check_canonical_Inr:
  "check_canonical V l p h = Inr u \<longleftrightarrow> signature_input_header V l p = Inr (trim h)"
  by (auto simp: check_canonical_def split: if_splits)

lemma check_tag_Inr: "check_tag p opts = Inr u \<longleftrightarrow> sp_tag p = vo_expected_tag opts"
  by (simp add: check_tag_def)

lemmas check_Inr = check_window_Inr coverage_Inr check_alg_Inr check_canonical_Inr check_tag_Inr

lemma authenticate_Inr:
  "authenticate E did msg sig = Inr p \<longleftrightarrow>
     p = \<lparr>principal_did = did\<rparr> \<and> possession E did msg sig None"
  by (simp add: authenticate_def authenticate_with_key_Inr)

text \<open>
  What the verifier asks of a request, in one predicate: the parsed parameters, the covered
  components, the tag, the window, the algorithm, the canonical header, and possession of the key
  over the base rebuilt from the request.
\<close>

definition request_valid ::
  "('x, 'z) crates_scheme \<Rightarrow> sfv \<Rightarrow> request_parts \<Rightarrow> string \<Rightarrow> string \<Rightarrow> verify_options \<Rightarrow> int \<Rightarrow>
   signature_params \<Rightarrow> bool" where
  "request_valid E V parts input signature opts now p \<longleftrightarrow>
     (\<exists>label sig base.
        parse_signature_input V input = Inr (label, p) \<and>
        parse_signature V signature label = Inr sig \<and>
        (rp_signature_agent parts \<noteq> None \<longleftrightarrow> COMPONENT_SIGNATURE_AGENT \<in> set (sp_covered p)) \<and>
        sp_tag p = vo_expected_tag opts \<and>
        sp_created p < sp_expires p \<and> sp_expires p - sp_created p \<le> 86400 \<and> now < sp_expires p \<and>
        sp_created p \<le> saturating_add_i64 now (sint (dur_secs (vo_clock_skew opts))) \<and>
        alg_for_did E (sp_keyid p) = Inr (sp_alg p) \<and>
        signature_input_header V label p = Inr (trim input) \<and>
        build_signature_base V parts p = Inr base \<and>
        possession E (sp_keyid p) base sig None)"

lemma verify_signature_Inr:
  "verify_signature_at E V parts input signature opts now = Inr (p, who) \<longleftrightarrow>
     who = \<lparr>principal_did = sp_keyid p\<rparr> \<and> request_valid E V parts input signature opts now p"
  unfolding verify_signature_at_def request_valid_def
  by (auto simp: check_Inr authenticate_Inr)

lemma request_valid_unique:
  "request_valid E V parts input signature opts now p \<Longrightarrow>
   request_valid E V parts' input signature' opts' now' q \<Longrightarrow> p = q"
  by (auto simp: request_valid_def)

end
