(* ===== verification/Authority.thy ===== *)
theory Authority
  imports Signature_Base
begin

text \<open>
  What \<open>authority_from_uri\<close> computes: the normal form of RFC 9110 section 4.2.3. The result is
  a fixed point, and user information, letter case, default ports, paths, queries and fragments
  do not influence it.
\<close>

lemma lower_char_other:
  assumes "\<not> is_ascii_upper d" "\<not> is_ascii_lower d"
  shows "to_lower_char c = d \<longleftrightarrow> c = d"
  using assms
  by (auto simp: to_lower_char_def is_ascii_upper_def is_ascii_lower_def split: if_splits)

lemma lower_mem:
  assumes "\<not> is_ascii_upper d" "\<not> is_ascii_lower d"
  shows "d \<in> set (to_ascii_lowercase s) \<longleftrightarrow> d \<in> set s"
proof -
  have "d = to_lower_char c \<longleftrightarrow> d = c" for c using lower_char_other [OF assms, of c] by auto
  then show ?thesis by (simp add: to_ascii_lowercase_def image_iff)
qed

lemma lower_mem_punct [simp]:
  "CHR '']'' \<in> set (to_ascii_lowercase s) \<longleftrightarrow> CHR '']'' \<in> set s"
  "CHR '':'' \<in> set (to_ascii_lowercase s) \<longleftrightarrow> CHR '':'' \<in> set s"
  "CHR ''@'' \<in> set (to_ascii_lowercase s) \<longleftrightarrow> CHR ''@'' \<in> set s"
  "CHR ''/'' \<in> set (to_ascii_lowercase s) \<longleftrightarrow> CHR ''/'' \<in> set s"
  "CHR ''?'' \<in> set (to_ascii_lowercase s) \<longleftrightarrow> CHR ''?'' \<in> set s"
  "CHR ''#'' \<in> set (to_ascii_lowercase s) \<longleftrightarrow> CHR ''#'' \<in> set s"
  by (simp_all add: lower_mem is_ascii_upper_def is_ascii_lower_def)

lemma lower_bracket [simp]: "to_ascii_lowercase '']'' = '']''"
  by (simp add: to_ascii_lowercase_def to_lower_char_def is_ascii_upper_def)

lemma starts_bracket_lower: "starts_with ''['' (to_ascii_lowercase s) \<longleftrightarrow> starts_with ''['' s"
  using lower_char_other [of "CHR ''[''"]
  by (cases s) (simp_all add: starts_with_def to_ascii_lowercase_def is_ascii_upper_def is_ascii_lower_def)

lemma digits_free: "is_ascii_digit c \<Longrightarrow> c \<notin> set '']:@/?#''"
  by (auto simp: is_ascii_digit_def)

lemma show_nat_free:
  "CHR '']'' \<notin> set (show_nat n)" "CHR '':'' \<notin> set (show_nat n)" "CHR ''@'' \<notin> set (show_nat n)"
  "CHR ''/'' \<notin> set (show_nat n)" "CHR ''?'' \<notin> set (show_nat n)" "CHR ''#'' \<notin> set (show_nat n)"
  by (auto dest!: show_nat_digits simp: is_ascii_digit_def)

text \<open>A normalized authority: what is left of the syntax.\<close>

definition plain_authority :: "string \<Rightarrow> bool" where
  "plain_authority a \<longleftrightarrow> a \<noteq> '''' \<and> CHR ''@'' \<notin> set a \<and> (\<forall>c \<in> set a. \<not> authority_delimiter c)"

lemma authority_from_plain:
  assumes "plain_authority a" "split_once_str ''://'' uri = Some (sch, a)"
    and "default_port (to_ascii_lowercase sch) = Inr d"
  shows "authority_from_uri uri =
     rbind (split_host_port uri a) (\<lambda>(host0, port).
       let host = to_ascii_lowercase host0 in
       if host = '''' \<or> host = ''[]'' then Inl (InvalidTargetUri uri)
       else (case port of None \<Rightarrow> Inr host
             | Some p \<Rightarrow> rbind (ok_or (parse_u16 p) (InvalidTargetUri uri))
                 (\<lambda>n. if n = d then Inr host else Inr (host @ '':'' @ show_nat n))))"
proof -
  have "split_by authority_delimiter a = [a]" using assms(1) by (simp add: plain_authority_def)
  moreover have "rsplit_once CHR ''@'' a = None" using assms(1) by (simp add: plain_authority_def rsplit_once_None)
  ultimately show ?thesis
    using assms by (simp add: authority_from_uri_def plain_authority_def)
qed

lemma split_once_str_first:
  "CHR '':'' \<notin> set s \<Longrightarrow> split_once_str ''://'' (s @ ''://'' @ r) = Some (s, r)"
  by (induction s) (auto simp: starts_with_def)

lemma split_once_str_Some: "split_once_str p s = Some (a, b) \<Longrightarrow> s = a @ p @ b"
proof (induction p s arbitrary: a b rule: split_once_str.induct)
  case (2 p x xs)
  then show ?case
    by (auto simp: starts_with_iff split: if_splits)
qed (auto split: if_splits)

lemma scheme_no_colon:
  assumes "default_port (to_ascii_lowercase sch) = Inr d"
  shows "CHR '':'' \<notin> set sch"
proof -
  have "default_port t = Inr d \<Longrightarrow> CHR '':'' \<notin> set t" for t
    by (auto simp: default_port_def split: if_splits)
  from this [OF assms] show ?thesis by simp
qed

text \<open>The host and the port of a normalized authority are read back.\<close>

lemma split_host_port_cases:
  assumes "split_host_port uri a = Inr (host0, port)"
  shows "(\<exists>pre. host0 = pre @ '']'') \<and> starts_with ''['' host0 \<or>
         CHR '']'' \<notin> set host0 \<and> CHR '':'' \<notin> set host0"
proof (cases "rsplit_once CHR '']'' a")
  case None
  with assms show ?thesis
    by (auto simp: split_host_port_def rsplit_once_None split_once_Some split_once_None
        split: option.splits)
next
  case (Some p)
  obtain before tail where p: "p = (before, tail)" by fastforce
  with Some have "a = before @ CHR '']'' # tail" by (simp add: rsplit_once_Some)
  moreover have "starts_with ''['' a" "host0 = before @ '']''"
    using Some p assms by (auto simp: split_host_port_def Let_def split: if_splits)
  ultimately have a: "a = before @ CHR '']'' # tail" "starts_with ''['' a" "host0 = before @ '']''"
    by simp_all
  then have "starts_with ''['' host0" by (cases before) (simp_all add: starts_with_def)
  with a show ?thesis by blast
qed

lemma split_host_port_again:
  assumes "split_host_port uri a = Inr (host0, port)"
  defines "host \<equiv> to_ascii_lowercase host0"
  shows "split_host_port uri' host = Inr (host, None)"
    and "split_host_port uri' (host @ '':'' @ show_nat n) = Inr (host, Some (show_nat n))"
proof -
  from split_host_port_cases [OF assms(1)]
  consider (bracket) pre where "host0 = pre @ '']''" "starts_with ''['' host0"
    | (plain) "CHR '']'' \<notin> set host0" "CHR '':'' \<notin> set host0" by blast
  then have "split_host_port uri' host = Inr (host, None) \<and>
      split_host_port uri' (host @ '':'' @ show_nat n) = Inr (host, Some (show_nat n))"
  proof cases
    case bracket
    have host: "host = to_ascii_lowercase pre @ '']''" by (simp add: host_def bracket(1))
    have s: "starts_with ''['' host" using bracket(2) by (simp add: host_def starts_bracket_lower)
    then have "starts_with ''['' (host @ '':'' @ show_nat n)" by (auto simp: starts_with_iff)
    moreover have "rsplit_once CHR '']'' host = Some (to_ascii_lowercase pre, [])"
      "rsplit_once CHR '']'' (host @ '':'' @ show_nat n) = Some (to_ascii_lowercase pre, '':'' @ show_nat n)"
      unfolding rsplit_once_Some host by (simp_all add: show_nat_free)
    moreover have "strip_prefix '':'' ('':'' @ show_nat n) = Some (show_nat n)"
      by (simp only: strip_prefix_append)
    ultimately show ?thesis
      using s unfolding split_host_port_def host by simp
  next
    case plain
    then have "CHR '']'' \<notin> set host" "CHR '':'' \<notin> set host" by (simp_all add: host_def)
    then show ?thesis
      using rsplit_once_None [of "CHR '']''" host] rsplit_once_None [of "CHR '']''" "host @ '':'' @ show_nat n"]
      by (simp add: split_host_port_def show_nat_free)
  qed
  then show "split_host_port uri' host = Inr (host, None)"
    "split_host_port uri' (host @ '':'' @ show_nat n) = Inr (host, Some (show_nat n))" by simp_all
qed

lemma split_host_port_chars:
  "split_host_port uri a = Inr (host0, port) \<Longrightarrow> set host0 \<subseteq> set a"
  by (auto simp: split_host_port_def Let_def rsplit_once_Some split_once_Some
      split: option.splits if_splits)

text \<open>
  The authority of a request is in normal form: putting it back under the same scheme gives
  the same authority, so a verifier that rebuilds the URI from what was signed agrees with the
  signer.
\<close>

theorem authority_normal_form:
  assumes "split_once_str ''://'' uri = Some (sch, rest)" and "authority_from_uri uri = Inr a"
  shows "authority_from_uri (sch @ ''://'' @ a) = Inr a"
proof -
  define auth0 where "auth0 = hd (split_by authority_delimiter rest)"
  define auth where "auth = (case rsplit_once CHR ''@'' auth0 of Some (u, h) \<Rightarrow> h | None \<Rightarrow> auth0)"
  obtain d where d: "default_port (to_ascii_lowercase sch) = Inr d"
    using assms by (cases "default_port (to_ascii_lowercase sch)") (simp_all add: authority_from_uri_def)
  have "auth \<noteq> ''''" and "rbind (split_host_port uri auth) (\<lambda>(host0, port).
       let host = to_ascii_lowercase host0 in
       if host = '''' \<or> host = ''[]'' then Inl (InvalidTargetUri uri)
       else (case port of None \<Rightarrow> Inr host
             | Some p \<Rightarrow> rbind (ok_or (parse_u16 p) (InvalidTargetUri uri))
                 (\<lambda>n. if n = d then Inr host else Inr (host @ '':'' @ show_nat n)))) = Inr a"
    using assms(2) unfolding authority_from_uri_def assms(1) ok_or_Some rbind_Inr prod.case d Let_def
      auth_def [unfolded auth0_def, symmetric] by (simp_all split: if_splits)
  then obtain host0 port where hp: "split_host_port uri auth = Inr (host0, port)"
    and host: "to_ascii_lowercase host0 \<noteq> ''''" "to_ascii_lowercase host0 \<noteq> ''[]''"
    and a: "(case port of None \<Rightarrow> Inr (to_ascii_lowercase host0)
             | Some p \<Rightarrow> rbind (ok_or (parse_u16 p) (InvalidTargetUri uri))
                 (\<lambda>n. if n = d then Inr (to_ascii_lowercase host0)
                      else Inr (to_ascii_lowercase host0 @ '':'' @ show_nat n))) = Inr a"
    by (cases "split_host_port uri auth") (auto simp: Let_def split: if_splits)
  let ?h = "to_ascii_lowercase host0"
  have sub: "set auth \<subseteq> set auth0" "CHR ''@'' \<notin> set auth"
    using rsplit_once_None [of "CHR ''@''" auth0]
    by (auto simp: auth_def rsplit_once_Some split: option.splits)
  have "auth0 \<in> set (split_by authority_delimiter rest)" by (simp add: auth0_def)
  then have delim: "\<forall>c \<in> set auth0. \<not> authority_delimiter c"
    by (intro ballI) (rule split_by_pieces)
  have "c \<notin> set host0" if "c \<in> set ''@/?#''" for c
    using that split_host_port_chars [OF hp] sub delim by (auto simp: authority_delimiter_def)
  then have free: "CHR ''@'' \<notin> set ?h" "CHR ''/'' \<notin> set ?h" "CHR ''?'' \<notin> set ?h" "CHR ''#'' \<notin> set ?h"
    by simp_all
  have plain: "plain_authority ?h" "plain_authority (?h @ '':'' @ show_nat n)" for n
    using host(1) free show_nat_free [of n] by (auto simp: plain_authority_def authority_delimiter_def)
  have sp: "split_once_str ''://'' (sch @ ''://'' @ x) = Some (sch, x)" for x
    by (rule split_once_str_first [OF scheme_no_colon [OF d]])
  from a consider "a = ?h" | n where "a = ?h @ '':'' @ show_nat n" "n < 2 ^ 16" "n \<noteq> d"
    by (auto split: option.splits if_splits dest: parse_u16_bound)
  then show ?thesis
  proof cases
    case 1
    show ?thesis
      unfolding 1 authority_from_plain [OF plain(1) sp d] split_host_port_again(1) [OF hp]
      using host by simp
  next
    case (2 n)
    show ?thesis
      unfolding 2(1) authority_from_plain [OF plain(2) sp d] split_host_port_again(2) [OF hp]
      using host parse_u16_show [OF 2(2)] 2(3) by simp
  qed
qed

theorem authority_normal_form_witness:
  "authority_from_uri (''HTTPS'' @ ''://'' @ ''example.com'') = Inr ''example.com''"
proof (rule authority_normal_form)
  show "split_once_str ''://'' ''HTTPS://bob@Example.COM/x?y'' = Some (''HTTPS'', ''bob@Example.COM/x?y'')"
    by (simp add: starts_with_def)
  have "hd (split_by authority_delimiter ''bob@Example.COM/x?y'') = ''bob'' @ CHR ''@'' # ''Example.COM''"
    by (simp add: authority_delimiter_def)
  moreover have "rsplit_once CHR ''@'' (''bob'' @ CHR ''@'' # ''Example.COM'') = Some (''bob'', ''Example.COM'')"
    unfolding rsplit_once_Some by simp
  moreover have "split_host_port u ''Example.COM'' = Inr (''Example.COM'', None)" for u
    using rsplit_once_None [of "CHR '']''" "''Example.COM''"] split_once_None [of "CHR '':''" "''Example.COM''"]
    by (simp add: split_host_port_def)
  moreover have "to_ascii_lowercase ''Example.COM'' = ''example.com''" "to_ascii_lowercase ''HTTPS'' = ''https''"
    by (simp_all add: to_ascii_lowercase_def to_lower_char_def is_ascii_upper_def char_of_def bit_Suc_0_iff)
  moreover have "split_once_str ''://'' ''HTTPS://bob@Example.COM/x?y'' = Some (''HTTPS'', ''bob@Example.COM/x?y'')"
    by (simp add: starts_with_def)
  ultimately show "authority_from_uri ''HTTPS://bob@Example.COM/x?y'' = Inr ''example.com''"
    unfolding authority_from_uri_def by (simp add: default_port_def Let_def del: split_by.simps split_once_str.simps)
qed

text \<open>
  What the authority is a function of: the scheme's default port, the host without its letter
  case and the port. User information before an at sign, a port equal to the scheme's default, and
  whatever follows the first slash, question mark or number sign do not enter the signature.
\<close>

theorem authority_of_parts:
  assumes "default_port (to_ascii_lowercase sch) = Inr d"
    and "\<forall>c \<in> set user. \<not> authority_delimiter c"
    and "host \<noteq> ''''" and "\<forall>c \<in> set host. \<not> authority_delimiter c \<and> c \<notin> set ''@:]''"
    and "n < 2 ^ 16" and "tail = '''' \<or> authority_delimiter (hd tail)"
  shows "authority_from_uri (sch @ ''://'' @ user @ ''@'' @ host @ '':'' @ show_nat n @ tail) =
           Inr (to_ascii_lowercase host @ (if n = d then '''' else '':'' @ show_nat n))"
proof -
  let ?a = "host @ '':'' @ show_nat n"
  let ?rest = "user @ ''@'' @ ?a @ tail"
  have clean: "\<forall>c \<in> set (user @ ''@'' @ ?a). \<not> authority_delimiter c"
    using assms(2,4) show_nat_free [of n] by (auto simp: authority_delimiter_def)
  have tail: "takeWhile (\<lambda>c. \<not> authority_delimiter c) tail = []"
    using assms(6) by (cases tail) auto
  have "takeWhile (\<lambda>c. \<not> authority_delimiter c) ((user @ ''@'' @ ?a) @ tail) = user @ ''@'' @ ?a"
    using clean tail by (subst takeWhile_append2) auto
  then have hd: "hd (split_by authority_delimiter ?rest) = user @ CHR ''@'' # ?a"
    by (simp add: split_by_hd)
  have "CHR ''@'' \<notin> set ?a" using assms(4) show_nat_free [of n] by auto
  then have at: "rsplit_once CHR ''@'' (user @ CHR ''@'' # ?a) = Some (user, ?a)"
    by (simp add: rsplit_once_Some)
  have br: "rsplit_once CHR '']'' ?a = None"
    using assms(4) show_nat_free [of n] by (auto simp: rsplit_once_None)
  have sp: "split_once CHR '':'' ?a = Some (host, show_nat n)"
    using assms(4) by (auto simp: split_once_Some)
  have hp: "split_host_port uri ?a = Inr (host, Some (show_nat n))" for uri
    unfolding split_host_port_def br sp by simp
  have "to_ascii_lowercase host \<noteq> ''[]''" using assms(4) lower_mem_punct(1) [of host] by force
  moreover have "to_ascii_lowercase host \<noteq> ''''" using assms(3) by (simp add: to_ascii_lowercase_def)
  moreover have "split_once_str ''://'' (sch @ ''://'' @ ?rest) = Some (sch, ?rest)"
    by (rule split_once_str_first [OF scheme_no_colon [OF assms(1)]])
  ultimately have "authority_from_uri (sch @ ''://'' @ ?rest) =
      Inr (to_ascii_lowercase host @ (if n = d then '''' else '':'' @ show_nat n))"
    unfolding authority_from_uri_def using assms(1) hd at hp parse_u16_show [OF assms(5)]
    by (simp add: Let_def)
  then show ?thesis by simp
qed

theorem authority_of_parts_witness:
  "authority_from_uri (''HTTPS'' @ ''://'' @ ''bob'' @ ''@'' @ ''Example.COM'' @ '':'' @ show_nat 443 @ ''/x?y'') =
     Inr (to_ascii_lowercase ''Example.COM'' @ (if 443 = (443 :: nat) then '''' else '':'' @ show_nat 443))"
  by (rule authority_of_parts) (code_simp, simp_all add: authority_delimiter_def)

end
