(* ===== verification/Ref_Sfv.thy ===== *)
theory Ref_Sfv
  imports Signature_Base
begin

text \<open>
  A concrete structured-field codec that satisfies \<open>sfv_law\<close>, at which the theorems about
  request signatures are evaluated: strings and byte sequences are written in hexadecimal, so
  that no escapes are needed.
\<close>

definition sf_pieces :: "char \<Rightarrow> string list \<Rightarrow> string" where
  "sf_pieces c ps = concat (map (\<lambda>p. c # p) ps)"

lemma split_pieces: "\<forall>p \<in> set ps. c \<notin> set p \<Longrightarrow> split_on c (sf_pieces c ps) = [] # ps"
proof (induction ps rule: rev_induct)
  case (snoc p ps)
  have "sf_pieces c (ps @ [p]) = sf_pieces c ps @ c # p" by (simp add: sf_pieces_def)
  with snoc show ?case by (simp add: split_on_append)
qed (simp add: sf_pieces_def)

definition hex_of_string :: "string \<Rightarrow> string" where
  "hex_of_string s = ref_hex_encode (as_bytes s)"

definition string_of_hex :: "string \<Rightarrow> string option" where
  "string_of_hex h = map_option (map (\<lambda>w. char_of (unat w))) (ok (ref_hex_decode h))"

lemma string_of_hex [simp]: "string_of_hex (hex_of_string s) = Some s"
  by (simp add: string_of_hex_def hex_of_string_def ref_hex_roundtrip as_bytes_def char_byte map_idI)

definition parse_int :: "string \<Rightarrow> int option" where
  "parse_int s =
     (case s of
        [] \<Rightarrow> None
      | c # r \<Rightarrow> if c = CHR ''-'' then map_option (\<lambda>n. - int n) (parse_digits r)
                 else map_option int (parse_digits s))"

lemma show_nat_head: "show_nat n = c # r \<Longrightarrow> c \<noteq> CHR ''-''"
  using show_nat_digits [of c n] by (auto simp: is_ascii_digit_def)

lemma parse_int_show [simp]: "parse_int (show_int i) = Some i"
proof (cases "i < 0")
  case False
  obtain c r where cr: "show_nat (nat i) = c # r" by (cases "show_nat (nat i)") auto
  then have "parse_int (c # r) = Some i"
    using show_nat_head [OF cr] parse_digits_show [of "nat i"] False by (simp add: parse_int_def)
  with False cr show ?thesis by (simp add: show_int_def)
qed (simp add: parse_int_def show_int_def)

definition sf_encode_value :: "sf_bare \<Rightarrow> string" where
  "sf_encode_value v =
     (case v of SfInteger i \<Rightarrow> CHR ''i'' # show_int i | SfString s \<Rightarrow> CHR ''s'' # hex_of_string s
      | SfBytes b \<Rightarrow> CHR ''b'' # ref_hex_encode b | SfOther \<Rightarrow> ''o'')"

definition sf_decode_value :: "string \<Rightarrow> sf_bare option" where
  "sf_decode_value t =
     (case t of
        [] \<Rightarrow> None
      | c # r \<Rightarrow>
          if c = CHR ''i'' then map_option SfInteger (parse_int r)
          else if c = CHR ''s'' then map_option SfString (string_of_hex r)
          else if c = CHR ''b'' then map_option SfBytes (ok (ref_hex_decode r))
          else Some SfOther)"

lemma sf_value_roundtrip [simp]: "sf_decode_value (sf_encode_value v) = Some v"
  by (cases v) (simp_all add: sf_decode_value_def sf_encode_value_def ref_hex_roundtrip)

definition ref_key_check :: "string \<Rightarrow> string + unit" where
  "ref_key_check k =
     (if k \<noteq> [] \<and> list_all (\<lambda>c. is_ascii_lower c \<or> is_ascii_digit c) k then Inr () else Inl ''bad key'')"

definition ref_string_check :: "string \<Rightarrow> string + unit" where
  "ref_string_check s = (if list_all (\<lambda>c. c = CHR '' '' \<or> graphic c) s then Inr () else Inl ''bad string'')"

definition ref_integer_check :: "int \<Rightarrow> string + unit" where
  "ref_integer_check i =
     (if - 999999999999999 \<le> i \<and> i \<le> 999999999999999 then Inr () else Inl ''bad integer'')"

definition ref_list_text :: "string list \<Rightarrow> sf_params \<Rightarrow> string" where
  "ref_list_text xs ps =
     ''('' @ sf_pieces CHR '' '' (map (\<lambda>x. sf_encode_value (SfString x)) xs) @ '')'' @
     sf_pieces CHR '';'' (map (\<lambda>(k, v). k @ CHR ''='' # sf_encode_value v) ps)"

definition ref_parse_param :: "string \<Rightarrow> string + (string \<times> sf_bare)" where
  "ref_parse_param t =
     (case split_once CHR ''='' t of
        None \<Rightarrow> Inl ''bad parameter''
      | Some (k, v) \<Rightarrow> rmap (\<lambda>b. (k, b)) (ok_or (sf_decode_value v) ''bad value''))"

definition ref_parse_item :: "string \<Rightarrow> string + (sf_bare \<times> sf_params)" where
  "ref_parse_item t = rmap (\<lambda>b. (b, [])) (ok_or (sf_decode_value t) ''bad item'')"

definition ref_parse_dict :: "string \<Rightarrow> string + (string \<times> sf_entry) list" where
  "ref_parse_dict h =
     (case split_once CHR ''='' h of
        None \<Rightarrow> Inl ''no member''
      | Some (k, rest) \<Rightarrow>
          (case strip_prefix ''('' rest of
             None \<Rightarrow> rmap (\<lambda>b. [(k, SfItem b [])]) (ok_or (sf_decode_value rest) ''bad item'')
           | Some r \<Rightarrow>
               (case split_once CHR '')'' r of
                  None \<Rightarrow> Inl ''open list''
                | Some (items, params) \<Rightarrow>
                    rbind (collect_results ref_parse_item (tl (split_on CHR '' '' items))) (\<lambda>xs.
                    rbind (collect_results ref_parse_param (tl (split_on CHR '';'' params))) (\<lambda>ps.
                      Inr [(k, SfInnerList xs ps)])))))"

definition ref_sfv :: sfv where
  "ref_sfv = \<lparr>
     sf_key_check = ref_key_check,
     sf_string_check = ref_string_check,
     sf_integer_check = ref_integer_check,
     sf_list_of_inner = (\<lambda>xs ps. Some (ref_list_text xs ps)),
     sf_dict_of_inner = (\<lambda>k xs ps. Some (k @ ''='' @ ref_list_text xs ps)),
     sf_dict_of_bytes = (\<lambda>k b. Some (k @ ''='' @ sf_encode_value (SfBytes b))),
     sf_parse_dict = ref_parse_dict\<rparr>"

text \<open>The characters of an encoded value are lowercase letters, digits and the minus sign.\<close>

definition value_char :: "char \<Rightarrow> bool" where
  "value_char c = (is_ascii_lower c \<or> is_ascii_digit c \<or> c = CHR ''-'')"

lemma value_charD:
  assumes "value_char c"
  shows "graphic c" "c \<noteq> CHR '' ''" "c \<noteq> CHR '')''" "c \<noteq> CHR '';''" "c \<noteq> CHR ''=''" "c \<noteq> CHR ''(''"
  using assms by (auto simp: value_char_def is_ascii_lower_def is_ascii_digit_def graphic_def)

lemma hex_value_char: "c \<in> set (ref_hex_encode b) \<Longrightarrow> value_char c"
  by (auto dest!: ref_hex_encode_chars simp: value_char_def is_hex_lower_def is_ascii_lower_def)

lemma encode_value_char: "c \<in> set (sf_encode_value v) \<Longrightarrow> value_char c"
  by (cases v)
     (auto simp: sf_encode_value_def hex_of_string_def show_int_def value_char_def is_ascii_lower_def
       dest: hex_value_char show_nat_digits split: if_splits)

lemma encode_value_nonempty [simp]: "sf_encode_value v \<noteq> []"
  by (cases v) (simp_all add: sf_encode_value_def)

lemma key_check_chars: "is_ok (ref_key_check k) \<Longrightarrow> k \<noteq> [] \<and> (\<forall>c \<in> set k. value_char c)"
  by (auto simp: ref_key_check_def list_all_iff value_char_def split: if_splits)

lemma collect_items:
  "collect_results ref_parse_item (map (\<lambda>x. sf_encode_value (SfString x)) xs) =
     Inr (map (\<lambda>x. (SfString x, [])) xs)"
  by (induction xs) (simp_all add: ref_parse_item_def)

lemma collect_params:
  "\<forall>(k, v) \<in> set ps. CHR ''='' \<notin> set k \<Longrightarrow>
     collect_results ref_parse_param (map (\<lambda>(k, v). k @ CHR ''='' # sf_encode_value v) ps) = Inr ps"
  by (induction ps) (auto simp: ref_parse_param_def)

lemma value_chars_free:
  assumes "\<forall>c \<in> set s. value_char c"
  shows "CHR '' '' \<notin> set s" "CHR '')'' \<notin> set s" "CHR '';'' \<notin> set s" "CHR ''='' \<notin> set s"
  using assms by (auto simp: value_char_def is_ascii_lower_def is_ascii_digit_def)

lemma pieces_chars: "c \<in> set (sf_pieces d ps) \<Longrightarrow> c = d \<or> (\<exists>p \<in> set ps. c \<in> set p)"
  by (auto simp: sf_pieces_def split: if_splits)

lemma pieces_free: "c' \<noteq> c \<Longrightarrow> \<forall>p \<in> set ps. c' \<notin> set p \<Longrightarrow> c' \<notin> set (sf_pieces c ps)"
  by (auto simp: sf_pieces_def)

lemma ref_parse_inner:
  assumes "is_ok (ref_key_check k)" "\<forall>(k, v) \<in> set ps. is_ok (ref_key_check k)"
  shows "ref_parse_dict (k @ ''='' @ ref_list_text xs ps) =
     Inr [(k, SfInnerList (map (\<lambda>x. (SfString x, [])) xs) ps)]"
proof -
  let ?items = "map (\<lambda>x. sf_encode_value (SfString x)) xs"
  let ?params = "map (\<lambda>(k, v). k @ CHR ''='' # sf_encode_value v) ps"
  have k: "CHR ''='' \<notin> set k"
    using key_check_chars [OF assms(1)] value_chars_free(4) by blast
  have pk: "\<forall>(k, v) \<in> set ps. CHR ''='' \<notin> set k"
    using assms(2) key_check_chars value_chars_free(4) by fast
  have items: "\<forall>p \<in> set ?items. CHR '' '' \<notin> set p" "\<forall>p \<in> set ?items. CHR '')'' \<notin> set p"
    using value_chars_free encode_value_char by auto
  have "CHR '';'' \<notin> set k'" if "(k', v) \<in> set ps" for k' v
    using that assms(2) key_check_chars [of k'] value_chars_free(3) by fast
  moreover have "CHR '';'' \<notin> set (sf_encode_value v)" for v
    using value_chars_free(3) encode_value_char by blast
  ultimately have params: "\<forall>p \<in> set ?params. CHR '';'' \<notin> set p" by auto
  have "split_once CHR ''='' (k @ ''='' @ ref_list_text xs ps) = Some (k, ref_list_text xs ps)"
    using k by simp
  moreover have "strip_prefix ''('' (ref_list_text xs ps) =
      Some (sf_pieces CHR '' '' ?items @ CHR '')'' # sf_pieces CHR '';'' ?params)"
    by (simp add: ref_list_text_def strip_prefix_Some)
  moreover have "split_once CHR '')'' (sf_pieces CHR '' '' ?items @ CHR '')'' # sf_pieces CHR '';'' ?params) =
      Some (sf_pieces CHR '' '' ?items, sf_pieces CHR '';'' ?params)"
    using pieces_free [of "CHR '')''" "CHR '' ''" ?items] items(2) by simp
  ultimately show ?thesis
    by (simp add: ref_parse_dict_def split_pieces [OF items(1)] split_pieces [OF params] collect_items
        collect_params [OF pk])
qed

lemma ref_list_text_chars:
  assumes "\<forall>(k, v) \<in> set ps. is_ok (ref_key_check k)"
  shows "ref_list_text xs ps \<noteq> []" "graphic (last (ref_list_text xs ps))"
    "\<forall>c \<in> set (ref_list_text xs ps). c = CHR '' '' \<or> graphic c"
proof -
  have v: "graphic c" if "c \<in> set (sf_encode_value v)" for c v
    using that value_charD(1) encode_value_char by blast
  have k: "graphic c" if "(k, v) \<in> set ps" "c \<in> set k" for c k v
    using that assms key_check_chars [of k] value_charD(1) by fast
  show "ref_list_text xs ps \<noteq> []" by (simp add: ref_list_text_def)
  show "\<forall>c \<in> set (ref_list_text xs ps). c = CHR '' '' \<or> graphic c"
  proof
    fix c assume "c \<in> set (ref_list_text xs ps)"
    then have "c \<in> set ''() ;='' \<or> (\<exists>x. c \<in> set (sf_encode_value (SfString x))) \<or>
        (\<exists>k v. (k, v) \<in> set ps \<and> (c \<in> set k \<or> c \<in> set (sf_encode_value v)))"
      unfolding ref_list_text_def by (auto dest!: pieces_chars)
    then show "c = CHR '' '' \<or> graphic c"
      using v k by (auto simp: graphic_def)
  qed
  show "graphic (last (ref_list_text xs ps))"
  proof (cases ps rule: rev_cases)
    case Nil
    then show ?thesis by (simp add: ref_list_text_def sf_pieces_def graphic_def)
  next
    case (snoc qs q)
    obtain k' v' where q: "q = (k', v')" by fastforce
    have "last (ref_list_text xs ps) = last (sf_encode_value v')"
      by (simp add: ref_list_text_def sf_pieces_def snoc q last_append)
    then show ?thesis using v [of "last (sf_encode_value v')" v'] last_in_set [OF encode_value_nonempty] by simp
  qed
qed

lemma ref_prints:
  assumes "sf_valid_params ref_sfv ps"
  shows "sf_prints ref_sfv xs ps (ref_list_text xs ps)"
proof -
  have "\<forall>(k, v) \<in> set ps. is_ok (ref_key_check k)"
    using assms by (auto simp: sf_valid_params_def ref_sfv_def)
  from ref_list_text_chars [OF this, of xs] ref_parse_inner [OF _ this, of _ xs] show ?thesis
    unfolding sf_prints_def by (simp add: ref_sfv_def)
qed

lemma ref_parse_bytes:
  assumes "is_ok (ref_key_check k)"
  shows "ref_parse_dict (k @ ''='' @ sf_encode_value (SfBytes b)) = Inr [(k, SfItem (SfBytes b) [])]"
proof -
  have "CHR ''='' \<notin> set k" using key_check_chars [OF assms] value_chars_free(4) by blast
  moreover have "strip_prefix ''('' (sf_encode_value (SfBytes b)) = None"
    by (simp add: strip_prefix_def starts_with_def sf_encode_value_def)
  ultimately show ?thesis by (simp add: ref_parse_dict_def)
qed

lemma ref_keys:
  "list_all (\<lambda>k. is_ok (ref_key_check k)) [''created'', ''expires'', ''keyid'', ''alg'', ''nonce'', ''tag'', ''sig1'']"
  by (simp add: ref_key_check_def is_ascii_lower_def is_ascii_digit_def)

lemma ref_sfv_law: "sfv_law ref_sfv"
  unfolding sfv_law_def
proof (intro conjI allI impI)
  show "\<exists>t. sf_prints ref_sfv xs ps t"
    if "\<forall>x \<in> set xs. is_ok (sf_string_check ref_sfv x)" "sf_valid_params ref_sfv ps" for xs ps
    using ref_prints [OF that(2)] by blast
  show "\<exists>t. sf_dict_of_bytes ref_sfv k b = Some t \<and>
      sf_parse_dict ref_sfv t = Inr [(k, SfItem (SfBytes b) [])]" if "is_ok (sf_key_check ref_sfv k)" for k b
    using that ref_parse_bytes [of k b] by (simp add: ref_sfv_def)
  show "k \<noteq> []" if "is_ok (sf_key_check ref_sfv k)" for k
    using that key_check_chars [of k] by (simp add: ref_sfv_def)
  show "\<forall>c \<in> set k. graphic c" if "is_ok (sf_key_check ref_sfv k)" for k
    using that key_check_chars [of k] value_charD(1) by (auto simp: ref_sfv_def)
  show "\<forall>k \<in> set [''created'', ''expires'', ''keyid'', ''alg'', ''nonce'', ''tag'', ''sig1''].
      is_ok (sf_key_check ref_sfv k)"
    using ref_keys unfolding list_all_iff by (simp add: ref_sfv_def)
  show "is_ok (sf_string_check ref_sfv s) \<longleftrightarrow> (\<forall>c \<in> set s. c = CHR '' '' \<or> graphic c)" for s
    by (simp add: ref_sfv_def ref_string_check_def list_all_iff)
  show "is_ok (sf_integer_check ref_sfv i) \<longleftrightarrow> - 999999999999999 \<le> i \<and> i \<le> 999999999999999" for i
    by (simp add: ref_sfv_def ref_integer_check_def)
qed

end
