(* ===== verification/Request_Auth.thy ===== *)
theory Request_Auth
  imports Http_Verify Authority Ref_Sfv
begin

text \<open>
  What request signatures guarantee: the verifier accepts exactly the valid requests, a signed
  request verifies, a captured request is refused while the guard remembers its nonce, and a
  refused request leaves the guard as it was.
\<close>

section \<open>Reading back what the signer prints\<close>

lemma parse_params_fields [simp]: "parse_params (sp_covered p) (params_fields p) = Inr p"
  by (simp add: parse_params_def params_fields_def integer_param_def string_param_def)

lemma params_order: "map fst (params_fields p) = PARAM_ORDER"
  by (simp add: params_fields_def PARAM_ORDER_def)

lemma collect_covered:
  "set cov \<subseteq> set ALLOWED_COMPONENTS \<Longrightarrow>
     collect_results covered_component (map (\<lambda>x. (SfString x, [])) cov) = Inr cov"
  by (induction cov) (auto simp: covered_component_def)

lemma parse_printed_input:
  assumes "sfv_law V" "serialize_signature_params V p = Inr t" "is_ok (sf_key_check V k)"
    and "set (sp_covered p) \<subseteq> set ALLOWED_COMPONENTS" "COMPONENT_AUTHORITY \<in> set (sp_covered p)"
  shows "parse_signature_input V (k @ ''='' @ t) = Inr (k, p)"
  using serialize_text(7) [OF assms(1-3)] assms(4,5) params_order [of p]
  by (simp add: parse_signature_input_def collect_covered del: append.simps)

lemma sfv_bytes:
  "sfv_law V \<Longrightarrow> is_ok (sf_key_check V k) \<Longrightarrow>
     \<exists>t. sf_dict_of_bytes V k b = Some t \<and> sf_parse_dict V t = Inr [(k, SfItem (SfBytes b) [])]"
  by (simp add: sfv_law_def)

lemma sfv_key_text: "sfv_law V \<Longrightarrow> is_ok (sf_key_check V k) \<Longrightarrow> k \<noteq> [] \<and> (\<forall>c \<in> set k. graphic c)"
  by (simp add: sfv_law_def)

lemma parse_printed_signature:
  assumes "sfv_law V" "is_ok (sf_key_check V k)" "signature_header V k sig = Inr h"
  shows "parse_signature V h k = Inr sig"
proof -
  obtain t where "sf_dict_of_bytes V k sig = Some t" "sf_parse_dict V t = Inr [(k, SfItem (SfBytes sig) [])]"
    using sfv_bytes [OF assms(1,2)] by blast
  with assms(3) show ?thesis by (auto simp: signature_header_def parse_signature_def)
qed

lemma trim_printed_input:
  assumes "sfv_law V" "serialize_signature_params V p = Inr t" "is_ok (sf_key_check V k)"
  shows "trim (k @ ''='' @ t) = k @ ''='' @ t"
proof -
  have k: "k \<noteq> []" "\<forall>c \<in> set k. graphic c" using sfv_key_text [OF assms(1,3)] by simp_all
  have "k @ ''='' @ t \<noteq> []" "graphic (hd (k @ ''='' @ t))" "graphic (last (k @ ''='' @ t))"
    using k serialize_text(2,3) [OF assms(1,2)] by auto
  then show ?thesis by (rule trim_id)
qed

lemma covered_allowed:
  "set (covered_components parts) \<subseteq> set ALLOWED_COMPONENTS"
  "COMPONENT_AUTHORITY \<in> set (covered_components parts)"
  "COMPONENT_SIGNATURE_AGENT \<in> set (covered_components parts) \<longleftrightarrow> rp_signature_agent parts \<noteq> None"
  by (auto simp: covered_components_def ALLOWED_COMPONENTS_def)

section \<open>Properties\<close>

text \<open>
  C5. The verifier is exact: a request is accepted as a DID exactly when its headers parse to
  parameters within the profile, they cover the \<open>Signature-Agent\<close> header exactly when it is
  present, they carry the expected tag, an open window of at most a day that does not start
  beyond the skew, the algorithm the DID implies and the canonical spelling, the holder of the
  DID's key signed the base rebuilt from this request, and the guard, if there is one, has not
  honoured the nonce.
\<close>

theorem request_accepted_iff:
  "verify_request_at E V parts input signature opts now = (guard', Inr who) \<longleftrightarrow>
     (\<exists>p. request_valid E V parts input signature opts now p \<and> who = \<lparr>principal_did = sp_keyid p\<rparr> \<and>
        (case vo_replay_guard opts of
           None \<Rightarrow> guard' = None
         | Some guard \<Rightarrow>
             \<exists>g. check_and_record_at (sp_nonce p) (sp_expires p) now guard = (g, Inr ()) \<and> guard' = Some g))"
proof (cases "verify_signature_at E V parts input signature opts now")
  case (Inl e)
  then have "\<not> request_valid E V parts input signature opts now p" for p
    using verify_signature_Inr [of E V parts input signature opts now p] by simp
  with Inl show ?thesis by (simp add: verify_request_at_def)
next
  case (Inr r)
  obtain p w where r: "r = (p, w)" by fastforce
  with Inr have v: "w = \<lparr>principal_did = sp_keyid p\<rparr>" "request_valid E V parts input signature opts now p"
    by (simp_all add: verify_signature_Inr)
  then have "request_valid E V parts input signature opts now q \<longleftrightarrow> q = p" for q
    using request_valid_unique by blast
  with Inr r v(1) show ?thesis
    by (auto simp: verify_request_at_def split: option.splits prod.splits sum.splits)
qed

lemma build_baseD:
  assumes "build_signature_base V parts p = Inr base"
  obtains t where "serialize_signature_params V p = Inr t"
  using assms by (auto simp: build_signature_base_def Let_def split: if_splits)

lemma signed_request_valid:
  assumes "sfv_law V"
    and "sign_request_at E V random s parts AquaInternal validity created = Inr h"
    and "\<And>msg sig. signer_sign s msg = Inr sig \<Longrightarrow> possession E (signer_did s) msg sig None"
    and "vo_expected_tag opts = TAG_AQUA_INTERNAL"
    and "alg_for_did E (signer_did s) = Inr alg"
    and "created \<le> saturating_add_i64 now (sint (dur_secs (vo_clock_skew opts)))"
    and "validity_seconds validity = Inr w" and "now < created + w"
  shows "request_valid E V parts (sh_signature_input h) (sh_signature h) opts now
           (request_params E random parts created w (signer_did s, alg, TAG_AQUA_INTERNAL))"
proof -
  obtain w' kat base sig where w': "validity_seconds validity = Inr w'"
    and kat: "profile_parameters E AquaInternal (signer_did s) = Inr kat"
    and base: "build_signature_base V parts (request_params E random parts created w' kat) = Inr base"
    and sig: "signer_sign s base = Inr sig"
    and input: "signature_input_header V SIGNATURE_LABEL (request_params E random parts created w' kat) =
           Inr (sh_signature_input h)"
    and header: "signature_header V SIGNATURE_LABEL sig = Inr (sh_signature h)"
    by (rule sign_requestD [OF assms(2)])
  define p where "p = request_params E random parts created w' kat"
  have "w' = w" using w' assms(7) by simp
  have kat_eq: "kat = (signer_did s, alg, TAG_AQUA_INTERNAL)"
    using kat assms(5) by (simp add: profile_parameters_def)
  then have p: "sp_covered p = covered_components parts" "sp_created p = created"
    "sp_expires p = saturating_add_i64 created w'" "sp_keyid p = signer_did s" "sp_alg p = alg"
    "sp_tag p = TAG_AQUA_INTERNAL" "sp_nonce p = generate_nonce E random"
    by (simp_all add: p_def request_params_def)
  obtain t where t: "serialize_signature_params V p = Inr t" using base unfolding p_def by (rule build_baseD)
  have k: "is_ok (sf_key_check V SIGNATURE_LABEL)" using sfv_label [OF assms(1)] by (simp add: SIGNATURE_LABEL_def)
  have in_eq: "sh_signature_input h = SIGNATURE_LABEL @ ''='' @ t"
    using input serialize_text(6) [OF assms(1) t k] by (simp add: p_def)
  have parsed: "parse_signature_input V (sh_signature_input h) = Inr (SIGNATURE_LABEL, p)"
    unfolding in_eq by (rule parse_printed_input [OF assms(1) t k]) (simp_all add: p covered_allowed)
  have expires: "saturating_add_i64 created w' = created + w"
  proof -
    have "sp_expires p \<le> 999999999999999" "- 999999999999999 \<le> sp_created p"
      using serialize_text(1) [OF assms(1) t] assms(1)
      by (auto simp: params_valid_def sf_valid_params_def params_fields_def sfv_law_def)
    then show ?thesis
      using validity_secondsD [OF w'] w' assms(7) by (simp add: p saturating_add_i64_def max_def min_def split: if_splits)
  qed
  have "request_valid E V parts (sh_signature_input h) (sh_signature h) opts now p"
    unfolding request_valid_def
  proof (intro exI conjI)
    show "parse_signature V (sh_signature h) SIGNATURE_LABEL = Inr sig"
      by (rule parse_printed_signature [OF assms(1) k header])
    show "signature_input_header V SIGNATURE_LABEL p = Inr (trim (sh_signature_input h))"
      using trim_printed_input [OF assms(1) t k] input by (simp add: in_eq p_def)
    show "possession E (sp_keyid p) base sig None" using assms(3) [OF sig] by (simp add: p)
    show "build_signature_base V parts p = Inr base" using base by (simp add: p_def)
  qed (use parsed p assms(4-8) w' validity_secondsD [OF w'] expires covered_allowed(3) in auto)
  then show ?thesis by (simp add: p_def kat_eq \<open>w' = w\<close>)
qed

text \<open>
  C9. A signed request verifies: the headers \<open>sign_request_at\<close> returns for the internal profile
  are accepted, as the signer's DID, for the same request at every moment of their window, by a
  verifier of that profile whose guard, if it has one, does not hold the nonce. The
  signature may be over any authority, with or without a \<open>Signature-Agent\<close> header; the signer
  only has to produce signatures its DID verifies.
\<close>

theorem sign_then_verify:
  assumes "sfv_law V"
    and "sign_request_at E V random s parts AquaInternal validity created = Inr h"
    and "\<And>msg sig. signer_sign s msg = Inr sig \<Longrightarrow> possession E (signer_did s) msg sig None"
    and "vo_expected_tag opts = TAG_AQUA_INTERNAL"
    and "\<forall>g. vo_replay_guard opts = Some g \<longrightarrow>
           dmap_wf (ng_seen g) \<and> map_of (ng_seen g) (generate_nonce E random) = None"
    and "created \<le> saturating_add_i64 now (sint (dur_secs (vo_clock_skew opts)))"
    and "validity_seconds validity = Inr w" and "now < created + w"
  shows "snd (verify_request_at E V parts (sh_signature_input h) (sh_signature h) opts now) =
           Inr \<lparr>principal_did = signer_did s\<rparr>"
proof -
  obtain kat where "profile_parameters E AquaInternal (signer_did s) = Inr kat"
    by (rule sign_requestD [OF assms(2)])
  then obtain alg where alg: "alg_for_did E (signer_did s) = Inr alg" by (auto simp: profile_parameters_def)
  let ?p = "request_params E random parts created w (signer_did s, alg, TAG_AQUA_INTERNAL)"
  have "request_valid E V parts (sh_signature_input h) (sh_signature h) opts now ?p"
    by (rule signed_request_valid [OF assms(1-4) alg assms(6-8)])
  then have "verify_signature_at E V parts (sh_signature_input h) (sh_signature h) opts now =
      Inr (?p, \<lparr>principal_did = signer_did s\<rparr>)" by (simp add: verify_signature_Inr request_params_def)
  moreover have "sp_nonce ?p = generate_nonce E random" by (simp add: request_params_def)
  ultimately show ?thesis
    using assms(5) by (auto simp: verify_request_at_def check_result split: option.splits)
qed

text \<open>
  C8. A captured request is refused: once a request was accepted, its \<open>Signature-Input\<close> is
  refused on every request and with every signature, at any later time and by any verifier that
  shares the guard, while the guard's clock readings are before its expiry and the nonces that
  outlive it do not fill the guard.
\<close>

theorem request_replay_refused:
  assumes "dmap_wf (ng_seen g)"
    and "verify_request_at E V parts input signature (with_replay_guard g opts) now = (Some g1, Inr who)"
    and "parse_signature_input V input = Inr (label, p)"
    and "\<forall>op \<in> set ops. op_clock op < sp_expires p"
    and "rivals (sp_nonce p, sp_expires p) g +
         length (filter (outlives (sp_nonce p, sp_expires p)) ops) + 1 < ng_capacity g"
  shows "\<exists>e. verify_request_at E V parts' input signature'
               (with_replay_guard (fold guard_step ops g1) opts') now' =
             (Some (fold guard_step ops g1), Inl e)"
proof -
  let ?q = "(sp_nonce p, sp_expires p)" and ?g = "fold guard_step ops g1"
  have g1: "check_and_record_at (sp_nonce p) (sp_expires p) now g = (g1, Inr ())"
    using assms(2,3)
    by (auto simp: verify_request_at_def with_replay_guard_def verify_signature_Inr request_valid_def
        split: sum.splits prod.splits)
  then have eq: "g1 = guard_step (Present (sp_nonce p) (sp_expires p) now) g" by simp
  have "map_of (ng_seen g1) (sp_nonce p) = Some (sp_expires p)"
    using g1 by (auto simp: check_result [OF assms(1)] split: if_splits)
  moreover have wf1: "dmap_wf (ng_seen g1)" unfolding eq by (rule step_wf [OF assms(1)])
  ultimately have mem: "?q \<in> set (ng_seen g1)" by (simp add: dmap_wf_map_of_iff)
  have "rivals ?q g1 + length (filter (outlives ?q) ops) < ng_capacity g1"
    using step_rivals [OF assms(1), of ?q "Present (sp_nonce p) (sp_expires p) now"] assms(5)
      room_fields(5) [of "Present (sp_nonce p) (sp_expires p) now" g] unfolding eq by simp
  from steps_keep [OF wf1 mem assms(4) this]
  have "check_and_record_at (sp_nonce p) x n ?g = (?g, Inl NonceReplayed)" for x n
    by (simp add: check_result)
  moreover have "r = p" if "verify_signature_at E V parts' input signature' opts'' now' = Inr (r, w)" for r w opts''
    using that assms(3) by (auto simp: verify_signature_Inr request_valid_def)
  ultimately show ?thesis
    by (cases "verify_signature_at E V parts' input signature' (with_replay_guard ?g opts') now'")
       (auto simp: verify_request_at_def with_replay_guard_def split: prod.splits)
qed

text \<open>
  Nobody can burn a nonce or fill the guard without a valid signature: a request that is
  refused, for whatever reason, leaves the guard exactly as it was, and an accepted one adds its
  own nonce.
\<close>

theorem refused_request_keeps_guard:
  assumes "dmap_wf (ng_seen g)"
    and "verify_request_at E V parts input signature (with_replay_guard g opts) now = (g', r)"
  shows "case r of
           Inl _ \<Rightarrow> g' = Some g
         | Inr who \<Rightarrow> \<exists>g1 label p. g' = Some g1 \<and> parse_signature_input V input = Inr (label, p) \<and>
                        map_of (ng_seen g) (sp_nonce p) = None \<and>
                        map_of (ng_seen g1) (sp_nonce p) = Some (sp_expires p)"
  using assms(2)
  by (auto simp: verify_request_at_def with_replay_guard_def check_result [OF assms(1)]
      verify_signature_Inr request_valid_def split: sum.splits prod.splits if_splits)

section \<open>Witnesses\<close>

text \<open>A base can be built when the parameters are valid and the authority is ASCII.\<close>

lemma serialize_ok: "sfv_law V \<Longrightarrow> params_valid V p \<Longrightarrow> \<exists>t. serialize_signature_params V p = Inr t"
  using sfv_list [of V "sp_covered p" "params_fields p"] write_params_Inr [of V p]
  by (auto simp: params_valid_def serialize_signature_params_def sf_prints_def)

lemma serialize_ascii: "sfv_law V \<Longrightarrow> serialize_signature_params V p = Inr t \<Longrightarrow> is_ascii t"
proof -
  assume "sfv_law V" "serialize_signature_params V p = Inr t"
  then have t: "\<forall>c \<in> set t. c = CHR '' '' \<or> graphic c" by (rule serialize_text(5))
  have ascii: "c = CHR '' '' \<or> graphic c \<Longrightarrow> (of_char c :: nat) < 128" for c
    by (auto simp: graphic_def)
  show ?thesis unfolding is_ascii_def list_all_iff
  proof
    fix c assume "c \<in> set t"
    with t have "c = CHR '' '' \<or> graphic c" by (rule bspec)
    then show "(of_char c :: nat) < 128" by (rule ascii)
  qed
qed

lemma build_authority_ok:
  assumes "sfv_law V" "params_valid V p" "sp_covered p = [COMPONENT_AUTHORITY]"
    and "authority_from_uri (rp_target_uri parts) = Inr a" "is_ascii a"
  shows "\<exists>base. build_signature_base V parts p = Inr base"
proof -
  obtain t where t: "serialize_signature_params V p = Inr t" using serialize_ok [OF assms(1,2)] by blast
  have "base_lines parts [] (sp_covered p) = Inr (quoted COMPONENT_AUTHORITY @ '': '' @ a @ [LF])"
    unfolding assms(3) base_lines_one using assms(4) by (simp add: component_value_def)
  moreover have "is_ascii (quoted COMPONENT_AUTHORITY)" "is_ascii (quoted COMPONENT_SIGNATURE_PARAMS)"
    by (simp_all add: is_ascii_def quoted_def COMPONENT_AUTHORITY_def COMPONENT_SIGNATURE_PARAMS_def)
  moreover have "is_ascii ('': '' @ a @ [LF])" "is_ascii ('': '' @ t)"
    using serialize_ascii [OF assms(1) t] assms(5) by (simp_all add: is_ascii_def)
  ultimately show ?thesis
    using t assms(3) by (simp add: build_signature_base_def Let_def)
qed

definition ref_signer :: signer where
  "ref_signer = fn_signer ref_did (\<lambda>_. Inr (replicate 64 7))"

definition ref_parts :: request_parts where
  "ref_parts = request_parts_new ''GET'' ''https://h/x''"

definition ref_request_params :: signature_params where
  "ref_request_params = request_params ref_crates [0] ref_parts 100 60 (ref_did, ALG_ED25519, TAG_AQUA_INTERNAL)"

lemma ref_possession: "possession ref_crates ref_did msg (replicate 64 7) None"
proof (rule possession.key_ed25519)
  show "ref_did = ''did:key:z'' @ ref_z_body" by (rule ref_did_facts(1))
  show "bs58_decode ref_crates ref_z_body = Inr (ED25519_PREFIX @ replicate 32 7)"
    unfolding ref_z_body_def by (rule bs58_lawD(1) [OF ref_bs58_law])
  have "strict_ed_key ref_crates (replicate 32 7)" by (simp add: strict_ed_key_def ref_crates_def)
  then show "ed25519_signed ref_crates (replicate 32 7) msg (replicate 64 7)"
    by (simp add: ed25519_signed_def) (simp add: ref_crates_def)
qed

lemma ref_alg: "alg_for_did ref_crates ref_did = Inr ALG_ED25519"
proof -
  have "key_z_body ref_did = Inr ref_z_body"
    unfolding ref_did_facts(1) by (simp add: key_z_body_def strip_prefix_def starts_with_def)
  then have "method_label ref_crates KeyMethod ref_did = Inr ''Ed25519''"
    by (simp add: key_method_label_def ref_did_facts(3))
  then show ?thesis by (simp add: alg_for_did_def ref_did_facts(2))
qed

lemma ref_authority: "authority_from_uri (rp_target_uri ref_parts) = Inr ''h''"
  by (simp add: ref_parts_def request_parts_new_def authority_from_uri_def starts_with_def default_port_def
      to_ascii_lowercase_def to_lower_char_def is_ascii_upper_def authority_delimiter_def rsplit_once_def
      split_host_port_def Let_def)

lemma ref_did_visible: "c \<in> set ref_did \<Longrightarrow> graphic c"
  unfolding ref_did_facts(1) ref_z_body_def
  using bs58_lawD(3) [OF ref_bs58_law] is_base58_graphic by (auto simp: graphic_def)

lemma ref_nonce: "b64_encode ref_crates [0] = ''00''"
  by (simp add: ref_crates_def) code_simp

lemma ref_params_valid: "params_valid ref_sfv ref_request_params"
proof -
  have chk: "is_ok (sf_string_check ref_sfv s) \<longleftrightarrow> (\<forall>c \<in> set s. c = CHR '' '' \<or> graphic c)" for s
    using ref_sfv_law by (simp add: sfv_law_def)
  have int: "is_ok (sf_integer_check ref_sfv i) \<longleftrightarrow> - 999999999999999 \<le> i \<and> i \<le> 999999999999999" for i
    using ref_sfv_law by (simp add: sfv_law_def)
  have did: "is_ok (sf_string_check ref_sfv ref_did)" using ref_did_visible by (simp add: chk)
  have lits: "\<forall>s \<in> set [COMPONENT_AUTHORITY, ALG_ED25519, ''00'', TAG_AQUA_INTERNAL]. is_ok (sf_string_check ref_sfv s)"
    by (simp add: chk graphic_def COMPONENT_AUTHORITY_def ALG_ED25519_def TAG_AQUA_INTERNAL_def)
  have cov: "covered_components ref_parts = [COMPONENT_AUTHORITY]"
    by (simp add: covered_components_def ref_parts_def request_parts_new_def)
  have keys: "\<forall>k \<in> set PARAM_ORDER. is_ok (sf_key_check ref_sfv k)"
    using ref_sfv_law by (simp add: sfv_law_def PARAM_ORDER_def)
  show ?thesis
    using did lits keys
    by (simp add: params_valid_def sf_valid_params_def params_fields_def ref_request_params_def
        request_params_def cov generate_nonce_def ref_nonce int PARAM_ORDER_def saturating_add_i64_def)
qed

lemma ref_covered: "sp_covered ref_request_params = [COMPONENT_AUTHORITY]"
  by (simp add: ref_request_params_def request_params_def covered_components_def ref_parts_def
      request_parts_new_def)

lemma ref_base: "\<exists>base. build_signature_base ref_sfv ref_parts ref_request_params = Inr base"
  by (rule build_authority_ok [OF ref_sfv_law ref_params_valid ref_covered ref_authority])
     (simp add: is_ascii_def)

lemma ref_window: "validity_seconds (duration_from_secs 60) = Inr 60"
  by (simp add: validity_seconds_def duration_from_secs_def duration_greater_def MAX_VALIDITY_def Let_def)

lemma ref_signed:
  "\<exists>h. sign_request_at ref_crates ref_sfv [0] ref_signer ref_parts AquaInternal (duration_from_secs 60) 100 = Inr h"
proof -
  obtain base where base: "build_signature_base ref_sfv ref_parts ref_request_params = Inr base"
    using ref_base by blast
  obtain t where t: "serialize_signature_params ref_sfv ref_request_params = Inr t"
    using serialize_ok [OF ref_sfv_law ref_params_valid] by blast
  have k: "is_ok (sf_key_check ref_sfv SIGNATURE_LABEL)"
    using sfv_label [OF ref_sfv_law] by (simp add: SIGNATURE_LABEL_def)
  have "signature_input_header ref_sfv SIGNATURE_LABEL ref_request_params = Inr (SIGNATURE_LABEL @ ''='' @ t)"
    by (rule serialize_text(6) [OF ref_sfv_law t k])
  moreover obtain x where "signature_header ref_sfv SIGNATURE_LABEL (replicate 64 7) = Inr x"
    using sfv_bytes [OF ref_sfv_law k, of "replicate 64 7"] k
    by (auto simp: signature_header_def sf_key_def is_ok_iff)
  ultimately show ?thesis
    using base
    by (simp add: sign_request_at_def ref_window profile_parameters_def ref_signer_def fn_signer_def ref_alg
        ref_request_params_def Let_def)
qed

definition ref_options :: verify_options where
  "ref_options = with_replay_guard (guard_with_capacity 8) options_aqua_internal"

lemma ref_options_fields:
  "vo_expected_tag ref_options = TAG_AQUA_INTERNAL" "vo_replay_guard ref_options = Some (guard_with_capacity 8)"
  "100 \<le> saturating_add_i64 120 (sint (dur_secs (vo_clock_skew ref_options)))"
  "100 \<le> saturating_add_i64 120 (sint (dur_secs (vo_clock_skew options_aqua_internal)))"
  by (simp_all add: ref_options_def with_replay_guard_def options_aqua_internal_def verify_options_new_def
      DEFAULT_CLOCK_SKEW_def duration_from_secs_def saturating_add_i64_def)

lemma ref_signer_fields:
  "signer_did ref_signer = ref_did" "signer_sign ref_signer m = Inr (replicate 64 7)"
  by (simp_all add: ref_signer_def fn_signer_def)

lemma ref_valid:
  assumes "sign_request_at ref_crates ref_sfv [0] ref_signer ref_parts AquaInternal (duration_from_secs 60) 100 = Inr h"
  shows "request_valid ref_crates ref_sfv ref_parts (sh_signature_input h) (sh_signature h) ref_options 120
           ref_request_params"
  using signed_request_valid [OF ref_sfv_law assms _ ref_options_fields(1) _ ref_options_fields(3) ref_window]
  by (simp add: ref_signer_fields ref_possession ref_alg ref_request_params_def)

theorem sign_then_verify_witness:
  "\<exists>h :: signed_headers. snd (verify_request_at ref_crates ref_sfv ref_parts (sh_signature_input h) (sh_signature h) ref_options 120) =
         Inr \<lparr>principal_did = ref_did\<rparr>"
proof -
  obtain h where h: "sign_request_at ref_crates ref_sfv [0] ref_signer ref_parts AquaInternal
      (duration_from_secs 60) 100 = Inr h" using ref_signed by blast
  have "snd (verify_request_at ref_crates ref_sfv ref_parts (sh_signature_input h) (sh_signature h) ref_options 120) =
      Inr \<lparr>principal_did = signer_did ref_signer\<rparr>"
    by (rule sign_then_verify [OF ref_sfv_law h _ ref_options_fields(1) _ ref_options_fields(3) ref_window])
       (auto simp: ref_signer_fields ref_possession ref_options_fields guard_with_capacity_def)
  then show ?thesis unfolding ref_signer_fields by (rule exI)
qed

lemma ref_accepted:
  assumes "sign_request_at ref_crates ref_sfv [0] ref_signer ref_parts AquaInternal (duration_from_secs 60) 100 = Inr h"
  shows "verify_request_at ref_crates ref_sfv ref_parts (sh_signature_input h) (sh_signature h) ref_options 120 =
    (Some \<lparr>ng_seen = [(''00'', 160)], ng_capacity = 8\<rparr>, Inr \<lparr>principal_did = ref_did\<rparr>)"
proof -
  have "verify_signature_at ref_crates ref_sfv ref_parts (sh_signature_input h) (sh_signature h) ref_options 120 =
      Inr (ref_request_params, \<lparr>principal_did = ref_did\<rparr>)"
    using ref_valid [OF assms] by (simp add: verify_signature_Inr ref_request_params_def request_params_def)
  moreover have "sp_nonce ref_request_params = ''00''" "sp_expires ref_request_params = 160"
    by (simp_all add: ref_request_params_def request_params_def generate_nonce_def ref_nonce saturating_add_i64_def)
  ultimately show ?thesis
    by (simp add: verify_request_at_def ref_options_fields check_and_record_at_def guard_with_capacity_def
        contains_key_def guard_make_room_def)
qed

theorem request_replay_refused_witness:
  "\<exists>(h :: signed_headers) e. verify_request_at ref_crates ref_sfv ref_parts (sh_signature_input h) (sh_signature h)
           (with_replay_guard (fold guard_step [Sweep 150] \<lparr>ng_seen = [(''00'', 160)], ng_capacity = 8\<rparr>)
             options_aqua_internal) 155 =
         (Some (fold guard_step [Sweep 150] \<lparr>ng_seen = [(''00'', 160)], ng_capacity = 8\<rparr>), Inl e)"
proof -
  obtain h where h: "sign_request_at ref_crates ref_sfv [0] ref_signer ref_parts AquaInternal
      (duration_from_secs 60) 100 = Inr h" using ref_signed by blast
  obtain label where label: "parse_signature_input ref_sfv (sh_signature_input h) = Inr (label, ref_request_params)"
    using ref_valid [OF h] by (auto simp: request_valid_def)
  have exp: "sp_expires ref_request_params = 160"
    by (simp add: ref_request_params_def request_params_def saturating_add_i64_def)
  show ?thesis
    by (rule exI [where x = h], rule request_replay_refused [OF _ ref_accepted [OF h, unfolded ref_options_def] label])
       (simp_all add: guard_with_capacity_def rivals_def exp)
qed

theorem refused_request_keeps_guard_witness:
  "case snd (verify_request_at ref_crates ref_sfv ref_parts '''' '''' ref_options 120) of
     Inl _ \<Rightarrow> fst (verify_request_at ref_crates ref_sfv ref_parts '''' '''' ref_options 120) =
              Some (guard_with_capacity 8)
   | Inr who \<Rightarrow> \<exists>g1 label p.
       fst (verify_request_at ref_crates ref_sfv ref_parts '''' '''' ref_options 120) = Some g1 \<and>
       parse_signature_input ref_sfv '''' = Inr (label, p) \<and>
       map_of (ng_seen (guard_with_capacity 8)) (sp_nonce p) = None \<and>
       map_of (ng_seen g1) (sp_nonce p) = Some (sp_expires p)"
  unfolding ref_options_def
  by (rule refused_request_keeps_guard) (simp_all add: guard_with_capacity_def)

lemma build_authority_cong:
  "sp_covered p = [COMPONENT_AUTHORITY] \<Longrightarrow>
   authority_from_uri (rp_target_uri parts) = authority_from_uri (rp_target_uri parts') \<Longrightarrow>
   build_signature_base V parts p = build_signature_base V parts' p"
  by (simp add: build_signature_base_def component_value_def)

definition ref_parts_query :: request_parts where
  "ref_parts_query = request_parts_new ''POST'' ''https://h?q''"

lemma ref_authority_query: "authority_from_uri (rp_target_uri ref_parts_query) = Inr ''h''"
  by (simp add: ref_parts_query_def request_parts_new_def authority_from_uri_def starts_with_def default_port_def
      to_ascii_lowercase_def to_lower_char_def is_ascii_upper_def authority_delimiter_def rsplit_once_def
      split_host_port_def Let_def)

theorem signature_base_binds_witness:
  "component_value COMPONENT_AUTHORITY ref_parts = component_value COMPONENT_AUTHORITY ref_parts_query"
proof -
  obtain base where base: "build_signature_base ref_sfv ref_parts ref_request_params = Inr base"
    using ref_base by blast
  have "build_signature_base ref_sfv ref_parts_query ref_request_params = Inr base"
    using build_authority_cong [OF ref_covered, of ref_parts ref_parts_query ref_sfv]
    by (simp add: ref_authority ref_authority_query base)
  then show ?thesis
    by (rule signature_base_binds [OF ref_sfv_law base, THEN conjunct2, rule_format]) (simp add: ref_covered)
qed

end
