(* ===== verification/Test_Signers.thy ===== *)
theory Test_Signers
  imports Signers Encodings
begin

text \<open>
  The signers of the test kit (aqua-auth-testkit/src/signers.rs): one per accepted spelling of a
  DID, each over a key held in memory. A generated key is an argument.
\<close>

section \<open>The crates\<close>

text \<open>The private-key half of k256 and ml-dsa beside that of ed25519-dalek and p256.\<close>

record ('k, 'x) test_keys = "'k key_store" +
  k256_public :: "'k \<Rightarrow> 'x"
  k256_sign_prehash_recoverable :: "'k \<Rightarrow> bytes \<Rightarrow> string + bytes \<times> 8 word"
  mldsa_public :: "'k \<Rightarrow> bytes"
  mldsa_sign :: "'k \<Rightarrow> bytes \<Rightarrow> bytes"

text \<open>
  A key's own signature verifies: for Ed25519 strictly, under a canonical key of prime order; for
  P-256 as 64 bytes under the compressed point; for secp256k1 by recovery of the public key, with
  a recovery id below four; for ML-DSA-87 with the empty context, at the sizes and in the hint
  encoding FIPS 204 fixes.
\<close>

definition ed_pair_law :: "('x, 'z) crates_scheme \<Rightarrow> ('k, 'y) key_store_scheme \<Rightarrow> bool" where
  "ed_pair_law E K \<longleftrightarrow>
     (\<forall>k m. length (ed_public K k) = 32 \<and> strict_ed_key E (ed_public K k) \<and> length (ed_sign K k m) = 64 \<and>
        (\<exists>vk s. ed_key_from_bytes E (ed_public K k) = Inr vk \<and> ed_sig_from_slice E (ed_sign K k m) = Inr s \<and>
           ed_verify_strict E vk m s))"

definition p256_pair_law :: "('x, 'z) crates_scheme \<Rightarrow> ('k, 'y) key_store_scheme \<Rightarrow> bool" where
  "p256_pair_law E K \<longleftrightarrow>
     (\<forall>k m. length (p256_public K k) = 33 \<and>
        (\<exists>pt vk s. p256_point_from_bytes E (p256_public K k) = Inr pt \<and> p256_key_from_point E pt = Inr vk \<and>
           p256_sig_from_slice E (p256_sign K k m) = Inr s \<and> p256_verify E vk m s))"

definition k256_pair_law :: "('x, 'z) crates_scheme \<Rightarrow> ('k, 'x, 'y) test_keys_scheme \<Rightarrow> bool" where
  "k256_pair_law E K \<longleftrightarrow>
     (\<forall>k z. \<exists>sig v rid s. k256_sign_prehash_recoverable K k z = Inr (sig, v) \<and> length sig = 64 \<and> v < 4 \<and>
        k256_recovery_id E v = Some rid \<and> k256_sig_from_slice E sig = Inr s \<and>
        k256_recover E z s rid = Inr (k256_public K k))"

definition mldsa_pair_law :: "('x, 'z) crates_scheme \<Rightarrow> ('k, 'x, 'y) test_keys_scheme \<Rightarrow> bool" where
  "mldsa_pair_law E K \<longleftrightarrow>
     (\<forall>k m. length (mldsa_public K k) = ML_DSA_87_PUBLIC_KEY_BYTES \<and>
        length (mldsa_sign K k m) = ML_DSA_87_SIGNATURE_BYTES \<and>
        hint_bit_unpack (drop HINT_OFFSET (mldsa_sign K k m)) \<noteq> None \<and>
        (\<exists>s. mldsa_sig_decode E (mldsa_sign K k m) = Some s \<and>
           mldsa_verify_ctx E (mldsa_vk_decode E (mldsa_public K k)) m [] s))"

text \<open>hex: decoding does not tell the two cases of a digit apart.\<close>

definition hex_case_law :: "('x, 'z) crates_scheme \<Rightarrow> bool" where
  "hex_case_law E \<longleftrightarrow> (\<forall>s b. hex_decode E (to_ascii_lowercase s) = Inr b \<longrightarrow> hex_decode E s = Inr b)"

section \<open>The signers\<close>

datatype spelling = SpellDidKey | SpellDidPkh

definition ED25519_MULTICODEC :: bytes where
  "ED25519_MULTICODEC = [0xED, 0x01]"

definition P256_MULTICODEC :: bytes where
  "P256_MULTICODEC = [0x80, 0x24]"

definition ed25519_local ::
  "('x, 'z) crates_scheme \<Rightarrow> ('k, 'y) key_store_scheme \<Rightarrow> 'k \<Rightarrow> spelling \<Rightarrow> signer" where
  "ed25519_local E K key spelling =
     (let raw = ed_public K key in
      \<lparr>signer_did = (case spelling of
          SpellDidKey \<Rightarrow> ''did:key:z'' @ bs58_encode E (ED25519_MULTICODEC @ raw)
        | SpellDidPkh \<Rightarrow> ''did:pkh:ed25519:0x'' @ hex_encode E raw),
       signer_sign = (\<lambda>message. Inr (ed_sign K key (as_bytes message))), signer_public_key = None\<rparr>)"

definition p256_local ::
  "('x, 'z) crates_scheme \<Rightarrow> ('k, 'y) key_store_scheme \<Rightarrow> 'k \<Rightarrow> spelling \<Rightarrow> signer" where
  "p256_local E K key spelling =
     (let compressed = p256_public K key in
      \<lparr>signer_did = (case spelling of
          SpellDidKey \<Rightarrow> ''did:key:z'' @ bs58_encode E (P256_MULTICODEC @ compressed)
        | SpellDidPkh \<Rightarrow> ''did:pkh:p256:0x'' @ hex_encode E compressed),
       signer_sign = (\<lambda>message. Inr (p256_sign K key (as_bytes message))), signer_public_key = None\<rparr>)"

definition eip155_local_sign ::
  "('x, 'z) crates_scheme \<Rightarrow> ('k, 'x, 'y) test_keys_scheme \<Rightarrow> 'k \<Rightarrow> string \<Rightarrow> sign_error + bytes" where
  "eip155_local_sign E K key message =
     (let prefix = CHR 0x19 # ''Ethereum Signed Message:'' @ [LF] @ show_nat (length message);
          prehash = keccak256 E (as_bytes prefix @ as_bytes message)
      in rbind (map_err SignError (k256_sign_prehash_recoverable K key prehash)) (\<lambda>(signature, recovery_id).
           Inr (signature @ [recovery_id + 27])))"

definition eip155_local :: "('x, 'z) crates_scheme \<Rightarrow> ('k, 'x, 'y) test_keys_scheme \<Rightarrow> 'k \<Rightarrow> signer" where
  "eip155_local E K key =
     \<lparr>signer_did = ''did:pkh:eip155:1:0x'' @ eip55_checksum E (address_from_verifying_key E (k256_public K key)),
      signer_sign = eip155_local_sign E K key, signer_public_key = None\<rparr>"

definition ml_dsa_87_local :: "('x, 'z) crates_scheme \<Rightarrow> ('k, 'x, 'y) test_keys_scheme \<Rightarrow> 'k \<Rightarrow> signer" where
  "ml_dsa_87_local E K key =
     (let public_key = mldsa_public K key in
      \<lparr>signer_did = aqua_did_from_pubkey E public_key,
       signer_sign = (\<lambda>message. Inr (mldsa_sign K key (as_bytes message))),
       signer_public_key = Some public_key\<rparr>)"

text \<open>The constructors of the module, one per spelling, over the generated key.\<close>

definition ed25519_did_key :: "('x, 'z) crates_scheme \<Rightarrow> ('k, 'y) key_store_scheme \<Rightarrow> 'k \<Rightarrow> signer" where
  "ed25519_did_key E K key = ed25519_local E K key SpellDidKey"

definition ed25519_did_pkh :: "('x, 'z) crates_scheme \<Rightarrow> ('k, 'y) key_store_scheme \<Rightarrow> 'k \<Rightarrow> signer" where
  "ed25519_did_pkh E K key = ed25519_local E K key SpellDidPkh"

definition p256_did_key :: "('x, 'z) crates_scheme \<Rightarrow> ('k, 'y) key_store_scheme \<Rightarrow> 'k \<Rightarrow> signer" where
  "p256_did_key E K key = p256_local E K key SpellDidKey"

definition p256_did_pkh :: "('x, 'z) crates_scheme \<Rightarrow> ('k, 'y) key_store_scheme \<Rightarrow> 'k \<Rightarrow> signer" where
  "p256_did_pkh E K key = p256_local E K key SpellDidPkh"

text \<open>The signers of the crate's own unit tests (http\_sig/test\_signers.rs).\<close>

definition ed25519_test_signer :: "('x, 'z) crates_scheme \<Rightarrow> ('k, 'y) key_store_scheme \<Rightarrow> 'k \<Rightarrow> signer" where
  "ed25519_test_signer E K key =
     \<lparr>signer_did = ''did:key:z'' @ bs58_encode E (ED25519_PREFIX @ ed_public K key),
      signer_sign = (\<lambda>message. Inr (ed_sign K key (as_bytes message))), signer_public_key = None\<rparr>"

definition p256_test_signer :: "('x, 'z) crates_scheme \<Rightarrow> ('k, 'y) key_store_scheme \<Rightarrow> 'k \<Rightarrow> signer" where
  "p256_test_signer E K key =
     \<lparr>signer_did = ''did:key:z'' @ bs58_encode E (P256_PREFIX @ p256_public K key),
      signer_sign = (\<lambda>message. Inr (p256_sign K key (as_bytes message))), signer_public_key = None\<rparr>"

definition eip155_test_signer :: "('x, 'z) crates_scheme \<Rightarrow> ('k, 'x, 'y) test_keys_scheme \<Rightarrow> 'k \<Rightarrow> signer" where
  "eip155_test_signer E K key =
     \<lparr>signer_did = ''did:pkh:eip155:1:0x'' @ eip55_checksum E (address_from_verifying_key E (k256_public K key)),
      signer_sign = (\<lambda>message.
        let prefix = CHR 0x19 # ''Ethereum Signed Message:'' @ [LF] @ show_nat (length message);
            prehash = keccak256 E (as_bytes prefix @ as_bytes message)
        in rbind (map_err SignError (k256_sign_prehash_recoverable K key prehash)) (\<lambda>(sig, rec_id).
             Inr (sig @ [rec_id + 27]))),
      signer_public_key = None\<rparr>"

section \<open>Lemmas\<close>

text \<open>Each is the test kit's signer of the same key.\<close>

lemma test_signers_are_local:
  "ed25519_test_signer E K key = ed25519_local E K key SpellDidKey"
  "p256_test_signer E K key = p256_local E K key SpellDidKey"
  "eip155_test_signer E K key = eip155_local E K key"
  by (simp_all add: ed25519_test_signer_def p256_test_signer_def eip155_test_signer_def ed25519_local_def p256_local_def
      eip155_local_def eip155_local_sign_def fun_eq_iff ED25519_MULTICODEC_def P256_MULTICODEC_def ED25519_PREFIX_def
      P256_PREFIX_def Let_def)

lemma ed_pair_signed:
  "ed_pair_law E K \<Longrightarrow> ed25519_signed E (ed_public K k) msg (ed_sign K k (as_bytes msg))"
  unfolding ed_pair_law_def ed25519_signed_def by blast

lemma p256_pair_signed:
  assumes "p256_pair_law E K" "\<not> is_ok (p256_sig_from_der E (p256_sign K k (as_bytes msg)))"
  shows "p256_signed E (p256_public K k) msg (p256_sign K k (as_bytes msg))"
  using assms unfolding p256_pair_law_def p256_signed_def
  by (fastforce simp: p256_parse_sig_def not_is_ok_iff)

lemma k256_pair_signed:
  assumes "k256_pair_law E K"
  shows "\<exists>sig. eip155_local_sign E K key msg = Inr sig \<and>
    recovers_address E (address_from_verifying_key E (k256_public K key)) msg sig"
proof -
  let ?z = "keccak256 E (as_bytes (eip191_prefix msg) @ as_bytes msg)"
  from assms obtain sig v rid s where r: "k256_sign_prehash_recoverable K key ?z = Inr (sig, v)" "length sig = 64"
    "v < 4" "k256_recovery_id E v = Some rid" "k256_sig_from_slice E sig = Inr s"
    "k256_recover E ?z s rid = Inr (k256_public K key)" unfolding k256_pair_law_def by blast
  have "unat v < 4" using r(3) by (simp add: word_less_nat_alt)
  then have "27 \<le> v + 27" by (simp add: word_le_nat_alt unat_word_ariths)
  with r have "recovers_address E (address_from_verifying_key E (k256_public K key)) msg (sig @ [v + 27])"
    unfolding recovers_address_def by (simp add: nth_append)
  with r(1) show ?thesis by (simp add: eip155_local_sign_def eip191_prefix_def)
qed

lemma mldsa_pair_verifies:
  assumes "mldsa_pair_law E K"
  shows "ml_dsa_verify E (mldsa_public K k) (mldsa_sign K k (as_bytes msg)) (as_bytes msg) = Inr True"
proof -
  from assms [unfolded mldsa_pair_law_def, rule_format, of k "as_bytes msg"]
  obtain s where s: "length (mldsa_public K k) = ML_DSA_87_PUBLIC_KEY_BYTES"
    "length (mldsa_sign K k (as_bytes msg)) = ML_DSA_87_SIGNATURE_BYTES"
    "hint_bit_unpack (drop HINT_OFFSET (mldsa_sign K k (as_bytes msg))) \<noteq> None"
    "mldsa_sig_decode E (mldsa_sign K k (as_bytes msg)) = Some s"
    "mldsa_verify_ctx E (mldsa_vk_decode E (mldsa_public K k)) (as_bytes msg) [] s"
    by (elim conjE exE)
  with hint_gate_iff [OF s(2)] show ?thesis by (simp add: ml_dsa_verify_def)
qed

lemma eip155_local_address:
  assumes "hex_law E" "hex_case_law E" "digest_law E"
  shows "address_from_did E (signer_did (eip155_local E K key)) =
    Inr (address_from_verifying_key E (k256_public K key))"
proof -
  let ?a = "address_from_verifying_key E (k256_public K key)"
  have len: "length ?a = 20" using assms(3) by (simp add: address_from_verifying_key_def digest_law_def)
  have "hex_decode E (to_ascii_lowercase (eip55_checksum E ?a)) = Inr ?a"
    using eip55_checksum_lower [OF assms(1)] hex_lawD(1) [OF assms(1)] by simp
  then have dec: "hex_decode E (eip55_checksum E ?a) = Inr ?a" using assms(2) unfolding hex_case_law_def by blast
  have colon: "CHR '':'' \<notin> set (eip55_checksum E ?a)"
  proof
    assume "CHR '':'' \<in> set (eip55_checksum E ?a)"
    then have "to_lower_char CHR '':'' \<in> set (hex_encode E ?a)"
      unfolding eip55_checksum_lower [OF assms(1), symmetric] to_ascii_lowercase_def by simp
    then have "is_hex_lower (to_lower_char CHR '':'')" by (rule hex_lawD(3) [OF assms(1)])
    then show False by (simp add: to_lower_char_def is_ascii_upper_def is_hex_lower_def is_ascii_digit_def)
  qed
  have split: "split_on CHR '':'' (''1'' @ CHR '':'' # ''0x'' @ eip55_checksum E ?a) = [''1'', ''0x'' @ eip55_checksum E ?a]"
    using colon by (subst split_on_append_free) auto
  have "length (eip55_checksum E ?a) = 40" using len hex_lawD(2) [OF assms(1)] by simp
  then have "\<exists>rest h. signer_did (eip155_local E K key) = ''did:pkh:eip155:'' @ rest \<and>
      last (split_on CHR '':'' rest) = ''0x'' @ h \<and> length h = 40 \<and> hex_decode E h = Inr ?a"
    by - (rule exI [of _ "''1'' @ CHR '':'' # ''0x'' @ eip55_checksum E ?a"], rule exI [of _ "eip55_checksum E ?a"],
        simp only: split dec, simp add: eip155_local_def)
  with len show ?thesis unfolding address_from_did_Inr by simp
qed

section \<open>Property\<close>

text \<open>The signers of the two crates, over any key.\<close>

inductive crate_signer :: "('x, 'z) crates_scheme \<Rightarrow> ('k, 'x, 'y) test_keys_scheme \<Rightarrow> signer \<Rightarrow> bool"
  for E K where
  "crate_signer E K (ed25519_local E K key spelling)"
| "crate_signer E K (p256_local E K key spelling)"
| "crate_signer E K (eip155_local E K key)"
| "crate_signer E K (ml_dsa_87_local E K key)"
| "ed25519_from_pem E K pem = Inr l \<Longrightarrow> crate_signer E K (local_signer K l)"
| "p256_from_pem E K pem = Inr l \<Longrightarrow> crate_signer E K (local_signer K l)"
| "crate_signer E K (ed25519_test_signer E K key)"
| "crate_signer E K (p256_test_signer E K key)"
| "crate_signer E K (eip155_test_signer E K key)"

lemma signer_methods [simp]:
  "signer_sign (ed25519_local E K key sp) msg = Inr (ed_sign K key (as_bytes msg))"
  "signer_public_key (ed25519_local E K key sp) = None"
  "signer_sign (p256_local E K key sp) msg = Inr (p256_sign K key (as_bytes msg))"
  "signer_public_key (p256_local E K key sp) = None"
  "signer_sign (eip155_local E K key) msg = eip155_local_sign E K key msg"
  "signer_public_key (eip155_local E K key) = None"
  "signer_sign (ml_dsa_87_local E K key) msg = Inr (mldsa_sign K key (as_bytes msg))"
  "signer_public_key (ml_dsa_87_local E K key) = Some (mldsa_public K key)"
  by (simp_all add: ed25519_local_def p256_local_def eip155_local_def ml_dsa_87_local_def Let_def)

text \<open>A key loaded from a file signs as the test kit's signer of the same key under \<open>did:key\<close>.\<close>

lemma local_signer_is_local:
  "ed25519_from_pem E K pem = Inr l \<Longrightarrow> \<exists>key. local_signer K l = ed25519_local E K key SpellDidKey"
  "p256_from_pem E K pem = Inr l \<Longrightarrow> \<exists>key. local_signer K l = p256_local E K key SpellDidKey"
  by (auto simp: ed25519_from_pem_def p256_from_pem_def local_signer_def local_sign_def fun_eq_iff
      ed25519_local_def p256_local_def ed25519_did_key_from_pubkey_def p256_did_key_from_pubkey_def encode_did_key_def
      ED25519_MULTICODEC_def P256_MULTICODEC_def ED25519_PREFIX_def P256_PREFIX_def Let_def)

lemma ed25519_local_possession:
  assumes "hex_law E" "bs58_law E" "ed_pair_law E K"
  shows "possession E (signer_did (ed25519_local E K key sp)) msg (ed_sign K key (as_bytes msg)) None"
proof -
  have "ED25519_MULTICODEC = ED25519_PREFIX" by (simp add: ED25519_MULTICODEC_def ED25519_PREFIX_def)
  moreover have "length (ed_public K key) = 32" "strict_ed_key E (ed_public K key)"
    using assms(3) by (simp_all add: ed_pair_law_def)
  ultimately show ?thesis
    using ed_pair_signed [OF assms(3)] hex_lawD(1,2) [OF assms(1)] bs58_lawD(1) [OF assms(2)]
    by (cases sp) (auto simp: ed25519_local_def pubkey_from_ed25519_did_Inr Let_def
        intro: possession.key_ed25519 possession.pkh_ed25519)
qed

lemma p256_local_possession:
  assumes "hex_law E" "bs58_law E" "p256_pair_law E K"
    and "\<not> is_ok (p256_sig_from_der E (p256_sign K key (as_bytes msg)))"
  shows "possession E (signer_did (p256_local E K key sp)) msg (p256_sign K key (as_bytes msg)) None"
proof -
  have "P256_MULTICODEC = P256_PREFIX" by (simp add: P256_MULTICODEC_def P256_PREFIX_def)
  moreover have "length (p256_public K key) = 33" using assms(3) by (simp add: p256_pair_law_def)
  ultimately show ?thesis
    using p256_pair_signed [OF assms(3,4)] hex_lawD(1,2) [OF assms(1)] bs58_lawD(1) [OF assms(2)]
    by (cases sp) (auto simp: p256_local_def pubkey_from_p256_did_Inr Let_def
        intro: possession.key_p256 possession.pkh_p256)
qed

text \<open>
  C10. Every signer logs in under the DID it announces: for Ed25519 and P-256 keys in both
  spellings, an Ethereum key and an ML-DSA-87 key of the test kit, and for a \<open>LocalKeySigner\<close> of
  either curve, and for the signers of the unit tests, every message is signed and the signature authenticates exactly that DID. A P-256
  signature of 64 bytes must not read as DER, which the verifier tries first.
\<close>

theorem every_spelling_logs_in:
  assumes "hex_law E" "hex_case_law E" "bs58_law E" "digest_law E" "did_aqua_feature E"
    and "ed_pair_law E K" "p256_pair_law E K" "k256_pair_law E K" "mldsa_pair_law E K"
    and der: "\<And>key. \<not> is_ok (p256_sig_from_der E (p256_sign K key (as_bytes msg)))"
    and "crate_signer E K s"
  shows "\<exists>sig. signer_sign s msg = Inr sig \<and>
    authenticate_with_public_key E (signer_did s) msg sig (signer_public_key s) =
      Inr \<lparr>principal_did = signer_did s\<rparr>"
proof -
  note ed = ed25519_local_possession [OF assms(1,3,6)]
  note p2 = p256_local_possession [OF assms(1,3,7) der]
  have aqua: "possession E (signer_did (ml_dsa_87_local E K key)) msg (mldsa_sign K key (as_bytes msg))
      (Some (mldsa_public K key))" for key
    using possession.aqua [OF assms(5) _ mldsa_pair_verifies [OF assms(9)]]
    by (simp add: ml_dsa_87_local_def aqua_did_binds_pubkey_def aqua_did_multihash [OF assms(3,4)] Let_def)
  have eip: "\<exists>sig. eip155_local_sign E K key msg = Inr sig \<and>
      possession E (signer_did (eip155_local E K key)) msg sig None" for key
    using k256_pair_signed [OF assms(8), of key msg]
      possession.eip155 [OF eip155_local_address [OF assms(1,2,4), of K key], of msg _ None] by auto
  from assms(11) show ?thesis
  proof cases
    case (5 pem l)
    with local_signer_is_local(1) [OF 5(2)] ed show ?thesis by (auto simp: authenticate_with_key_Inr)
  next
    case (6 pem l)
    with local_signer_is_local(2) [OF 6(2)] p2 show ?thesis by (auto simp: authenticate_with_key_Inr)
  qed (use ed p2 aqua eip in \<open>simp_all add: authenticate_with_key_Inr test_signers_are_local\<close>)
qed

section \<open>Signers at concrete values\<close>

definition ref_keys :: "(unit, bytes) test_keys" where
  "ref_keys = \<lparr>ed_from_pkcs8_pem = (\<lambda>_. Inr ()), ed_public = (\<lambda>_. replicate 32 7), ed_sign = (\<lambda>_ _. replicate 64 7),
     p256_from_pkcs8_pem = (\<lambda>_. Inr ()), p256_public = (\<lambda>_. replicate 33 2), p256_sign = (\<lambda>_ _. replicate 64 2),
     k256_public = (\<lambda>_. replicate 64 3), k256_sign_prehash_recoverable = (\<lambda>_ _. Inr (replicate 64 3, 1)),
     mldsa_public = (\<lambda>_. replicate 2592 0), mldsa_sign = (\<lambda>_ _. replicate 4627 0)\<rparr>"

lemma hex_value_lower: "hex_value (to_lower_char c) = hex_value c"
  by (auto simp: hex_value_def to_lower_char_def is_ascii_upper_def Let_def)

lemma ref_hex_case_law: "hex_case_law ref_crates"
proof -
  have "ref_hex_decode (to_ascii_lowercase s) = ref_hex_decode s" for s
    by (induction s rule: ref_hex_decode.induct)
       (simp_all add: to_ascii_lowercase_def hex_value_lower split: option.splits)
  then show ?thesis by (simp add: hex_case_law_def ref_crates_def)
qed

lemma zero_hint: "hint_bit_unpack (replicate 83 0) \<noteq> None"
  by code_simp

lemma ref_pair_laws: "ed_pair_law ref_crates ref_keys" "p256_pair_law ref_crates ref_keys"
  "k256_pair_law ref_crates ref_keys" "mldsa_pair_law ref_crates ref_keys"
proof -
  have "strict_ed_key ref_crates (replicate 32 7)" by (simp add: strict_ed_key_def ref_crates_def)
  then show "ed_pair_law ref_crates ref_keys"
    by (simp add: ed_pair_law_def ref_keys_def) (simp add: ref_crates_def)
  show "p256_pair_law ref_crates ref_keys" "k256_pair_law ref_crates ref_keys"
    by (simp_all add: p256_pair_law_def k256_pair_law_def ref_keys_def ref_crates_def)
  have "drop HINT_OFFSET (replicate 4627 0) = replicate 83 (0 :: 8 word)" 
    by (simp add: HINT_OFFSET_def drop_replicate ML_DSA_87_SIGNATURE_BYTES_def OMEGA_def K_POLYS_def)
  with zero_hint show "mldsa_pair_law ref_crates ref_keys"
    by (simp add: mldsa_pair_law_def ref_keys_def ref_crates_def ML_DSA_87_PUBLIC_KEY_BYTES_def
        ML_DSA_87_SIGNATURE_BYTES_def)
qed

theorem every_spelling_logs_in_witness:
  "\<exists>sig. signer_sign (eip155_local ref_crates ref_keys ()) ''m'' = Inr sig \<and>
     authenticate_with_public_key ref_crates (signer_did (eip155_local ref_crates ref_keys ())) ''m'' sig None =
       Inr \<lparr>principal_did = signer_did (eip155_local ref_crates ref_keys ())\<rparr>"
proof -
  have "did_aqua_feature ref_crates" "\<not> is_ok (p256_sig_from_der ref_crates (p256_sign ref_keys key (as_bytes ''m'')))" for key
    by (simp_all add: ref_crates_def)
  from every_spelling_logs_in [OF ref_hex_law ref_hex_case_law ref_bs58_law ref_digest_law this(1) ref_pair_laws this(2)
      crate_signer.intros(3)]
  show ?thesis by simp
qed

end
