(* ===== verification/Urls.thy ===== *)
theory Urls
  imports Prelude
begin

text \<open>
  The url crate: a parsed URL is a record of the accessors the sources call, and the parser is an
  argument of the definitions that use it. Its law is RFC 3986: a scheme starts with a letter,
  which the parser has put in lower case.
\<close>

record parsed_url =
  pu_scheme :: string
  pu_username :: string
  pu_password :: "string option"
  pu_host_str :: "string option"
  pu_port_or_known_default :: "nat option"
  pu_path :: string
  pu_query :: "string option"
  pu_fragment :: "string option"
  pu_origin :: string

type_synonym url_parser = "string \<Rightarrow> string + parsed_url"

definition url_law :: "url_parser \<Rightarrow> bool" where
  "url_law U \<longleftrightarrow> (\<forall>s u. U s = Inr u \<longrightarrow> pu_scheme u \<noteq> [] \<and> is_ascii_lower (hd (pu_scheme u)))"

text \<open>A parser for the witnesses: scheme, host and port of \<open>scheme://host[:port][/path]\<close>.\<close>

definition ref_known_port :: "string \<Rightarrow> nat option" where
  "ref_known_port scheme = (if scheme = ''https'' then Some 443 else if scheme = ''http'' then Some 80 else None)"

definition ref_url :: url_parser where
  "ref_url s =
     (case split_once_str ''://'' s of
        None \<Rightarrow> Inl ''relative URL without a base''
      | Some (scheme, rest) \<Rightarrow>
          if scheme \<noteq> [] \<and> is_ascii_lower (hd scheme) then
            (let authority = takeWhile (\<lambda>c. c \<noteq> CHR ''/'') rest in
             Inr \<lparr>pu_scheme = scheme, pu_username = '''', pu_password = None,
                  pu_host_str = (if authority = '''' then None else Some authority),
                  pu_port_or_known_default = ref_known_port scheme,
                  pu_path = dropWhile (\<lambda>c. c \<noteq> CHR ''/'') rest, pu_query = None, pu_fragment = None,
                  pu_origin = scheme @ ''://'' @ authority\<rparr>)
          else Inl ''relative URL without a base'')"

lemma ref_url_law: "url_law ref_url"
  by (auto simp: url_law_def ref_url_def Let_def split: option.splits if_splits)

end
