(* ===== verification/Client.thy ===== *)
theory Client
  imports Urls Signers Message
begin

text \<open>
  The login client (client.rs): the checks that bind a challenge to the endpoint the client
  dialed, the signed session request, the two-request login, and the session that logs in again
  once on a 401. The HTTP client is a record of its three exchanges over a state of its own.
\<close>

section \<open>Errors\<close>

datatype auth_client_error =
    ClientHttp string
  | ClientSign string
  | ClientAuth auth_error
  | MessageIdentifierMismatch string string
  | UriOriginMismatch string string

fun auth_client_error_display :: "auth_client_error \<Rightarrow> string" where
  "auth_client_error_display (ClientHttp e) = ''HTTP error: '' @ e"
| "auth_client_error_display (ClientSign e) = ''signing error: '' @ e"
| "auth_client_error_display (ClientAuth e) = ''auth error: '' @ auth_error_display e"
| "auth_client_error_display (MessageIdentifierMismatch expected actual) =
     ''server message identifier mismatch: expected '' @ expected @ '', got '' @ actual"
| "auth_client_error_display (UriOriginMismatch message_origin client_origin) =
     ''challenge URI origin mismatch: message says '' @ message_origin @ '', client dialed '' @ client_origin"

section \<open>The origin binding\<close>

definition origin_of :: "url_parser \<Rightarrow> string \<Rightarrow> string option" where
  "origin_of U raw =
     (case U raw of
        Inl _ \<Rightarrow> None
      | Inr url \<Rightarrow>
          (case pu_host_str url of
             None \<Rightarrow> None
           | Some h \<Rightarrow>
               (let scheme = to_ascii_lowercase (pu_scheme url); host = to_ascii_lowercase h in
                case pu_port_or_known_default url of
                  Some port \<Rightarrow> Some (scheme @ ''://'' @ host @ '':'' @ show_nat port)
                | None \<Rightarrow> Some (scheme @ ''://'' @ host))))"

text \<open>The first line that starts with \<open>URI:\<close> after a trailing carriage return is dropped.\<close>

fun find_uri_line :: "string list \<Rightarrow> string option" where
  "find_uri_line [] = None"
| "find_uri_line (l # ls) =
     (case strip_prefix ''URI:'' (trim_end_char CR l) of Some v \<Rightarrow> Some v | None \<Rightarrow> find_uri_line ls)"

definition uri_line :: "string \<Rightarrow> string option" where
  "uri_line message =
     (case find_uri_line (split_on LF message) of
        None \<Rightarrow> None
      | Some v \<Rightarrow> (let uri = trim v in if uri = '''' then None else Some uri))"

definition verify_uri_binding :: "url_parser \<Rightarrow> string \<Rightarrow> string \<Rightarrow> auth_client_error + unit" where
  "verify_uri_binding U message base_url =
     (let client_origin = (case origin_of U base_url of
            Some origin \<Rightarrow> origin | None \<Rightarrow> ''<unparsable base_url: '' @ base_url @ ''>'');
          message_origin = (case uri_line message of
            None \<Rightarrow> ''<message missing URI line>''
          | Some uri \<Rightarrow> (case origin_of U uri of
                           Some origin \<Rightarrow> origin
                         | None \<Rightarrow> ''<unparsable URI line: '' @ uri @ ''>''))
      in if message_origin = client_origin then Inr ()
         else Inl (UriOriginMismatch message_origin client_origin))"

section \<open>The signed request\<close>

definition urlencoded :: "string \<Rightarrow> string" where
  "urlencoded s = concat (map (\<lambda>c. if c = CHR '':'' then ''%3A'' else [c]) s)"

definition check_identifier ::
  "('x, 'z) crates_scheme \<Rightarrow> string \<Rightarrow> string \<Rightarrow> auth_client_error + unit" where
  "check_identifier E did message =
     rbind (ok_or (find_did_method E did) (ClientAuth (Crypto (UnsupportedMethod did)))) (\<lambda>method.
     rbind (map_err (\<lambda>e. ClientAuth (Crypto e)) (address_for_message E method did)) (\<lambda>expected.
     rbind (ok_or (identifier_from_message message)
              (MessageIdentifierMismatch expected ''<message missing identifier line>'')) (\<lambda>actual.
     if actual \<noteq> expected then Inl (MessageIdentifierMismatch expected actual) else Inr ())))"

definition signed_session_request ::
  "('x, 'z) crates_scheme \<Rightarrow> url_parser \<Rightarrow> challenge_envelope \<Rightarrow> string \<Rightarrow> signer \<Rightarrow>
   auth_client_error + session_request" where
  "signed_session_request E U envelope base_url signer =
     rbind (check_identifier E (signer_did signer) (env_message envelope)) (\<lambda>_.
     rbind (verify_uri_binding U (env_message envelope) base_url) (\<lambda>_.
     rbind (map_err (\<lambda>e. ClientSign (sign_error_display e)) (signer_sign signer (env_message envelope)))
       (\<lambda>sig_bytes.
          Inr \<lparr>sr_did = signer_did signer, sr_nonce = env_nonce envelope,
               sr_signature = ''0x'' @ hex_encode E sig_bytes,
               sr_public_key = map_option (\<lambda>pk. ''0x'' @ hex_encode E pk) (signer_public_key signer)\<rparr>)))"

section \<open>The login and the session that renews itself\<close>

text \<open>
  \<open>reqwest\<close>: the challenge request, the session request and a request of the caller's, each over
  the state \<open>'h\<close> of the world, with an error text when the exchange or its status fails. A
  caller's response is its status and a body.
\<close>

record 'h http_client =
  http_get_challenge :: "string \<Rightarrow> 'h \<Rightarrow> (string + challenge_envelope) \<times> 'h"
  http_post_session :: "string \<Rightarrow> session_request \<Rightarrow> 'h \<Rightarrow> (string + session_response) \<times> 'h"

definition client_authenticate ::
  "('x, 'z) crates_scheme \<Rightarrow> url_parser \<Rightarrow> 'h http_client \<Rightarrow> string \<Rightarrow> signer \<Rightarrow> 'h \<Rightarrow>
   (auth_client_error + session) \<times> 'h" where
  "client_authenticate E U http base_url signer h0 =
     (case http_get_challenge http (base_url @ ''/auth/challenge?did='' @ urlencoded (signer_did signer)) h0 of
        (Inl e, h1) \<Rightarrow> (Inl (ClientHttp e), h1)
      | (Inr envelope, h1) \<Rightarrow>
          (case signed_session_request E U envelope base_url signer of
             Inl e \<Rightarrow> (Inl e, h1)
           | Inr req \<Rightarrow>
               (case http_post_session http (base_url @ ''/auth/session'') req h1 of
                  (Inl e, h2) \<Rightarrow> (Inl (ClientHttp e), h2)
                | (Inr resp, h2) \<Rightarrow>
                    (Inr \<lparr>se_did = resp_did resp, se_token = resp_token resp,
                          se_valid_until = resp_valid_until resp, se_created_at = resp_created_at resp\<rparr>, h2))))"

record auth_session =
  as_base_url :: string
  as_session :: session

definition auth_session_login ::
  "('x, 'z) crates_scheme \<Rightarrow> url_parser \<Rightarrow> 'h http_client \<Rightarrow> string \<Rightarrow> signer \<Rightarrow> 'h \<Rightarrow>
   (auth_client_error + auth_session) \<times> 'h" where
  "auth_session_login E U http base_url signer h =
     (case client_authenticate E U http base_url signer h of
        (r, h') \<Rightarrow> (rmap (\<lambda>s. \<lparr>as_base_url = base_url, as_session = s\<rparr>) r, h'))"

definition as_token :: "auth_session \<Rightarrow> string" where
  "as_token a = se_token (as_session a)"

definition as_did :: "auth_session \<Rightarrow> string" where
  "as_did a = se_did (as_session a)"

text \<open>\<open>send\<close>: the request \<open>build\<close> makes from the base URL and the token, sent; on status 401 one
  login and one more attempt.\<close>

definition auth_session_send ::
  "('x, 'z) crates_scheme \<Rightarrow> url_parser \<Rightarrow> 'h http_client \<Rightarrow> signer \<Rightarrow>
   (string \<Rightarrow> string \<Rightarrow> 'h \<Rightarrow> (string + nat \<times> 'r) \<times> 'h) \<Rightarrow> auth_session \<Rightarrow> 'h \<Rightarrow>
   (auth_client_error + nat \<times> 'r) \<times> auth_session \<times> 'h" where
  "auth_session_send E U http signer build a h0 =
     (case build (as_base_url a) (as_token a) h0 of
        (Inl e, h1) \<Rightarrow> (Inl (ClientHttp e), a, h1)
      | (Inr (status, body), h1) \<Rightarrow>
          if status \<noteq> 401 then (Inr (status, body), a, h1)
          else
            (case client_authenticate E U http (as_base_url a) signer h1 of
               (Inl e, h2) \<Rightarrow> (Inl e, a, h2)
             | (Inr s, h2) \<Rightarrow>
                 (let a' = a\<lparr>as_session := s\<rparr> in
                  case build (as_base_url a') (as_token a') h2 of
                    (r, h3) \<Rightarrow> (map_err ClientHttp r, a', h3))))"

section \<open>Lemmas\<close>

text \<open>An identifier line starts with a zero or a \<open>z\<close>, so it is never taken for the URI line.\<close>

lemma pkh_identifier_head:
  assumes "suite_extract E cs did = Inr k" "pkh_address_for_message E did = Inr a"
  shows "\<exists>r. a = ''0x'' @ r"
proof -
  obtain rem where ns: "split_namespace did = Inr (suite_namespace cs, rem)"
    using assms(1) by (rule suite_extract_namespace)
  have "did = ''did:pkh:'' @ suite_namespace cs @ '':'' @ rem"
    using ns by (simp add: split_namespace_Inr)
  with ns assms show ?thesis
    by (cases cs)
       (auto simp: pkh_address_for_message_def find_cipher_suite_eq checksummed_address_def
         pubkey_parse_did_parts_def pubkey_from_ed25519_did_Inr pubkey_from_p256_did_Inr)
qed

lemma identifier_head:
  assumes "validate_did_well_formed E did = Inr u" "find_did_method E did = Some m"
    and "address_for_message E m did = Inr a"
  shows "\<exists>c r. a = c # r \<and> c \<in> {CHR ''0'', CHR ''z''}"
proof (cases m)
  case PkhMethod
  with assms obtain cs k where "suite_extract E cs did = Inr k"
    by (auto simp: validate_did_well_formed_def validate_pkh_Inr)
  with PkhMethod assms(3) show ?thesis using pkh_identifier_head by fastforce
next
  case KeyMethod
  then obtain z where z: "did = ''did:key:'' @ ''z'' @ z"
    using assms by (auto simp: validate_did_well_formed_def strip_prefix_Some)
  then have "key_address_for_message did = Inr (''z'' @ z)"
    by (simp only: key_address_for_message_def strip_prefix_append ok_or_Some)
  with assms(3) KeyMethod show ?thesis by auto
next
  case PeerMethod
  with assms(3) show ?thesis by (auto simp: peer_address_for_message_def)
next
  case AquaMethod
  then obtain b where b: "did = ''did:aqua:'' @ ''z'' @ b" "aqua_address_for_message E did = Inr a"
    using assms(3) by (auto simp: aqua_address_for_message_def multihash_from_aqua_did_Inr)
  then have "a = ''z'' @ b" using strip_prefix_append [of "''did:aqua:''" "''z'' @ b"]
    by (auto simp: aqua_address_for_message_def)
  then show ?thesis by simp
qed

text \<open>The origin the client reads from a message a server built.\<close>

lemma find_uri_skip:
  "\<not> starts_with ''URI:'' l \<Longrightarrow> (l = [] \<or> last l \<noteq> CR) \<Longrightarrow> find_uri_line (l # ls) = find_uri_line ls"
  by (simp add: strip_prefix_def)

lemma strip_prefix_head: "l = [] \<or> hd l \<noteq> CHR ''U'' \<Longrightarrow> \<not> starts_with ''URI:'' l"
  by (cases l) (auto simp: starts_with_def)

lemma starts_before:
  assumes "\<not> starts_with p d" "c \<notin> set p"
  shows "\<not> starts_with p (d @ c # r)"
proof
  assume "starts_with p (d @ c # r)"
  then obtain s where "p @ s = d @ c # r" by (auto simp: starts_with_iff)
  then consider us where "d = p @ us" | us where "p = d @ us" "us @ s = c # r" "us \<noteq> []"
    by (force simp: append_eq_append_conv2)
  then show False
  proof cases
    case 1
    with assms(1) show False by simp
  next
    case 2
    then have "hd us = c" by (cases us) auto
    with 2 assms(2) show False by (cases us) auto
  qed
qed

lemma uri_line_of_message:
  assumes laws: "hex_law E" "hex_decode_law E" "bs58_law E"
    and v: "validate_did_well_formed E (mp_did p) = Inr ()" and msg: "build_message E C p = Inr msg"
    and d: "LF \<notin> set (mp_domain p)" "\<not> starts_with ''URI:'' (mp_domain p)"
    and u: "LF \<notin> set (mp_uri p)" "mp_uri p \<noteq> []" "graphic (hd (mp_uri p))" "graphic (last (mp_uri p))"
  shows "uri_line msg = Some (mp_uri p)"
proof -
  obtain m ident label where m: "find_did_method E (mp_did p) = Some m"
    and i: "address_for_message E m (mp_did p) = Inr ident" and l: "method_label E m (mp_did p) = Inr label"
    and t: "msg = message_text (mp_domain p) label ident (mp_uri p) (mp_nonce p)
              (dt_format C (mp_issued_at p)) (dt_format C (mp_expiration_time p)) @ chain_suffix m (mp_did p)"
    using msg by (auto simp: build_message_Inr)
  let ?first = "mp_domain p @ '' wants you to sign in with your '' @ label @ '' account:''"
  define rest where "rest = ''Version: 1'' @ [LF] @ (''Nonce: '' @ mp_nonce p) @ [LF] @
      (''Issued At: '' @ dt_format C (mp_issued_at p)) @ [LF] @
      (''Expiration Time: '' @ dt_format C (mp_expiration_time p)) @ chain_suffix m (mp_did p)"
  have g: "ident \<noteq> []" "\<forall>c \<in> set ident. graphic c"
    using identifier_graphic [OF laws v m i] by auto
  have lf: "LF \<notin> set ident" by (rule graphic_no_LF [OF g(2)])
  have "msg = ?first @ [LF] @ ident @ LF # [] @ LF # ''Sign in to Aqua Node'' @ LF # [] @ LF #
      (''URI: '' @ mp_uri p) @ LF # rest"
    unfolding t message_text_def rest_def by simp
  moreover have "split_on LF (?first @ [LF] @ r) = ?first # split_on LF r" for r
    using split_once_message [OF d(1) l, of r] by simp
  moreover have "split_on LF ((''URI: '' @ mp_uri p) @ LF # rest) = (''URI: '' @ mp_uri p) # split_on LF rest"
    by (rule split_on_append_free) (use u in simp)
  moreover have "split_on LF (''Sign in to Aqua Node'' @ LF # r) = ''Sign in to Aqua Node'' # split_on LF r" for r
    by (rule split_on_append_free) simp
  ultimately have lines: "split_on LF msg = ?first # ident # [] # ''Sign in to Aqua Node'' # [] #
      (''URI: '' @ mp_uri p) # split_on LF rest"
    using split_on_append_free [OF lf] split_on_append_free [of LF "[]"] by (simp del: append.simps)
  have 1: "\<not> starts_with ''URI:'' ?first"
    using starts_before [OF d(2), of "CHR '' ''" "''wants you to sign in with your '' @ label @ '' account:''"] by simp
  have 2: "\<not> starts_with ''URI:'' ident"
    using identifier_head [OF v m i] by (intro strip_prefix_head) auto
  have "last ident \<noteq> CR" using g by (metis graphic_LF(2) last_in_set)
  then have skip: "find_uri_line (?first # ls) = find_uri_line ls" "find_uri_line (ident # ls) = find_uri_line ls"
    "find_uri_line ([] # ls) = find_uri_line ls"
    "find_uri_line (''Sign in to Aqua Node'' # ls) = find_uri_line ls" for ls
    using find_uri_skip [OF 1] find_uri_skip [OF 2] find_uri_skip [OF strip_prefix_head, of "[]"]
      find_uri_skip [OF strip_prefix_head, of "''Sign in to Aqua Node''"]
    by (simp_all del: find_uri_line.simps)
  have "last (''URI: '' @ mp_uri p) \<noteq> CR" using u(2,4) by auto
  moreover have "strip_prefix ''URI:'' (''URI: '' @ mp_uri p) = Some ('' '' @ mp_uri p)"
    using strip_prefix_append [of "''URI:''" "'' '' @ mp_uri p"] by simp
  ultimately have "find_uri_line (split_on LF msg) = Some ('' '' @ mp_uri p)"
    unfolding lines skip by simp
  moreover have "trim ('' '' @ mp_uri p) = mp_uri p" using u trim_id by (simp add: trim_space)
  ultimately show ?thesis using u(2) by (simp add: uri_line_def)
qed

lemma origin_head:
  assumes "url_law U" "origin_of U s = Some r"
  shows "\<exists>c x. r = c # x \<and> c \<noteq> CHR ''<''"
proof -
  obtain u where u: "U s = Inr u" and r: "\<exists>x. r = to_ascii_lowercase (pu_scheme u) @ ''://'' @ x"
    using assms(2) by (auto simp: origin_of_def Let_def split: sum.splits option.splits)
  from u assms(1) have "pu_scheme u \<noteq> [] \<and> is_ascii_lower (hd (pu_scheme u))"
    unfolding url_law_def by blast
  then obtain c x where c: "pu_scheme u = c # x" "is_ascii_lower c" by (cases "pu_scheme u") simp_all
  moreover have "to_lower_char c = c" using c(2)
    by (simp add: to_lower_char_def is_ascii_upper_def is_ascii_lower_def)
  moreover have "c \<noteq> CHR ''<''" using c(2) by (auto simp: is_ascii_lower_def)
  ultimately show ?thesis using r by (auto simp: to_ascii_lowercase_def)
qed

lemma uri_binding_Inr:
  assumes "url_law U"
  shows "verify_uri_binding U message base_url = Inr () \<longleftrightarrow>
    (\<exists>uri origin. uri_line message = Some uri \<and> origin_of U uri = Some origin \<and>
                  origin_of U base_url = Some origin)"
proof -
  have head: "origin_of U s = Some r \<Longrightarrow> r \<noteq> CHR ''<'' # x" for s r x
    using origin_head [OF assms] by fastforce
  show ?thesis
    by (cases "origin_of U base_url"; cases "uri_line message")
       (auto simp: verify_uri_binding_def Let_def dest: head split: option.splits)
qed

lemma check_identifier_Inr:
  "check_identifier E did message = Inr u \<longleftrightarrow>
     (\<exists>m ident. find_did_method E did = Some m \<and> address_for_message E m did = Inr ident \<and>
        identifier_from_message message = Some ident)"
  by (auto simp: check_identifier_def split: if_splits)

lemma signed_request_Inr:
  assumes "url_law U"
  shows "signed_session_request E U env base s = Inr req \<longleftrightarrow>
    (\<exists>m ident uri origin sig.
       find_did_method E (signer_did s) = Some m \<and> address_for_message E m (signer_did s) = Inr ident \<and>
       identifier_from_message (env_message env) = Some ident \<and>
       uri_line (env_message env) = Some uri \<and> origin_of U uri = Some origin \<and>
       origin_of U base = Some origin \<and> signer_sign s (env_message env) = Inr sig \<and>
       req = \<lparr>sr_did = signer_did s, sr_nonce = env_nonce env, sr_signature = ''0x'' @ hex_encode E sig,
              sr_public_key = map_option (\<lambda>pk. ''0x'' @ hex_encode E pk) (signer_public_key s)\<rparr>)"
  unfolding signed_session_request_def
  by (auto simp: check_identifier_Inr uri_binding_Inr [OF assms])

section \<open>Properties\<close>

text \<open>
  C11. The client signs a challenge only for the endpoint it dialed: a session request exists
  exactly when the message carries the identifier of the signer's DID and a URI line whose
  origin, scheme, host and port, is the origin of the base URL, and the signer signs that very
  message. A missing or empty URI line, a URI or a base URL that does not parse, and a URL
  without a host all refuse.
\<close>

theorem client_signs_iff:
  assumes "url_law U"
  shows "(\<exists>req. signed_session_request E U env base s = Inr req) \<longleftrightarrow>
    (\<exists>m ident uri origin sig.
       find_did_method E (signer_did s) = Some m \<and> address_for_message E m (signer_did s) = Inr ident \<and>
       identifier_from_message (env_message env) = Some ident \<and>
       uri_line (env_message env) = Some uri \<and> origin_of U uri = Some origin \<and>
       origin_of U base = Some origin \<and> signer_sign s (env_message env) = Inr sig)"
  unfolding signed_request_Inr [OF assms] by blast

definition ref_login_params :: "int message_params" where
  "ref_login_params = \<lparr>mp_did = ref_did, mp_domain = ''d'', mp_uri = ''https://h'', mp_nonce = ''n'',
     mp_issued_at = 0, mp_expiration_time = 9\<rparr>"

lemma ref_key_method:
  "key_address_for_message ref_did = Inr (''z'' @ ref_z_body)"
  "key_method_label ref_crates ref_did = Inr ''Ed25519''"
proof -
  show "key_address_for_message ref_did = Inr (''z'' @ ref_z_body)"
    unfolding ref_did_facts(1) by (simp add: key_address_for_message_def strip_prefix_Some)
  have "key_z_body ref_did = Inr ref_z_body"
    unfolding ref_did_facts(1) by (simp add: key_z_body_def strip_prefix_def starts_with_def)
  then show "key_method_label ref_crates ref_did = Inr ''Ed25519''"
    by (simp add: key_method_label_def ref_did_facts(3))
qed

lemma ref_login_message: "\<exists>msg. build_message ref_crates ref_chrono ref_login_params = Inr msg"
  by (simp add: build_message_def ref_login_params_def ref_did_facts(2) ref_key_method Let_def)

lemma ref_origin: "origin_of ref_url ''https://h'' = Some ''https://h:443''"
proof -
  have "show_nat 443 = ''443''" by code_simp
  then show ?thesis
    by (simp add: origin_of_def ref_url_def starts_with_def is_ascii_lower_def ref_known_port_def
        to_ascii_lowercase_def to_lower_char_def is_ascii_upper_def Let_def)
qed

lemma ref_message_checks:
  assumes "build_message ref_crates ref_chrono ref_login_params = Inr msg"
  shows "uri_line msg = Some ''https://h'' \<and> identifier_from_message msg = Some (''z'' @ ref_z_body)"
proof -
  have "uri_line msg = Some (mp_uri ref_login_params)"
    by (rule uri_line_of_message [OF ref_hex_law ref_hex_decode_law ref_bs58_law _ assms])
       (simp_all add: ref_login_params_def ref_did_facts(4) starts_with_def graphic_def)
  moreover have "identifier_from_message msg = Some (''z'' @ ref_z_body)"
    using message_identifier [OF ref_hex_law ref_hex_decode_law ref_bs58_law _ _ assms]
    by (simp add: ref_login_params_def ref_did_facts(2,4) ref_key_method)
  ultimately show ?thesis by (simp add: ref_login_params_def)
qed

theorem client_signs_iff_witness:
  "\<exists>msg req. build_message ref_crates ref_chrono ref_login_params = Inr msg \<and>
     signed_session_request ref_crates ref_url \<lparr>env_nonce = ''n'', env_message = msg, env_expires_at = 9\<rparr>
       ''https://h'' (fn_signer ref_did (\<lambda>_. Inr [])) = Inr req"
proof -
  obtain msg where msg: "build_message ref_crates ref_chrono ref_login_params = Inr msg"
    using ref_login_message by blast
  have "\<exists>req. signed_session_request ref_crates ref_url \<lparr>env_nonce = ''n'', env_message = msg, env_expires_at = 9\<rparr>
      ''https://h'' (fn_signer ref_did (\<lambda>_. Inr [])) = Inr req"
    unfolding client_signs_iff [OF ref_url_law] using ref_message_checks [OF msg] ref_origin
    by (simp add: fn_signer_def ref_did_facts(2) ref_key_method)
  with msg show ?thesis by blast
qed

end
