(* ===== verification/Directory.thy ===== *)
theory Directory
  imports Encodings
begin

text \<open>
  The key directory (aqua-auth-directory): advertised Ed25519 keys with their validity windows,
  the registry, RFC 7638 thumbprints, and the two well-known documents. Serialization to text is
  serde\_json's, an argument; what is serialized is a JSON value with its members in order.
\<close>

section \<open>Errors and keys\<close>

datatype directory_error =
    DirInvalidWindow u64 u64
  | DirUnsupportedDid string
  | DirSerialization string

fun directory_error_display :: "directory_error \<Rightarrow> string" where
  "directory_error_display (DirInvalidWindow nbf exp) =
     ''invalid validity window: exp ('' @ show_nat (unat exp) @ '') must be greater than nbf ('' @
     show_nat (unat nbf) @ '')''"
| "directory_error_display (DirUnsupportedDid s) =
     ''unsupported DID for advertisement, expected an Ed25519 did:key: '' @ s"
| "directory_error_display (DirSerialization s) = ''failed to serialize directory document: '' @ s"

definition CRV_ED25519 :: string where
  "CRV_ED25519 = ''Ed25519''"

record advertised_key =
  ak_did :: string
  ak_nbf :: u64
  ak_exp :: u64

section \<open>Thumbprints\<close>

definition canonical_okp_jwk :: "string \<Rightarrow> string \<Rightarrow> string" where
  "canonical_okp_jwk crv x_b64url =
     ''{'' @ quoted ''crv'' @ '':'' @ quoted crv @ '','' @ quoted ''kty'' @ '':'' @ quoted ''OKP'' @ '','' @
     quoted ''x'' @ '':'' @ quoted x_b64url @ ''}''"

definition okp_thumbprint :: "('x, 'z) crates_scheme \<Rightarrow> string \<Rightarrow> string \<Rightarrow> string" where
  "okp_thumbprint E crv x_b64url = b64_encode E (sha256 E (as_bytes (canonical_okp_jwk crv x_b64url)))"

definition ak_x_b64url :: "('x, 'z) crates_scheme \<Rightarrow> advertised_key \<Rightarrow> directory_error + string" where
  "ak_x_b64url E k =
     rbind (map_err (\<lambda>e. DirUnsupportedDid (crypto_error_display e)) (ed25519_pubkey_from_did_key E (ak_did k)))
       (\<lambda>raw. Inr (b64_encode E raw))"

definition ak_thumbprint :: "('x, 'z) crates_scheme \<Rightarrow> advertised_key \<Rightarrow> directory_error + string" where
  "ak_thumbprint E k = rbind (ak_x_b64url E k) (\<lambda>x. Inr (okp_thumbprint E CRV_ED25519 x))"

definition is_active_at :: "u64 \<Rightarrow> advertised_key \<Rightarrow> bool" where
  "is_active_at now k = (ak_nbf k \<le> now \<and> now < ak_exp k)"

section \<open>The registry\<close>

type_synonym key_registry = "advertised_key list"

definition registry_new :: key_registry where
  "registry_new = []"

definition registry_add ::
  "('x, 'z) crates_scheme \<Rightarrow> advertised_key \<Rightarrow> key_registry \<Rightarrow> key_registry \<times> (directory_error + unit)" where
  "registry_add E key reg =
     (if ak_exp key \<le> ak_nbf key then (reg, Inl (DirInvalidWindow (ak_nbf key) (ak_exp key)))
      else
        (case ed25519_pubkey_from_did_key E (ak_did key) of
           Inl e \<Rightarrow> (reg, Inl (DirUnsupportedDid (crypto_error_display e)))
         | Inr _ \<Rightarrow> (reg @ [key], Inr ())))"

definition registry_active :: "u64 \<Rightarrow> key_registry \<Rightarrow> advertised_key list" where
  "registry_active now reg = filter (is_active_at now) reg"

definition registry_len :: "key_registry \<Rightarrow> nat" where
  "registry_len reg = length reg"

definition registry_is_empty :: "key_registry \<Rightarrow> bool" where
  "registry_is_empty reg = (reg = [])"

section \<open>The documents\<close>

definition WELL_KNOWN_HTTP_MESSAGE_SIGNATURES :: string where
  "WELL_KNOWN_HTTP_MESSAGE_SIGNATURES = ''/.well-known/http-message-signatures-directory''"

definition WELL_KNOWN_AQUA_IDENTITY :: string where
  "WELL_KNOWN_AQUA_IDENTITY = ''/.well-known/aqua-identity''"

definition MEDIA_TYPE_DIRECTORY :: string where
  "MEDIA_TYPE_DIRECTORY = ''application/http-message-signatures-directory+json''"

definition MEDIA_TYPE_JSON :: string where
  "MEDIA_TYPE_JSON = ''application/json''"

definition MIN_CACHE_SECONDS :: u64 where
  "MIN_CACHE_SECONDS = 60"

record directory_document =
  dd_path :: string
  dd_content_type :: string
  dd_cache_control :: string
  dd_body :: string

datatype json = JStr string | JNum nat | JArr "json list" | JObj "(string \<times> json) list"

type_synonym json_writer = "json \<Rightarrow> string + string"

definition saturating_sub_u64 :: "u64 \<Rightarrow> u64 \<Rightarrow> u64" where
  "saturating_sub_u64 a b = (if b \<le> a then a - b else 0)"

definition cache_seconds :: "advertised_key list \<Rightarrow> u64 \<Rightarrow> u64" where
  "cache_seconds active now =
     max (case map (\<lambda>k. saturating_sub_u64 (ak_exp k) now) active of
            [] \<Rightarrow> 0 | x # xs \<Rightarrow> fold min xs x)
       MIN_CACHE_SECONDS"

definition jwk :: "('x, 'z) crates_scheme \<Rightarrow> advertised_key \<Rightarrow> directory_error + json" where
  "jwk E k =
     rbind (ak_x_b64url E k) (\<lambda>x.
       Inr (JObj [(''kty'', JStr ''OKP''), (''crv'', JStr CRV_ED25519),
                  (''kid'', JStr (okp_thumbprint E CRV_ED25519 x)), (''x'', JStr x), (''use'', JStr ''sig''),
                  (''nbf'', JNum (unat (ak_nbf k))), (''exp'', JNum (unat (ak_exp k)))]))"

definition aqua_key :: "('x, 'z) crates_scheme \<Rightarrow> advertised_key \<Rightarrow> directory_error + json" where
  "aqua_key E k =
     rbind (ak_thumbprint E k) (\<lambda>t.
       Inr (JObj [(''did'', JStr (ak_did k)), (''thumbprint'', JStr t),
                  (''nbf'', JNum (unat (ak_nbf k))), (''exp'', JNum (unat (ak_exp k)))]))"

definition serialize_json :: "json_writer \<Rightarrow> json \<Rightarrow> directory_error + string" where
  "serialize_json J v = map_err DirSerialization (J v)"

definition max_age :: "advertised_key list \<Rightarrow> u64 \<Rightarrow> string" where
  "max_age active now = ''max-age='' @ show_nat (unat (cache_seconds active now))"

definition render_jwks ::
  "('x, 'z) crates_scheme \<Rightarrow> json_writer \<Rightarrow> key_registry \<Rightarrow> u64 \<Rightarrow> directory_error + directory_document" where
  "render_jwks E J reg now =
     (let active = registry_active now reg in
      rbind (collect_results (jwk E) active) (\<lambda>keys.
      rbind (serialize_json J (JObj [(''keys'', JArr keys)])) (\<lambda>body.
        Inr \<lparr>dd_path = WELL_KNOWN_HTTP_MESSAGE_SIGNATURES, dd_content_type = MEDIA_TYPE_DIRECTORY,
             dd_cache_control = max_age active now, dd_body = body\<rparr>)))"

definition render_aqua_identity ::
  "('x, 'z) crates_scheme \<Rightarrow> json_writer \<Rightarrow> key_registry \<Rightarrow> u64 \<Rightarrow> directory_error + directory_document" where
  "render_aqua_identity E J reg now =
     (let active = registry_active now reg in
      rbind (collect_results (aqua_key E) active) (\<lambda>keys.
      rbind (serialize_json J (JObj [(''version'', JNum 1), (''dids'', JArr (map (\<lambda>k. JStr (ak_did k)) active)),
                                     (''keys'', JArr keys)])) (\<lambda>body.
        Inr \<lparr>dd_path = WELL_KNOWN_AQUA_IDENTITY, dd_content_type = MEDIA_TYPE_JSON,
             dd_cache_control = max_age active now, dd_body = body\<rparr>)))"

section \<open>Lemmas\<close>

lemma collect_total: "\<forall>x \<in> set xs. f x = Inr (g x) \<Longrightarrow> collect_results f xs = Inr (map g xs)"
  by (induction xs) simp_all

text \<open>The JSON of a key that decodes.\<close>

definition key_x :: "('x, 'z) crates_scheme \<Rightarrow> advertised_key \<Rightarrow> string" where
  "key_x E k = (case ed25519_pubkey_from_did_key E (ak_did k) of Inr raw \<Rightarrow> b64_encode E raw | Inl _ \<Rightarrow> '''')"

lemma ak_x_ok: "is_ok (ed25519_pubkey_from_did_key E (ak_did k)) \<Longrightarrow> ak_x_b64url E k = Inr (key_x E k)"
  by (auto simp: ak_x_b64url_def key_x_def is_ok_iff)

lemma fold_min_start: "fold min xs x \<le> (x :: u64)"
proof (induction xs arbitrary: x)
  case (Cons a xs)
  have "fold min xs (min a x) \<le> min a x" by (rule Cons)
  then show ?case by simp
qed simp

lemma fold_min_elem: "y \<in> set xs \<Longrightarrow> fold min xs x \<le> (y :: u64)"
proof (induction xs arbitrary: x)
  case (Cons a xs)
  show ?case
  proof (cases "y = a")
    case True
    then show ?thesis using fold_min_start [of xs "min a x"] by simp
  next
    case False
    with Cons show ?thesis by simp
  qed
qed simp

lemma cache_le:
  assumes "k \<in> set active" "\<forall>k \<in> set active. is_active_at now k"
  shows "cache_seconds active now \<le> max (ak_exp k - now) MIN_CACHE_SECONDS"
proof -
  have sub: "saturating_sub_u64 (ak_exp k) now = ak_exp k - now"
    using assms by (auto simp: is_active_at_def saturating_sub_u64_def)
  obtain a as where act: "active = a # as" using assms(1) by (cases active) auto
  have "fold min (map (\<lambda>k. saturating_sub_u64 (ak_exp k) now) as) (saturating_sub_u64 (ak_exp a) now)
      \<le> saturating_sub_u64 (ak_exp k) now"
    using assms(1) unfolding act by (auto intro: fold_min_start fold_min_elem)
  then show ?thesis unfolding cache_seconds_def act sub by (simp add: max.coboundedI1 max.coboundedI2)
qed

section \<open>Properties\<close>

text \<open>The registry holds what was admitted, in the order of registration.\<close>

definition admitted :: "('x, 'z) crates_scheme \<Rightarrow> advertised_key \<Rightarrow> bool" where
  "admitted E k \<longleftrightarrow> ak_nbf k < ak_exp k \<and> is_ok (ed25519_pubkey_from_did_key E (ak_did k))"

lemma registry_adds:
  "fold (\<lambda>k r. fst (registry_add E k r)) ks reg = reg @ [k \<leftarrow> ks. admitted E k]"
  by (induction ks arbitrary: reg) (auto simp: registry_add_def admitted_def not_less split: sum.splits)

text \<open>
  C38. Everything that was admitted is served, and nothing else: after any attempts to register keys, both
  documents render at every time, with a JSON writer that does not fail. The members the JSON writer is given are exactly the keys with a
  non-empty window and a decodable Ed25519 \<open>did:key\<close> whose window contains that time, in the
  order of registration; the key set names each by the thumbprint and the coordinate of its own key, the identity
  document by its DID and the same thumbprint, with the DIDs listed once more on their own.
\<close>

theorem directory_serves_active:
  assumes "\<And>v. is_ok (J v)"
    and "served = [k \<leftarrow> ks. ak_nbf k \<le> now \<and> now < ak_exp k \<and> is_ok (ed25519_pubkey_from_did_key E (ak_did k))]"
    and "reg = fold (\<lambda>k r. fst (registry_add E k r)) ks registry_new"
  shows "(\<exists>body. render_jwks E J reg now =
            Inr \<lparr>dd_path = WELL_KNOWN_HTTP_MESSAGE_SIGNATURES, dd_content_type = MEDIA_TYPE_DIRECTORY,
                 dd_cache_control = max_age served now, dd_body = body\<rparr> \<and>
            J (JObj [(''keys'', JArr (map (\<lambda>k. JObj [(''kty'', JStr ''OKP''), (''crv'', JStr CRV_ED25519),
                 (''kid'', JStr (okp_thumbprint E CRV_ED25519 (key_x E k))), (''x'', JStr (key_x E k)),
                 (''use'', JStr ''sig''), (''nbf'', JNum (unat (ak_nbf k))), (''exp'', JNum (unat (ak_exp k)))])
               served))]) = Inr body) \<and>
         (\<exists>body. render_aqua_identity E J reg now =
            Inr \<lparr>dd_path = WELL_KNOWN_AQUA_IDENTITY, dd_content_type = MEDIA_TYPE_JSON,
                 dd_cache_control = max_age served now, dd_body = body\<rparr> \<and>
            J (JObj [(''version'', JNum 1), (''dids'', JArr (map (\<lambda>k. JStr (ak_did k)) served)),
               (''keys'', JArr (map (\<lambda>k. JObj [(''did'', JStr (ak_did k)),
                 (''thumbprint'', JStr (okp_thumbprint E CRV_ED25519 (key_x E k))),
                 (''nbf'', JNum (unat (ak_nbf k))), (''exp'', JNum (unat (ak_exp k)))]) served))]) = Inr body)"
proof -
  have act: "registry_active now reg = served"
    unfolding assms(2,3) registry_adds by (auto simp: registry_new_def registry_active_def is_active_at_def admitted_def
        intro!: filter_cong)
  have x: "ak_x_b64url E k = Inr (key_x E k)" if "k \<in> set served" for k
    using that by (intro ak_x_ok) (simp add: assms(2))
  have 1: "collect_results (jwk E) served = Inr (map (\<lambda>k. JObj [(''kty'', JStr ''OKP''), (''crv'', JStr CRV_ED25519),
      (''kid'', JStr (okp_thumbprint E CRV_ED25519 (key_x E k))), (''x'', JStr (key_x E k)),
      (''use'', JStr ''sig''), (''nbf'', JNum (unat (ak_nbf k))), (''exp'', JNum (unat (ak_exp k)))]) served)"
    using x by (intro collect_total) (simp add: jwk_def)
  have 2: "collect_results (aqua_key E) served =
      Inr (map (\<lambda>k. JObj [(''did'', JStr (ak_did k)), (''thumbprint'', JStr (okp_thumbprint E CRV_ED25519 (key_x E k))),
        (''nbf'', JNum (unat (ak_nbf k))), (''exp'', JNum (unat (ak_exp k)))]) served)"
    using x by (intro collect_total) (simp add: aqua_key_def ak_thumbprint_def)
  show ?thesis
    using assms(1) 1 2 unfolding render_jwks_def render_aqua_identity_def act Let_def serialize_json_def
    by (auto simp: is_ok_iff)
qed

text \<open>Three attempts at time 5: a key in its window, one past it, and one that is not admitted.\<close>

definition ref_advertised :: "advertised_key list" where
  "ref_advertised = [\<lparr>ak_did = ref_did, ak_nbf = 0, ak_exp = 10\<rparr>, \<lparr>ak_did = ref_did, ak_nbf = 0, ak_exp = 5\<rparr>,
     \<lparr>ak_did = ref_did, ak_nbf = 9, ak_exp = 0\<rparr>]"

theorem directory_serves_active_witness:
  "\<exists>body. render_aqua_identity ref_crates (\<lambda>v. Inr '''')
     (fold (\<lambda>k r. fst (registry_add ref_crates k r)) ref_advertised registry_new) 5 =
     Inr \<lparr>dd_path = WELL_KNOWN_AQUA_IDENTITY, dd_content_type = MEDIA_TYPE_JSON,
       dd_cache_control = max_age [\<lparr>ak_did = ref_did, ak_nbf = 0, ak_exp = 10\<rparr>] 5, dd_body = body\<rparr>"
proof -
  have "is_ok (ed25519_pubkey_from_did_key ref_crates ref_did)"
    unfolding ed25519_pubkey_from_did_key_def ref_did_facts(1) using ref_did_facts(3)
    by (subst strip_prefix_append) (simp add: is_ok_iff)
  then have "[\<lparr>ak_did = ref_did, ak_nbf = 0, ak_exp = 10\<rparr>] =
      [k \<leftarrow> ref_advertised. ak_nbf k \<le> 5 \<and> 5 < ak_exp k \<and> is_ok (ed25519_pubkey_from_did_key ref_crates (ak_did k))]"
    by (simp add: ref_advertised_def)
  from directory_serves_active [OF _ this refl, of "\<lambda>v. Inr ''''"] show ?thesis by auto
qed

text \<open>
  A cached directory is never stale for long: the lifetime it is served with is at least a
  minute, and no key it lists expires more than a minute before the cached copy does.
\<close>

theorem directory_cache_bounds:
  "MIN_CACHE_SECONDS \<le> cache_seconds (registry_active now reg) now \<and>
   list_all (\<lambda>k. cache_seconds (registry_active now reg) now \<le> max (ak_exp k - now) MIN_CACHE_SECONDS)
     (registry_active now reg)"
proof -
  have "\<forall>k \<in> set (registry_active now reg). is_active_at now k" by (simp add: registry_active_def)
  then show ?thesis using cache_le by (auto simp: list_all_iff cache_seconds_def)
qed

end
