(* ===== verification/Peer.thy ===== *)
theory Peer
  imports Client Sessions Request_Auth Directory
begin

text \<open>
  \<open>AquaPeer\<close> (aqua-auth-testkit/src/lib.rs): one service over the crate's stores, with its
  handlers. A handler takes the request as axum hands it over, decoded, with the clock readings
  and random bytes it draws, and returns the new state and a status code or a body; the routes and
  the extractors are in \<open>Wire\<close>. A panic of the date arithmetic under the challenge handler is
  \<open>None\<close>.
\<close>

section \<open>The state\<close>

definition SESSION_TTL_SECS :: u64 where
  "SESSION_TTL_SECS = 3600"

definition ADVERTISED_NBF :: u64 where
  "ADVERTISED_NBF = 0"

definition ADVERTISED_EXP :: u64 where
  "ADVERTISED_EXP = 4102444800"

record aqua_peer =
  ap_name :: string
  ap_base_url :: string
  ap_challenges :: challenge_store
  ap_sessions :: "in_memory_state session_store"
  ap_replay_guard :: nonce_replay_guard
  ap_registry :: key_registry

definition peer_in_memory ::
  "('x, 'z) crates_scheme \<Rightarrow> string \<Rightarrow> string \<Rightarrow> u64 \<Rightarrow> signer \<Rightarrow> aqua_peer" where
  "peer_in_memory E name base_url challenge_ttl_secs signer =
     \<lparr>ap_name = name, ap_base_url = base_url,
      ap_challenges = challenge_new challenge_ttl_secs name base_url,
      ap_sessions = session_new SESSION_TTL_SECS,
      ap_replay_guard = guard_new,
      ap_registry = fst (registry_add E
        \<lparr>ak_did = signer_did signer, ak_nbf = ADVERTISED_NBF, ak_exp = ADVERTISED_EXP\<rparr> registry_new)\<rparr>"

definition peer_authority :: "aqua_peer \<Rightarrow> string" where
  "peer_authority p =
     (let after_scheme = (case split_once_str ''://'' (ap_base_url p) of
            Some (_, rest) \<Rightarrow> rest | None \<Rightarrow> ap_base_url p)
      in hd (split_by authority_delimiter after_scheme))"

definition scheme_of :: "string \<Rightarrow> string" where
  "scheme_of base_url =
     (case split_once_str ''://'' base_url of
        Some (scheme, _) \<Rightarrow> to_ascii_lowercase scheme | None \<Rightarrow> ''http'')"

section \<open>Requests\<close>

text \<open>A header map; \<open>to_str\<close> reads a value only when it is visible ASCII.\<close>

type_synonym headers = "(string \<times> string) list"

definition header_value_to_str :: "string \<Rightarrow> string option" where
  "header_value_to_str v =
     (if \<forall>c \<in> set v. (0x20 \<le> (of_char c :: nat) \<and> (of_char c :: nat) < 0x7F) \<or> c = CHR 0x09
      then Some v else None)"

definition header_str :: "headers \<Rightarrow> string \<Rightarrow> string option" where
  "header_str hs name = Option.bind (map_of hs name) header_value_to_str"

definition bearer_token :: "headers \<Rightarrow> string option" where
  "bearer_token hs = Option.bind (header_str hs ''authorization'') (strip_prefix ''Bearer '')"

text \<open>\<open>trim_start_matches("0x")\<close>: every leading occurrence.\<close>

fun trim_0x :: "string \<Rightarrow> string" where
  "trim_0x (a # b # s) = (if a = CHR ''0'' \<and> b = CHR ''x'' then trim_0x s else a # b # s)"
| "trim_0x s = s"

record sig_request =
  rq_method :: string
  rq_uri_authority :: "string option"
  rq_uri_path :: string
  rq_headers :: headers

section \<open>The handlers\<close>

definition challenge_handler ::
  "('x, 'z) crates_scheme \<Rightarrow> 'dt chrono \<Rightarrow> u64 \<Rightarrow> bytes \<Rightarrow> 'dt \<Rightarrow> string option \<Rightarrow> aqua_peer \<Rightarrow>
   (aqua_peer \<times> (nat + challenge_envelope)) option" where
  "challenge_handler E C now_purge nonce_bytes now query_did p =
     (case query_did of
        None \<Rightarrow> Some (p, Inl 400)
      | Some did \<Rightarrow>
          if find_did_method E did = None then Some (p, Inl 400)
          else
            (case challenge_create E C now_purge nonce_bytes now did (ap_challenges p) of
               None \<Rightarrow> None
             | Some (cs, Inl _) \<Rightarrow> Some (p\<lparr>ap_challenges := cs\<rparr>, Inl 400)
             | Some (cs, Inr ch) \<Rightarrow>
                 Some (p\<lparr>ap_challenges := cs\<rparr>,
                   Inr \<lparr>env_nonce = ch_nonce ch, env_message = ch_message ch,
                        env_expires_at = ch_expires_at ch\<rparr>)))"

text \<open>The proof a session request carries, checked against the stored challenge.\<close>

definition session_proof ::
  "('x, 'z) crates_scheme \<Rightarrow> challenge \<Rightarrow> session_request \<Rightarrow> nat + principal" where
  "session_proof E stored request =
     (if ch_did stored \<noteq> sr_did request then Inl 401
      else
        rbind (map_err (\<lambda>_. 401) (hex_decode E (trim_0x (sr_signature request)))) (\<lambda>signature.
        rbind (case sr_public_key request of
                 Some hex_pk \<Rightarrow> rmap Some (map_err (\<lambda>_. 401) (hex_decode E (trim_0x hex_pk)))
               | None \<Rightarrow> Inr None) (\<lambda>public_key.
          map_err (\<lambda>_. 401)
            (authenticate_with_public_key E (sr_did request) (ch_message stored) signature public_key))))"

definition session_handler ::
  "('x, 'z) crates_scheme \<Rightarrow> u64 \<Rightarrow> u64 \<Rightarrow> bytes \<Rightarrow> u64 \<Rightarrow> session_request \<Rightarrow> aqua_peer \<Rightarrow>
   aqua_peer \<times> (nat + session_response)" where
  "session_handler E now_check now_purge token_bytes now request p =
     (case challenge_validate now_check (sr_nonce request) (ap_challenges p) of
        (cs, r) \<Rightarrow>
          (let p1 = p\<lparr>ap_challenges := cs\<rparr> in
           case r of
             Inl ChallengeNotFound \<Rightarrow> (p1, Inl 404)
           | Inl _ \<Rightarrow> (p1, Inl 401)
           | Inr stored \<Rightarrow>
               (case session_proof E stored request of
                  Inl status \<Rightarrow> (p1, Inl status)
                | Inr who \<Rightarrow>
                    (case session_create in_memory E now_purge token_bytes now (principal_did who)
                            (ap_sessions p1) of
                       (ss, Inl _) \<Rightarrow> (p1\<lparr>ap_sessions := ss\<rparr>, Inl 503)
                     | (ss, Inr session) \<Rightarrow>
                         (p1\<lparr>ap_sessions := ss\<rparr>,
                          Inr \<lparr>resp_did = se_did session, resp_token = se_token session,
                               resp_valid_until = se_valid_until session,
                               resp_created_at = se_created_at session\<rparr>)))))"

definition whoami_handler :: "u64 \<Rightarrow> headers \<Rightarrow> aqua_peer \<Rightarrow> aqua_peer \<times> (nat + string)" where
  "whoami_handler now hs p =
     (case bearer_token hs of
        None \<Rightarrow> (p, Inl 401)
      | Some token \<Rightarrow>
          (case session_validate in_memory now token (ap_sessions p) of
             (ss, r) \<Rightarrow> (p\<lparr>ap_sessions := ss\<rparr>, map_err (\<lambda>_. 401) r)))"

definition sig_target ::
  "aqua_peer \<Rightarrow> sig_request \<Rightarrow> nat + (request_parts \<times> string \<times> string)" where
  "sig_target p rq =
     (let host = (case header_str (rq_headers rq) ''host'' of
                    Some h \<Rightarrow> Some h | None \<Rightarrow> rq_uri_authority rq) in
      rbind (ok_or host 400) (\<lambda>authority.
      let target_uri = scheme_of (ap_base_url p) @ ''://'' @ authority @ rq_uri_path rq in
      rbind (ok_or (header_str (rq_headers rq) ''signature-input'') 401) (\<lambda>input.
      rbind (ok_or (header_str (rq_headers rq) ''signature'') 401) (\<lambda>signature.
      let parts0 = request_parts_new (rq_method rq) target_uri;
          parts = (case header_str (rq_headers rq) ''signature-agent'' of
                     Some agent \<Rightarrow> with_signature_agent agent parts0 | None \<Rightarrow> parts0)
      in Inr (parts, input, signature)))))"

definition sig_whoami_handler ::
  "('x, 'z) crates_scheme \<Rightarrow> sfv \<Rightarrow> int \<Rightarrow> sig_request \<Rightarrow> aqua_peer \<Rightarrow> aqua_peer \<times> (nat + string)" where
  "sig_whoami_handler E V clock rq p =
     (case sig_target p rq of
        Inl status \<Rightarrow> (p, Inl status)
      | Inr (parts, input, signature) \<Rightarrow>
          (case verify_request E V parts input signature
                  (with_replay_guard (ap_replay_guard p) options_aqua_internal) clock of
             (g, r) \<Rightarrow>
               (p\<lparr>ap_replay_guard := (case g of Some g' \<Rightarrow> g' | None \<Rightarrow> ap_replay_guard p)\<rparr>,
                rmap principal_did (map_err (\<lambda>_. 401) r))))"

definition serve_document :: "directory_error + directory_document \<Rightarrow> nat + (string \<times> string \<times> string)" where
  "serve_document document =
     rbind (map_err (\<lambda>_. 500) document) (\<lambda>d. Inr (dd_content_type d, dd_cache_control d, dd_body d))"

definition jwks_handler ::
  "('x, 'z) crates_scheme \<Rightarrow> json_writer \<Rightarrow> u64 \<Rightarrow> aqua_peer \<Rightarrow> nat + (string \<times> string \<times> string)" where
  "jwks_handler E J now p = serve_document (render_jwks E J (ap_registry p) now)"

definition aqua_identity_handler ::
  "('x, 'z) crates_scheme \<Rightarrow> json_writer \<Rightarrow> u64 \<Rightarrow> aqua_peer \<Rightarrow> nat + (string \<times> string \<times> string)" where
  "aqua_identity_handler E J now p = serve_document (render_aqua_identity E J (ap_registry p) now)"

section \<open>Lemmas\<close>

lemma trim_0x_prefix [simp]: "trim_0x (''0x'' @ s) = trim_0x s"
  by simp

lemma trim_0x_hex: "\<forall>c \<in> set s. is_hex_lower c \<Longrightarrow> trim_0x s = s"
  by (cases s rule: trim_0x.cases) (auto simp: is_hex_lower_def is_ascii_digit_def)

lemma hex_decode_wire: "hex_law E \<Longrightarrow> hex_decode E (trim_0x (''0x'' @ hex_encode E b)) = Inr b"
  using hex_lawD(1,3) [of E] trim_0x_hex [of "hex_encode E b"] by simp

lemma session_proof_Inr:
  "session_proof E stored request = Inr who \<longleftrightarrow>
     ch_did stored = sr_did request \<and>
     (\<exists>sig pk. hex_decode E (trim_0x (sr_signature request)) = Inr sig \<and>
        (case sr_public_key request of
           None \<Rightarrow> pk = None
         | Some h \<Rightarrow> \<exists>k. hex_decode E (trim_0x h) = Inr k \<and> pk = Some k) \<and>
        who = \<lparr>principal_did = sr_did request\<rparr> \<and>
        possession E (sr_did request) (ch_message stored) sig pk)"
  by (auto simp: session_proof_def authenticate_with_key_Inr split: option.splits)

lemma challenge_validate_gone:
  "challenge_validate now n st = (st', r) \<Longrightarrow> map_of (cs_challenges st') n = None"
  by (auto simp: challenge_validate_def Let_def split: option.splits if_splits)

lemma session_create_Inr:
  assumes "in_memory_inv (ss_backend st)"
    and "session_create in_memory E now_purge tb now did st = (st', Inr s)"
  shows "se_did s = did" "se_token s = hex_encode E tb" "in_memory_inv (ss_backend st')"
    "t < se_valid_until s \<Longrightarrow> session_validate in_memory t (se_token s) st' = (st', Inr did)"
proof -
  note a = mem.create_abs [OF assms]
  show "in_memory_inv (ss_backend st')" by (rule a(1))
  show d: "se_did s = did" "se_token s = hex_encode E tb" using assms(2) by (auto elim!: mem.create_cases)
  have "be_get in_memory (se_token s) (ss_backend st') = Some s"
    using a(1) a(5) [OF refl] by (simp add: in_memory_def)
  then show "t < se_valid_until s \<Longrightarrow> session_validate in_memory t (se_token s) st' = (st', Inr did)"
    using d(1) by (simp add: session_validate_def not_le [symmetric])
qed

section \<open>Properties\<close>

text \<open>
  C2. A login is a proof, and a challenge is spent by any attempt: after \<open>POST /auth/session\<close> the
  nonce is gone from the store whatever the outcome, and a session is opened only for an
  unexpired challenge that was minted for that very DID and whose message the holder of the DID
  signed; the token then names that DID until it expires.
\<close>

theorem login_sound:
  assumes "in_memory_inv (ss_backend (ap_sessions p))"
    and "session_handler E now_check now_purge tb now req p = (p', r)"
  shows "map_of (cs_challenges (ap_challenges p')) (sr_nonce req) = None \<and>
    (case r of
       Inl status \<Rightarrow> status \<in> {401, 404, 503}
     | Inr resp \<Rightarrow>
         (\<exists>ch sig pk. map_of (cs_challenges (ap_challenges p)) (sr_nonce req) = Some ch \<and>
            now_check < ch_expires_at ch \<and> ch_did ch = sr_did req \<and>
            possession E (sr_did req) (ch_message ch) sig pk) \<and>
         resp_did resp = sr_did req \<and>
         (\<forall>t. t < resp_valid_until resp \<longrightarrow>
            session_validate in_memory t (resp_token resp) (ap_sessions p') =
              (ap_sessions p', Inr (sr_did req))))"
proof -
  obtain cs v where v: "challenge_validate now_check (sr_nonce req) (ap_challenges p) = (cs, v)" by fastforce
  let ?p = "p\<lparr>ap_challenges := cs\<rparr>"
  have gone: "map_of (cs_challenges cs) (sr_nonce req) = None" by (rule challenge_validate_gone [OF v])
  show ?thesis
  proof (cases v)
    case (Inl e)
    with v assms(2) gone show ?thesis by (cases e) (auto simp: session_handler_def Let_def)
  next
    case (Inr ch)
    have ch: "map_of (cs_challenges (ap_challenges p)) (sr_nonce req) = Some ch" "now_check < ch_expires_at ch"
      using v Inr by (simp_all add: challenge_validate_Inr)
    show ?thesis
    proof (cases "session_proof E ch req")
      case (Inl status)
      moreover from this have "status = 401"
        by (auto simp: session_proof_def result_simps split: if_splits option.splits)
      ultimately show ?thesis using v Inr assms(2) gone by (auto simp: session_handler_def Let_def)
    next
      case (Inr who)
      obtain ss x where s: "session_create in_memory E now_purge tb now (principal_did who) (ap_sessions p) = (ss, x)"
        by fastforce
      from Inr obtain sig pk where who: "ch_did ch = sr_did req" "principal_did who = sr_did req"
        "possession E (sr_did req) (ch_message ch) sig pk" by (auto simp: session_proof_Inr)
      show ?thesis
      proof (cases x)
        case (Inl e)
        with s v \<open>v = Inr ch\<close> Inr assms(2) gone show ?thesis by (auto simp: session_handler_def Let_def)
      next
        case x: (Inr session)
        have "p' = ?p\<lparr>ap_sessions := ss\<rparr>" "r = Inr \<lparr>resp_did = se_did session, resp_token = se_token session,
            resp_valid_until = se_valid_until session, resp_created_at = se_created_at session\<rparr>"
          using s v \<open>v = Inr ch\<close> Inr x assms(2) by (auto simp: session_handler_def Let_def)
        moreover note session_create_Inr [OF assms(1) s [unfolded x who(2)]]
        ultimately show ?thesis using gone ch who by auto
      qed
    qed
  qed
qed

lemma challenge_handler_Inr:
  assumes "challenge_handler E C now_purge nb now (Some did) p = Some (p1, Inr env)"
  obtains ch expires where "p1 = p\<lparr>ap_challenges := ap_challenges p1\<rparr>"
    "map_of (cs_challenges (ap_challenges p1)) (env_nonce env) = Some ch" "ch_did ch = did"
    "ch_message ch = env_message env" "ch_expires_at ch = env_expires_at env"
    "validate_did_well_formed E did = Inr ()"
    "build_message E C \<lparr>mp_did = did, mp_domain = cs_domain (ap_challenges p), mp_uri = cs_uri (ap_challenges p),
       mp_nonce = env_nonce env, mp_issued_at = now, mp_expiration_time = expires\<rparr> = Inr (env_message env)"
proof -
  obtain cs ch where "challenge_create E C now_purge nb now did (ap_challenges p) = Some (cs, Inr ch)"
    and env: "env = \<lparr>env_nonce = ch_nonce ch, env_message = ch_message ch, env_expires_at = ch_expires_at ch\<rparr>"
    "p1 = p\<lparr>ap_challenges := cs\<rparr>"
    using assms by (auto simp: challenge_handler_def split: if_splits option.splits sum.splits)
  then show thesis using that by (auto simp: challenge_create_Inr)
qed

lemma bearer_token_hex:
  assumes "\<forall>c \<in> set t. is_hex_lower c"
  shows "bearer_token [(''authorization'', ''Bearer '' @ t)] = Some t"
proof -
  have "(0x20 \<le> (of_char c :: nat) \<and> (of_char c :: nat) < 0x7F) \<or> c = CHR 0x09" if "c \<in> set (''Bearer '' @ t)" for c
    using that assms by (auto simp: is_hex_lower_def is_ascii_digit_def)
  then have "header_value_to_str (''Bearer '' @ t) = Some (''Bearer '' @ t)"
    unfolding header_value_to_str_def by meson
  then show ?thesis by (simp only: bearer_token_def header_str_def map_of.simps fst_conv snd_conv
      fun_upd_same Option.bind.bind_lunit strip_prefix_append)
qed

lemma session_create_room:
  assumes "length (ss_backend st) < ss_max_sessions st"
  shows "\<exists>st' s. session_create in_memory E now_purge tb now did st = (st', Inr s) \<and>
    se_valid_until s = now + ss_ttl_secs st"
  using assms
  by (auto simp: session_create_def in_memory_def in_memory_insert_def Let_def enforce_per_did_cap_def
      split: list.splits prod.splits)

lemma honest_login:
  assumes laws: "hex_law E" "hex_decode_law E" "bs58_law E" "url_law U"
    and issued: "challenge_handler E C now_purge nb now0 (Some (signer_did s)) p = Some (p1, Inr env)"
    and domain: "LF \<notin> set (cs_domain (ap_challenges p))" "\<not> starts_with ''URI:'' (cs_domain (ap_challenges p))"
    and uri: "cs_uri (ap_challenges p) \<noteq> []" "\<forall>c \<in> set (cs_uri (ap_challenges p)). graphic c"
    and origin: "origin_of U (cs_uri (ap_challenges p)) = Some origin" "origin_of U dialed = Some origin"
    and signs: "\<And>msg. \<exists>sig. signer_sign s msg = Inr sig \<and>
                  possession E (signer_did s) msg sig (signer_public_key s)"
    and time: "now_check < env_expires_at env"
    and room: "in_memory_inv (ss_backend (ap_sessions p))"
      "length (ss_backend (ap_sessions p)) < ss_max_sessions (ap_sessions p)"
  shows "\<exists>req p2 resp. signed_session_request E U env dialed s = Inr req \<and>
           session_handler E now_check now_purge' tb now1 req p1 = (p2, Inr resp) \<and>
           resp_did resp = signer_did s \<and> resp_valid_until resp = now1 + ss_ttl_secs (ap_sessions p) \<and>
           (\<forall>t. t < resp_valid_until resp \<longrightarrow>
              snd (whoami_handler t [(''authorization'', ''Bearer '' @ resp_token resp)] p2) = Inr (signer_did s))"
proof -
  obtain ch expires where p1: "p1 = p\<lparr>ap_challenges := ap_challenges p1\<rparr>"
    and ch: "map_of (cs_challenges (ap_challenges p1)) (env_nonce env) = Some ch" "ch_did ch = signer_did s"
      "ch_message ch = env_message env" "ch_expires_at ch = env_expires_at env"
    and valid: "validate_did_well_formed E (signer_did s) = Inr ()"
    and msg: "build_message E C \<lparr>mp_did = signer_did s, mp_domain = cs_domain (ap_challenges p),
       mp_uri = cs_uri (ap_challenges p), mp_nonce = env_nonce env, mp_issued_at = now0,
       mp_expiration_time = expires\<rparr> = Inr (env_message env)"
    by (rule challenge_handler_Inr [OF issued])
  obtain sig where sig: "signer_sign s (env_message env) = Inr sig"
    "possession E (signer_did s) (env_message env) sig (signer_public_key s)" using signs by blast
  have lf: "LF \<notin> set (cs_uri (ap_challenges p))" using graphic_no_LF [OF uri(2)] .
  have "uri_line (env_message env) = Some (cs_uri (ap_challenges p))"
    using uri_line_of_message [OF laws(1-3) _ msg] valid domain uri lf by simp
  moreover obtain m ident where "find_did_method E (signer_did s) = Some m"
    "address_for_message E m (signer_did s) = Inr ident" "identifier_from_message (env_message env) = Some ident"
    using message_identifier [OF laws(1-3) _ _ msg] valid domain(1) by auto
  ultimately obtain req where req: "signed_session_request E U env dialed s = Inr req"
    "req = \<lparr>sr_did = signer_did s, sr_nonce = env_nonce env, sr_signature = ''0x'' @ hex_encode E sig,
            sr_public_key = map_option (\<lambda>pk. ''0x'' @ hex_encode E pk) (signer_public_key s)\<rparr>"
    using origin sig(1) by (simp add: signed_request_Inr [OF laws(4)])
  have proved: "session_proof E ch req = Inr \<lparr>principal_did = signer_did s\<rparr>"
    using sig(2) ch(2,3) hex_decode_wire [OF laws(1)]
    by (auto simp: session_proof_Inr req(2) simp del: trim_0x_prefix split: option.splits)
  obtain ss ses where ses: "session_create in_memory E now_purge' tb now1 (signer_did s) (ap_sessions p) = (ss, Inr ses)"
    "se_valid_until ses = now1 + ss_ttl_secs (ap_sessions p)"
    using session_create_room [OF room(2)] by blast
  have "ap_sessions p1 = ap_sessions p" using p1 by (metis aqua_peer.select_convs(4) aqua_peer.surjective aqua_peer.update_convs(3))
  then obtain p2 where h: "session_handler E now_check now_purge' tb now1 req p1 = (p2, Inr \<lparr>resp_did = se_did ses,
      resp_token = se_token ses, resp_valid_until = se_valid_until ses, resp_created_at = se_created_at ses\<rparr>)"
    "ap_sessions p2 = ss"
    using ch(1,4) time proved ses(1)
    by (simp add: session_handler_def challenge_validate_def req(2) Let_def not_le [symmetric])
  note v = session_create_Inr [OF room(1) ses(1)]
  have "bearer_token [(''authorization'', ''Bearer '' @ se_token ses)] = Some (se_token ses)"
    by (rule bearer_token_hex) (use v(2) hex_lawD(3) [OF laws(1)] in simp)
  with v h(2) have "snd (whoami_handler t [(''authorization'', ''Bearer '' @ se_token ses)] p2) = Inr (signer_did s)"
    if "t < se_valid_until ses" for t using that by (simp add: whoami_handler_def)
  with req(1) h(1) v(1) ses(2) show ?thesis by force
qed

text \<open>
  C4. An honest login goes through: for a challenge the peer issued to a signer's DID, the client
  that dialed an endpoint of the same origin signs, the peer opens a session while the challenge
  lasts and there is room, and the bearer token is answered with the DID until the session ends.
\<close>

theorem honest_login_succeeds:
  assumes laws: "hex_law E" "hex_decode_law E" "bs58_law E" "url_law U"
    and issued: "challenge_handler E C now_purge nb now0 (Some (signer_did s)) p = Some (p1, Inr env)"
    and domain: "LF \<notin> set (cs_domain (ap_challenges p))" "\<not> starts_with ''URI:'' (cs_domain (ap_challenges p))"
    and uri: "cs_uri (ap_challenges p) \<noteq> []" "\<forall>c \<in> set (cs_uri (ap_challenges p)). graphic c"
    and origin: "origin_of U (cs_uri (ap_challenges p)) = Some origin" "origin_of U dialed = Some origin"
    and signs: "\<And>msg. \<exists>sig. signer_sign s msg = Inr sig \<and>
                  possession E (signer_did s) msg sig (signer_public_key s)"
    and time: "now_check < env_expires_at env"
    and room: "in_memory_inv (ss_backend (ap_sessions p))"
      "length (ss_backend (ap_sessions p)) < ss_max_sessions (ap_sessions p)"
  shows "\<exists>req p2 resp. signed_session_request E U env dialed s = Inr req \<and>
           session_handler E now_check now_purge' tb now1 req p1 = (p2, Inr resp) \<and>
           resp_did resp = signer_did s \<and> resp_valid_until resp = now1 + ss_ttl_secs (ap_sessions p) \<and>
           (\<forall>t. t < resp_valid_until resp \<longrightarrow>
              snd (whoami_handler t [(''authorization'', ''Bearer '' @ resp_token resp)] p2) = Inr (signer_did s))"
  by (rule honest_login [OF assms])

section \<open>A login at concrete values\<close>

definition ref_key :: signer where
  "ref_key = fn_signer ref_did (\<lambda>_. Inr (replicate 64 7))"

definition ref_peer :: aqua_peer where
  "ref_peer = peer_in_memory ref_crates ''d'' ''https://h'' 60 ref_key"

lemma ref_key_fields: "signer_did ref_key = ref_did" "signer_public_key ref_key = None"
  "signer_sign ref_key msg = Inr (replicate 64 7)"
  by (simp_all add: ref_key_def fn_signer_def)

lemma ref_peer_fields:
  "cs_domain (ap_challenges ref_peer) = ''d''" "cs_uri (ap_challenges ref_peer) = ''https://h''"
  "cs_ttl_secs (ap_challenges ref_peer) = 60" "ss_backend (ap_sessions ref_peer) = []"
  "ss_max_sessions (ap_sessions ref_peer) = MAX_SESSIONS"
  by (simp_all add: ref_peer_def peer_in_memory_def challenge_new_def challenge_with_capacity_def
      session_new_def session_with_capacity_def session_with_backend_def in_memory_new_def)

lemma ref_issued:
  "\<exists>p1 env. challenge_handler ref_crates ref_chrono 0 [0] 0 (Some ref_did) ref_peer = Some (p1, Inr env) \<and>
     env_expires_at env = 60"
proof -
  obtain msg where "build_message ref_crates ref_chrono \<lparr>mp_did = ref_did, mp_domain = ''d'', mp_uri = ''https://h'',
      mp_nonce = ''0x'' @ hex_encode ref_crates [0], mp_issued_at = 0, mp_expiration_time = 60\<rparr> = Inr msg"
    using ref_did_facts(2) by (auto simp: build_message_def ref_key_method Let_def)
  moreover have "dt_add_seconds ref_chrono 0 (sint (60 :: u64)) = Some 60" "timestamp_u64 ref_chrono 60 = 60"
    by (simp_all add: ref_chrono_def timestamp_u64_def)
  ultimately have "\<exists>st' ch. challenge_create ref_crates ref_chrono 0 [0] 0 ref_did (ap_challenges ref_peer) =
      Some (st', Inr ch) \<and> ch_expires_at ch = 60"
    unfolding challenge_create_Inr ref_peer_fields using ref_did_facts(4) by auto
  then show ?thesis using ref_did_facts(2) by (auto simp: challenge_handler_def)
qed

lemma ref_login_conditions:
  "origin_of ref_url (cs_uri (ap_challenges ref_peer)) = Some ''https://h:443''"
  "origin_of ref_url ''https://h'' = Some ''https://h:443''"
  "\<exists>sig. signer_sign ref_key msg = Inr sig \<and> possession ref_crates (signer_did ref_key) msg sig (signer_public_key ref_key)"
  "in_memory_inv (ss_backend (ap_sessions ref_peer))"
  "length (ss_backend (ap_sessions ref_peer)) < ss_max_sessions (ap_sessions ref_peer)"
  "LF \<notin> set (cs_domain (ap_challenges ref_peer))" "\<not> starts_with ''URI:'' (cs_domain (ap_challenges ref_peer))"
  "cs_uri (ap_challenges ref_peer) \<noteq> []" "\<forall>c \<in> set (cs_uri (ap_challenges ref_peer)). graphic c"
  by (simp_all add: ref_peer_fields ref_key_fields ref_origin ref_possession in_memory_inv_def MAX_SESSIONS_def
      starts_with_def graphic_def)

theorem honest_login_succeeds_witness:
  "\<exists>p1 env req p2 resp. challenge_handler ref_crates ref_chrono 0 [0] 0 (Some ref_did) ref_peer = Some (p1, Inr env) \<and>
     signed_session_request ref_crates ref_url env ''https://h'' ref_key = Inr req \<and>
     session_handler ref_crates 5 5 [9] 5 req p1 = (p2, Inr resp) \<and> resp_did resp = ref_did"
proof -
  obtain p1 env where i: "challenge_handler ref_crates ref_chrono 0 [0] 0 (Some ref_did) ref_peer = Some (p1, Inr env)"
    "env_expires_at env = 60" using ref_issued by blast
  have "5 < env_expires_at env" using i(2) by simp
  from honest_login_succeeds [OF ref_hex_law ref_hex_decode_law ref_bs58_law ref_url_law
      i(1) [folded ref_key_fields(1)] ref_login_conditions(6-9,1-3) this ref_login_conditions(4,5)]
  show ?thesis using i(1) unfolding ref_key_fields by blast
qed

theorem login_sound_witness:
  "\<exists>p1 req p2 resp. session_handler ref_crates 5 5 [9] 5 req p1 = (p2, Inr resp) \<and>
     session_validate in_memory 6 (resp_token resp) (ap_sessions p2) = (ap_sessions p2, Inr ref_did)"
proof -
  obtain p1 env where i: "challenge_handler ref_crates ref_chrono 0 [0] 0 (Some ref_did) ref_peer = Some (p1, Inr env)"
    "env_expires_at env = 60" using ref_issued by blast
  have "5 < env_expires_at env" using i(2) by simp
  from honest_login [OF ref_hex_law ref_hex_decode_law ref_bs58_law ref_url_law
      i(1) [folded ref_key_fields(1)] ref_login_conditions(6-9,1-3) this ref_login_conditions(4,5)]
  obtain req p2 resp where l: "signed_session_request ref_crates ref_url env ''https://h'' ref_key = Inr req"
    "session_handler ref_crates 5 5 [9] 5 req p1 = (p2, Inr resp)"
    "resp_did resp = ref_did" "resp_valid_until resp = 5 + ss_ttl_secs (ap_sessions ref_peer)"
    unfolding ref_key_fields by blast
  have inv: "in_memory_inv (ss_backend (ap_sessions p1))"
    using challenge_handler_Inr [OF i(1)] ref_login_conditions(4) by (metis aqua_peer.select_convs(4) aqua_peer.surjective aqua_peer.update_convs(3))
  have "sr_did req = ref_did" using l(1) by (auto simp: signed_request_Inr [OF ref_url_law] ref_key_fields)
  moreover have "6 < resp_valid_until resp" using l(4)
    by (simp add: ref_peer_def peer_in_memory_def session_new_def session_with_capacity_def session_with_backend_def SESSION_TTL_SECS_def)
  ultimately have "session_validate in_memory 6 (resp_token resp) (ap_sessions p2) = (ap_sessions p2, Inr ref_did)"
    using login_sound [OF inv l(2)] by simp
  with l(2) show ?thesis by blast
qed

end
