(* ===== verification/Webauthn.thy ===== *)
theory Webauthn
  imports Encodings Urls
begin

unbundle bit_operations_syntax

text \<open>
  Passkey assertions against a stored key: the crates the passkey components call, the derived
  login challenge (login\_challenge.rs) and \<open>verify_webauthn_assertion\<close> with the parts it shares
  with the store-free verifier (webauthn.rs).
\<close>

section \<open>The crates\<close>

text \<open>
  JSON as the text has it, the members of an object in order and repeated ones kept. An object
  read into a \<open>serde_json::Value\<close> is a map, where the last of repeated members stays; one read
  into a struct is refused when a known member is repeated.
\<close>

datatype json_text =
    JNull
  | JBool bool
  | JNumber string
  | JString string
  | JArray "json_text list"
  | JObject "(string \<times> json_text) list"

text \<open>
  base64's two engines (strict and padding-indifferent URL-safe), serde\_json's reader with the
  text of its error for an input it refuses, p256's 64-byte signatures, low-s form, key recovery
  by the parity of \<open>R\<close> and compressed points, and SubjectPublicKeyInfo. \<open>unicode_debug\<close> is
  the escaping of a run of non-ASCII characters in a \<open>Debug\<close> string, a Unicode table.
\<close>

record 'x passkey_crates = "'x crates" +
  b64url_no_pad_decode :: "string \<Rightarrow> string + bytes"
  b64url_decode :: "string \<Rightarrow> string + bytes"
  json_read :: "bytes \<Rightarrow> json_text option"
  serde_error_text :: "bytes \<Rightarrow> string"
  p256_sig_from_bytes :: "bytes \<Rightarrow> string + 'x"
  p256_normalize_s :: "'x \<Rightarrow> 'x option"
  p256_recover :: "bytes \<Rightarrow> 'x \<Rightarrow> bool \<Rightarrow> 'x option"
  p256_compressed :: "'x \<Rightarrow> bytes"
  p256_from_spki :: "bytes \<Rightarrow> string + 'x"
  unicode_debug :: "string \<Rightarrow> string"

text \<open>base64: decoding undoes encoding.\<close>

definition b64url_law :: "('x, 'z) passkey_crates_scheme \<Rightarrow> bool" where
  "b64url_law E \<longleftrightarrow> (\<forall>b. b64url_decode E (b64_encode E b) = Inr b)"

text \<open>
  p256: a key recovered from a digest verifies the signature over the message digested; a
  compressed point is 33 bytes, names its key and is on the curve; a signature and its low-s form
  verify alike.
\<close>

definition recovery_law :: "('x, 'z) passkey_crates_scheme \<Rightarrow> bool" where
  "recovery_law E \<longleftrightarrow>
     (\<forall>m s y k. p256_recover E (sha256 E m) s y = Some k \<longrightarrow> p256_verify E k m s) \<and>
     (\<forall>k. length (p256_compressed E k) = 33 \<and> is_ok (p256_pubkey_from_sec1 E (p256_compressed E k))) \<and>
     (\<forall>k m s s'. p256_normalize_s E s = Some s' \<longrightarrow> p256_verify E k m s' = p256_verify E k m s)"

lemma recovery_lawD:
  assumes "recovery_law E"
  shows "p256_recover E (sha256 E m) s y = Some k \<Longrightarrow> p256_verify E k m s"
    and "length (p256_compressed E k) = 33"
    and "is_ok (p256_pubkey_from_sec1 E (p256_compressed E k))"
    and "p256_normalize_s E s = Some s' \<Longrightarrow> p256_verify E k m s' = p256_verify E k m s"
  using assms by (simp_all add: recovery_law_def)

section \<open>The derived login challenge\<close>

definition LOGIN_CHALLENGE_TAG :: bytes where
  "LOGIN_CHALLENGE_TAG = as_bytes ''aqua-auth/webauthn-login/v1''"

datatype login_challenge_error =
    InvalidUrl string
  | UnsupportedScheme string

definition derive_login_challenge ::
  "('x, 'z) crates_scheme \<Rightarrow> url_parser \<Rightarrow> bytes \<Rightarrow> string \<Rightarrow> login_challenge_error + bytes" where
  "derive_login_challenge E U nonce node_url =
     rbind (map_err InvalidUrl (U node_url)) (\<lambda>url.
       if \<not> (pu_scheme url = ''http'' \<or> pu_scheme url = ''https'') then
         Inl (UnsupportedScheme (pu_scheme url))
       else Inr (sha256 E (LOGIN_CHALLENGE_TAG @ nonce @ as_bytes (pu_origin url))))"

section \<open>Authenticator data\<close>

definition FLAG_UP :: "8 word" where "FLAG_UP = 0x01"
definition FLAG_UV :: "8 word" where "FLAG_UV = 0x04"
definition FLAG_BE :: "8 word" where "FLAG_BE = 0x08"
definition FLAG_BS :: "8 word" where "FLAG_BS = 0x10"

record authenticator_data =
  ad_rp_id_hash :: bytes
  ad_flags :: "8 word"

definition parse_authenticator_data :: "bytes \<Rightarrow> string + authenticator_data" where
  "parse_authenticator_data bs =
     (if length bs < 37 then
        Inl (''authenticatorData too short: '' @ show_nat (length bs) @ '' bytes, need at least 37'')
      else Inr \<lparr>ad_rp_id_hash = take 32 bs, ad_flags = bs ! 32\<rparr>)"

definition signed_payload :: "('x, 'z) crates_scheme \<Rightarrow> bytes \<Rightarrow> bytes \<Rightarrow> bytes" where
  "signed_payload E authenticator_data client_data_json =
     authenticator_data @ sha256 E client_data_json"

section \<open>Verification against a stored key\<close>

text \<open>\<open>Value::get\<close> and \<open>as_str\<close>.\<close>

fun json_get :: "string \<Rightarrow> json_text \<Rightarrow> json_text option" where
  "json_get k (JObject ms) = map_of (rev ms) k"
| "json_get k _ = None"

fun json_as_str :: "json_text \<Rightarrow> string option" where
  "json_as_str (JString s) = Some s"
| "json_as_str _ = None"

definition get_str :: "string \<Rightarrow> json_text \<Rightarrow> string option" where
  "get_str k v = Option.bind (json_get k v) json_as_str"

definition single_quoted :: "string \<Rightarrow> string" where
  "single_quoted s = CHR 0x27 # s @ [CHR 0x27]"

definition missing_field :: "string \<Rightarrow> crypto_error" where
  "missing_field k = InvalidSignature (''clientDataJSON missing '' @ single_quoted k @ '' field'')"

record webauthn_assertion_params =
  wa_credential_public_key :: bytes
  wa_authenticator_data :: bytes
  wa_client_data_json :: bytes
  wa_signature :: bytes
  wa_expected_challenge :: bytes
  wa_expected_origin :: string
  wa_expected_rp_id :: string

definition verify_webauthn_assertion ::
  "('x, 'z) passkey_crates_scheme \<Rightarrow> webauthn_assertion_params \<Rightarrow> crypto_error + bool" where
  "verify_webauthn_assertion E params =
     rbind (map_err InvalidSignature (parse_authenticator_data (wa_authenticator_data params)))
       (\<lambda>auth_data.
     if ad_rp_id_hash auth_data \<noteq> sha256 E (as_bytes (wa_expected_rp_id params)) then
       Inl (InvalidSignature ''rpIdHash mismatch: authenticatorData does not match expected rpId'')
     else if ad_flags auth_data AND FLAG_UP = 0 then
       Inl (InvalidSignature ''User Present flag not set in authenticatorData'')
     else
     rbind (ok_or (json_read E (wa_client_data_json params))
              (InvalidSignature (''invalid clientDataJSON: '' @ serde_error_text E (wa_client_data_json params))))
       (\<lambda>client_data.
     rbind (ok_or (get_str ''type'' client_data) (missing_field ''type''))
       (\<lambda>cd_type.
     if cd_type \<noteq> ''webauthn.get'' then
       Inl (InvalidSignature (''clientDataJSON type mismatch: expected '' @ single_quoted ''webauthn.get'' @
              '', got '' @ single_quoted cd_type))
     else
     rbind (ok_or (get_str ''challenge'' client_data) (missing_field ''challenge''))
       (\<lambda>cd_challenge.
     rbind (map_err (\<lambda>e. InvalidSignature (''invalid base64url challenge: '' @ e))
              (b64url_no_pad_decode E cd_challenge))
       (\<lambda>decoded_challenge.
     if decoded_challenge \<noteq> wa_expected_challenge params then Inl (InvalidSignature ''challenge mismatch'')
     else
     rbind (ok_or (get_str ''origin'' client_data) (missing_field ''origin''))
       (\<lambda>cd_origin.
     if cd_origin \<noteq> wa_expected_origin params then
       Inl (InvalidSignature (''origin mismatch: expected '' @ single_quoted (wa_expected_origin params) @
              '', got '' @ single_quoted cd_origin))
     else if length (wa_signature params) \<noteq> 64 then
       Inl (InvalidSignature (''signature must be 64 bytes (r||s), got '' @ show_nat (length (wa_signature params))))
     else
     rbind (map_err (\<lambda>e. InvalidSignature (''invalid public key encoding: '' @ e))
              (p256_point_from_bytes E (wa_credential_public_key params)))
       (\<lambda>encoded_point.
     rbind (map_err (\<lambda>e. InvalidSignature (''invalid P-256 public key: '' @ e))
              (p256_key_from_point E encoded_point))
       (\<lambda>verifying_key.
     rbind (map_err (\<lambda>e. InvalidSignature (''invalid signature encoding: '' @ e))
              (p256_sig_from_bytes E (wa_signature params)))
       (\<lambda>signature.
         Inr (p256_verify E verifying_key
                (signed_payload E (wa_authenticator_data params) (wa_client_data_json params))
                signature))))))))))"

section \<open>Lemmas\<close>

lemma parse_authenticator_data_Inr:
  "parse_authenticator_data bs = Inr d \<longleftrightarrow>
     37 \<le> length bs \<and> d = \<lparr>ad_rp_id_hash = take 32 bs, ad_flags = bs ! 32\<rparr>"
  by (auto simp: parse_authenticator_data_def)

text \<open>
  The signed payload fixes both of its parts, as far as the digest does: two payloads are equal
  only with the same authenticator data and the same digest.
\<close>

lemma signed_payload_inject:
  assumes "digest_law E"
  shows "signed_payload E a c = signed_payload E a' c' \<longleftrightarrow> a = a' \<and> sha256 E c = sha256 E c'"
  using assms by (auto simp: signed_payload_def digest_law_def)

lemma unat_of_char [simp]: "unat (of_char c :: 8 word) = of_char c"
proof -
  have "(of_char c :: 8 word) = of_nat (of_char c)" by (simp add: of_nat_of_char)
  moreover have "(of_char c :: nat) < 256" by simp
  ultimately show ?thesis by (simp add: unat_of_nat take_bit_nat_eq_self)
qed

lemma as_bytes_inject [simp]: "as_bytes s = as_bytes t \<longleftrightarrow> s = t"
proof -
  have "inj (of_char :: char \<Rightarrow> 8 word)"
    by (rule injI) (metis of_char_eq_iff unat_of_char)
  then show ?thesis by (auto simp: as_bytes_def map_injective dest: map_injective)
qed

end
