(* ===== verification/Webauthn_Policy.thy ===== *)
theory Webauthn_Policy
  imports Ref_Crates Urls
begin

text \<open>
  The relying-party policy (webauthn\_policy.rs): RP IDs with the origins allowed to assert for
  them, checked and normalised once when the policy is built.
\<close>

section \<open>Errors and entries\<close>

datatype policy_error =
    InvalidRpId string string
  | InvalidOrigin string string
  | OriginOutsideRpId string string
  | NoOrigins string
  | DuplicateRpId string
  | NoRp

record rp_entry =
  rp_id :: string
  rp_id_hash :: bytes
  rp_origins :: "string list"

definition allows_origin :: "rp_entry \<Rightarrow> string \<Rightarrow> bool" where
  "allows_origin e origin = (\<exists>o' \<in> set (rp_origins e). o' = origin)"

record assertion_policy =
  pol_entries :: "rp_entry list"
  pol_require_uv :: bool

definition policy_builder :: assertion_policy where
  "policy_builder = \<lparr>pol_entries = [], pol_require_uv = True\<rparr>"

definition entry_for_rp_id_hash :: "assertion_policy \<Rightarrow> bytes \<Rightarrow> rp_entry option" where
  "entry_for_rp_id_hash p h = find (\<lambda>e. rp_id_hash e = h) (pol_entries p)"

section \<open>Hosts\<close>

definition is_plain_hostname :: "string \<Rightarrow> bool" where
  "is_plain_hostname host =
     (host \<noteq> [] \<and> (\<forall>c \<in> set host. is_ascii_alphanumeric c \<or> c = CHR ''.'' \<or> c = CHR ''-''))"

definition host_within_rp_id :: "string \<Rightarrow> string \<Rightarrow> bool" where
  "host_within_rp_id host rp =
     (let h = to_ascii_lowercase (trim_end_char CHR ''.'' host) in
      h = rp \<or> ends_with (''.'' @ rp) h)"

text \<open>
  \<open>parse::<IpAddr>\<close> of a plain hostname: four decimal octets without leading zeros. An IPv6
  address has a colon, which a plain hostname has not, and both calls follow that check.
\<close>

definition ipv4_octet :: "string \<Rightarrow> bool" where
  "ipv4_octet s =
     (s \<noteq> [] \<and> length s \<le> 3 \<and> (\<forall>c \<in> set s. is_ascii_digit c) \<and>
      (length s = 1 \<or> hd s \<noteq> CHR ''0'') \<and> digits_value s < 256)"

definition parses_as_ip :: "string \<Rightarrow> bool" where
  "parses_as_ip s = (let octets = split_on CHR ''.'' s in length octets = 4 \<and> list_all ipv4_octet octets)"

definition validate_rp_id :: "string \<Rightarrow> policy_error + string" where
  "validate_rp_id raw =
     (let r = to_ascii_lowercase (trim_end_char CHR ''.'' (trim raw)) in
      if \<not> is_plain_hostname r then
        Inl (InvalidRpId raw ''must be a bare ASCII domain (no scheme, port, path, user info or wildcard)'')
      else if starts_with ''.'' r \<or> (\<exists>label \<in> set (split_on CHR ''.'' r). label = []) then
        Inl (InvalidRpId raw ''empty DNS label'')
      else if parses_as_ip r then Inl (InvalidRpId raw ''IP literals are not allowed'')
      else if CHR ''.'' \<notin> set r \<and> r \<noteq> ''localhost'' then
        Inl (InvalidRpId raw ''single-label RP IDs other than localhost are refused'')
      else Inr r)"

definition normalise_origin :: "url_parser \<Rightarrow> string \<Rightarrow> policy_error + (string \<times> string)" where
  "normalise_origin U raw =
     (let trimmed = trim_end_char CHR ''/'' (trim raw) in
      rbind (map_err (InvalidOrigin raw) (U trimmed)) (\<lambda>url.
      if pu_username url \<noteq> [] \<or> pu_password url \<noteq> None then
        Inl (InvalidOrigin raw ''user info is not part of an origin'')
      else if \<not> (pu_path url = [] \<or> pu_path url = ''/'') \<or> pu_query url \<noteq> None \<or> pu_fragment url \<noteq> None then
        Inl (InvalidOrigin raw ''must be scheme://host[:port] only'')
      else
      rbind (ok_or (pu_host_str url) (InvalidOrigin raw ''no host'')) (\<lambda>h.
      let host = to_ascii_lowercase h in
      if \<not> is_plain_hostname host then
        Inl (InvalidOrigin raw ''host must be a plain hostname (no wildcards or IP literals in brackets)'')
      else
      let local = (host = ''localhost'' \<or> ends_with ''.localhost'' host) in
      if pu_scheme url = ''https'' \<or> (pu_scheme url = ''http'' \<and> local) then Inr (pu_origin url, host)
      else Inl (InvalidOrigin raw (''scheme '' @ pu_scheme url @ '' not allowed (https, or http on localhost)'')))))"

section \<open>The builder\<close>

text \<open>The two loops of \<open>add_rp\<close>, over the list of normalised origins.\<close>

definition push_new :: "string \<Rightarrow> string list \<Rightarrow> string list" where
  "push_new origin normalised = (if origin \<in> set normalised then normalised else normalised @ [origin])"

fun add_origins :: "url_parser \<Rightarrow> string \<Rightarrow> string list \<Rightarrow> string list \<Rightarrow> policy_error + string list" where
  "add_origins U rp [] normalised = Inr normalised"
| "add_origins U rp (raw # rest) normalised =
     rbind (normalise_origin U raw) (\<lambda>(origin, host).
       if \<not> host_within_rp_id host rp then Inl (OriginOutsideRpId origin rp)
       else add_origins U rp rest (push_new origin normalised))"

fun add_related_origins :: "url_parser \<Rightarrow> string list \<Rightarrow> string list \<Rightarrow> policy_error + string list" where
  "add_related_origins U [] normalised = Inr normalised"
| "add_related_origins U (raw # rest) normalised =
     rbind (normalise_origin U raw) (\<lambda>(origin, host).
       if parses_as_ip host then
         Inl (InvalidOrigin raw ''IP literals are not allowed as related origins'')
       else add_related_origins U rest (push_new origin normalised))"

definition add_rp ::
  "('x, 'z) crates_scheme \<Rightarrow> url_parser \<Rightarrow> string \<Rightarrow> string list \<Rightarrow> string list \<Rightarrow> assertion_policy \<Rightarrow>
   policy_error + assertion_policy" where
  "add_rp E U raw_rp_id origins related_origins p =
     rbind (validate_rp_id raw_rp_id) (\<lambda>rp.
     if \<exists>e \<in> set (pol_entries p). rp_id e = rp then Inl (DuplicateRpId rp)
     else if origins = [] \<and> related_origins = [] then Inl (NoOrigins rp)
     else
     rbind (add_origins U rp origins []) (\<lambda>within.
     rbind (add_related_origins U related_origins within) (\<lambda>normalised.
       Inr (p\<lparr>pol_entries := pol_entries p @
         [\<lparr>rp_id = rp, rp_id_hash = sha256 E (as_bytes rp), rp_origins = normalised\<rparr>]\<rparr>))))"

definition builder_rp ::
  "('x, 'z) crates_scheme \<Rightarrow> url_parser \<Rightarrow> string \<Rightarrow> string list \<Rightarrow> assertion_policy \<Rightarrow>
   policy_error + assertion_policy" where
  "builder_rp E U raw_rp_id origins p = add_rp E U raw_rp_id origins [] p"

definition builder_rp_with_related_origins ::
  "('x, 'z) crates_scheme \<Rightarrow> url_parser \<Rightarrow> string \<Rightarrow> string list \<Rightarrow> string list \<Rightarrow> assertion_policy \<Rightarrow>
   policy_error + assertion_policy" where
  "builder_rp_with_related_origins E U raw_rp_id origins related p = add_rp E U raw_rp_id origins related p"

definition builder_require_uv :: "bool \<Rightarrow> assertion_policy \<Rightarrow> assertion_policy" where
  "builder_require_uv on p = p\<lparr>pol_require_uv := on\<rparr>"

definition policy_build :: "assertion_policy \<Rightarrow> policy_error + assertion_policy" where
  "policy_build p = (if pol_entries p = [] then Inl NoRp else Inr p)"

section \<open>What a policy holds\<close>

text \<open>
  The specification of one entry, with the configuration it came from: the RP ID is a lowercase
  domain of non-empty labels, no IP literal, with two labels at least but for \<open>localhost\<close>; the
  digest is that of the RP ID; every origin is there once and is that of a URL whose host is within the
  RP ID, or is the normal form of a text that was listed as related for it, with a host that is no IP literal.
\<close>

definition rp_id_ok :: "string \<Rightarrow> bool" where
  "rp_id_ok r \<longleftrightarrow>
     to_ascii_lowercase r = r \<and> is_plain_hostname r \<and> (\<forall>label \<in> set (split_on CHR ''.'' r). label \<noteq> []) \<and>
     \<not> parses_as_ip r \<and> (CHR ''.'' \<in> set r \<or> r = ''localhost'')"

text \<open>An origin a browser reports for a URL with that host: https, or http on localhost.\<close>

definition origin_of_host :: "url_parser \<Rightarrow> string \<Rightarrow> string \<Rightarrow> bool" where
  "origin_of_host U origin host \<longleftrightarrow>
     (\<exists>s url h. U s = Inr url \<and> pu_origin url = origin \<and> pu_host_str url = Some h \<and>
        host = to_ascii_lowercase h \<and> is_plain_hostname host \<and>
        (pu_scheme url = ''https'' \<or>
         pu_scheme url = ''http'' \<and> (host = ''localhost'' \<or> ends_with ''.localhost'' host)))"

definition entry_ok ::
  "('x, 'z) crates_scheme \<Rightarrow> url_parser \<Rightarrow> string set \<Rightarrow> rp_entry \<Rightarrow> bool" where
  "entry_ok E U related e \<longleftrightarrow>
     rp_id_ok (rp_id e) \<and> rp_id_hash e = sha256 E (as_bytes (rp_id e)) \<and>
     rp_origins e \<noteq> [] \<and> distinct (rp_origins e) \<and>
     (\<forall>origin \<in> set (rp_origins e). \<exists>host. origin_of_host U origin host \<and>
        (host_within_rp_id host (rp_id e) \<or>
         \<not> parses_as_ip host \<and> (\<exists>raw \<in> related. normalise_origin U raw = Inr (origin, host))))"

text \<open>A policy under construction: a run of the builder's methods, with the texts that were listed as
  related, each with the RP ID it was listed for.\<close>

inductive built ::
  "('x, 'z) crates_scheme \<Rightarrow> url_parser \<Rightarrow> (string \<times> string) set \<Rightarrow> assertion_policy \<Rightarrow> bool"
  for E U where
  built_new: "built E U {} policy_builder"
| built_rp: "built E U R p \<Longrightarrow> builder_rp E U raw origins p = Inr p' \<Longrightarrow> built E U R p'"
| built_related: "built E U R p \<Longrightarrow> validate_rp_id raw = Inr rp \<Longrightarrow>
    builder_rp_with_related_origins E U raw origins related p = Inr p' \<Longrightarrow>
    built E U (R \<union> {rp} \<times> set related) p'"
| built_uv: "built E U R p \<Longrightarrow> built E U R (builder_require_uv on p)"

section \<open>Lemmas\<close>


lemma validate_rp_id_ok:
  assumes "validate_rp_id raw = Inr r"
  shows "rp_id_ok r"
proof -
  have "r = to_ascii_lowercase (trim_end_char CHR ''.'' (trim raw))"
    using assms by (auto simp: validate_rp_id_def Let_def split: if_splits)
  then have "to_ascii_lowercase r = r" by (simp only: to_ascii_lowercase_idem)
  with assms show ?thesis by (auto simp: validate_rp_id_def rp_id_ok_def Let_def split: if_splits)
qed

lemma normalise_origin_ok: "normalise_origin U raw = Inr (origin, host) \<Longrightarrow> origin_of_host U origin host"
  unfolding origin_of_host_def
  by (auto simp: normalise_origin_def Let_def split: if_splits)

lemma push_new [simp]:
  "set (push_new origin xs) = insert origin (set xs)"
  "distinct xs \<Longrightarrow> distinct (push_new origin xs)" "push_new origin xs \<noteq> []"
  by (auto simp: push_new_def)

lemma add_origins_ok:
  assumes "add_origins U rp raws acc = Inr out" "distinct acc"
  shows "distinct out" "set acc \<subseteq> set out" "raws \<noteq> [] \<Longrightarrow> out \<noteq> []"
    "origin \<in> set out \<Longrightarrow> origin \<in> set acc \<or> (\<exists>host. origin_of_host U origin host \<and> host_within_rp_id host rp)"
  using assms
  by (induction U rp raws acc arbitrary: out rule: add_origins.induct)
     (auto split: if_splits dest!: normalise_origin_ok, fastforce+)

lemma add_related_origins_ok:
  assumes "add_related_origins U raws acc = Inr out" "distinct acc"
  shows "distinct out" "set acc \<subseteq> set out" "raws \<noteq> [] \<Longrightarrow> out \<noteq> []"
  using assms
  by (induction U raws acc arbitrary: out rule: add_related_origins.induct) (auto split: if_splits, fastforce+)

lemma add_related_origins_from:
  assumes "add_related_origins U raws acc = Inr out" "origin \<in> set out"
  shows "origin \<in> set acc \<or>
    (\<exists>host. \<not> parses_as_ip host \<and> (\<exists>raw \<in> set raws. normalise_origin U raw = Inr (origin, host)))"
  using assms
proof (induction raws arbitrary: acc)
  case (Cons raw raws)
  from Cons.prems(1) obtain o1 h where n: "normalise_origin U raw = Inr (o1, h)" "\<not> parses_as_ip h"
    "add_related_origins U raws (push_new o1 acc) = Inr out" by (auto split: if_splits)
  from Cons.IH [OF n(3) Cons.prems(2)] n(1,2) show ?case by auto
qed simp

lemma entry_ok_mono: "entry_ok E U r e \<Longrightarrow> r \<subseteq> r' \<Longrightarrow> entry_ok E U r' e"
  unfolding entry_ok_def by blast

lemma add_rp_Inr:
  assumes "add_rp E U raw origins related p = Inr p'"
  obtains rp out where "validate_rp_id raw = Inr rp" "rp \<notin> rp_id ` set (pol_entries p)"
    "p' = p\<lparr>pol_entries := pol_entries p @ [\<lparr>rp_id = rp, rp_id_hash = sha256 E (as_bytes rp), rp_origins = out\<rparr>]\<rparr>"
    "entry_ok E U (set related) \<lparr>rp_id = rp, rp_id_hash = sha256 E (as_bytes rp), rp_origins = out\<rparr>"
proof -
  from assms obtain rp within out where a: "validate_rp_id raw = Inr rp" "rp \<notin> rp_id ` set (pol_entries p)"
    "\<not> (origins = [] \<and> related = [])" "add_origins U rp origins [] = Inr within"
    "add_related_origins U related within = Inr out"
    "p' = p\<lparr>pol_entries := pol_entries p @ [\<lparr>rp_id = rp, rp_id_hash = sha256 E (as_bytes rp), rp_origins = out\<rparr>]\<rparr>"
    by (auto simp: add_rp_def split: if_splits)
  note within = add_origins_ok [OF a(4) distinct.simps(1) [THEN iffD2, OF TrueI]]
  note out = add_related_origins_ok [OF a(5) within(1)]
  have "out \<noteq> []" using a(3) within(3) out(2,3) by auto
  moreover have "\<exists>host. origin_of_host U o' host \<and> (host_within_rp_id host rp \<or>
      \<not> parses_as_ip host \<and> (\<exists>raw \<in> set related. normalise_origin U raw = Inr (o', host)))" if "o' \<in> set out" for o'
    using add_related_origins_from [OF a(5) that] within(4) [of o'] by (auto dest: normalise_origin_ok)
  ultimately show thesis using that a(1,2,6) out(1) validate_rp_id_ok [OF a(1)] by (simp add: entry_ok_def)
qed

lemma built_entries:
  assumes "built E U R p"
  shows "distinct (map rp_id (pol_entries p)) \<and> (\<forall>e \<in> set (pol_entries p). entry_ok E U {raw. (rp_id e, raw) \<in> R} e)"
  using assms
proof induction
  case built_new
  show ?case by (simp add: policy_builder_def)
next
  case (built_rp R p raw origins p')
  show ?case
    by (rule add_rp_Inr [OF built_rp(2) [unfolded builder_rp_def]])
       (use built_rp.IH in \<open>auto intro: entry_ok_mono\<close>)
next
  case (built_related R p raw rp origins related p')
  show ?case
    by (rule add_rp_Inr [OF built_related(3) [unfolded builder_rp_with_related_origins_def]])
       (use built_related.IH built_related(2) in \<open>auto intro: entry_ok_mono\<close>)
next
  case (built_uv R p on)
  then show ?case by (simp add: builder_require_uv_def)
qed

section \<open>Properties\<close>

text \<open>
  C25. A policy that was built is sound: it serves one RP ID at least, no RP ID twice, each a
  lowercase domain that is no IP literal and has two labels (or is \<open>localhost\<close>), with its own
  digest; every origin of an entry is the browser's form of a https URL, or of a http URL on localhost or a
  name under it. Its host lies within the RP ID, unless that very origin is the normal form of one that was
  listed as related for that RP ID, and then its host is no IP literal.
\<close>

theorem policy_sound:
  assumes "built E U R b" "policy_build b = Inr p"
  shows "pol_entries p \<noteq> [] \<and> distinct (map rp_id (pol_entries p)) \<and>
    (\<forall>e \<in> set (pol_entries p). entry_ok E U {raw. (rp_id e, raw) \<in> R} e) \<and>
    (\<forall>h e. entry_for_rp_id_hash p h = Some e \<longrightarrow> e \<in> set (pol_entries p) \<and> h = sha256 E (as_bytes (rp_id e)))"
proof -
  have p: "p = b" "pol_entries b \<noteq> []" using assms(2) by (auto simp: policy_build_def split: if_splits)
  note b = built_entries [OF assms(1)]
  have "e \<in> set (pol_entries p) \<and> h = sha256 E (as_bytes (rp_id e))" if "entry_for_rp_id_hash p h = Some e" for h e
    using find_SomeD [OF that [unfolded entry_for_rp_id_hash_def]] b p by (auto simp: entry_ok_def)
  with p b show ?thesis by blast
qed

lemma ref_local_trim: "trim ''localhost'' = ''localhost''" "trim ''http://localhost'' = ''http://localhost''"
  by (rule trim_graphic, simp add: graphic_def)+

lemma ref_local_lower: "to_ascii_lowercase ''localhost'' = ''localhost''"
  by (simp add: to_ascii_lowercase_def to_lower_char_def is_ascii_upper_def)

lemma ref_local_plain: "is_plain_hostname ''localhost''"
  by (simp add: is_plain_hostname_def is_ascii_alphanumeric_def is_ascii_lower_def)

definition ref_policy :: assertion_policy where
  "ref_policy = \<lparr>pol_entries = [\<lparr>rp_id = ''localhost'', rp_id_hash = sha256 ref_crates (as_bytes ''localhost''),
     rp_origins = [''http://localhost'']\<rparr>], pol_require_uv = True\<rparr>"

lemma ref_rp_id: "validate_rp_id ''localhost'' = Inr ''localhost''"
  by (simp add: validate_rp_id_def ref_local_trim ref_local_lower ref_local_plain Let_def starts_with_def
      parses_as_ip_def)

lemma ref_origin_normal: "normalise_origin ref_url ''http://localhost'' = Inr (''http://localhost'', ''localhost'')"
  by (simp add: normalise_origin_def ref_local_trim ref_url_def starts_with_def is_ascii_lower_def Let_def
      ref_local_lower ref_local_plain)

lemma ref_policy_built: "builder_rp ref_crates ref_url ''localhost'' [''http://localhost''] policy_builder = Inr ref_policy"
  by (simp add: builder_rp_def add_rp_def ref_rp_id policy_builder_def ref_origin_normal push_new_def
      host_within_rp_id_def ref_local_lower Let_def ref_policy_def)

text \<open>A policy with an origin of each kind.\<close>

definition ref_related_policy :: assertion_policy where
  "ref_related_policy = \<lparr>pol_entries = [\<lparr>rp_id = ''localhost'', rp_id_hash = sha256 ref_crates (as_bytes ''localhost''),
     rp_origins = [''http://localhost'', ''https://a.b'']\<rparr>], pol_require_uv = True\<rparr>"

lemma ref_related_normal: "normalise_origin ref_url ''https://a.b'' = Inr (''https://a.b'', ''a.b'')"
proof -
  have "trim ''https://a.b'' = ''https://a.b''" by (rule trim_graphic) (simp add: graphic_def)
  moreover have "to_ascii_lowercase ''a.b'' = ''a.b''" "is_plain_hostname ''a.b''"
    by (simp_all add: to_ascii_lowercase_def to_lower_char_def is_ascii_upper_def is_plain_hostname_def
        is_ascii_alphanumeric_def is_ascii_lower_def)
  ultimately show ?thesis by (simp add: normalise_origin_def ref_url_def starts_with_def is_ascii_lower_def Let_def)
qed

lemma ref_related_built:
  "builder_rp_with_related_origins ref_crates ref_url ''localhost'' [''http://localhost''] [''https://a.b''] policy_builder =
     Inr ref_related_policy"
  by (simp add: builder_rp_with_related_origins_def add_rp_def ref_rp_id policy_builder_def ref_origin_normal
      ref_related_normal push_new_def host_within_rp_id_def ref_local_lower parses_as_ip_def split_on_def Let_def
      ref_related_policy_def)

theorem policy_sound_witness:
  "entry_ok ref_crates ref_url {''https://a.b''} (hd (pol_entries ref_related_policy))"
proof -
  have b: "built ref_crates ref_url ({} \<union> {''localhost''} \<times> set [''https://a.b'']) ref_related_policy"
    by (rule built_related [OF built_new ref_rp_id ref_related_built])
  have "policy_build ref_related_policy = Inr ref_related_policy" by (simp add: policy_build_def ref_related_policy_def)
  from policy_sound [OF b this] show ?thesis by (simp add: ref_related_policy_def)
qed

end
