(* ===== verification/Webauthn_Recover.thy ===== *)
theory Webauthn_Recover
  imports Webauthn Webauthn_Policy
begin

unbundle bit_operations_syntax

text \<open>
  The store-free passkey verifier (webauthn\_recover.rs): every check of an assertion that needs
  no public key, then the two P-256 keys its signature verifies under.
\<close>

section \<open>Assertions\<close>

record assertion_response_json =
  ar_authenticator_data :: string
  ar_client_data_json :: string
  ar_signature :: string
  ar_user_handle :: "string option"

record assertion_json =
  aj_id :: string
  aj_raw_id :: string
  aj_type :: string
  aj_response :: assertion_response_json
  aj_client_extension_results :: json_text

datatype expected_challenge =
    Exact bytes
  | DerivedLogin bytes string

record 'x recovered_assertion =
  ra_rp_id :: string
  ra_origin :: string
  ra_user_verified :: bool
  ra_backup_eligible :: bool
  ra_backup_state :: bool
  ra_credential_id :: bytes
  ra_user_handle :: "bytes option"
  ra_candidates :: "'x \<times> 'x"

text \<open>\<open>did_key_of\<close>; the 33 bytes its \<open>expect\<close> relies on are p256's.\<close>

definition did_key_of :: "('x, 'z) passkey_crates_scheme \<Rightarrow> 'x \<Rightarrow> string" where
  "did_key_of E vk = p256_did_key_from_pubkey E (p256_compressed E vk)"

definition candidate_dids ::
  "('x, 'z) passkey_crates_scheme \<Rightarrow> 'x recovered_assertion \<Rightarrow> string \<times> string" where
  "candidate_dids E r = map_prod (did_key_of E) (did_key_of E) (ra_candidates r)"

datatype assertion_error =
    Malformed string
  | RpIdNotAllowed
  | OriginNotAllowed
  | CrossOrigin
  | TopOriginPresent
  | WrongType
  | ChallengeMismatch
  | UserPresenceMissing
  | UserVerificationMissing
  | BadSignature
  | InvalidNodeUrl login_challenge_error

section \<open>Debug strings\<close>

definition debug_hex :: "nat \<Rightarrow> string" where
  "debug_hex n = (if n < 16 then [hex_digit n] else [hex_digit (n div 16), hex_digit (n mod 16)])"

definition debug_ascii :: "char \<Rightarrow> string" where
  "debug_ascii c =
     (if c = CHR 0x00 then [CHR 0x5C, CHR ''0'']
      else if c = CHR 0x09 then [CHR 0x5C, CHR ''t'']
      else if c = CR then [CHR 0x5C, CHR ''r'']
      else if c = LF then [CHR 0x5C, CHR ''n'']
      else if c = DQUOTE \<or> c = CHR 0x5C then [CHR 0x5C, c]
      else if (of_char c :: nat) < 0x20 \<or> c = CHR 0x7F then
        [CHR 0x5C, CHR ''u'', CHR 0x7B] @ debug_hex (of_char c) @ [CHR 0x7D]
      else [c])"

fun debug_body :: "(string \<Rightarrow> string) \<Rightarrow> string \<Rightarrow> string \<Rightarrow> string" where
  "debug_body table run [] = (if run = [] then [] else table run)"
| "debug_body table run (c # s) =
     (if (of_char c :: nat) < 0x80 then
        (if run = [] then [] else table run) @ debug_ascii c @ debug_body table [] s
      else debug_body table (run @ [c]) s)"

definition debug_str :: "('x, 'z) passkey_crates_scheme \<Rightarrow> string \<Rightarrow> string" where
  "debug_str E s = DQUOTE # debug_body (unicode_debug E) [] s @ [DQUOTE]"

section \<open>Error texts\<close>

fun login_challenge_error_display :: "('x, 'z) passkey_crates_scheme \<Rightarrow> login_challenge_error \<Rightarrow> string" where
  "login_challenge_error_display E (InvalidUrl e) = ''node URL does not parse: '' @ e"
| "login_challenge_error_display E (UnsupportedScheme s) =
     ''node URL scheme '' @ debug_str E s @ '' is not http or https''"

fun policy_error_display :: "('x, 'z) passkey_crates_scheme \<Rightarrow> policy_error \<Rightarrow> string" where
  "policy_error_display E (InvalidRpId r reason) = ''invalid WebAuthn RP ID '' @ debug_str E r @ '': '' @ reason"
| "policy_error_display E (InvalidOrigin orig reason) =
     ''invalid WebAuthn origin '' @ debug_str E orig @ '': '' @ reason"
| "policy_error_display E (OriginOutsideRpId orig r) =
     ''WebAuthn origin '' @ orig @ '' is not within RP ID '' @ r"
| "policy_error_display E (NoOrigins r) = ''WebAuthn RP ID '' @ r @ '' has no origins''"
| "policy_error_display E (DuplicateRpId r) = ''WebAuthn RP ID '' @ r @ '' is configured twice''"
| "policy_error_display E NoRp = ''a WebAuthn assertion policy needs at least one RP ID''"

fun assertion_error_display :: "('x, 'z) passkey_crates_scheme \<Rightarrow> assertion_error \<Rightarrow> string" where
  "assertion_error_display E (Malformed s) = ''malformed assertion: '' @ s"
| "assertion_error_display E RpIdNotAllowed = ''assertion RP ID is not allowed''"
| "assertion_error_display E OriginNotAllowed = ''assertion origin is not allowed for its RP ID''"
| "assertion_error_display E CrossOrigin = ''cross-origin assertions are refused''"
| "assertion_error_display E TopOriginPresent = ''assertions carrying topOrigin are refused''"
| "assertion_error_display E WrongType = ''clientDataJSON type is not webauthn.get''"
| "assertion_error_display E ChallengeMismatch = ''challenge mismatch''"
| "assertion_error_display E UserPresenceMissing = ''user presence flag not set''"
| "assertion_error_display E UserVerificationMissing = ''user verification flag not set''"
| "assertion_error_display E BadSignature = ''invalid signature''"
| "assertion_error_display E (InvalidNodeUrl e) =
     ''expected node URL is unusable: '' @ login_challenge_error_display E e"

section \<open>Client data\<close>

record client_data =
  cd_type :: string
  cd_challenge :: string
  cd_origin :: string
  cd_cross_origin :: "bool option"
  cd_top_origin :: bool

text \<open>
  The derived \<open>Deserialize\<close>: the members of an object one by one, each known member once, unknown
  ones ignored; or, as serde\_json reads a struct, the elements of an array in the order of the
  fields. \<open>crossOrigin\<close> and \<open>topOrigin\<close> have defaults, and \<open>topOrigin\<close> is present with any value.
\<close>

record client_fields =
  cf_type :: "string option"
  cf_challenge :: "string option"
  cf_origin :: "string option"
  cf_cross_origin :: "bool option option"
  cf_top_origin :: "bool option"

definition no_fields :: client_fields where
  "no_fields = \<lparr>cf_type = None, cf_challenge = None, cf_origin = None, cf_cross_origin = None,
     cf_top_origin = None\<rparr>"

fun json_opt_bool :: "json_text \<Rightarrow> bool option option" where
  "json_opt_bool JNull = Some None"
| "json_opt_bool (JBool b) = Some (Some b)"
| "json_opt_bool _ = None"

fun visit_member :: "string \<Rightarrow> json_text \<Rightarrow> client_fields \<Rightarrow> client_fields option" where
  "visit_member k v f =
     (if k = ''type'' then
        (if cf_type f \<noteq> None then None
         else map_option (\<lambda>s. f\<lparr>cf_type := Some s\<rparr>) (json_as_str v))
      else if k = ''challenge'' then
        (if cf_challenge f \<noteq> None then None
         else map_option (\<lambda>s. f\<lparr>cf_challenge := Some s\<rparr>) (json_as_str v))
      else if k = ''origin'' then
        (if cf_origin f \<noteq> None then None
         else map_option (\<lambda>s. f\<lparr>cf_origin := Some s\<rparr>) (json_as_str v))
      else if k = ''crossOrigin'' then
        (if cf_cross_origin f \<noteq> None then None
         else map_option (\<lambda>b. f\<lparr>cf_cross_origin := Some b\<rparr>) (json_opt_bool v))
      else if k = ''topOrigin'' then
        (if cf_top_origin f \<noteq> None then None else Some (f\<lparr>cf_top_origin := Some True\<rparr>))
      else Some f)"

fun visit_map :: "(string \<times> json_text) list \<Rightarrow> client_fields \<Rightarrow> client_fields option" where
  "visit_map [] f = Some f"
| "visit_map ((k, v) # ms) f = Option.bind (visit_member k v f) (visit_map ms)"

definition finish_fields :: "client_fields \<Rightarrow> client_data option" where
  "finish_fields f =
     (case (cf_type f, cf_challenge f, cf_origin f) of
        (Some t, Some c, Some orig) \<Rightarrow>
          Some \<lparr>cd_type = t, cd_challenge = c, cd_origin = orig,
                cd_cross_origin = (case cf_cross_origin f of Some b \<Rightarrow> b | None \<Rightarrow> None),
                cd_top_origin = (case cf_top_origin f of Some b \<Rightarrow> b | None \<Rightarrow> False)\<rparr>
      | _ \<Rightarrow> None)"

definition CLIENT_FIELDS :: "string list" where
  "CLIENT_FIELDS = [''type'', ''challenge'', ''origin'', ''crossOrigin'', ''topOrigin'']"

fun client_data_deserialize :: "json_text \<Rightarrow> client_data option" where
  "client_data_deserialize (JObject ms) = Option.bind (visit_map ms no_fields) finish_fields"
| "client_data_deserialize (JArray vs) =
     (if length vs \<le> 5 then Option.bind (visit_map (zip CLIENT_FIELDS vs) no_fields) finish_fields else None)"
| "client_data_deserialize _ = None"

definition client_data_from_slice ::
  "('x, 'z) passkey_crates_scheme \<Rightarrow> bytes \<Rightarrow> string + client_data" where
  "client_data_from_slice E bs =
     ok_or (Option.bind (json_read E bs) client_data_deserialize) (serde_error_text E bs)"

section \<open>Verification and recovery\<close>

definition decode_member ::
  "('x, 'z) passkey_crates_scheme \<Rightarrow> string \<Rightarrow> string \<Rightarrow> assertion_error + bytes" where
  "decode_member E member value = map_err (\<lambda>e. Malformed (member @ '': '' @ e)) (b64url_decode E value)"

fun expected_bytes ::
  "('x, 'z) passkey_crates_scheme \<Rightarrow> url_parser \<Rightarrow> expected_challenge \<Rightarrow> assertion_error + bytes" where
  "expected_bytes E U (Exact want) = Inr want"
| "expected_bytes E U (DerivedLogin nonce node_url) =
     map_err InvalidNodeUrl (derive_login_challenge E U nonce node_url)"

definition verify_and_recover ::
  "('x, 'z) passkey_crates_scheme \<Rightarrow> url_parser \<Rightarrow> assertion_json \<Rightarrow> expected_challenge \<Rightarrow>
   assertion_policy \<Rightarrow> assertion_error + 'x recovered_assertion" where
  "verify_and_recover E U a expected policy =
     (let resp = aj_response a in
      if aj_type a \<noteq> ''public-key'' then
        Inl (Malformed (''credential type '' @ debug_str E (aj_type a) @ '' is not public-key''))
      else
      rbind (decode_member E ''rawId'' (aj_raw_id a)) (\<lambda>credential_id.
      rbind (decode_member E ''id'' (aj_id a)) (\<lambda>id_bytes.
      if id_bytes \<noteq> credential_id then Inl (Malformed ''id does not match rawId'')
      else
      rbind (decode_member E ''authenticatorData'' (ar_authenticator_data resp)) (\<lambda>auth_data_bytes.
      rbind (decode_member E ''clientDataJSON'' (ar_client_data_json resp)) (\<lambda>client_data_json.
      rbind (decode_member E ''signature'' (ar_signature resp)) (\<lambda>signature.
      rbind (case ar_user_handle resp of
               None \<Rightarrow> Inr None
             | Some h \<Rightarrow> rmap Some (decode_member E ''userHandle'' h)) (\<lambda>user_handle.
      rbind (map_err Malformed (parse_authenticator_data auth_data_bytes)) (\<lambda>auth_data.
      rbind (map_err (\<lambda>e. Malformed (''clientDataJSON: '' @ e)) (client_data_from_slice E client_data_json))
        (\<lambda>client.
      if cd_type client \<noteq> ''webauthn.get'' then Inl WrongType
      else
      rbind (map_err (\<lambda>e. Malformed (''clientDataJSON challenge: '' @ e)) (b64url_decode E (cd_challenge client)))
        (\<lambda>challenge.
      rbind (expected_bytes E U expected) (\<lambda>want.
      if challenge \<noteq> want then Inl ChallengeMismatch
      else
      rbind (ok_or (entry_for_rp_id_hash policy (ad_rp_id_hash auth_data)) RpIdNotAllowed) (\<lambda>entry.
      if \<not> allows_origin entry (cd_origin client) then Inl OriginNotAllowed
      else if cd_cross_origin client = Some True then Inl CrossOrigin
      else if cd_top_origin client then Inl TopOriginPresent
      else if ad_flags auth_data AND FLAG_UP = 0 then Inl UserPresenceMissing
      else
      let user_verified = (ad_flags auth_data AND FLAG_UV \<noteq> 0) in
      if pol_require_uv policy \<and> \<not> user_verified then Inl UserVerificationMissing
      else
      rbind (map_err (\<lambda>_. BadSignature) (p256_sig_from_der E signature)) (\<lambda>parsed.
      let sig = (case p256_normalize_s E parsed of Some s \<Rightarrow> s | None \<Rightarrow> parsed);
          z = sha256 E (signed_payload E auth_data_bytes client_data_json)
      in
      rbind (ok_or (p256_recover E z sig False) BadSignature) (\<lambda>even_key.
      rbind (ok_or (p256_recover E z sig True) BadSignature) (\<lambda>odd_key.
        Inr \<lparr>ra_rp_id = rp_id entry, ra_origin = cd_origin client, ra_user_verified = user_verified,
             ra_backup_eligible = (ad_flags auth_data AND FLAG_BE \<noteq> 0),
             ra_backup_state = (ad_flags auth_data AND FLAG_BS \<noteq> 0),
             ra_credential_id = credential_id, ra_user_handle = user_handle,
             ra_candidates = (even_key, odd_key)\<rparr>)))))))))))))))"

section \<open>What an accepted assertion is\<close>

text \<open>The flags of the authenticator data, as bits of its 33rd byte.\<close>

lemma flag_bits:
  "w AND FLAG_UP = 0 \<longleftrightarrow> \<not> bit w 0" "w AND FLAG_UV = 0 \<longleftrightarrow> \<not> bit w 2"
  "w AND FLAG_BE = 0 \<longleftrightarrow> \<not> bit w 3" "w AND FLAG_BS = 0 \<longleftrightarrow> \<not> bit w 4"
  using and_exp_eq_0_iff_not_bit [of w 0] and_exp_eq_0_iff_not_bit [of w 2]
    and_exp_eq_0_iff_not_bit [of w 3] and_exp_eq_0_iff_not_bit [of w 4]
  by (simp_all add: FLAG_UP_def FLAG_UV_def FLAG_BE_def FLAG_BS_def)

text \<open>The bytes of an assertion: credential id, authenticator data, client data, signature, user handle.\<close>

definition assertion_bytes ::
  "('x, 'z) passkey_crates_scheme \<Rightarrow> assertion_json \<Rightarrow> bytes \<Rightarrow> bytes \<Rightarrow> bytes \<Rightarrow> bytes \<Rightarrow> bytes option \<Rightarrow> bool" where
  "assertion_bytes E a cid ad cdj sig uh \<longleftrightarrow>
     aj_type a = ''public-key'' \<and>
     b64url_decode E (aj_raw_id a) = Inr cid \<and> b64url_decode E (aj_id a) = Inr cid \<and>
     b64url_decode E (ar_authenticator_data (aj_response a)) = Inr ad \<and>
     b64url_decode E (ar_client_data_json (aj_response a)) = Inr cdj \<and>
     b64url_decode E (ar_signature (aj_response a)) = Inr sig \<and>
     (case ar_user_handle (aj_response a) of
        None \<Rightarrow> uh = None
      | Some h \<Rightarrow> \<exists>b. b64url_decode E h = Inr b \<and> uh = Some b)"

text \<open>What the ceremony asks of them: the challenge, a served RP ID, an origin listed for it, no
  frame of another origin, the user's presence and, when required, verification.\<close>

definition ceremony_ok ::
  "('x, 'z) passkey_crates_scheme \<Rightarrow> assertion_policy \<Rightarrow> bytes \<Rightarrow> bytes \<Rightarrow> bytes \<Rightarrow> rp_entry \<Rightarrow> client_data \<Rightarrow> bool" where
  "ceremony_ok E policy want ad cdj entry client \<longleftrightarrow>
     37 \<le> length ad \<and> client_data_from_slice E cdj = Inr client \<and> cd_type client = ''webauthn.get'' \<and>
     b64url_decode E (cd_challenge client) = Inr want \<and>
     entry_for_rp_id_hash policy (take 32 ad) = Some entry \<and> cd_origin client \<in> set (rp_origins entry) \<and>
     cd_cross_origin client \<noteq> Some True \<and> \<not> cd_top_origin client \<and>
     bit (ad ! 32) 0 \<and> (bit (ad ! 32) 2 \<or> \<not> pol_require_uv policy)"

definition low_s :: "('x, 'z) passkey_crates_scheme \<Rightarrow> 'x \<Rightarrow> 'x" where
  "low_s E s = (case p256_normalize_s E s of Some s' \<Rightarrow> s' | None \<Rightarrow> s)"

lemma verify_and_recover_Inr:
  "verify_and_recover E U a expected policy = Inr r \<longleftrightarrow>
     (\<exists>cid ad cdj sig uh want entry client s k0 k1.
        assertion_bytes E a cid ad cdj sig uh \<and> expected_bytes E U expected = Inr want \<and>
        ceremony_ok E policy want ad cdj entry client \<and> p256_sig_from_der E sig = Inr s \<and>
        p256_recover E (sha256 E (signed_payload E ad cdj)) (low_s E s) False = Some k0 \<and>
        p256_recover E (sha256 E (signed_payload E ad cdj)) (low_s E s) True = Some k1 \<and>
        r = \<lparr>ra_rp_id = rp_id entry, ra_origin = cd_origin client, ra_user_verified = bit (ad ! 32) 2,
             ra_backup_eligible = bit (ad ! 32) 3, ra_backup_state = bit (ad ! 32) 4,
             ra_credential_id = cid, ra_user_handle = uh, ra_candidates = (k0, k1)\<rparr>)"
  (is "?v \<longleftrightarrow> ?s")
proof
  show "?v \<Longrightarrow> ?s"
    unfolding verify_and_recover_def Let_def low_s_def [symmetric] assertion_bytes_def ceremony_ok_def
    by (auto simp: decode_member_def parse_authenticator_data_Inr allows_origin_def flag_bits
        split: if_splits option.splits)
  show "?s \<Longrightarrow> ?v"
    unfolding verify_and_recover_def Let_def low_s_def [symmetric] assertion_bytes_def ceremony_ok_def
    by (auto simp: decode_member_def parse_authenticator_data_def allows_origin_def flag_bits
        split: option.splits)
qed

lemma recovered_verifies:
  assumes "recovery_law E" "p256_recover E (sha256 E m) (low_s E s) y = Some k"
  shows "p256_verify E k m s"
  using recovery_lawD(1,4) [OF assms(1)] assms(2) by (fastforce simp: low_s_def split: option.splits)

section \<open>Properties\<close>

text \<open>
  C6. A passkey assertion is accepted exactly when its bytes decode and agree, its client data
  parses as \<open>webauthn.get\<close> over the expected challenge, its RP ID digest is served, its origin is
  listed for that very RP ID, no frame of another origin was involved, the user was present and,
  when the policy asks, verified, and the signature recovers both candidate keys. The result then
  names that RP ID and origin, and the signature verifies under both candidates.
\<close>

theorem passkey_accepted_iff:
  assumes "recovery_law E"
  shows "verify_and_recover E U a expected policy = Inr r \<longleftrightarrow>
     (\<exists>cid ad cdj sig uh want entry client s k0 k1.
        assertion_bytes E a cid ad cdj sig uh \<and> expected_bytes E U expected = Inr want \<and>
        ceremony_ok E policy want ad cdj entry client \<and> p256_sig_from_der E sig = Inr s \<and>
        p256_recover E (sha256 E (signed_payload E ad cdj)) (low_s E s) False = Some k0 \<and>
        p256_recover E (sha256 E (signed_payload E ad cdj)) (low_s E s) True = Some k1 \<and>
        p256_verify E k0 (signed_payload E ad cdj) s \<and> p256_verify E k1 (signed_payload E ad cdj) s \<and>
        r = \<lparr>ra_rp_id = rp_id entry, ra_origin = cd_origin client, ra_user_verified = bit (ad ! 32) 2,
             ra_backup_eligible = bit (ad ! 32) 3, ra_backup_state = bit (ad ! 32) 4,
             ra_credential_id = cid, ra_user_handle = uh, ra_candidates = (k0, k1)\<rparr>)"
  unfolding verify_and_recover_Inr using recovered_verifies [OF assms] by blast

text \<open>
  C29. A derived login challenge ties an assertion to one node and one nonce: the same assertion is
  accepted by two verifiers only when their nonces are equal and their base URLs have the same
  origin, or else the two challenge texts are an explicit SHA-256 collision.
\<close>

theorem derived_login_binds_node:
  assumes "length nonce = 32" "length nonce' = 32"
    and "verify_and_recover E U a (DerivedLogin nonce node_url) policy = Inr r"
    and "verify_and_recover E U a (DerivedLogin nonce' node_url') policy' = Inr r'"
  shows "\<exists>url url'. U node_url = Inr url \<and> U node_url' = Inr url' \<and>
     pu_scheme url \<in> {''http'', ''https''} \<and> pu_scheme url' \<in> {''http'', ''https''} \<and>
     (let m = LOGIN_CHALLENGE_TAG @ nonce @ as_bytes (pu_origin url);
          m' = LOGIN_CHALLENGE_TAG @ nonce' @ as_bytes (pu_origin url')
      in nonce = nonce' \<and> pu_origin url = pu_origin url' \<or> m \<noteq> m' \<and> sha256 E m = sha256 E m')"
proof -
  from assms(3,4) obtain want where w: "derive_login_challenge E U nonce node_url = Inr want"
    "derive_login_challenge E U nonce' node_url' = Inr want"
    by (auto simp: verify_and_recover_Inr assertion_bytes_def ceremony_ok_def)
  then obtain url url' where u: "U node_url = Inr url" "U node_url' = Inr url'"
    "pu_scheme url \<in> {''http'', ''https''}" "pu_scheme url' \<in> {''http'', ''https''}"
    "sha256 E (LOGIN_CHALLENGE_TAG @ nonce @ as_bytes (pu_origin url)) = want"
    "sha256 E (LOGIN_CHALLENGE_TAG @ nonce' @ as_bytes (pu_origin url')) = want"
    by (auto simp: derive_login_challenge_def split: if_splits)
  have "nonce = nonce' \<and> pu_origin url = pu_origin url'"
    if "LOGIN_CHALLENGE_TAG @ nonce @ as_bytes (pu_origin url) = LOGIN_CHALLENGE_TAG @ nonce' @ as_bytes (pu_origin url')"
    using assms(1,2) that by simp
  with u(5,6) have "nonce = nonce' \<and> pu_origin url = pu_origin url' \<or>
      LOGIN_CHALLENGE_TAG @ nonce @ as_bytes (pu_origin url) \<noteq> LOGIN_CHALLENGE_TAG @ nonce' @ as_bytes (pu_origin url') \<and>
      sha256 E (LOGIN_CHALLENGE_TAG @ nonce @ as_bytes (pu_origin url)) =
      sha256 E (LOGIN_CHALLENGE_TAG @ nonce' @ as_bytes (pu_origin url'))" by argo
  then show ?thesis unfolding Let_def by (intro exI [of _ url] exI [of _ url'] conjI u(1-4))
qed

section \<open>An assertion at concrete values\<close>

text \<open>
  A toy instance: base64 is hexadecimal, every client data text reads as one object, and a
  signature names the x-coordinate of the key.
\<close>

definition ref_want :: bytes where
  "ref_want = LOGIN_CHALLENGE_TAG @ replicate 5 0"

definition ref_client_json :: json_text where
  "ref_client_json = JObject [(''type'', JString ''webauthn.get''), (''challenge'', JString (ref_hex_encode ref_want)),
     (''origin'', JString ''http://localhost''), (''crossOrigin'', JBool False)]"

definition ref_pad :: "nat \<Rightarrow> bytes \<Rightarrow> bytes" where
  "ref_pad n b = take n (b @ replicate n 0)"

definition ref_passkeys :: "bytes passkey_crates" where
  "ref_passkeys = crates.extend
     (ref_crates\<lparr>p256_sig_from_der := Inr, p256_verify := (\<lambda>k m s. drop 1 k = ref_pad 32 s)\<rparr>)
     \<lparr>b64url_no_pad_decode = ref_hex_decode, b64url_decode = ref_hex_decode,
      json_read = (\<lambda>_. Some ref_client_json), serde_error_text = (\<lambda>_. ''error''),
      p256_sig_from_bytes = Inr, p256_normalize_s = (\<lambda>_. None),
      p256_recover = (\<lambda>z s y. Some ((if y then 3 else 2) # ref_pad 32 s)),
      p256_compressed = ref_pad 33, p256_from_spki = Inr, unicode_debug = id\<rparr>"

lemma ref_passkeys_simps [simp]:
  "bs58_encode ref_passkeys = bs58_encode ref_crates" "bs58_decode ref_passkeys = bs58_decode ref_crates"
  "hex_encode ref_passkeys = ref_hex_encode" "hex_decode ref_passkeys = ref_hex_decode"
  "b64_encode ref_passkeys = ref_hex_encode" "b64url_decode ref_passkeys = ref_hex_decode"
  "json_read ref_passkeys bs = Some ref_client_json" "sha256 ref_passkeys = ref_digest"
  "p256_sig_from_der ref_passkeys sig = Inr sig" "p256_normalize_s ref_passkeys sig = None"
  "p256_recover ref_passkeys z sig y = Some ((if y then 3 else 2) # ref_pad 32 sig)"
  "p256_verify ref_passkeys k m sig \<longleftrightarrow> drop 1 k = ref_pad 32 sig"
  "p256_compressed ref_passkeys = ref_pad 33" "p256_pubkey_from_sec1 ref_passkeys b = Inr b"
  by (simp_all add: ref_passkeys_def ref_crates_def crates.defs)

lemma length_ref_pad [simp]: "length (ref_pad n b) = n"
  by (simp add: ref_pad_def)

lemma ref_passkey_laws: "recovery_law ref_passkeys" "b64url_law ref_passkeys" "bs58_law ref_passkeys"
  using ref_bs58_law by (simp_all add: recovery_law_def b64url_law_def ref_hex_roundtrip bs58_law_def)

text \<open>The assertion: UP and UV set, RP ID \<open>localhost\<close>, the challenge derived from
  the zero nonce.\<close>

definition ref_auth_data :: bytes where
  "ref_auth_data = ref_digest (as_bytes ''localhost'') @ [5, 0, 0, 0, 0]"

definition ref_assertion :: assertion_json where
  "ref_assertion = \<lparr>aj_id = ref_hex_encode [1], aj_raw_id = ref_hex_encode [1], aj_type = ''public-key'',
     aj_response = \<lparr>ar_authenticator_data = ref_hex_encode ref_auth_data, ar_client_data_json = ref_hex_encode [],
       ar_signature = ref_hex_encode [9], ar_user_handle = None\<rparr>,
     aj_client_extension_results = JNull\<rparr>"

definition ref_client :: client_data where
  "ref_client = \<lparr>cd_type = ''webauthn.get'', cd_challenge = ref_hex_encode ref_want, cd_origin = ''http://localhost'',
     cd_cross_origin = Some False, cd_top_origin = False\<rparr>"

lemma ref_client_data: "client_data_from_slice ref_passkeys bs = Inr ref_client"
  by (simp add: client_data_from_slice_def ref_client_json_def no_fields_def finish_fields_def ref_client_def)

lemma length_ref_digest [simp]: "length (ref_digest b) = 32"
  by (simp add: ref_digest_def)

lemma ref_assertion_bytes: "assertion_bytes ref_passkeys ref_assertion [1] ref_auth_data [] [9] None"
  by (simp add: assertion_bytes_def ref_assertion_def ref_hex_roundtrip)

lemma ref_ceremony: "ceremony_ok ref_passkeys ref_policy ref_want ref_auth_data [] (hd (pol_entries ref_policy)) ref_client"
proof -
  have "entry_for_rp_id_hash ref_policy (take 32 ref_auth_data) = Some (hd (pol_entries ref_policy))"
    by (simp add: entry_for_rp_id_hash_def ref_policy_def ref_auth_data_def ref_crates_def)
  moreover have "ref_auth_data ! 32 = 5" by (simp add: ref_auth_data_def nth_append)
  ultimately show ?thesis
    by (simp add: ceremony_ok_def ref_client_data)
       (simp add: ref_client_def ref_auth_data_def ref_policy_def ref_hex_roundtrip bit_numeral_rec)
qed

definition ref_recovered :: "bytes recovered_assertion" where
  "ref_recovered = \<lparr>ra_rp_id = ''localhost'', ra_origin = ''http://localhost'', ra_user_verified = True,
     ra_backup_eligible = False, ra_backup_state = False, ra_credential_id = [1], ra_user_handle = None,
     ra_candidates = (2 # ref_pad 32 [9], 3 # ref_pad 32 [9])\<rparr>"

lemma ref_recovered_fields:
  "ref_recovered = \<lparr>ra_rp_id = rp_id (hd (pol_entries ref_policy)), ra_origin = cd_origin ref_client,
     ra_user_verified = bit (ref_auth_data ! 32) 2, ra_backup_eligible = bit (ref_auth_data ! 32) 3,
     ra_backup_state = bit (ref_auth_data ! 32) 4, ra_credential_id = [1], ra_user_handle = None,
     ra_candidates = (2 # ref_pad 32 [9], 3 # ref_pad 32 [9])\<rparr>"
  by (simp add: ref_recovered_def ref_policy_def ref_client_def ref_auth_data_def nth_append bit_numeral_rec)

theorem passkey_accepted_iff_witness:
  "verify_and_recover ref_passkeys ref_url ref_assertion (Exact ref_want) ref_policy = Inr ref_recovered"
  unfolding passkey_accepted_iff [OF ref_passkey_laws(1)] ref_recovered_fields
  by (intro exI conjI, rule ref_assertion_bytes, simp, rule ref_ceremony)
     (simp_all add: low_s_def)

lemma ref_derived: "derive_login_challenge ref_passkeys ref_url (replicate 32 0) ''http://localhost'' = Inr ref_want"
proof -
  have u: "ref_url ''http://localhost'' = Inr \<lparr>pu_scheme = ''http'', pu_username = '''', pu_password = None,
      pu_host_str = Some ''localhost'', pu_port_or_known_default = Some 80, pu_path = '''', pu_query = None,
      pu_fragment = None, pu_origin = ''http://localhost''\<rparr>"
    by (simp add: ref_url_def starts_with_def is_ascii_lower_def ref_known_port_def Let_def)
  have "length LOGIN_CHALLENGE_TAG = 27" by (simp add: LOGIN_CHALLENGE_TAG_def as_bytes_def)
  then show ?thesis by (simp add: derive_login_challenge_def u ref_digest_def ref_want_def min_def)
qed

lemma ref_verified: "verify_and_recover ref_passkeys ref_url ref_assertion (Exact ref_want) ref_policy = Inr ref_recovered"
  unfolding verify_and_recover_Inr ref_recovered_fields
  by (intro exI conjI, rule ref_assertion_bytes, simp, rule ref_ceremony) (simp_all add: low_s_def)

theorem derived_login_binds_node_witness:
  "\<exists>url. ref_url ''http://localhost'' = Inr url \<and> pu_scheme url \<in> {''http'', ''https''}"
proof -
  have v: "verify_and_recover ref_passkeys ref_url ref_assertion (DerivedLogin (replicate 32 0) ''http://localhost'')
      ref_policy = Inr ref_recovered"
    unfolding verify_and_recover_Inr ref_recovered_fields
    by (intro exI conjI, rule ref_assertion_bytes, simp add: ref_derived, rule ref_ceremony)
       (simp_all add: low_s_def)
  show ?thesis using derived_login_binds_node [OF _ _ v v] by auto
qed

end
