(* ===== verification/Webauthn_Select.thy ===== *)
theory Webauthn_Select
  imports Webauthn_Recover Registry
begin

text \<open>
  Candidate selection (webauthn\_select.rs) and the hint cookie (webauthn\_hint.rs): which of the
  two keys an assertion recovers is the signer, by a hint, by what the service knows, or by a
  second assertion.
\<close>

section \<open>Hints\<close>

datatype did_hint = DidHint (hint_str: string)

definition hint_parse :: "('x, 'z) crates_scheme \<Rightarrow> string \<Rightarrow> did_hint option" where
  "hint_parse E s =
     Option.bind (ok (p256_pubkey_from_did_key E s)) (\<lambda>point.
       if p256_did_key_from_pubkey E point = s then Some (DidHint s) else None)"

definition hint_from_spki_der ::
  "('x, 'z) passkey_crates_scheme \<Rightarrow> bytes \<Rightarrow> crypto_error + did_hint" where
  "hint_from_spki_der E spki =
     rbind (map_err (\<lambda>e. InvalidDid (''not a P-256 SubjectPublicKeyInfo: '' @ e)) (p256_from_spki E spki))
       (\<lambda>key. Inr (DidHint (p256_did_key_from_pubkey E (p256_compressed E key))))"

definition hint_try_from :: "('x, 'z) crates_scheme \<Rightarrow> string \<Rightarrow> crypto_error + did_hint" where
  "hint_try_from E s = ok_or (hint_parse E s) (InvalidDid (''not a canonical P-256 did:key: '' @ s))"

section \<open>Selection\<close>

datatype selected_by = ByHint | ByKnownPrincipal | ByIntersection

record pending_recovery =
  pr_candidates :: "did_hint \<times> did_hint"
  pr_credential_id :: bytes

datatype selection =
    Selected principal selected_by
  | NeedSecondAssertion pending_recovery

datatype selection_error = CredentialMismatch | NoCommonCandidate | Ambiguous

fun selection_error_display :: "selection_error \<Rightarrow> string" where
  "selection_error_display CredentialMismatch = ''second assertion is by another credential''"
| "selection_error_display NoCommonCandidate = ''second assertion shares no candidate key with the first''"
| "selection_error_display Ambiguous = ''second assertion does not narrow the candidates''"


definition resolve ::
  "('x, 'z) passkey_crates_scheme \<Rightarrow> pending_recovery \<Rightarrow> 'x recovered_assertion \<Rightarrow> selection_error + principal" where
  "resolve E pending second =
     (if ra_credential_id second \<noteq> pr_credential_id pending then Inl CredentialMismatch
      else
        let theirs = candidate_dids E second;
            common = filter (\<lambda>c. fst theirs = hint_str c \<or> snd theirs = hint_str c)
                       [fst (pr_candidates pending), snd (pr_candidates pending)]
        in case common of
             [one] \<Rightarrow> Inr (from_proven_did_key (hint_str one))
           | [] \<Rightarrow> Inl NoCommonCandidate
           | _ \<Rightarrow> Inl Ambiguous)"

fun the_only :: "bool \<times> bool \<Rightarrow> nat option" where
  "the_only (True, False) = Some 0"
| "the_only (False, True) = Some 1"
| "the_only _ = None"

definition select ::
  "('x, 'z) passkey_crates_scheme \<Rightarrow> 'x recovered_assertion \<Rightarrow> did_hint list \<Rightarrow> bool \<times> bool \<Rightarrow> selection" where
  "select E r hints known =
     (let dids = candidate_dids E r;
          hinted = map_prod (\<lambda>d. \<exists>h \<in> set hints. hint_str h = d) (\<lambda>d. \<exists>h \<in> set hints. hint_str h = d) dids;
          pick = (\<lambda>i by. Selected (from_proven_did_key (if i = 0 then fst dids else snd dids)) by)
      in case the_only hinted of
           Some i \<Rightarrow> pick i ByHint
         | None \<Rightarrow>
             (case the_only known of
                Some i \<Rightarrow> pick i ByKnownPrincipal
              | None \<Rightarrow> NeedSecondAssertion
                  \<lparr>pr_candidates = map_prod DidHint DidHint dids, pr_credential_id = ra_credential_id r\<rparr>))"

section \<open>The hint cookie\<close>

definition HINT_COOKIE_NAME :: string where
  "HINT_COOKIE_NAME = ''aqua_did_hint''"

definition HINT_MAX_AGE_SECS :: u64 where
  "HINT_MAX_AGE_SECS = 34560000"

record hint_cookie_config =
  hc_domain :: "string option"
  hc_secure :: bool
  hc_max_age_secs :: u64

definition hint_config_for_rp_id :: "string \<Rightarrow> hint_cookie_config" where
  "hint_config_for_rp_id rp =
     \<lparr>hc_domain = (if rp \<noteq> ''localhost'' then Some rp else None), hc_secure = True,
      hc_max_age_secs = HINT_MAX_AGE_SECS\<rparr>"

definition hint_header :: "hint_cookie_config \<Rightarrow> string \<Rightarrow> u64 \<Rightarrow> string" where
  "hint_header cfg value max_age_secs =
     HINT_COOKIE_NAME @ ''='' @ value @
     (case hc_domain cfg of Some domain \<Rightarrow> ''; Domain='' @ domain | None \<Rightarrow> []) @
     ''; Path=/; Max-Age='' @ show_nat (unat max_age_secs) @
     (if hc_secure cfg then ''; Secure'' else []) @ ''; SameSite=Lax''"

definition hint_set_cookie :: "principal \<Rightarrow> hint_cookie_config \<Rightarrow> string" where
  "hint_set_cookie p cfg = hint_header cfg (principal_did p) (hc_max_age_secs cfg)"

definition hint_clear_cookie :: "hint_cookie_config \<Rightarrow> string" where
  "hint_clear_cookie cfg = hint_header cfg '''' 0"

definition unquote :: "string \<Rightarrow> string" where
  "unquote v =
     (case Option.bind (strip_prefix [DQUOTE] v) (strip_suffix [DQUOTE]) of Some w \<Rightarrow> w | None \<Rightarrow> v)"

definition hint_of_pair :: "('x, 'z) crates_scheme \<Rightarrow> string \<Rightarrow> did_hint option" where
  "hint_of_pair E pair =
     (case split_once CHR ''='' pair of
        None \<Rightarrow> None
      | Some (name, value) \<Rightarrow>
          if trim name = HINT_COOKIE_NAME then hint_parse E (unquote (trim value)) else None)"

definition hints_from_cookie_header :: "('x, 'z) crates_scheme \<Rightarrow> string \<Rightarrow> did_hint list" where
  "hints_from_cookie_header E cookie_header =
     List.map_filter (hint_of_pair E) (split_on CHR '';'' cookie_header)"

section \<open>Lemmas\<close>

text \<open>A signer of an assertion: a key under which its signature verifies, named by its \<open>did:key\<close>.\<close>

definition signed_by :: "('x, 'z) passkey_crates_scheme \<Rightarrow> assertion_json \<Rightarrow> string \<Rightarrow> bool" where
  "signed_by E a did \<longleftrightarrow>
     (\<exists>k cid ad cdj sig uh s. assertion_bytes E a cid ad cdj sig uh \<and> p256_sig_from_der E sig = Inr s \<and>
        p256_verify E k (signed_payload E ad cdj) s \<and> did = did_key_of E k \<and>
        p256_pubkey_from_did_key E did = Inr (p256_compressed E k))"

lemma did_key_of_valid:
  assumes "bs58_law E" "recovery_law E"
  shows "p256_pubkey_from_did_key E (did_key_of E k) = Inr (p256_compressed E k)"
  unfolding did_key_of_def
  by (rule p256_did_key_roundtrip_aux [OF assms(1) recovery_lawD(2,3) [OF assms(2)]])

lemma candidates_signed:
  assumes "bs58_law E" "recovery_law E" "verify_and_recover E U a expected policy = Inr r"
  shows "signed_by E a (fst (candidate_dids E r))" "signed_by E a (snd (candidate_dids E r))"
  using assms(3) did_key_of_valid [OF assms(1,2)] recovered_verifies [OF assms(2)]
  unfolding verify_and_recover_Inr signed_by_def by (auto simp: candidate_dids_def) blast+

lemma resolve_Inr:
  "resolve E pending second = Inr p \<Longrightarrow>
     ra_credential_id second = pr_credential_id pending \<and>
     (\<exists>c. p = from_proven_did_key (hint_str c) \<and>
        (c = fst (pr_candidates pending) \<or> c = snd (pr_candidates pending)) \<and>
        (hint_str c = fst (candidate_dids E second) \<or> hint_str c = snd (candidate_dids E second)))"
  by (auto simp: resolve_def Let_def split: if_splits)

lemma the_only_Some: "the_only f = Some i \<Longrightarrow> i = 0 \<or> i = 1"
  by (cases f rule: the_only.cases) auto

lemma select_Selected:
  "select E r hints known = Selected p by' \<Longrightarrow>
     p = from_proven_did_key (fst (candidate_dids E r)) \<or> p = from_proven_did_key (snd (candidate_dids E r))"
  by (auto simp: select_def Let_def split: option.splits if_splits)

lemma select_Need:
  "select E r hints known = NeedSecondAssertion pend \<Longrightarrow>
     pend = \<lparr>pr_candidates = map_prod DidHint DidHint (candidate_dids E r), pr_credential_id = ra_credential_id r\<rparr>"
  by (auto simp: select_def Let_def split: option.splits)

section \<open>Properties\<close>

text \<open>
  C12. Selection never leaves the signers: whatever hints a request carries and whatever the
  service claims to know, the principal selected after a verified assertion is the \<open>did:key\<close> of a
  key its signature verifies under, and the one a second assertion resolves to signed both.
\<close>

theorem passkey_selection_sound:
  assumes "bs58_law E" "recovery_law E"
    and "verify_and_recover E U a expected policy = Inr r"
    and "verify_and_recover E U' a' expected' policy' = Inr r'"
  shows "case select E r hints known of
      Selected p how \<Rightarrow> signed_by E a (principal_did p) \<and> how \<noteq> ByIntersection
    | NeedSecondAssertion pend \<Rightarrow>
        (case resolve E pend r' of
           Inl e \<Rightarrow> True
         | Inr p \<Rightarrow> ra_credential_id r' = ra_credential_id r \<and>
             signed_by E a (principal_did p) \<and> signed_by E a' (principal_did p))"
proof (cases "select E r hints known")
  case (Selected p how)
  moreover have "how \<noteq> ByIntersection" using Selected by (auto simp: select_def Let_def split: option.splits)
  ultimately show ?thesis
    using select_Selected [OF Selected] candidates_signed [OF assms(1-3)] by (auto simp: from_proven_did_key_def)
next
  case (NeedSecondAssertion pend)
  then show ?thesis
    using select_Need [OF NeedSecondAssertion] candidates_signed [OF assms(1-3)] candidates_signed [OF assms(1,2,4)]
    by (cases "candidate_dids E r") (auto dest!: resolve_Inr simp: from_proven_did_key_def split: sum.splits)
qed

text \<open>
  The signer gets in: when a hint names the signer and not the other candidate, it is selected
  at once; and when two assertions by one credential share just the signer's key, the second
  prompt resolves to it.
\<close>

theorem passkey_selection_resolves:
  assumes "candidate_dids E r \<in> {(d, d1), (d1, d)}" "candidate_dids E r' \<in> {(d, d2), (d2, d)}"
    and "d \<noteq> d1" "d \<noteq> d2" "d1 \<noteq> d2" "ra_credential_id r' = ra_credential_id r"
  shows "(DidHint d \<in> set hints \<and> DidHint d1 \<notin> set hints \<longrightarrow>
            select E r hints known = Selected \<lparr>principal_did = d\<rparr> ByHint) \<and>
         (\<forall>pend. select E r hints known = NeedSecondAssertion pend \<longrightarrow>
            resolve E pend r' = Inr \<lparr>principal_did = d\<rparr>)"
proof -
  have hinted: "(\<exists>h \<in> set hints. hint_str h = x) \<longleftrightarrow> DidHint x \<in> set hints" for x
    by (metis did_hint.exhaust_sel did_hint.sel)
  have "select E r hints known = Selected \<lparr>principal_did = d\<rparr> ByHint"
    if "DidHint d \<in> set hints" "DidHint d1 \<notin> set hints"
    using assms(1) that by (auto simp: select_def Let_def hinted from_proven_did_key_def)
  moreover have "resolve E pend r' = Inr \<lparr>principal_did = d\<rparr>"
    if "select E r hints known = NeedSecondAssertion pend" for pend
    using select_Need [OF that] assms by (auto simp: resolve_def Let_def from_proven_did_key_def)
  ultimately show ?thesis by blast
qed

lemma ref_candidates:
  "candidate_dids ref_passkeys ref_recovered =
     (did_key_of ref_passkeys (2 # ref_pad 32 [9]), did_key_of ref_passkeys (3 # ref_pad 32 [9]))"
  by (simp add: candidate_dids_def ref_recovered_def)

theorem passkey_selection_sound_witness:
  "signed_by ref_passkeys ref_assertion (did_key_of ref_passkeys (2 # ref_pad 32 [9]))"
proof -
  have "select ref_passkeys ref_recovered [] (True, False) =
      Selected \<lparr>principal_did = did_key_of ref_passkeys (2 # ref_pad 32 [9])\<rparr> ByKnownPrincipal"
    by (simp add: select_def ref_candidates from_proven_did_key_def)
  with passkey_selection_sound [OF ref_passkey_laws(3,1) ref_verified ref_verified, of "[]" "(True, False)"]
  show ?thesis by simp
qed

lemma ref_did_key_inject:
  "did_key_of ref_passkeys k = did_key_of ref_passkeys k' \<longleftrightarrow> ref_pad 33 k = ref_pad 33 k'"
  by (simp add: did_key_of_def p256_did_key_from_pubkey_def encode_did_key_inject [OF ref_passkey_laws(3)])

definition ref_second :: "bytes recovered_assertion" where
  "ref_second = ref_recovered\<lparr>ra_candidates := (3 # ref_pad 32 [8], 2 # ref_pad 32 [9])\<rparr>"

theorem passkey_selection_resolves_witness:
  "select ref_passkeys ref_recovered [DidHint (did_key_of ref_passkeys (2 # ref_pad 32 [9]))] (False, False) =
     Selected \<lparr>principal_did = did_key_of ref_passkeys (2 # ref_pad 32 [9])\<rparr> ByHint"
proof -
  have "candidate_dids ref_passkeys ref_second =
      (did_key_of ref_passkeys (3 # ref_pad 32 [8]), did_key_of ref_passkeys (2 # ref_pad 32 [9]))"
    by (simp add: candidate_dids_def ref_second_def)
  moreover have "did_key_of ref_passkeys (2 # ref_pad 32 [9]) \<noteq> did_key_of ref_passkeys (3 # ref_pad 32 [9])"
    "did_key_of ref_passkeys (2 # ref_pad 32 [9]) \<noteq> did_key_of ref_passkeys (3 # ref_pad 32 [8])"
    "did_key_of ref_passkeys (3 # ref_pad 32 [9]) \<noteq> did_key_of ref_passkeys (3 # ref_pad 32 [8])"
    by (simp_all add: ref_did_key_inject ref_pad_def)
  ultimately show ?thesis
    using passkey_selection_resolves [of ref_passkeys ref_recovered "did_key_of ref_passkeys (2 # ref_pad 32 [9])"
        "did_key_of ref_passkeys (3 # ref_pad 32 [9])" ref_second "did_key_of ref_passkeys (3 # ref_pad 32 [8])"
        "[DidHint (did_key_of ref_passkeys (2 # ref_pad 32 [9]))]" "(False, False)"]
    by (simp add: ref_candidates ref_second_def)
qed

lemma hint_parse_Some:
  "hint_parse E s = Some h \<longleftrightarrow>
     h = DidHint s \<and> (\<exists>pk. p256_pubkey_from_did_key E s = Inr pk \<and> s = p256_did_key_from_pubkey E pk)"
  by (auto simp: hint_parse_def bind_eq_Some_conv)

lemma p256_did_key_chars:
  assumes "bs58_law E" "hint_parse E did = Some h"
  shows "\<forall>c \<in> set did. graphic c \<and> c \<noteq> CHR '';'' \<and> c \<noteq> DQUOTE" "did \<noteq> []"
proof -
  from assms(2) obtain pk where d: "did = ''did:key:z'' @ bs58_encode E (P256_PREFIX @ pk)"
    unfolding hint_parse_Some p256_did_key_from_pubkey_def encode_did_key_def by blast
  have "graphic c \<and> c \<noteq> CHR '';'' \<and> c \<noteq> DQUOTE" if "is_base58 c" for c
    using that is_base58_graphic [OF that] by (auto simp: is_base58_def b58_alphabet_def)
  then show "\<forall>c \<in> set did. graphic c \<and> c \<noteq> CHR '';'' \<and> c \<noteq> DQUOTE"
    using bs58_lawD(3) [OF assms(1)] unfolding d by (auto simp: graphic_def)
  show "did \<noteq> []" unfolding d by simp
qed

lemma trim_space_graphic: "\<forall>c \<in> set s. graphic c \<Longrightarrow> trim (CHR '' '' # s) = s"
  by (simp add: trim_space trim_graphic)

lemma hint_pair:
  assumes "bs58_law E" "hint_parse E did = Some h" "lead = [] \<or> lead = '' ''"
  shows "hint_of_pair E (lead @ HINT_COOKIE_NAME @ ''='' @ did) = Some h"
proof -
  note did = p256_did_key_chars [OF assms(1,2)]
  have name: "\<forall>c \<in> set HINT_COOKIE_NAME. graphic c" "CHR ''='' \<notin> set (lead @ HINT_COOKIE_NAME)"
    using assms(3) by (auto simp: HINT_COOKIE_NAME_def graphic_def)
  have "split_once CHR ''='' ((lead @ HINT_COOKIE_NAME) @ CHR ''='' # did) = Some (lead @ HINT_COOKIE_NAME, did)"
    by (rule split_once_append [OF name(2)])
  moreover have "trim (lead @ HINT_COOKIE_NAME) = HINT_COOKIE_NAME"
    using assms(3) name(1) trim_space_graphic trim_graphic by auto
  moreover have "trim did = did" using did(1) by (simp add: trim_graphic)
  moreover have "unquote did = did"
    using did by (cases did) (auto simp: unquote_def strip_prefix_def starts_with_def)
  ultimately show ?thesis using assms(2) by (simp add: hint_of_pair_def)
qed

text \<open>
  The hint cookie comes back: the name-value pair a browser keeps of the \<open>Set-Cookie\<close> value
  for a principal with a canonical P-256 \<open>did:key\<close>, sent among any other cookies, yields that hint
  in its place.
\<close>

theorem hint_cookie_roundtrip:
  assumes "bs58_law E" "hint_parse E (principal_did p) = Some h"
  shows "takeWhile (\<lambda>c. c \<noteq> CHR '';'') (hint_set_cookie p cfg) = HINT_COOKIE_NAME @ ''='' @ principal_did p \<and>
    hints_from_cookie_header E
      (before @ ''; '' @ takeWhile (\<lambda>c. c \<noteq> CHR '';'') (hint_set_cookie p cfg) @ '';'' @ after) =
    hints_from_cookie_header E before @ [DidHint (principal_did p)] @ hints_from_cookie_header E after"
proof -
  let ?pair = "HINT_COOKIE_NAME @ ''='' @ principal_did p"
  have semi: "CHR '';'' \<notin> set ?pair"
    using p256_did_key_chars(1) [OF assms] by (auto simp: HINT_COOKIE_NAME_def)
  have h: "h = DidHint (principal_did p)"
    using assms(2) by (simp add: hint_parse_Some)
  obtain rest where "hint_set_cookie p cfg = ?pair @ CHR '';'' # rest"
    by (cases "hc_domain cfg") (simp_all add: hint_set_cookie_def hint_header_def)
  then have kept: "takeWhile (\<lambda>c. c \<noteq> CHR '';'') (hint_set_cookie p cfg) = ?pair"
    using semi takeWhile_until [of "CHR '';''" ?pair] by simp
  have "split_on CHR '';'' (before @ CHR '';'' # ('' '' @ ?pair) @ CHR '';'' # after) =
      split_on CHR '';'' before @ ('' '' @ ?pair) # split_on CHR '';'' after"
    using semi by (simp only: split_on_append split_on_append_free set_append Un_iff) (auto simp: split_on_append_free)
  moreover have "hint_of_pair E ('' '' @ ?pair) = Some h" by (rule hint_pair [OF assms]) simp
  ultimately have "hints_from_cookie_header E (before @ ''; '' @ ?pair @ '';'' @ after) =
      hints_from_cookie_header E before @ [h] @ hints_from_cookie_header E after"
    by (simp add: hints_from_cookie_header_def List.map_filter_def)
  with kept h show ?thesis by simp
qed

theorem hint_cookie_roundtrip_witness:
  "hints_from_cookie_header ref_passkeys
     (''a=b'' @ ''; '' @ HINT_COOKIE_NAME @ ''='' @ did_key_of ref_passkeys (2 # ref_pad 32 [9]) @ '';'' @ '''') =
   [DidHint (did_key_of ref_passkeys (2 # ref_pad 32 [9]))]"
proof -
  let ?did = "did_key_of ref_passkeys (2 # ref_pad 32 [9])"
  have h: "hint_parse ref_passkeys (principal_did \<lparr>principal_did = ?did\<rparr>) = Some (DidHint ?did)"
    using did_key_of_valid [OF ref_passkey_laws(3,1)] by (simp add: hint_parse_Some did_key_of_def)
  have "hints_from_cookie_header ref_passkeys ''a=b'' = []" "hints_from_cookie_header ref_passkeys '''' = []"
    by (simp_all add: hints_from_cookie_header_def hint_of_pair_def split_once_def HINT_COOKIE_NAME_def
        List.map_filter_def trim_graphic graphic_def)
  note none = this
  note trip = hint_cookie_roundtrip [OF ref_passkey_laws(3) h, of "hint_config_for_rp_id ''localhost''" "''a=b''" "''''"]
  show ?thesis
    using trip [THEN conjunct2] unfolding trip [THEN conjunct1] by (simp add: none)
qed

end
