(* ===== verification/Webauthn_Soft.thy ===== *)
theory Webauthn_Soft
  imports Webauthn_Select
begin

unbundle bit_operations_syntax

text \<open>
  The software passkey (webauthn\_testkit.rs): browser and authenticator at once, an independent
  account of what a well-formed assertion is. The draws of the seeded generator are arguments.
\<close>

section \<open>The crates\<close>

text \<open>
  The private-key half of p256 (signature, public key, DER, the other s form, coordinates,
  SubjectPublicKeyInfo) and serde\_json's writer of a string.
\<close>

record 'x soft_crates = "'x passkey_crates" +
  p256_try_sign :: "'x \<Rightarrow> bytes \<Rightarrow> 'x"
  p256_verifying_key :: "'x \<Rightarrow> 'x"
  p256_sig_to_der :: "'x \<Rightarrow> bytes"
  p256_negate_s :: "'x \<Rightarrow> 'x"
  p256_coordinates :: "'x \<Rightarrow> bytes \<times> bytes"
  p256_to_spki :: "'x \<Rightarrow> bytes"
  json_string :: "string \<Rightarrow> string"

text \<open>
  p256: DER reads back, both s forms have one low form, and the public key of a signature is among
  the two keys it recovers.
\<close>

definition signing_law :: "('x, 'z) soft_crates_scheme \<Rightarrow> bool" where
  "signing_law E \<longleftrightarrow>
     (\<forall>s. p256_sig_from_der E (p256_sig_to_der E s) = Inr s) \<and>
     (\<forall>s. low_s E (low_s E s) = low_s E s \<and> low_s E (p256_negate_s E (low_s E s)) = low_s E s) \<and>
     (\<forall>k m. \<exists>k0 k1. p256_recover E (sha256 E m) (low_s E (p256_try_sign E k m)) False = Some k0 \<and>
        p256_recover E (sha256 E m) (low_s E (p256_try_sign E k m)) True = Some k1 \<and>
        (p256_verifying_key E k = k0 \<or> p256_verifying_key E k = k1))"

text \<open>
  Texts of a string or a Boolean: what serde\_json writes for a string, a run of printable ASCII
  between quotes without quote or backslash, and the two literals. An object text joins members of
  such texts. serde\_json reads an object text with distinct member names as the object of those
  values, and base64 writes printable ASCII without quote or backslash.
\<close>

definition plain_char :: "char \<Rightarrow> bool" where
  "plain_char c = (0x20 \<le> (of_char c :: nat) \<and> (of_char c :: nat) < 0x7F \<and> c \<noteq> DQUOTE \<and> c \<noteq> CHR 0x5C)"

fun show_bool :: "bool \<Rightarrow> string" where
  "show_bool True = ''true''"
| "show_bool False = ''false''"

fun scalar_text :: "('x, 'z) soft_crates_scheme \<Rightarrow> string \<Rightarrow> json_text \<Rightarrow> bool" where
  "scalar_text E t (JString s) = (t = json_string E s \<or> list_all plain_char s \<and> t = quoted s)"
| "scalar_text E t (JBool b) = (t = show_bool b)"
| "scalar_text E t _ = False"

fun member_texts :: "(string \<times> string) list \<Rightarrow> string" where
  "member_texts [] = ''''"
| "member_texts [(k, t)] = quoted k @ '':'' @ t"
| "member_texts ((k, t) # ms) = quoted k @ '':'' @ t @ '','' @ member_texts ms"

definition object_text :: "(string \<times> string) list \<Rightarrow> string" where
  "object_text ms = ''{'' @ member_texts ms @ ''}''"

definition json_object_law :: "('x, 'z) soft_crates_scheme \<Rightarrow> bool" where
  "json_object_law E \<longleftrightarrow>
     (\<forall>ts ms. list_all2 (\<lambda>(k, t) (k', v). k = k' \<and> list_all plain_char k \<and> scalar_text E t v) ts ms \<longrightarrow>
        distinct (map fst ms) \<longrightarrow> json_read E (as_bytes (object_text ts)) = Some (JObject ms))"

definition b64_text_law :: "('x, 'z) crates_scheme \<Rightarrow> bool" where
  "b64_text_law E \<longleftrightarrow> (\<forall>b. list_all plain_char (b64_encode E b))"

lemma signing_law_candidates:
  assumes "signing_law E"
  obtains k0 k1 where "p256_recover E (sha256 E m) (low_s E (p256_try_sign E k m)) False = Some k0"
    "p256_recover E (sha256 E m) (low_s E (p256_try_sign E k m)) True = Some k1"
    "p256_verifying_key E k = k0 \<or> p256_verifying_key E k = k1"
  using assms unfolding signing_law_def by blast

section \<open>The passkey\<close>

definition FLAG_AT :: "8 word" where
  "FLAG_AT = 0x40"

record 'x soft_passkey =
  sp_key :: 'x
  sp_credential_id :: bytes
  sp_rp_id :: string
  sp_user_handle :: "bytes option"

record assert_opts =
  ao_challenge :: bytes
  ao_origin :: string
  ao_flags :: "8 word"
  ao_cross_origin :: "bool option"
  ao_rp_id_override :: "string option"
  ao_type :: string
  ao_high_s :: bool

definition assert_opts_new :: "bytes \<Rightarrow> string \<Rightarrow> assert_opts" where
  "assert_opts_new challenge origin =
     \<lparr>ao_challenge = challenge, ao_origin = origin, ao_flags = FLAG_UP OR FLAG_UV,
      ao_cross_origin = Some False, ao_rp_id_override = None, ao_type = ''webauthn.get'', ao_high_s = False\<rparr>"

definition soft_new_seeded :: "'x \<Rightarrow> bytes \<Rightarrow> bytes \<Rightarrow> string \<Rightarrow> 'x soft_passkey" where
  "soft_new_seeded key credential_id user_handle rp =
     \<lparr>sp_key = key, sp_credential_id = credential_id, sp_rp_id = rp, sp_user_handle = Some user_handle\<rparr>"

definition soft_did :: "('x, 'z) soft_crates_scheme \<Rightarrow> 'x soft_passkey \<Rightarrow> string" where
  "soft_did E pk = p256_did_key_from_pubkey E (p256_compressed E (p256_verifying_key E (sp_key pk)))"

definition soft_spki_der :: "('x, 'z) soft_crates_scheme \<Rightarrow> 'x soft_passkey \<Rightarrow> bytes" where
  "soft_spki_der E pk = p256_to_spki E (p256_verifying_key E (sp_key pk))"

definition soft_authenticator_data :: "('x, 'z) crates_scheme \<Rightarrow> string \<Rightarrow> 8 word \<Rightarrow> bytes \<Rightarrow> bytes" where
  "soft_authenticator_data E rp flags attested = sha256 E (as_bytes rp) @ [flags] @ [0, 0, 0, 0] @ attested"

definition soft_client_data_json ::
  "('x, 'z) soft_crates_scheme \<Rightarrow> string \<Rightarrow> bytes \<Rightarrow> string \<Rightarrow> bool option \<Rightarrow> bytes" where
  "soft_client_data_json E type challenge origin cross_origin =
     (let cross = (case cross_origin of
            Some c \<Rightarrow> '','' @ quoted ''crossOrigin'' @ '':'' @ show_bool c | None \<Rightarrow> '''')
      in as_bytes (''{'' @ quoted ''type'' @ '':'' @ json_string E type @ '','' @
           quoted ''challenge'' @ '':'' @ quoted (b64_encode E challenge) @ '','' @
           quoted ''origin'' @ '':'' @ json_string E origin @ cross @ ''}''))"

definition soft_assert_raw ::
  "('x, 'z) soft_crates_scheme \<Rightarrow> 'x soft_passkey \<Rightarrow> bytes \<Rightarrow> bytes \<Rightarrow> bool \<Rightarrow> assertion_json" where
  "soft_assert_raw E pk authenticator_data client_data_json high_s =
     (let signed = p256_try_sign E (sp_key pk) (signed_payload E authenticator_data client_data_json);
          low = (case p256_normalize_s E signed of Some s \<Rightarrow> s | None \<Rightarrow> signed);
          signature = (if high_s then p256_negate_s E low else low)
      in \<lparr>aj_id = b64_encode E (sp_credential_id pk), aj_raw_id = b64_encode E (sp_credential_id pk),
          aj_type = ''public-key'',
          aj_response = \<lparr>ar_authenticator_data = b64_encode E authenticator_data,
            ar_client_data_json = b64_encode E client_data_json,
            ar_signature = b64_encode E (p256_sig_to_der E signature),
            ar_user_handle = map_option (b64_encode E) (sp_user_handle pk)\<rparr>,
          aj_client_extension_results = JObject []\<rparr>)"

definition soft_assert ::
  "('x, 'z) soft_crates_scheme \<Rightarrow> 'x soft_passkey \<Rightarrow> assert_opts \<Rightarrow> assertion_json" where
  "soft_assert E pk opts =
     (let rp = (case ao_rp_id_override opts of Some r \<Rightarrow> r | None \<Rightarrow> sp_rp_id pk);
          authenticator_data = soft_authenticator_data E rp (ao_flags opts) [];
          client_data_json = soft_client_data_json E (ao_type opts) (ao_challenge opts) (ao_origin opts)
            (ao_cross_origin opts)
      in soft_assert_raw E pk authenticator_data client_data_json (ao_high_s opts))"

section \<open>Attestation \<open>none\<close>\<close>

text \<open>CBOR; a length its \<open>expect\<close> refuses is \<open>None\<close>. The members of a \<open>json!\<close> value are in the order
  of the source, which a \<open>Value\<close> does not keep.\<close>

definition u16_be_bytes :: "nat \<Rightarrow> bytes" where
  "u16_be_bytes n = [of_nat (n div 256), of_nat (n mod 256)]"

definition cbor_text :: "bytes \<Rightarrow> string \<Rightarrow> bytes option" where
  "cbor_text out s = (if length s < 24 then Some (out @ [0x60 OR of_nat (length s)] @ as_bytes s) else None)"

definition cbor_bytes :: "bytes \<Rightarrow> bytes \<Rightarrow> bytes option" where
  "cbor_bytes out bs =
     (if length bs \<le> 23 then Some (out @ [0x40 OR of_nat (length bs)] @ bs)
      else if length bs \<le> 0xFF then Some (out @ [0x58, of_nat (length bs)] @ bs)
      else if length bs < 65536 then Some (out @ [0x59] @ u16_be_bytes (length bs) @ bs)
      else None)"

definition soft_attested :: "('x, 'z) soft_crates_scheme \<Rightarrow> 'x soft_passkey \<Rightarrow> bytes option" where
  "soft_attested E pk =
     (case p256_coordinates E (p256_verifying_key E (sp_key pk)) of
        (x, y) \<Rightarrow>
          if length (sp_credential_id pk) \<le> 1023 then
            Option.bind (cbor_bytes (replicate 16 0 @ u16_be_bytes (length (sp_credential_id pk)) @
                sp_credential_id pk @ [0xA5, 0x01, 0x02, 0x03, 0x26, 0x20, 0x01, 0x21]) x)
              (\<lambda>attested. cbor_bytes (attested @ [0x22]) y)
          else None)"

definition soft_attestation_object :: "bytes \<Rightarrow> bytes option" where
  "soft_attestation_object authenticator_data =
     Option.bind (cbor_text [0xA3] ''fmt'') (\<lambda>a.
     Option.bind (cbor_text a ''none'') (\<lambda>b.
     Option.bind (cbor_text b ''attStmt'') (\<lambda>c.
     Option.bind (cbor_text (c @ [0xA0]) ''authData'') (\<lambda>d.
     cbor_bytes d authenticator_data))))"

definition soft_attestation_none ::
  "('x, 'z) soft_crates_scheme \<Rightarrow> 'x soft_passkey \<Rightarrow> bytes \<Rightarrow> string \<Rightarrow> json_text option" where
  "soft_attestation_none E pk challenge origin =
     Option.bind (soft_attested E pk) (\<lambda>attested.
     let authenticator_data = soft_authenticator_data E (sp_rp_id pk) (FLAG_UP OR FLAG_UV OR FLAG_AT) attested in
     Option.bind (soft_attestation_object authenticator_data) (\<lambda>attestation_object.
     let client_data_json = soft_client_data_json E ''webauthn.create'' challenge origin (Some False);
         b64 = (\<lambda>b. JString (b64_encode E b))
     in Some (JObject [
          (''id'', b64 (sp_credential_id pk)), (''rawId'', b64 (sp_credential_id pk)),
          (''type'', JString ''public-key''), (''authenticatorAttachment'', JString ''platform''),
          (''response'', JObject [
             (''clientDataJSON'', b64 client_data_json), (''authenticatorData'', b64 authenticator_data),
             (''transports'', JArray [JString ''internal'']), (''publicKey'', b64 (soft_spki_der E pk)),
             (''publicKeyAlgorithm'', JNumber ''-7''), (''attestationObject'', b64 attestation_object)]),
          (''clientExtensionResults'', JObject [(''credProps'', JObject [(''rk'', JBool True)])])])))"

section \<open>Lemmas\<close>

lemma soft_bytes:
  assumes "b64url_law E"
  obtains s where "assertion_bytes E (soft_assert_raw E pk ad cdj hs) (sp_credential_id pk) ad cdj
      (p256_sig_to_der E s) (sp_user_handle pk)"
    "s = (if hs then p256_negate_s E else id) (low_s E (p256_try_sign E (sp_key pk) (signed_payload E ad cdj)))"
  using assms that
  by (auto simp: soft_assert_raw_def low_s_def assertion_bytes_def b64url_law_def Let_def split: option.splits)

lemma soft_flags: "bit (FLAG_UP OR FLAG_UV) 0" "bit (FLAG_UP OR FLAG_UV) 2"
  by (simp_all add: FLAG_UP_def FLAG_UV_def bit_or_iff bit_numeral_rec)

text \<open>The client data the passkey writes is an object text, which serde\_json reads.\<close>

lemma soft_client_data_text:
  "soft_client_data_json E type challenge origin (Some c) =
     as_bytes (object_text [(''type'', json_string E type), (''challenge'', quoted (b64_encode E challenge)),
       (''origin'', json_string E origin), (''crossOrigin'', show_bool c)])"
  by (simp add: soft_client_data_json_def object_text_def)

lemma soft_client_data_read:
  assumes "json_object_law E" "b64_text_law E"
  shows "json_read E (soft_client_data_json E type challenge origin (Some c)) =
    Some (JObject [(''type'', JString type), (''challenge'', JString (b64_encode E challenge)),
      (''origin'', JString origin), (''crossOrigin'', JBool c)])"
  unfolding soft_client_data_text
  using assms(2) by (intro assms(1) [unfolded json_object_law_def, rule_format])
    (simp_all add: b64_text_law_def plain_char_def)

text \<open>What the members the passkey writes deserialize to.\<close>

lemma soft_client_deserialized:
  assumes "json_read E cdj = Some (JObject [(''type'', JString ''webauthn.get''), (''challenge'', JString c),
      (''origin'', JString orig), (''crossOrigin'', JBool False)])"
  shows "client_data_from_slice E cdj = Inr \<lparr>cd_type = ''webauthn.get'', cd_challenge = c, cd_origin = orig,
      cd_cross_origin = Some False, cd_top_origin = False\<rparr>"
  using assms by (simp add: client_data_from_slice_def no_fields_def finish_fields_def)

section \<open>Property\<close>

text \<open>
  C13. A genuine passkey gets in: an assertion the software passkey makes over the challenge, from an
  origin listed for its RP ID, in either s form, is accepted by the store-free verifier, names
  that RP ID and credential, and the passkey's own \<open>did:key\<close> is one of the two candidates. The
  client data the passkey writes, member by member, is a text the verifier reads as a
  \<open>webauthn.get\<close> of that challenge and origin: of the crates it is assumed only that base64, DER and
  the s forms read back (\<open>b64url_law\<close>, \<open>signing_law\<close>), that a digest has 32 bytes, that base64
  writes plain ASCII and that serde\_json reads objects of strings and Booleans.
\<close>

theorem soft_passkey_accepted:
  assumes "b64url_law E" "digest_law E" "signing_law E" "json_object_law E" "b64_text_law E"
    and entry: "entry_for_rp_id_hash policy (sha256 E (as_bytes (sp_rp_id pk))) = Some entry"
      "origin \<in> set (rp_origins entry)"
  shows "\<exists>r. verify_and_recover E U (soft_assert E pk ((assert_opts_new challenge origin)\<lparr>ao_high_s := hs\<rparr>))
      (Exact challenge) policy = Inr r \<and> ra_rp_id r = rp_id entry \<and> ra_credential_id r = sp_credential_id pk \<and>
      (soft_did E pk = fst (candidate_dids E r) \<or> soft_did E pk = snd (candidate_dids E r))"
proof -
  let ?cdj = "soft_client_data_json E ''webauthn.get'' challenge origin (Some False)"
  let ?ad = "soft_authenticator_data E (sp_rp_id pk) (FLAG_UP OR FLAG_UV) []"
  let ?m = "signed_payload E ?ad ?cdj"
  let ?low = "low_s E (p256_try_sign E (sp_key pk) ?m)"
  have a: "soft_assert E pk ((assert_opts_new challenge origin)\<lparr>ao_high_s := hs\<rparr>) = soft_assert_raw E pk ?ad ?cdj hs"
    by (simp add: soft_assert_def assert_opts_new_def)
  obtain s where s: "assertion_bytes E (soft_assert_raw E pk ?ad ?cdj hs) (sp_credential_id pk) ?ad ?cdj
      (p256_sig_to_der E s) (sp_user_handle pk)"
    "s = (if hs then p256_negate_s E else id) ?low" by (rule soft_bytes [OF assms(1)])
  have low: "low_s E s = ?low" "p256_sig_from_der E (p256_sig_to_der E s) = Inr s"
    using assms(3) s(2) by (auto simp: signing_law_def)
  obtain k0 k1 where k: "p256_recover E (sha256 E ?m) ?low False = Some k0"
    "p256_recover E (sha256 E ?m) ?low True = Some k1"
    "p256_verifying_key E (sp_key pk) = k0 \<or> p256_verifying_key E (sp_key pk) = k1"
    by (rule signing_law_candidates [OF assms(3)])
  have len: "length (sha256 E (as_bytes (sp_rp_id pk))) = 32" using assms(2) by (simp add: digest_law_def)
  then have flags: "?ad ! 32 = FLAG_UP OR FLAG_UV" "take 32 ?ad = sha256 E (as_bytes (sp_rp_id pk))"
    by (simp_all add: soft_authenticator_data_def nth_append)
  obtain client where client: "client_data_from_slice E ?cdj = Inr client" "cd_type client = ''webauthn.get''"
    "cd_challenge client = b64_encode E challenge" "cd_origin client = origin" "cd_cross_origin client = Some False"
    "\<not> cd_top_origin client" 
    by (rule that [OF soft_client_deserialized [OF soft_client_data_read [OF assms(4,5)]]]) simp_all
  have "ceremony_ok E policy challenge ?ad ?cdj entry client"
    using assms(1) client entry flags soft_flags len
    by (simp add: ceremony_ok_def b64url_law_def) (simp add: soft_authenticator_data_def)
  then have "verify_and_recover E U (soft_assert_raw E pk ?ad ?cdj hs) (Exact challenge) policy =
      Inr \<lparr>ra_rp_id = rp_id entry, ra_origin = cd_origin client, ra_user_verified = bit (?ad ! 32) 2,
        ra_backup_eligible = bit (?ad ! 32) 3, ra_backup_state = bit (?ad ! 32) 4,
        ra_credential_id = sp_credential_id pk, ra_user_handle = sp_user_handle pk, ra_candidates = (k0, k1)\<rparr>"
    unfolding verify_and_recover_Inr using s(1) low k(1,2)
    by (intro exI conjI) (assumption | simp | rule refl)+
  then show ?thesis unfolding a using k(3) by (auto simp: soft_did_def candidate_dids_def did_key_of_def)
qed

section \<open>A passkey at concrete values\<close>

text \<open>
  A reader of flat objects: strings with a backslash before each quote and backslash, and Booleans.
  Its fuel is the length of the text.
\<close>

definition write_escaped :: "string \<Rightarrow> string" where
  "write_escaped s = concat (map (\<lambda>c. if c = DQUOTE \<or> c = CHR 0x5C then [CHR 0x5C, c] else [c]) s)"

fun read_escaped :: "bool \<Rightarrow> string \<Rightarrow> (string \<times> string) option" where
  "read_escaped esc (c # s) =
     (if \<not> esc \<and> c = DQUOTE then Some ([], s)
      else if \<not> esc \<and> c = CHR 0x5C then read_escaped True s
      else map_option (\<lambda>(x, r). (c # x, r)) (read_escaped False s))"
| "read_escaped esc [] = None"

fun read_scalar :: "string \<Rightarrow> (json_text \<times> string) option" where
  "read_scalar (c # s) =
     (if c = DQUOTE then map_option (\<lambda>(x, r). (JString x, r)) (read_escaped False s)
      else if starts_with ''true'' (c # s) then Some (JBool True, drop 3 s)
      else if starts_with ''false'' (c # s) then Some (JBool False, drop 4 s)
      else None)"
| "read_scalar [] = None"

fun read_flat :: "nat \<Rightarrow> string \<Rightarrow> (string \<times> json_text) list option" where
  "read_flat (Suc n) s =
     (case read_scalar s of
        Some (JString k, c # q) \<Rightarrow>
          (case (if c = CHR '':'' then read_scalar q else None) of
             Some (v, r) \<Rightarrow>
               if r = ''}'' then Some [(k, v)]
               else if take 1 r = '','' then map_option (Cons (k, v)) (read_flat n (drop 1 r)) else None
           | None \<Rightarrow> None)
      | _ \<Rightarrow> None)"
| "read_flat 0 s = None"

definition ref_object_read :: "bytes \<Rightarrow> json_text option" where
  "ref_object_read b =
     (if ref_chars b = ''{}'' then Some (JObject [])
      else if take 1 (ref_chars b) = ''{'' then
        map_option JObject (read_flat (length b) (drop 1 (ref_chars b)))
      else None)"

definition ref_soft :: "bytes soft_crates" where
  "ref_soft = passkey_crates.extend (ref_passkeys\<lparr>json_read := ref_object_read\<rparr>)
     \<lparr>p256_try_sign = (\<lambda>k m. k), p256_verifying_key = (\<lambda>k. 2 # ref_pad 32 k), p256_sig_to_der = id,
      p256_negate_s = id, p256_coordinates = (\<lambda>k. (ref_pad 32 k, ref_pad 32 [])), p256_to_spki = id,
      json_string = (\<lambda>s. quoted (write_escaped s))\<rparr>"

lemma ref_soft_simps [simp]:
  "b64_encode ref_soft = ref_hex_encode" "b64url_decode ref_soft = ref_hex_decode"
  "sha256 ref_soft = ref_digest" "keccak256 ref_soft = keccak256 ref_crates"
  "json_read ref_soft = ref_object_read" "json_string ref_soft s = quoted (write_escaped s)"
  "p256_sig_from_der ref_soft sig = Inr sig" "p256_normalize_s ref_soft sig = None"
  "p256_recover ref_soft z sig y = Some ((if y then 3 else 2) # ref_pad 32 sig)"
  "p256_try_sign ref_soft k m = k" "p256_verifying_key ref_soft k = 2 # ref_pad 32 k"
  "p256_sig_to_der ref_soft sig = sig" "p256_negate_s ref_soft sig = sig"
  by (simp_all add: ref_soft_def ref_passkeys_def ref_crates_def passkey_crates.defs crates.defs)

lemma read_write_escaped [simp]: "read_escaped False (write_escaped s @ DQUOTE # r) = Some (s, r)"
  by (induction s) (simp_all add: write_escaped_def)

lemma write_escaped_plain: "list_all plain_char s \<Longrightarrow> write_escaped s = s"
  by (induction s) (simp_all add: write_escaped_def plain_char_def)

lemma read_quoted: "read_scalar (quoted (write_escaped s) @ r) = Some (JString s, r)"
  by (simp add: quoted_def)

lemma read_scalar_text: "scalar_text ref_soft t v \<Longrightarrow> read_scalar (t @ r) = Some (v, r)"
proof (cases v)
  case (JString s)
  assume "scalar_text ref_soft t v"
  with JString show ?thesis using read_quoted [of s r] write_escaped_plain [of s] by auto
next
  case (JBool b)
  assume "scalar_text ref_soft t v"
  with JBool show ?thesis by (cases b) (simp_all add: starts_with_def)
qed simp_all

lemma read_key: "list_all plain_char k \<Longrightarrow> read_scalar (quoted k @ r) = Some (JString k, r)"
  using read_quoted [of k r] by (simp add: write_escaped_plain)

lemma read_member_texts:
  assumes "list_all2 (\<lambda>(k, t) (k', v). k = k' \<and> list_all plain_char k \<and> scalar_text ref_soft t v) ts ms"
    "ts \<noteq> []" "length (member_texts ts) \<le> n"
  shows "read_flat n (member_texts ts @ ''}'') = Some ms"
  using assms
proof (induction ts arbitrary: ms n rule: member_texts.induct)
  case (2 k t)
  then obtain m where "n = Suc m" by (cases n) (auto simp: quoted_def)
  with 2 show ?case by (auto simp: list_all2_Cons1 read_key read_scalar_text)
next
  case (3 k t p ts)
  then obtain m where n: "n = Suc m" by (cases n) (auto simp: quoted_def)
  from 3 n show ?case
    by (auto simp: list_all2_Cons1 read_key read_scalar_text quoted_def [of "[]"])
qed simp

lemma ref_json_object_law: "json_object_law ref_soft"
proof -
  have "ref_object_read (as_bytes (object_text ts)) = Some (JObject ms)"
    if "list_all2 (\<lambda>(k, t) (k', v). k = k' \<and> list_all plain_char k \<and> scalar_text ref_soft t v) ts ms" for ts ms
  proof (cases "ts = []")
    case True
    with that show ?thesis by (simp add: ref_object_read_def object_text_def)
  next
    case False
    then have "member_texts ts \<noteq> []" by (cases ts rule: member_texts.cases) (auto simp: quoted_def)
    moreover have "read_flat (length (as_bytes (object_text ts))) (member_texts ts @ ''}'') = Some ms"
      by (rule read_member_texts [OF that False]) (simp add: as_bytes_def object_text_def)
    ultimately show ?thesis
      by (simp del: read_flat.simps add: ref_object_read_def object_text_def append_eq_Cons_conv)
  qed
  then show ?thesis by (simp add: json_object_law_def)
qed

lemma is_hex_lower_plain: "is_hex_lower c \<Longrightarrow> plain_char c"
  by (auto simp: is_hex_lower_def is_ascii_digit_def plain_char_def)

lemma ref_soft_laws:
  "b64url_law ref_soft" "digest_law ref_soft" "signing_law ref_soft" "json_object_law ref_soft" "b64_text_law ref_soft"
  using ref_digest_law ref_json_object_law ref_hex_encode_chars
  by (auto simp: b64url_law_def ref_hex_roundtrip digest_law_def signing_law_def low_s_def b64_text_law_def
      list_all_iff intro: is_hex_lower_plain)

theorem soft_passkey_accepted_witness:
  "\<exists>r. verify_and_recover ref_soft ref_url (soft_assert ref_soft (soft_new_seeded [9] [1] [5] ''localhost'')
      ((assert_opts_new ref_want ''http://localhost'')\<lparr>ao_high_s := True\<rparr>)) (Exact ref_want) ref_policy = Inr r \<and>
     ra_rp_id r = ''localhost''"
proof -
  let ?pk = "soft_new_seeded [9] [1] [5] ''localhost'' :: bytes soft_passkey"
  have "entry_for_rp_id_hash ref_policy (sha256 ref_soft (as_bytes (sp_rp_id ?pk))) = Some (hd (pol_entries ref_policy))"
    by (simp add: entry_for_rp_id_hash_def ref_policy_def soft_new_seeded_def ref_crates_def)
  moreover have "''http://localhost'' \<in> set (rp_origins (hd (pol_entries ref_policy)))"
    "rp_id (hd (pol_entries ref_policy)) = ''localhost''" by (simp_all add: ref_policy_def)
  ultimately show ?thesis
    using soft_passkey_accepted [OF ref_soft_laws, of ref_policy ?pk "hd (pol_entries ref_policy)"
        "''http://localhost''" ref_url True ref_want]
    by auto
qed

end
