(* ===== verification/Webauthn_Store.thy ===== *)
theory Webauthn_Store
  imports Webauthn
begin

text \<open>
  The credential store (webauthn\_store.rs): the \<open>WebauthnCredentialBackend\<close> trait as a record over
  a type \<open>'b\<close> of states, its contract as a locale over the map it stands for, and the in-memory
  backend, which meets it. The option objects handed to the browser (webauthn\_options.rs) stand
  here too.
\<close>

section \<open>The trait\<close>

record stored_credential =
  sc_did :: string
  sc_credential_id :: bytes
  sc_public_key :: bytes
  sc_sign_count :: u32
  sc_transports :: "string list"
  sc_label :: "string option"
  sc_created_at :: u64

record new_credential =
  nc_did :: string
  nc_credential_id :: bytes
  nc_public_key :: bytes
  nc_sign_count :: u32
  nc_transports :: "string list"
  nc_label :: "string option"

datatype webauthn_store_error = CredNotFound | CredBackend string

fun webauthn_store_error_display :: "webauthn_store_error \<Rightarrow> string" where
  "webauthn_store_error_display CredNotFound = ''credential not found''"
| "webauthn_store_error_display (CredBackend s) = ''credential store backend error: '' @ s"

record 'b credential_backend =
  cb_insert :: "u64 \<Rightarrow> new_credential \<Rightarrow> 'b \<Rightarrow> 'b \<times> (webauthn_store_error + unit)"
  cb_list_for_did :: "string \<Rightarrow> 'b \<Rightarrow> webauthn_store_error + stored_credential list"
  cb_get_by_id :: "bytes \<Rightarrow> 'b \<Rightarrow> webauthn_store_error + stored_credential option"
  cb_update_sign_count :: "bytes \<Rightarrow> u32 \<Rightarrow> 'b \<Rightarrow> 'b \<times> (webauthn_store_error + unit)"
  cb_delete :: "string \<Rightarrow> bytes \<Rightarrow> 'b \<Rightarrow> 'b \<times> (webauthn_store_error + bool)"

section \<open>The in-memory backend\<close>

text \<open>The mutex is its data and whether it is poisoned.\<close>

record in_memory_webauthn_store =
  iw_creds :: "(bytes, stored_credential) dmap"
  iw_poisoned :: bool

definition iw_new :: in_memory_webauthn_store where
  "iw_new = \<lparr>iw_creds = [], iw_poisoned = False\<rparr>"

definition poisoned_error :: webauthn_store_error where
  "poisoned_error = CredBackend ''in-memory credential store lock poisoned''"

definition iw_lock :: "in_memory_webauthn_store \<Rightarrow> webauthn_store_error + (bytes, stored_credential) dmap" where
  "iw_lock st = (if iw_poisoned st then Inl poisoned_error else Inr (iw_creds st))"

definition stored_of :: "u64 \<Rightarrow> new_credential \<Rightarrow> stored_credential" where
  "stored_of now cred =
     \<lparr>sc_did = nc_did cred, sc_credential_id = nc_credential_id cred, sc_public_key = nc_public_key cred,
      sc_sign_count = nc_sign_count cred, sc_transports = nc_transports cred, sc_label = nc_label cred,
      sc_created_at = now\<rparr>"

definition iw_insert ::
  "u64 \<Rightarrow> new_credential \<Rightarrow> in_memory_webauthn_store \<Rightarrow> in_memory_webauthn_store \<times> (webauthn_store_error + unit)" where
  "iw_insert now cred st =
     (case iw_lock st of
        Inl e \<Rightarrow> (st, Inl e)
      | Inr m \<Rightarrow> (st\<lparr>iw_creds := AList.update (nc_credential_id cred) (stored_of now cred) m\<rparr>, Inr ()))"

definition iw_list_for_did ::
  "string \<Rightarrow> in_memory_webauthn_store \<Rightarrow> webauthn_store_error + stored_credential list" where
  "iw_list_for_did did st = rmap (\<lambda>m. filter (\<lambda>c. sc_did c = did) (map snd m)) (iw_lock st)"

definition iw_get_by_id ::
  "bytes \<Rightarrow> in_memory_webauthn_store \<Rightarrow> webauthn_store_error + stored_credential option" where
  "iw_get_by_id cred_id st = rmap (\<lambda>m. map_of m cred_id) (iw_lock st)"

definition iw_update_sign_count ::
  "bytes \<Rightarrow> u32 \<Rightarrow> in_memory_webauthn_store \<Rightarrow> in_memory_webauthn_store \<times> (webauthn_store_error + unit)" where
  "iw_update_sign_count cred_id new_count st =
     (case iw_lock st of
        Inl e \<Rightarrow> (st, Inl e)
      | Inr m \<Rightarrow>
          (case map_of m cred_id of
             None \<Rightarrow> (st, Inl CredNotFound)
           | Some cred \<Rightarrow>
               if sc_sign_count cred < new_count then
                 (st\<lparr>iw_creds := AList.update cred_id (cred\<lparr>sc_sign_count := new_count\<rparr>) m\<rparr>, Inr ())
               else (st, Inr ())))"

definition iw_delete ::
  "string \<Rightarrow> bytes \<Rightarrow> in_memory_webauthn_store \<Rightarrow> in_memory_webauthn_store \<times> (webauthn_store_error + bool)" where
  "iw_delete did cred_id st =
     (case iw_lock st of
        Inl e \<Rightarrow> (st, Inl e)
      | Inr m \<Rightarrow>
          (case map_of m cred_id of
             Some c \<Rightarrow>
               if sc_did c = did then (st\<lparr>iw_creds := AList.delete cred_id m\<rparr>, Inr True) else (st, Inr False)
           | None \<Rightarrow> (st, Inr False)))"

definition in_memory_webauthn :: "in_memory_webauthn_store credential_backend" where
  "in_memory_webauthn = \<lparr>cb_insert = iw_insert, cb_list_for_did = iw_list_for_did, cb_get_by_id = iw_get_by_id,
     cb_update_sign_count = iw_update_sign_count, cb_delete = iw_delete\<rparr>"

section \<open>Option objects\<close>

definition PASSKEY_USER_NAME :: string where
  "PASSKEY_USER_NAME = ''inblock.io''"

definition COSE_ES256 :: int where
  "COSE_ES256 = -7"

record relying_party_json =
  rpj_id :: string
  rpj_name :: string

record user_entity_json =
  ue_id :: string
  ue_name :: string
  ue_display_name :: string

record credential_parameter_json =
  cp_type :: string
  cp_alg :: int

record authenticator_selection_json =
  as_resident_key :: string
  as_require_resident_key :: bool
  as_user_verification :: string

record creation_options_json =
  co_rp :: relying_party_json
  co_user :: user_entity_json
  co_challenge :: string
  co_pub_key_cred_params :: "credential_parameter_json list"
  co_authenticator_selection :: authenticator_selection_json
  co_attestation :: string
  co_cred_props :: bool

record credential_descriptor_json =
  de_type :: string
  de_id :: string

record request_options_json =
  ro_challenge :: string
  ro_rp_id :: string
  ro_allow_credentials :: "credential_descriptor_json list"
  ro_user_verification :: string

text \<open>\<open>user_id\<close> is the 32 bytes drawn from the random source.\<close>

definition creation_options ::
  "('x, 'z) crates_scheme \<Rightarrow> bytes \<Rightarrow> string \<Rightarrow> string \<Rightarrow> string \<Rightarrow> bytes \<Rightarrow> creation_options_json" where
  "creation_options E user_id rp_id rp_name user_name challenge =
     \<lparr>co_rp = \<lparr>rpj_id = rp_id, rpj_name = rp_name\<rparr>,
      co_user = \<lparr>ue_id = b64_encode E user_id, ue_name = user_name, ue_display_name = user_name\<rparr>,
      co_challenge = b64_encode E challenge,
      co_pub_key_cred_params = [\<lparr>cp_type = ''public-key'', cp_alg = COSE_ES256\<rparr>],
      co_authenticator_selection = \<lparr>as_resident_key = ''required'', as_require_resident_key = True,
        as_user_verification = ''required''\<rparr>,
      co_attestation = ''none'', co_cred_props = True\<rparr>"

definition request_options ::
  "('x, 'z) crates_scheme \<Rightarrow> string \<Rightarrow> bytes \<Rightarrow> bytes list \<Rightarrow> request_options_json" where
  "request_options E rp_id challenge allow =
     \<lparr>ro_challenge = b64_encode E challenge, ro_rp_id = rp_id,
      ro_allow_credentials = map (\<lambda>id. \<lparr>de_type = ''public-key'', de_id = b64_encode E id\<rparr>) allow,
      ro_user_verification = ''required''\<rparr>"

section \<open>The contract\<close>

datatype credential_op =
    InsertOp u64 new_credential
  | UpdateOp bytes u32
  | DeleteOp string bytes

fun cb_step :: "'b credential_backend \<Rightarrow> credential_op \<Rightarrow> 'b \<Rightarrow> 'b" where
  "cb_step B (InsertOp now c) b = fst (cb_insert B now c b)"
| "cb_step B (UpdateOp k n) b = fst (cb_update_sign_count B k n b)"
| "cb_step B (DeleteOp did k) b = fst (cb_delete B did k b)"

text \<open>The abstract store: a map, whose counts only rise and whose entries only their DID deletes.\<close>

definition bump :: "u32 \<Rightarrow> stored_credential \<Rightarrow> stored_credential" where
  "bump n c = c\<lparr>sc_sign_count := max (sc_sign_count c) n\<rparr>"

fun spec_step :: "credential_op \<Rightarrow> (bytes \<rightharpoonup> stored_credential) \<Rightarrow> (bytes \<rightharpoonup> stored_credential)" where
  "spec_step (InsertOp now c) m = m(nc_credential_id c \<mapsto> stored_of now c)"
| "spec_step (UpdateOp k n) m = m(k := map_option (bump n) (m k))"
| "spec_step (DeleteOp did k) m = (if map_option sc_did (m k) = Some did then m(k := None) else m)"

locale credential_contract =
  fixes B :: "'b credential_backend"
    and usable :: "'b \<Rightarrow> bool"
    and abs :: "'b \<Rightarrow> (bytes \<rightharpoonup> stored_credential)"
  assumes step_usable: "usable b \<Longrightarrow> usable (cb_step B op b)"
    and step_abs: "usable b \<Longrightarrow> abs (cb_step B op b) = spec_step op (abs b)"
    and get: "usable b \<Longrightarrow> cb_get_by_id B k b = Inr (abs b k)"
    and listed: "usable b \<Longrightarrow>
      \<exists>cs. cb_list_for_did B did b = Inr cs \<and> set cs = {c \<in> ran (abs b). sc_did c = did}"
    and update_result: "usable b \<Longrightarrow>
      snd (cb_update_sign_count B k n b) = (if abs b k = None then Inl CredNotFound else Inr ())"
    and delete_result: "usable b \<Longrightarrow>
      snd (cb_delete B did k b) = Inr (map_option sc_did (abs b k) = Some did)"
begin

lemma run_abs: "usable b \<Longrightarrow> usable (fold (cb_step B) ops b) \<and> abs (fold (cb_step B) ops b) = fold spec_step ops (abs b)"
  by (induction ops arbitrary: b) (simp_all add: step_usable step_abs)

lemma run_get: "usable b \<Longrightarrow> cb_get_by_id B k (fold (cb_step B) ops b) = Inr (fold spec_step ops (abs b) k)"
  using run_abs get by simp

end

interpretation iw: credential_contract in_memory_webauthn "\<lambda>st. \<not> iw_poisoned st \<and> dmap_wf (iw_creds st)"
  "\<lambda>st. map_of (iw_creds st)"
proof
  fix st :: in_memory_webauthn_store and op
  assume st: "\<not> iw_poisoned st \<and> dmap_wf (iw_creds st)"
  show "\<not> iw_poisoned (cb_step in_memory_webauthn op st) \<and> dmap_wf (iw_creds (cb_step in_memory_webauthn op st))"
    using st by (cases op) (auto simp: in_memory_webauthn_def iw_insert_def iw_update_sign_count_def iw_delete_def
        iw_lock_def split: option.splits)
  show "map_of (iw_creds (cb_step in_memory_webauthn op st)) = spec_step op (map_of (iw_creds st))"
    using st by (cases op) (auto simp: in_memory_webauthn_def iw_insert_def iw_update_sign_count_def iw_delete_def
        iw_lock_def bump_def max_def fun_eq_iff split: option.splits)
qed (auto simp: in_memory_webauthn_def iw_get_by_id_def iw_list_for_did_def iw_update_sign_count_def iw_delete_def
    iw_lock_def dmap_wf_def ran_distinct dest: eq_key_imp_eq_value split: option.splits)

section \<open>Properties\<close>

text \<open>What happens to one credential in the abstract store while it is not inserted again.\<close>

lemma spec_run_credential:
  assumes "fold spec_step ops m k = Some c'" "\<forall>now c. InsertOp now c \<in> set ops \<longrightarrow> nc_credential_id c \<noteq> k"
  shows "\<exists>c. m k = Some c \<and> sc_did c' = sc_did c \<and> sc_public_key c' = sc_public_key c \<and>
    sc_sign_count c \<le> sc_sign_count c' \<and> (\<forall>n. UpdateOp k n \<in> set ops \<longrightarrow> n \<le> sc_sign_count c')"
  using assms
proof (induction ops arbitrary: m)
  case (Cons op ops)
  then obtain c where c: "spec_step op m k = Some c" "sc_did c' = sc_did c" "sc_public_key c' = sc_public_key c"
    "sc_sign_count c \<le> sc_sign_count c'" "\<forall>n. UpdateOp k n \<in> set ops \<longrightarrow> n \<le> sc_sign_count c'"
    by (metis (no_types, lifting) fold_simps(2) list.set_intros(2))
  with Cons.prems(2) show ?case
    by (cases op) (auto simp: bump_def split: if_splits)
qed simp

text \<open>
  C30. The in-memory credential store is the map its trait describes: after any sequence of
  insertions, count updates and deletions of a store whose lock is not poisoned, a lookup gives
  what the abstract map holds, the list of a DID is its credentials in that map, an update fails
  exactly for an unknown id, and a deletion reports whether the DID owned the credential.
\<close>

theorem credential_store_refines:
  "let st = fold (cb_step in_memory_webauthn) ops iw_new; spec = fold spec_step ops Map.empty in
     iw_get_by_id k st = Inr (spec k) \<and>
     (\<exists>cs. iw_list_for_did did st = Inr cs \<and> set cs = {c \<in> ran spec. sc_did c = did}) \<and>
     snd (iw_update_sign_count k n st) = (if spec k = None then Inl CredNotFound else Inr ()) \<and>
     snd (iw_delete did k st) = Inr (map_option sc_did (spec k) = Some did)"
proof -
  let ?st = "fold (cb_step in_memory_webauthn) ops iw_new"
  have new: "\<not> iw_poisoned iw_new \<and> dmap_wf (iw_creds iw_new)" "map_of (iw_creds iw_new) = Map.empty"
    by (simp_all add: iw_new_def)
  note u = iw.run_abs [OF new(1), of ops, unfolded new(2)]
  have ops: "cb_get_by_id in_memory_webauthn = iw_get_by_id" "cb_list_for_did in_memory_webauthn = iw_list_for_did"
    "cb_update_sign_count in_memory_webauthn = iw_update_sign_count" "cb_delete in_memory_webauthn = iw_delete"
    by (simp_all add: in_memory_webauthn_def)
  show ?thesis
    using iw.get [of ?st k] iw.listed [of ?st did] iw.update_result [of ?st k n] iw.delete_result [of ?st did k] u
    unfolding ops Let_def by simp
qed

text \<open>
  C31. A sign count never goes back: over any sequence of operations that does not register the
  credential anew, a credential still present keeps its DID and key, and its count is at least
  what it was and at least every count reported for it, so a cloned authenticator that lags
  behind is seen.
\<close>

theorem sign_count_monotone:
  assumes "\<not> iw_poisoned st" "dmap_wf (iw_creds st)"
    and "iw_get_by_id k (fold (cb_step in_memory_webauthn) ops st) = Inr (Some c')"
    and "\<forall>now c. InsertOp now c \<in> set ops \<longrightarrow> nc_credential_id c \<noteq> k"
  shows "\<exists>c. iw_get_by_id k st = Inr (Some c) \<and> sc_did c' = sc_did c \<and> sc_public_key c' = sc_public_key c \<and>
    sc_sign_count c \<le> sc_sign_count c' \<and> (\<forall>n. UpdateOp k n \<in> set ops \<longrightarrow> n \<le> sc_sign_count c')"
proof -
  have u: "\<not> iw_poisoned st \<and> dmap_wf (iw_creds st)" using assms(1,2) by simp
  have "fold spec_step ops (map_of (iw_creds st)) k = Some c'"
    using iw.run_get [OF u, of k ops] assms(3) by (simp add: in_memory_webauthn_def)
  from spec_run_credential [OF this assms(4)] iw.get [OF u, of k] show ?thesis
    by (auto simp: in_memory_webauthn_def)
qed

definition ref_new_credential :: new_credential where
  "ref_new_credential = \<lparr>nc_did = ''did:key:z'', nc_credential_id = [1], nc_public_key = [2], nc_sign_count = 3,
     nc_transports = [], nc_label = None\<rparr>"

theorem sign_count_monotone_witness:
  "\<exists>c. iw_get_by_id [1] (fst (iw_insert 0 ref_new_credential iw_new)) = Inr (Some c) \<and> sc_sign_count c \<le> 7"
proof -
  let ?st = "fst (iw_insert 0 ref_new_credential iw_new)"
  have "iw_get_by_id [1] (fold (cb_step in_memory_webauthn) [UpdateOp [1] 7, UpdateOp [1] 5] ?st) =
      Inr (Some ((stored_of 0 ref_new_credential)\<lparr>sc_sign_count := 7\<rparr>))"
    by (simp add: in_memory_webauthn_def iw_update_sign_count_def iw_insert_def iw_lock_def iw_new_def
        ref_new_credential_def stored_of_def iw_get_by_id_def)
  moreover have "\<not> iw_poisoned ?st" "dmap_wf (iw_creds ?st)"
    by (simp_all add: iw_insert_def iw_lock_def iw_new_def dmap_wf_def)
  ultimately obtain c where "iw_get_by_id [1] ?st = Inr (Some c)"
    "sc_sign_count c \<le> sc_sign_count ((stored_of 0 ref_new_credential)\<lparr>sc_sign_count := 7\<rparr>)"
    using sign_count_monotone [of ?st "[1]" "[UpdateOp [1] 7, UpdateOp [1] 5]"] by auto
  then show ?thesis by auto
qed

end
