(* ===== verification/Webauthn_Ceremony.thy ===== *)
theory Webauthn_Ceremony
  imports Webauthn_Store
begin

text \<open>
  The register and login ceremony (webauthn\_ceremony.rs), wrappers over webauthn-rs that derive the
  credential material and the DID a credential is bound to. webauthn-rs, uuid and sha3 are a record
  of the functions called, all their values in one type \<open>'o\<close>; a start draws its random bytes.
\<close>

section \<open>The crates\<close>

text \<open>A COSE key: an EC2 key with the \<open>Debug\<close> name of its curve, or another with its \<open>Debug\<close> text.\<close>

datatype cose_key =
    EC_EC2 string bytes bytes
  | OtherCose string

record 'o webauthn_rs =
  wr_builder_new :: "string \<Rightarrow> parsed_url \<Rightarrow> string + 'o"
  wr_rp_name :: "string \<Rightarrow> 'o \<Rightarrow> 'o"
  wr_append_allowed_origin :: "parsed_url \<Rightarrow> 'o \<Rightarrow> 'o"
  wr_build :: "'o \<Rightarrow> string + 'o"
  wr_start_passkey_registration ::
    "'o \<Rightarrow> bytes \<Rightarrow> bytes \<Rightarrow> string \<Rightarrow> string \<Rightarrow> bytes list option \<Rightarrow> string + ('o \<times> 'o)"
  wr_finish_passkey_registration :: "'o \<Rightarrow> 'o \<Rightarrow> 'o \<Rightarrow> string + 'o"
  wr_start_passkey_authentication :: "'o \<Rightarrow> bytes \<Rightarrow> 'o list \<Rightarrow> string + ('o \<times> 'o)"
  wr_finish_passkey_authentication :: "'o \<Rightarrow> 'o \<Rightarrow> 'o \<Rightarrow> string + 'o"
  wr_passkey_cred_id :: "'o \<Rightarrow> bytes"
  wr_passkey_key :: "'o \<Rightarrow> cose_key"
  wr_passkey_to_json :: "'o \<Rightarrow> string + bytes"
  wr_passkey_from_json :: "bytes \<Rightarrow> string + 'o"
  wr_result_cred_id :: "'o \<Rightarrow> bytes"
  wr_result_counter :: "'o \<Rightarrow> u32"
  uuid_from_slice :: "bytes \<Rightarrow> string + bytes"
  sha3_256 :: "bytes \<Rightarrow> bytes"

text \<open>serde: a serialized passkey reads back.\<close>

definition passkey_json_law :: "'o webauthn_rs \<Rightarrow> bool" where
  "passkey_json_law W \<longleftrightarrow> (\<forall>pk blob. wr_passkey_to_json W pk = Inr blob \<longrightarrow> wr_passkey_from_json W blob = Inr pk)"

section \<open>The ceremony\<close>

datatype ceremony_error =
    CeremonyWebauthn string
  | BadRequest string
  | CeremonyInternal string

fun ceremony_error_display :: "ceremony_error \<Rightarrow> string" where
  "ceremony_error_display (CeremonyWebauthn s) = ''webauthn error: '' @ s"
| "ceremony_error_display (BadRequest s) = ''bad request: '' @ s"
| "ceremony_error_display (CeremonyInternal s) = ''internal: '' @ s"

record webauthn_config =
  wc_rp_id :: string
  wc_rp_name :: string
  wc_allowed_origins :: "string list"

definition build_webauthn :: "'o webauthn_rs \<Rightarrow> url_parser \<Rightarrow> webauthn_config \<Rightarrow> ceremony_error + 'o" where
  "build_webauthn W U config =
     rbind (collect_results
              (\<lambda>orig. map_err (\<lambda>e. CeremonyInternal (''invalid origin '' @ orig @ '': '' @ e)) (U orig))
              (wc_allowed_origins config)) (\<lambda>origins.
     case origins of
       [] \<Rightarrow> Inl (CeremonyInternal ''allowed_origins must be non-empty'')
     | first # rest \<Rightarrow>
         rbind (map_err (\<lambda>e. CeremonyInternal (''webauthn builder: '' @ e))
                  (wr_builder_new W (wc_rp_id config) first)) (\<lambda>b.
         map_err (\<lambda>e. CeremonyInternal (''webauthn build: '' @ e))
           (wr_build W (fold (wr_append_allowed_origin W) rest (wr_rp_name W (wc_rp_name config) b)))))"

definition user_handle_for :: "'o webauthn_rs \<Rightarrow> string \<Rightarrow> bytes" where
  "user_handle_for W did = sha3_256 W (as_bytes did)"

definition did_key_from_p256_compressed :: "('x, 'z) crates_scheme \<Rightarrow> bytes \<Rightarrow> string" where
  "did_key_from_p256_compressed E pubkey = p256_did_key_from_pubkey E pubkey"

definition p256_compressed_from_passkey :: "'o webauthn_rs \<Rightarrow> 'o \<Rightarrow> ceremony_error + bytes" where
  "p256_compressed_from_passkey W passkey =
     (case wr_passkey_key W passkey of
        EC_EC2 curve x_bytes y_bytes \<Rightarrow>
          if curve \<noteq> ''SECP256R1'' then
            Inl (BadRequest (''credential uses unsupported curve '' @ curve @ '' (expected P-256)''))
          else if length x_bytes \<noteq> 32 then
            Inl (CeremonyInternal (''P-256 x-coordinate must be 32 bytes, got '' @ show_nat (length x_bytes)))
          else
            let y_is_odd = (y_bytes \<noteq> [] \<and> bit (last y_bytes) 0)
            in Inr ((if y_is_odd then 0x03 else 0x02) # x_bytes)
      | OtherCose other \<Rightarrow> Inl (BadRequest (''credential key type '' @ other @ '' is not P-256 EC2'')))"

definition p256_compressed_from_passkey_blob :: "'o webauthn_rs \<Rightarrow> bytes \<Rightarrow> ceremony_error + bytes" where
  "p256_compressed_from_passkey_blob W blob =
     rbind (map_err (\<lambda>e. CeremonyInternal (''deserialize Passkey blob: '' @ e)) (wr_passkey_from_json W blob))
       (p256_compressed_from_passkey W)"

definition passkey_from_blob :: "'o webauthn_rs \<Rightarrow> bytes \<Rightarrow> 'o option" where
  "passkey_from_blob W blob = ok (wr_passkey_from_json W blob)"

datatype register_mode =
    Anonymous
  | SecondFactor string "bytes list"

record 'o started_registration =
  sg_options :: 'o
  sg_state :: 'o
  sg_intended_did :: "string option"

text \<open>\<open>uuid_bytes\<close> is what \<open>Uuid::new_v4\<close> draws, \<open>challenge_bytes\<close> what webauthn-rs draws.\<close>

definition register_start ::
  "'o webauthn_rs \<Rightarrow> 'o \<Rightarrow> bytes \<Rightarrow> bytes \<Rightarrow> register_mode \<Rightarrow> ceremony_error + 'o started_registration" where
  "register_start W webauthn uuid_bytes challenge_bytes mode =
     rbind (case mode of
              SecondFactor did existing_credential_ids \<Rightarrow>
                rbind (map_err (\<lambda>e. CeremonyInternal (''uuid from did: '' @ e))
                         (uuid_from_slice W (take 16 (user_handle_for W did)))) (\<lambda>user_uuid.
                Inr (user_uuid, did,
                     if existing_credential_ids = [] then None else Some existing_credential_ids, Some did))
            | Anonymous \<Rightarrow> Inr (uuid_bytes, ''aqua passkey'', None, None))
       (\<lambda>(user_uuid, username, exclude, intended_did).
     rbind (map_err (\<lambda>e. BadRequest (''start_passkey_registration: '' @ e))
              (wr_start_passkey_registration W webauthn challenge_bytes user_uuid username username exclude))
       (\<lambda>(options, state).
     Inr \<lparr>sg_options = options, sg_state = state, sg_intended_did = intended_did\<rparr>))"

record finished_registration =
  fg_credential :: new_credential
  fg_did :: string
  fg_credential_id_hex :: string

definition register_finish ::
  "('x, 'z) crates_scheme \<Rightarrow> 'o webauthn_rs \<Rightarrow> 'o \<Rightarrow> 'o \<Rightarrow> 'o \<Rightarrow> string option \<Rightarrow> string option \<Rightarrow>
   string option \<Rightarrow> ceremony_error + finished_registration" where
  "register_finish E W webauthn attestation state intended_did completing_did label =
     rbind (map_err (\<lambda>e. BadRequest (''finish_passkey_registration: '' @ e))
              (wr_finish_passkey_registration W webauthn attestation state)) (\<lambda>passkey.
     let credential_id_bytes = wr_passkey_cred_id W passkey;
         credential_id_hex = hex_encode E credential_id_bytes
     in
     rbind (map_err (\<lambda>e. CeremonyInternal (''serialize passkey: '' @ e)) (wr_passkey_to_json W passkey))
       (\<lambda>public_key.
     rbind (case intended_did of
              Some intended \<Rightarrow>
                (case completing_did of
                   Some c \<Rightarrow> if c = intended then Inr intended
                             else Inl (BadRequest ''challenge does not belong to the completing caller'')
                 | None \<Rightarrow> Inl (BadRequest ''challenge does not belong to the completing caller''))
            | None \<Rightarrow>
                rbind (p256_compressed_from_passkey_blob W public_key)
                  (\<lambda>pubkey. Inr (did_key_from_p256_compressed E pubkey))) (\<lambda>did.
     Inr \<lparr>fg_credential = \<lparr>nc_did = did, nc_credential_id = credential_id_bytes, nc_public_key = public_key,
            nc_sign_count = 0, nc_transports = [], nc_label = label\<rparr>,
          fg_did = did, fg_credential_id_hex = credential_id_hex\<rparr>)))"

definition login_start ::
  "'o webauthn_rs \<Rightarrow> 'o \<Rightarrow> bytes \<Rightarrow> 'o list \<Rightarrow> ceremony_error + ('o \<times> 'o)" where
  "login_start W webauthn challenge_bytes passkeys =
     map_err (\<lambda>e. BadRequest (''start_passkey_authentication: '' @ e))
       (wr_start_passkey_authentication W webauthn challenge_bytes passkeys)"

record finished_login =
  fl_credential_id :: bytes
  fl_counter :: u32

definition login_finish :: "'o webauthn_rs \<Rightarrow> 'o \<Rightarrow> 'o \<Rightarrow> 'o \<Rightarrow> ceremony_error + finished_login" where
  "login_finish W webauthn assertion state =
     rbind (map_err (\<lambda>e. BadRequest (''finish_passkey_authentication: '' @ e))
              (wr_finish_passkey_authentication W webauthn assertion state)) (\<lambda>result.
     Inr \<lparr>fl_credential_id = wr_result_cred_id W result, fl_counter = wr_result_counter W result\<rparr>)"

section \<open>Properties\<close>

lemma p256_compressed_shape:
  "p256_compressed_from_passkey W pk = Inr k \<Longrightarrow>
     \<exists>x y. wr_passkey_key W pk = EC_EC2 ''SECP256R1'' x y \<and> length x = 32 \<and> (k = 2 # x \<or> k = 3 # x)"
  by (auto simp: p256_compressed_from_passkey_def Let_def split: cose_key.splits if_splits)

text \<open>The DID a registration binds: the one the challenge recorded, completed by that very caller,
  or else the credential's own key.\<close>

definition bound_did ::
  "('x, 'z) crates_scheme \<Rightarrow> 'o webauthn_rs \<Rightarrow> 'o \<Rightarrow> string option \<Rightarrow> string option \<Rightarrow> string \<Rightarrow> bool" where
  "bound_did E W pk intended completing did \<longleftrightarrow>
     (case intended of
        Some d \<Rightarrow> completing = Some d \<and> did = d
      | None \<Rightarrow> \<exists>k. p256_compressed_from_passkey W pk = Inr k \<and> did = p256_did_key_from_pubkey E k)"

lemma register_finish_Inr:
  assumes "passkey_json_law W"
  shows "register_finish E W w att st intended completing label = Inr f \<longleftrightarrow>
    (\<exists>pk blob. wr_finish_passkey_registration W w att st = Inr pk \<and> wr_passkey_to_json W pk = Inr blob \<and>
       bound_did E W pk intended completing (fg_did f) \<and>
       f = \<lparr>fg_credential = \<lparr>nc_did = fg_did f, nc_credential_id = wr_passkey_cred_id W pk, nc_public_key = blob,
              nc_sign_count = 0, nc_transports = [], nc_label = label\<rparr>,
            fg_did = fg_did f, fg_credential_id_hex = hex_encode E (wr_passkey_cred_id W pk)\<rparr>)"
proof -
  have blob: "p256_compressed_from_passkey_blob W blob = p256_compressed_from_passkey W pk"
    if "wr_passkey_to_json W pk = Inr blob" for pk blob
    using assms that by (simp add: passkey_json_law_def p256_compressed_from_passkey_blob_def)
  note defs = register_finish_def bound_did_def did_key_from_p256_compressed_def Let_def
  show ?thesis
  proof (cases intended)
    case None
    then show ?thesis by (cases f) (auto simp: defs blob)
  next
    case (Some d)
    then show ?thesis by (cases f; cases completing) (auto simp: defs)
  qed
qed

text \<open>
  C32. A registration binds its credential to the right DID and survives storage: the ceremony
  succeeds only when webauthn-rs accepts the attestation and either the completing caller is the
  one the challenge was issued to or, with no caller recorded, the credential is a P-256 key and
  its own \<open>did:key\<close> is taken; stored, it is found under its id with that DID, count zero and a blob
  that reads back as the same passkey.
\<close>

theorem registration_binding:
  assumes "passkey_json_law W" "\<not> iw_poisoned store"
    and "register_finish E W w att st intended completing label = Inr f"
    and "iw_insert now (fg_credential f) store = (store', r)"
  shows "r = Inr () \<and>
    (\<exists>pk c. wr_finish_passkey_registration W w att st = Inr pk \<and> bound_did E W pk intended completing (fg_did f) \<and>
       iw_get_by_id (wr_passkey_cred_id W pk) store' = Inr (Some c) \<and> sc_did c = fg_did f \<and>
       sc_sign_count c = 0 \<and> passkey_from_blob W (sc_public_key c) = Some pk)"
proof -
  from assms(3) obtain pk blob where pk: "wr_finish_passkey_registration W w att st = Inr pk"
    "wr_passkey_to_json W pk = Inr blob" "bound_did E W pk intended completing (fg_did f)"
    "fg_credential f = \<lparr>nc_did = fg_did f, nc_credential_id = wr_passkey_cred_id W pk, nc_public_key = blob,
       nc_sign_count = 0, nc_transports = [], nc_label = label\<rparr>"
    unfolding register_finish_Inr [OF assms(1)] by (metis finished_registration.select_convs(1))
  moreover have "passkey_from_blob W blob = Some pk"
    using assms(1) pk(2) by (simp add: passkey_json_law_def passkey_from_blob_def)
  ultimately show ?thesis
    using assms(2,4) by (auto simp: iw_insert_def iw_lock_def iw_get_by_id_def stored_of_def)
qed

text \<open>A toy webauthn-rs, whose values are bytes and whose passkeys are the attestations.\<close>

definition ref_webauthn_rs :: "bytes webauthn_rs" where
  "ref_webauthn_rs = \<lparr>wr_builder_new = (\<lambda>_ _. Inr []), wr_rp_name = (\<lambda>_ b. b), wr_append_allowed_origin = (\<lambda>_ b. b),
     wr_build = Inr, wr_start_passkey_registration = (\<lambda>_ c u _ _ _. Inr (c, u)),
     wr_finish_passkey_registration = (\<lambda>_ a _. Inr a),
     wr_start_passkey_authentication = (\<lambda>_ c _. Inr (c, c)),
     wr_finish_passkey_authentication = (\<lambda>_ a _. Inr a),
     wr_passkey_cred_id = take 4, wr_passkey_key = (\<lambda>p. EC_EC2 ''SECP256R1'' (replicate 32 1) p),
     wr_passkey_to_json = Inr, wr_passkey_from_json = Inr,
     wr_result_cred_id = take 4, wr_result_counter = (\<lambda>_. 1), uuid_from_slice = Inr, sha3_256 = (\<lambda>b. b)\<rparr>"

lemma ref_passkey_json_law: "passkey_json_law ref_webauthn_rs"
  by (simp add: passkey_json_law_def ref_webauthn_rs_def)

theorem registration_binding_witness:
  "\<exists>f store c. register_finish ref_crates ref_webauthn_rs [] [1, 2] [] None None None = Inr f \<and>
     iw_insert 5 (fg_credential f) iw_new = (store, Inr ()) \<and>
     iw_get_by_id [1, 2] store = Inr (Some c) \<and> sc_did c = p256_did_key_from_pubkey ref_crates (2 # replicate 32 1)"
proof -
  obtain f where f: "register_finish ref_crates ref_webauthn_rs [] [1, 2] [] None None None = Inr f"
    by (simp add: register_finish_def ref_webauthn_rs_def p256_compressed_from_passkey_blob_def
        p256_compressed_from_passkey_def Let_def)
  obtain store r where s: "iw_insert 5 (fg_credential f) iw_new = (store, r)" by fastforce
  have "\<not> iw_poisoned iw_new" by (simp add: iw_new_def)
  from registration_binding [OF ref_passkey_json_law this f s]
  have "r = Inr ()" "\<exists>c. iw_get_by_id [1, 2] store = Inr (Some c) \<and>
      sc_did c = p256_did_key_from_pubkey ref_crates (2 # replicate 32 1)"
    by (auto simp: ref_webauthn_rs_def bound_did_def p256_compressed_from_passkey_def)
  with f s show ?thesis by blast
qed

end
