(* ===== verification/Conformance.thy ===== *)
theory Conformance
  imports Test_Signers Webauthn_Recover
begin

text \<open>
  The conformance harness (aqua-auth-testkit/src/conformance/mod.rs and http.rs): the target and
  its loopback gate, the HTTP wrapper, verdicts and the report, and the login the cases share. The
  server under test is the state \<open>'s\<close>, reached through reqwest only; clock readings, random bytes
  and environment variables are arguments.
\<close>

section \<open>IP literals\<close>

text \<open>
  \<open>str::parse::<IpAddr>\<close> of the standard library: a reader takes the longest run of digits, and
  refuses it when it is empty, too long, out of range or, in an IPv4 octet, zero-padded; a reader
  that fails leaves the input where it was. An IPv6 address is eight groups, where one \<open>::\<close>
  stands for at least one group of zeros and the last two groups may be an IPv4 address.
\<close>

definition to_digit :: "nat \<Rightarrow> char \<Rightarrow> nat option" where
  "to_digit radix c =
     (let n = (of_char c :: nat);
          d = (if is_ascii_digit c then Some (n - 48)
               else if is_ascii_lower c then Some (n - 87)
               else if is_ascii_upper c then Some (n - 55) else None)
      in (case d of Some v \<Rightarrow> if v < radix then Some v else None | None \<Rightarrow> None))"

definition digits_of :: "nat \<Rightarrow> string \<Rightarrow> nat" where
  "digits_of radix ds = foldl (\<lambda>a c. radix * a + (case to_digit radix c of Some d \<Rightarrow> d | None \<Rightarrow> 0)) 0 ds"

definition read_number :: "nat \<Rightarrow> nat \<Rightarrow> bool \<Rightarrow> nat \<Rightarrow> string \<Rightarrow> (nat \<times> string) option" where
  "read_number radix max_digits allow_zero_prefix bound s =
     (let ds = takeWhile (\<lambda>c. to_digit radix c \<noteq> None) s in
      if ds = [] \<or> max_digits < length ds then None
      else if \<not> allow_zero_prefix \<and> hd ds = CHR ''0'' \<and> 1 < length ds then None
      else if bound \<le> digits_of radix ds then None
      else Some (digits_of radix ds, drop (length ds) s))"

definition read_separator :: "char \<Rightarrow> nat \<Rightarrow> (string \<Rightarrow> ('a \<times> string) option) \<Rightarrow> string \<Rightarrow> ('a \<times> string) option" where
  "read_separator sep index inner s =
     (if index = 0 then inner s
      else (case s of c # r \<Rightarrow> if c = sep then inner r else None | [] \<Rightarrow> None))"

definition read_octet :: "nat \<Rightarrow> string \<Rightarrow> (nat \<times> string) option" where
  "read_octet i = read_separator CHR ''.'' i (read_number 10 3 False 256)"

definition read_ipv4_addr :: "string \<Rightarrow> ((nat \<times> nat \<times> nat \<times> nat) \<times> string) option" where
  "read_ipv4_addr s0 =
     Option.bind (read_octet 0 s0) (\<lambda>(a, s1).
     Option.bind (read_octet 1 s1) (\<lambda>(b, s2).
     Option.bind (read_octet 2 s2) (\<lambda>(c, s3).
     Option.bind (read_octet 3 s3) (\<lambda>(d, s4). Some ((a, b, c, d), s4)))))"

fun read_groups :: "nat \<Rightarrow> nat \<Rightarrow> string \<Rightarrow> nat list \<times> bool \<times> string" where
  "read_groups i 0 s = ([], False, s)"
| "read_groups i (Suc n) s =
     (case (if 0 < n then read_separator CHR '':'' i read_ipv4_addr s else None) of
        Some ((a, b, c, d), r) \<Rightarrow> ([256 * a + b, 256 * c + d], True, r)
      | None \<Rightarrow>
          (case read_separator CHR '':'' i (read_number 16 4 True 65536) s of
             None \<Rightarrow> ([], False, s)
           | Some (g, r) \<Rightarrow> (case read_groups (Suc i) n r of (gs, v4, r') \<Rightarrow> (g # gs, v4, r'))))"

definition read_ipv6_addr :: "string \<Rightarrow> (nat list \<times> string) option" where
  "read_ipv6_addr s =
     (case read_groups 0 8 s of (head, head_ipv4, r) \<Rightarrow>
        if length head = 8 then Some (head, r)
        else if head_ipv4 then None
        else (case strip_prefix ''::'' r of
                None \<Rightarrow> None
              | Some r' \<Rightarrow>
                  (case read_groups 0 (8 - (length head + 1)) r' of (tail, _, rest) \<Rightarrow>
                     Some (head @ replicate (8 - length head - length tail) 0 @ tail, rest))))"

datatype ip_addr = IpV4 "nat \<times> nat \<times> nat \<times> nat" | IpV6 "nat list"

definition parse_ip_addr :: "string \<Rightarrow> ip_addr option" where
  "parse_ip_addr s =
     (case read_ipv4_addr s of
        Some (a, r) \<Rightarrow> if r = [] then Some (IpV4 a) else None
      | None \<Rightarrow> (case read_ipv6_addr s of
                   Some (g, r) \<Rightarrow> if r = [] then Some (IpV6 g) else None
                 | None \<Rightarrow> None))"

fun ip_is_loopback :: "ip_addr \<Rightarrow> bool" where
  "ip_is_loopback (IpV4 (a, _)) = (a = 127)"
| "ip_is_loopback (IpV6 g) = (g = [0, 0, 0, 0, 0, 0, 0, 1])"

section \<open>The target\<close>

definition DEFAULT_CHALLENGE_PATH :: string where
  "DEFAULT_CHALLENGE_PATH = ''/auth/challenge''"

definition DEFAULT_SESSION_PATH :: string where
  "DEFAULT_SESSION_PATH = ''/auth/session''"

definition ALLOW_REMOTE_ENV :: string where
  "ALLOW_REMOTE_ENV = ''AQUA_CONFORMANCE_ALLOW_REMOTE''"

record target =
  tg_base_url :: string
  tg_challenge_path :: string
  tg_session_path :: string

datatype target_error = TargetParse string | MissingHost | RemoteNotAllowed string

fun target_error_display :: "target_error \<Rightarrow> string" where
  "target_error_display (TargetParse e) = ''base_url did not parse as a URL: '' @ e"
| "target_error_display MissingHost = ''base_url has no host component''"
| "target_error_display (RemoteNotAllowed host) =
     ''refusing non-loopback target host '' @ CHR 0x27 # host @ CHR 0x27 #
     '': this suite signs real login attempts and sends them to whatever base_url names, so pointing it at a '' @
     ''shared or production deployment must be a deliberate act. Set the '' @ ALLOW_REMOTE_ENV @
     ''=1 environment variable to opt in.''"

fun target_error_source :: "target_error \<Rightarrow> string option" where
  "target_error_source (TargetParse e) = Some e"
| "target_error_source MissingHost = None"
| "target_error_source (RemoteNotAllowed _) = None"

definition unbracketed :: "string \<Rightarrow> string" where
  "unbracketed host =
     (case Option.bind (strip_prefix ''['' host) (strip_suffix '']'') of Some s \<Rightarrow> s | None \<Rightarrow> host)"

definition is_loopback_host :: "string \<Rightarrow> bool" where
  "is_loopback_host host =
     (if to_ascii_lowercase host = ''localhost'' then True
      else (case parse_ip_addr (unbracketed host) of Some ip \<Rightarrow> ip_is_loopback ip | None \<Rightarrow> False))"

definition check_host :: "string \<Rightarrow> bool \<Rightarrow> target_error + unit" where
  "check_host host allow_remote =
     (if allow_remote \<or> is_loopback_host host then Inr () else Inl (RemoteNotAllowed host))"

definition target_new :: "url_parser \<Rightarrow> (string \<Rightarrow> string option) \<Rightarrow> string \<Rightarrow> target_error + target" where
  "target_new U env base_url =
     rbind (map_err TargetParse (U base_url)) (\<lambda>parsed.
     rbind (ok_or (pu_host_str parsed) MissingHost) (\<lambda>host.
     rbind (check_host host (env ALLOW_REMOTE_ENV = Some ''1'')) (\<lambda>_.
       Inr \<lparr>tg_base_url = trim_end_char CHR ''/'' base_url, tg_challenge_path = DEFAULT_CHALLENGE_PATH,
            tg_session_path = DEFAULT_SESSION_PATH\<rparr>)))"

definition with_paths :: "string \<Rightarrow> string \<Rightarrow> target \<Rightarrow> target" where
  "with_paths challenge session t = t\<lparr>tg_challenge_path := challenge, tg_session_path := session\<rparr>"

section \<open>Verdicts and the report\<close>

datatype outcome = Pass | Fail | Skip

record case_result =
  cr_id :: string
  cr_spec_ref :: string
  cr_title :: string
  cr_outcome :: outcome
  cr_detail :: string

definition case_pass :: "string \<Rightarrow> string \<Rightarrow> string \<Rightarrow> string \<Rightarrow> case_result" where
  "case_pass i spec_ref title detail =
     \<lparr>cr_id = i, cr_spec_ref = spec_ref, cr_title = title, cr_outcome = Pass, cr_detail = detail\<rparr>"

definition case_fail :: "string \<Rightarrow> string \<Rightarrow> string \<Rightarrow> string \<Rightarrow> case_result" where
  "case_fail i spec_ref title detail =
     \<lparr>cr_id = i, cr_spec_ref = spec_ref, cr_title = title, cr_outcome = Fail, cr_detail = detail\<rparr>"

definition case_skip :: "string \<Rightarrow> string \<Rightarrow> string \<Rightarrow> string \<Rightarrow> case_result" where
  "case_skip i spec_ref title detail =
     \<lparr>cr_id = i, cr_spec_ref = spec_ref, cr_title = title, cr_outcome = Skip, cr_detail = detail\<rparr>"

type_synonym report = "case_result list"

definition report_passed :: "report \<Rightarrow> bool" where
  "report_passed cases = (\<not> list_ex (\<lambda>c. cr_outcome c = Fail) cases)"

definition report_failures :: "report \<Rightarrow> case_result list" where
  "report_failures cases = filter (\<lambda>c. cr_outcome c = Fail) cases"

text \<open>\<open>{:<width$}\<close> pads to a number of characters; ids and references are ASCII.\<close>

definition utf8_len :: "string \<Rightarrow> nat" where
  "utf8_len s = length (filter (\<lambda>c. (of_char c :: nat) div 64 \<noteq> 2) s)"

definition pad_right :: "nat \<Rightarrow> string \<Rightarrow> string" where
  "pad_right width s = s @ replicate (width - utf8_len s) CHR '' ''"

definition outcome_marker :: "outcome \<Rightarrow> string" where
  "outcome_marker result = (case result of Pass \<Rightarrow> ''PASS'' | Fail \<Rightarrow> ''FAIL'' | Skip \<Rightarrow> ''SKIP'')"

definition render_case :: "nat \<Rightarrow> nat \<Rightarrow> case_result \<Rightarrow> string" where
  "render_case id_width spec_ref_width c =
     outcome_marker (cr_outcome c) @ '' '' @ pad_right id_width (cr_id c) @ ''  '' @
     pad_right spec_ref_width (cr_spec_ref c) @ ''  '' @ cr_title c @
     (if cr_detail c = [] then [] else '' : '' @ cr_detail c) @ [LF]"

definition report_render :: "report \<Rightarrow> string" where
  "report_render cases =
     (let id_width = foldr max (map (\<lambda>c. length (cr_id c)) cases) 0;
          spec_ref_width = foldr max (map (\<lambda>c. length (cr_spec_ref c)) cases) 0
      in concat (map (render_case id_width spec_ref_width) cases))"

section \<open>HTTP\<close>

text \<open>
  The texts of the http crate's status codes, serde\_json's compact writer and the mime crate's
  test for a JSON media type, beside the crates of the passkey components; reqwest over the state
  of the server, with tokio's \<open>sleep\<close>.
\<close>

record 'x harness_crates = "'x passkey_crates" +
  status_display :: "nat \<Rightarrow> string"
  json_display :: "json_text \<Rightarrow> string"
  is_json_mime :: "string \<Rightarrow> bool"
record reqwest_response =
  rp_status :: nat
  rp_text :: "string + string"

record 's reqwest =
  rq_get :: "string \<Rightarrow> (string \<times> string) list \<Rightarrow> 's \<Rightarrow> (string + reqwest_response) \<times> 's"
  rq_post :: "string \<Rightarrow> json_text \<Rightarrow> 's \<Rightarrow> (string + reqwest_response) \<times> 's"
  rq_sleep :: "nat \<Rightarrow> 's \<Rightarrow> 's"

record http_response =
  hr_status :: nat
  hr_text :: string
  hr_json :: "json_text option"

datatype http_error = HttpError string

fun http_error_display :: "http_error \<Rightarrow> string" where
  "http_error_display (HttpError e) = ''no usable response from the target: '' @ e"

text \<open>\<open>chars().take(n)\<close>: the bytes before the character after the first \<open>n\<close>.\<close>

fun utf8_take :: "nat \<Rightarrow> string \<Rightarrow> string" where
  "utf8_take n [] = []"
| "utf8_take n (c # s) =
     (if (of_char c :: nat) div 64 = 2 then c # utf8_take n s
      else (case n of 0 \<Rightarrow> [] | Suc m \<Rightarrow> c # utf8_take m s))"

definition MAX_CHARS :: nat where
  "MAX_CHARS = 300"

definition excerpt :: "http_response \<Rightarrow> string" where
  "excerpt r =
     (if MAX_CHARS < utf8_len (hr_text r) then
        utf8_take MAX_CHARS (hr_text r) @ ''... ['' @ show_nat (length (hr_text r)) @ '' bytes total]''
      else if hr_text r = [] then ''<empty body>''
      else hr_text r)"

definition is_success :: "http_response \<Rightarrow> bool" where
  "is_success r = (200 \<le> hr_status r \<and> hr_status r < 300)"

definition into_http_response ::
  "('x, 'z) harness_crates_scheme \<Rightarrow> reqwest_response \<Rightarrow> http_error + http_response" where
  "into_http_response E response =
     rbind (map_err (\<lambda>e. HttpError (''could not read the response body: '' @ e)) (rp_text response)) (\<lambda>text.
       Inr \<lparr>hr_status = rp_status response, hr_text = text, hr_json = json_read E (as_bytes text)\<rparr>)"

definition conf_get_challenge ::
  "('x, 'z) harness_crates_scheme \<Rightarrow> 's reqwest \<Rightarrow> target \<Rightarrow> string \<Rightarrow> 's \<Rightarrow> (http_error + http_response) \<times> 's" where
  "conf_get_challenge E W t did s =
     (case rq_get W (tg_base_url t @ tg_challenge_path t) [(''did'', did)] s of
        (Inl e, s1) \<Rightarrow> (Inl (HttpError e), s1)
      | (Inr response, s1) \<Rightarrow> (into_http_response E response, s1))"

definition conf_post_session ::
  "('x, 'z) harness_crates_scheme \<Rightarrow> 's reqwest \<Rightarrow> target \<Rightarrow> json_text \<Rightarrow> 's \<Rightarrow> (http_error + http_response) \<times> 's" where
  "conf_post_session E W t body s =
     (case rq_post W (tg_base_url t @ tg_session_path t) body s of
        (Inl e, s1) \<Rightarrow> (Inl (HttpError e), s1)
      | (Inr response, s1) \<Rightarrow> (into_http_response E response, s1))"

section \<open>Values\<close>

text \<open>
  \<open>serde_json::Value\<close>: a number is unsigned when its literal is a run of digits within 64 bits; an
  object is a map ordered by key (\<open>BTreeMap\<close>), so \<open>insert\<close> and an assignment by key replace the
  member or add it in its place.
\<close>

fun json_as_u64 :: "json_text \<Rightarrow> u64 option" where
  "json_as_u64 (JNumber t) =
     (if t \<noteq> [] \<and> list_all is_ascii_digit t \<and> digits_value t < 2 ^ 64
      then Some (of_nat (digits_value t)) else None)"
| "json_as_u64 _ = None"

fun btree_insert :: "string \<Rightarrow> 'v \<Rightarrow> (string \<times> 'v) list \<Rightarrow> (string \<times> 'v) list" where
  "btree_insert k v [] = [(k, v)]"
| "btree_insert k v ((k', v') # ms) =
     (if k = k' then (k, v) # ms
      else if k < k' then (k, v) # (k', v') # ms
      else (k', v') # btree_insert k v ms)"

fun json_set :: "string \<Rightarrow> json_text \<Rightarrow> json_text \<Rightarrow> json_text" where
  "json_set k v (JObject ms) = JObject (btree_insert k v ms)"
| "json_set k v j = j"

definition json_field_str :: "http_response \<Rightarrow> string \<Rightarrow> string option" where
  "json_field_str r k = Option.bind (hr_json r) (get_str k)"

definition json_field_u64 :: "http_response \<Rightarrow> string \<Rightarrow> u64 option" where
  "json_field_u64 r k = Option.bind (hr_json r) (\<lambda>v. Option.bind (json_get k v) json_as_u64)"

definition wire_hex :: "('x, 'z) crates_scheme \<Rightarrow> bytes \<Rightarrow> string" where
  "wire_hex E b = ''0x'' @ hex_encode E b"

section \<open>The shared login\<close>

datatype login_error =
    LoginHttp http_error
  | ChallengeStatus http_response
  | ChallengeShape http_response string
  | LoginSign string

definition status_and_excerpt :: "('x, 'z) harness_crates_scheme \<Rightarrow> http_response \<Rightarrow> string" where
  "status_and_excerpt E r = status_display E (hr_status r) @ '' '' @ excerpt r"

definition unexpected_status :: "('x, 'z) harness_crates_scheme \<Rightarrow> http_response \<Rightarrow> string" where
  "unexpected_status E r =
     ''GET challenge returned '' @ status_display E (hr_status r) @ '', expected success: '' @ excerpt r"

fun login_error_display :: "('x, 'z) harness_crates_scheme \<Rightarrow> login_error \<Rightarrow> string" where
  "login_error_display E (LoginHttp e) = http_error_display e"
| "login_error_display E (ChallengeStatus r) = unexpected_status E r"
| "login_error_display E (ChallengeShape r reason) = ''challenge response '' @ reason @ '': '' @ excerpt r"
| "login_error_display E (LoginSign e) = ''signer failed: '' @ e"

definition fetch_challenge ::
  "('x, 'z) harness_crates_scheme \<Rightarrow> 's reqwest \<Rightarrow> target \<Rightarrow> string \<Rightarrow> 's \<Rightarrow> (login_error + http_response) \<times> 's" where
  "fetch_challenge E W t did s =
     (case conf_get_challenge E W t did s of (r, s1) \<Rightarrow> (map_err LoginHttp r, s1))"

definition session_body :: "('x, 'z) crates_scheme \<Rightarrow> string \<Rightarrow> string \<Rightarrow> bytes \<Rightarrow> json_text" where
  "session_body E did nonce signature =
     JObject [(''did'', JString did), (''nonce'', JString nonce), (''signature'', JString (wire_hex E signature))]"

definition sign_challenge ::
  "('x, 'z) harness_crates_scheme \<Rightarrow> http_response \<Rightarrow> signer \<Rightarrow> login_error + json_text" where
  "sign_challenge E challenge signer =
     (if \<not> is_success challenge then Inl (ChallengeStatus challenge)
      else
        rbind (ok_or (hr_json challenge) (ChallengeShape challenge ''was not valid JSON'')) (\<lambda>envelope.
        rbind (ok_or (get_str ''message'' envelope)
                 (ChallengeShape challenge ''had no string `message` field'')) (\<lambda>message.
        rbind (ok_or (get_str ''nonce'' envelope)
                 (ChallengeShape challenge ''had no string `nonce` field'')) (\<lambda>nonce.
        rbind (map_err (\<lambda>e. LoginSign (sign_error_display e)) (signer_sign signer message)) (\<lambda>signature.
          let body = session_body E (signer_did signer) nonce signature in
          Inr (case signer_public_key signer of
                 Some public_key \<Rightarrow> json_set ''public_key'' (JString (wire_hex E public_key)) body
               | None \<Rightarrow> body))))))"

definition post_session ::
  "('x, 'z) harness_crates_scheme \<Rightarrow> 's reqwest \<Rightarrow> target \<Rightarrow> json_text \<Rightarrow> 's \<Rightarrow> (login_error + http_response) \<times> 's" where
  "post_session E W t body s =
     (case conf_post_session E W t body s of (r, s1) \<Rightarrow> (map_err LoginHttp r, s1))"

record login_flow =
  lf_challenge :: "json_text option"
  lf_session_request :: json_text
  lf_session_response :: http_response

text \<open>The \<open>expect\<close> on the challenge's JSON is the option here: lemma \<open>login_expect\<close> below shows it is never empty.\<close>

definition login ::
  "('x, 'z) harness_crates_scheme \<Rightarrow> 's reqwest \<Rightarrow> target \<Rightarrow> signer \<Rightarrow> 's \<Rightarrow> (login_error + login_flow) \<times> 's" where
  "login E W t signer s =
     (case fetch_challenge E W t (signer_did signer) s of
        (Inl e, s1) \<Rightarrow> (Inl e, s1)
      | (Inr challenge_response, s1) \<Rightarrow>
          (case sign_challenge E challenge_response signer of
             Inl e \<Rightarrow> (Inl e, s1)
           | Inr session_request \<Rightarrow>
               (case post_session E W t session_request s1 of
                  (Inl e, s2) \<Rightarrow> (Inl e, s2)
                | (Inr session_response, s2) \<Rightarrow>
                    (Inr \<lparr>lf_challenge = hr_json challenge_response, lf_session_request = session_request,
                          lf_session_response = session_response\<rparr>, s2))))"

section \<open>Lemmas\<close>

lemma case_outcomes [simp]:
  "cr_outcome (case_pass i r t d) = Pass" "cr_outcome (case_fail i r t d) = Fail" "cr_outcome (case_skip i r t d) = Skip"
  "cr_id (case_pass i r t d) = i" "cr_id (case_fail i r t d) = i" "cr_id (case_skip i r t d) = i"
  by (simp_all add: case_pass_def case_fail_def case_skip_def)

lemma report_passed_append [simp]: "report_passed (a @ b) \<longleftrightarrow> report_passed a \<and> report_passed b"
  by (simp add: report_passed_def list_ex_iff Ball_def Bex_def) blast

lemma report_passed_Cons [simp]: "report_passed (c # cs) \<longleftrightarrow> cr_outcome c \<noteq> Fail \<and> report_passed cs"
  by (simp add: report_passed_def)

lemma report_passed_Nil [simp]: "report_passed []"
  by (simp add: report_passed_def)

lemma json_as_u64_show [simp]: "json_as_u64 (JNumber (show_nat (unat (n :: u64)))) = Some n"
proof -
  have "list_all is_ascii_digit (show_nat (unat n))" by (auto simp: list_all_iff dest: show_nat_digits)
  moreover have "unat n < 2 ^ 64" using unsigned_less [of n, where ?'a = nat] by simp
  ultimately show ?thesis by simp
qed

lemma sign_challenge_Inr:
  "sign_challenge E r signer = Inr body \<longleftrightarrow>
     is_success r \<and>
     (\<exists>message nonce signature. json_field_str r ''message'' = Some message \<and> json_field_str r ''nonce'' = Some nonce \<and>
        signer_sign signer message = Inr signature \<and>
        body = (case signer_public_key signer of
                  Some pk \<Rightarrow> json_set ''public_key'' (JString (wire_hex E pk)) (session_body E (signer_did signer) nonce signature)
                | None \<Rightarrow> session_body E (signer_did signer) nonce signature))"
  by (cases "hr_json r") (auto simp: sign_challenge_def json_field_str_def Let_def)

lemma login_Inr:
  "login E W t signer s = (Inr flow, s2) \<longleftrightarrow>
     (\<exists>r s1. fetch_challenge E W t (signer_did signer) s = (Inr r, s1) \<and>
        sign_challenge E r signer = Inr (lf_session_request flow) \<and>
        post_session E W t (lf_session_request flow) s1 = (Inr (lf_session_response flow), s2) \<and>
        lf_challenge flow = hr_json r)"
  by (cases flow) (auto simp: login_def split: prod.splits sum.splits)

lemma login_expect: "login E W t signer s = (Inr flow, s2) \<Longrightarrow> lf_challenge flow \<noteq> None"
  by (auto simp: login_Inr sign_challenge_Inr json_field_str_def bind_eq_Some_conv)

lemma to_digit_10: "to_digit 10 c = (if is_ascii_digit c then Some ((of_char c :: nat) - 48) else None)"
  by (auto simp: to_digit_def Let_def is_ascii_digit_def is_ascii_lower_def is_ascii_upper_def)

lemma digits_of_10: "list_all is_ascii_digit ds \<Longrightarrow> digits_of 10 ds = digits_value ds"
  by (induction ds rule: rev_induct) (simp_all add: digits_of_def digits_value_def to_digit_10)

lemma digit_char_of: "is_ascii_digit c \<Longrightarrow> digit_char ((of_char c :: nat) - 48) = c"
  by (simp add: digit_char_def is_ascii_digit_def)

lemma show_digits_value:
  assumes "list_all is_ascii_digit ds" "ds \<noteq> []" "hd ds \<noteq> CHR ''0'' \<or> length ds = 1"
  shows "show_nat (digits_value ds) = ds"
  using assms
proof (induction ds rule: rev_induct)
  case (snoc c ds)
  have c: "is_ascii_digit c" "(of_char c :: nat) - 48 < 10" using snoc.prems(1) by (auto simp: is_ascii_digit_def)
  show ?case
  proof (cases "ds = []")
    case True
    with c show ?thesis by (subst show_nat.simps) (simp add: digits_value_def digit_char_of)
  next
    case False
    with snoc.prems have ds: "list_all is_ascii_digit ds" "hd ds \<noteq> CHR ''0''" by auto
    with snoc.IH False have ih: "show_nat (digits_value ds) = ds" by simp
    have "digits_value ds \<noteq> 0"
    proof
      assume "digits_value ds = 0"
      with ih have "ds = show_nat 0" by simp
      also have "\<dots> = ''0''" by code_simp
      finally show False using ds(2) by simp
    qed
    with ih c show ?thesis by (subst show_nat.simps) (simp add: digits_value_snoc digit_char_of)
  qed
qed simp

lemma show_nat_hd: "n \<noteq> 0 \<Longrightarrow> hd (show_nat n) \<noteq> CHR ''0''"
proof (induction n rule: show_nat.induct)
  case (1 n)
  have "digit_char n \<noteq> CHR ''0''" if "n < 10"
  proof
    assume "digit_char n = CHR ''0''"
    then have "(of_char (digit_char n) :: nat) = 48" by simp
    with of_char_digit_char [OF that] 1(2) show False by simp
  qed
  with 1 show ?case by (subst show_nat.simps) auto
qed

lemma read_octet_number:
  "read_number 10 3 False 256 s = Some (n, r) \<longleftrightarrow>
     n < 256 \<and> s = show_nat n @ r \<and> (r = [] \<or> \<not> is_ascii_digit (hd r))"
proof -
  let ?ds = "takeWhile is_ascii_digit s"
  have tw: "takeWhile (\<lambda>c. to_digit 10 c \<noteq> None) s = ?ds" by (simp add: to_digit_10)
  have all: "list_all is_ascii_digit ?ds" by (auto simp: list_all_iff dest: set_takeWhileD)
  have drop: "drop (length ?ds) s = dropWhile is_ascii_digit s" by (simp add: dropWhile_eq_drop)
  have show_len: "length (show_nat n) \<le> 3" if "n < 256" for n
    using that by (subst show_nat.simps, subst show_nat.simps, subst show_nat.simps) simp
  have lead: "\<not> (hd (show_nat n) = CHR ''0'' \<and> 1 < length (show_nat n))" for n
    using show_nat_hd [of n] by (cases "n = 0") (auto, code_simp)
  show ?thesis
  proof
    assume *: "read_number 10 3 False 256 s = Some (n, r)"
    then have n: "?ds \<noteq> []" "hd ?ds \<noteq> CHR ''0'' \<or> length ?ds = 1" "n = digits_value ?ds" "n < 256" "r = dropWhile is_ascii_digit s"
      unfolding read_number_def tw Let_def digits_of_10 [OF all] drop
      by (auto split: if_splits simp: not_less le_Suc_eq)
    have "s = show_nat n @ r" using show_digits_value [OF all n(1,2)] n(3,5) by simp
    with n(4,5) hd_dropWhile [of is_ascii_digit s] show "n < 256 \<and> s = show_nat n @ r \<and> (r = [] \<or> \<not> is_ascii_digit (hd r))" by blast
  next
    assume *: "n < 256 \<and> s = show_nat n @ r \<and> (r = [] \<or> \<not> is_ascii_digit (hd r))"
    then have "takeWhile is_ascii_digit s = show_nat n"
      using show_nat_digits [of _ n] by (cases r) (auto simp: takeWhile_append)
    with * all show_len [of n] lead [of n] show "read_number 10 3 False 256 s = Some (n, r)"
      unfolding read_number_def tw Let_def digits_of_10 [OF all] by auto
  qed
qed

lemma read_octet_Some:
  "read_octet 0 s = Some (n, r) \<longleftrightarrow> n < 256 \<and> s = show_nat n @ r \<and> (r = [] \<or> \<not> is_ascii_digit (hd r))"
  "0 < i \<Longrightarrow> read_octet i s = Some (n, r) \<longleftrightarrow>
     n < 256 \<and> s = ''.'' @ show_nat n @ r \<and> (r = [] \<or> \<not> is_ascii_digit (hd r))"
  by (auto simp: read_octet_def read_separator_def read_octet_number split: list.splits)

lemma parse_ip_v4:
  "parse_ip_addr s = Some (IpV4 (a, b, c, d)) \<longleftrightarrow>
     a < 256 \<and> b < 256 \<and> c < 256 \<and> d < 256 \<and>
     s = show_nat a @ ''.'' @ show_nat b @ ''.'' @ show_nat c @ ''.'' @ show_nat d"
proof -
  have "read_ipv4_addr s = Some ((a, b, c, d), []) \<longleftrightarrow>
      a < 256 \<and> b < 256 \<and> c < 256 \<and> d < 256 \<and>
      s = show_nat a @ ''.'' @ show_nat b @ ''.'' @ show_nat c @ ''.'' @ show_nat d"
    by (auto simp: read_ipv4_addr_def bind_eq_Some_conv read_octet_Some is_ascii_digit_def)
  moreover have "parse_ip_addr s = Some (IpV4 (a, b, c, d)) \<longleftrightarrow> read_ipv4_addr s = Some ((a, b, c, d), [])"
    by (auto simp: parse_ip_addr_def split: option.splits if_splits)
  ultimately show ?thesis by simp
qed

lemma loopback_host_iff:
  "is_loopback_host host \<longleftrightarrow>
     to_ascii_lowercase host = ''localhost'' \<or>
     (\<exists>a b c. a < 256 \<and> b < 256 \<and> c < 256 \<and>
        unbracketed host = ''127.'' @ show_nat a @ ''.'' @ show_nat b @ ''.'' @ show_nat c) \<or>
     parse_ip_addr (unbracketed host) = Some (IpV6 [0, 0, 0, 0, 0, 0, 0, 1])"
proof -
  have "show_nat 127 = ''127''" by code_simp
  then have v4: "(\<exists>b c d. parse_ip_addr s = Some (IpV4 (127, b, c, d))) \<longleftrightarrow>
      (\<exists>a b c. a < 256 \<and> b < 256 \<and> c < 256 \<and> s = ''127.'' @ show_nat a @ ''.'' @ show_nat b @ ''.'' @ show_nat c)" for s
    by (simp add: parse_ip_v4)
  show ?thesis
    unfolding is_loopback_host_def v4 [symmetric]
    by (cases "parse_ip_addr (unbracketed host)") (auto elim!: ip_is_loopback.elims)
qed

lemma target_new_Inr:
  "target_new U env base_url = Inr t \<longleftrightarrow>
     (\<exists>u host. U base_url = Inr u \<and> pu_host_str u = Some host \<and>
        (env ALLOW_REMOTE_ENV = Some ''1'' \<or> is_loopback_host host) \<and>
        t = \<lparr>tg_base_url = trim_end_char CHR ''/'' base_url, tg_challenge_path = DEFAULT_CHALLENGE_PATH,
             tg_session_path = DEFAULT_SESSION_PATH\<rparr>)"
  by (auto simp: target_new_def check_host_def)

section \<open>Properties\<close>

text \<open>
  C24. The suite signs for this machine only: without the opt-in variable a target exists exactly
  when the base URL parses, has a host, and that host is \<open>localhost\<close> in any case, an address of
  \<open>127.0.0.0/8\<close> written with four plain octets, or an IPv6 literal, bracketed or not, that reads as
  \<open>::1\<close>. The opt-in is the value \<open>1\<close> and nothing else, and the target dials the base URL without its trailing
  slashes, under the two default paths.
\<close>

theorem target_gate:
  "target_new U env base_url = Inr t \<longleftrightarrow>
     (\<exists>u host. U base_url = Inr u \<and> pu_host_str u = Some host \<and>
        (env ''AQUA_CONFORMANCE_ALLOW_REMOTE'' = Some ''1'' \<or>
         to_ascii_lowercase host = ''localhost'' \<or>
         (\<exists>a b c. a < 256 \<and> b < 256 \<and> c < 256 \<and>
            unbracketed host = ''127.'' @ show_nat a @ ''.'' @ show_nat b @ ''.'' @ show_nat c) \<or>
         parse_ip_addr (unbracketed host) = Some (IpV6 [0, 0, 0, 0, 0, 0, 0, 1])) \<and>
        t = \<lparr>tg_base_url = trim_end_char CHR ''/'' base_url, tg_challenge_path = ''/auth/challenge'',
             tg_session_path = ''/auth/session''\<rparr>)"
  unfolding target_new_Inr loopback_host_iff ALLOW_REMOTE_ENV_def DEFAULT_CHALLENGE_PATH_def DEFAULT_SESSION_PATH_def ..

text \<open>
  C40. \<open>with_paths\<close> can change the host: a path is appended to the base URL as text, so one that does
  not start with a slash continues the host name. A target for \<open>localhost\<close> passes the gate, and
  with the path below its challenge request goes to another host, which the gate would have refused.
\<close>

theorem with_paths_leaves_gate:
  assumes base: "U ''http://localhost'' = Inr u" "pu_host_str u = Some ''localhost''"
    and dialled: "U ''http://localhost.example.com/auth/challenge'' = Inr v" "pu_host_str v = Some ''localhost.example.com''"
    and env: "env ALLOW_REMOTE_ENV = None"
  shows "\<exists>t. target_new U env ''http://localhost'' = Inr t \<and>
     fetch_challenge E W (with_paths ''.example.com/auth/challenge'' session t) did s =
       (case rq_get W ''http://localhost.example.com/auth/challenge'' [(''did'', did)] s of
          (r, s1) \<Rightarrow> (map_err LoginHttp (rbind (map_err HttpError r) (into_http_response E)), s1)) \<and>
     target_new U env ''http://localhost.example.com/auth/challenge'' = Inl (RemoteNotAllowed ''localhost.example.com'')"
proof -
  let ?t = "\<lparr>tg_base_url = ''http://localhost'', tg_challenge_path = DEFAULT_CHALLENGE_PATH,
      tg_session_path = DEFAULT_SESSION_PATH\<rparr>"
  have up: "is_loopback_host ''localhost''" by (simp add: is_loopback_host_def to_ascii_lowercase_def to_lower_char_def is_ascii_upper_def)
  have num: "read_number radix m z b (CHR ''l'' # s) = None" if "radix \<le> 16" for radix m z b s
    using that by (simp add: read_number_def to_digit_def Let_def is_ascii_digit_def is_ascii_lower_def)
  have v4: "read_ipv4_addr (CHR ''l'' # s) = None" for s
    by (simp add: read_ipv4_addr_def read_octet_def read_separator_def num)
  have "read_groups 0 (Suc n) (CHR ''l'' # s) = ([], False, CHR ''l'' # s)" for n s
    by (simp add: read_separator_def v4 num)
  from this [of 7] have "parse_ip_addr ''localhost.example.com'' = None"
    by (simp add: parse_ip_addr_def v4 read_ipv6_addr_def strip_prefix_def starts_with_def)
  then have down: "\<not> is_loopback_host ''localhost.example.com''"
    by (simp add: is_loopback_host_def unbracketed_def strip_prefix_def starts_with_def to_ascii_lowercase_def)
  have "target_new U env ''http://localhost'' = Inr ?t"
    "target_new U env ''http://localhost.example.com/auth/challenge'' = Inl (RemoteNotAllowed ''localhost.example.com'')"
    using assms up down by (simp_all add: target_new_def check_host_def)
  moreover have "fetch_challenge E W (with_paths ''.example.com/auth/challenge'' session ?t) did s =
       (case rq_get W ''http://localhost.example.com/auth/challenge'' [(''did'', did)] s of
          (r, s1) \<Rightarrow> (map_err LoginHttp (rbind (map_err HttpError r) (into_http_response E)), s1))"
    by (simp add: fetch_challenge_def conf_get_challenge_def with_paths_def split: prod.splits sum.splits)
  ultimately show ?thesis by (intro exI [of _ ?t] conjI)
qed

theorem with_paths_leaves_gate_witness:
  "\<exists>t. target_new ref_url (\<lambda>_. None) ''http://localhost'' = Inr t \<and>
     target_new ref_url (\<lambda>_. None) ''http://localhost.example.com/auth/challenge'' =
       Inl (RemoteNotAllowed ''localhost.example.com'')"
proof -
  obtain u v where u: "ref_url ''http://localhost'' = Inr u" "pu_host_str u = Some ''localhost''"
    "ref_url ''http://localhost.example.com/auth/challenge'' = Inr v" "pu_host_str v = Some ''localhost.example.com''"
    by (simp add: ref_url_def starts_with_def is_ascii_lower_def Let_def)
  have env: "(\<lambda>_. None) ALLOW_REMOTE_ENV = (None :: string option)" by simp
  obtain t where "target_new ref_url (\<lambda>_. None) ''http://localhost'' = Inr t"
    "target_new ref_url (\<lambda>_. None) ''http://localhost.example.com/auth/challenge'' =
       Inl (RemoteNotAllowed ''localhost.example.com'')"
    using with_paths_leaves_gate [OF u env, of "undefined :: bytes harness_crates" "undefined :: unit reqwest" "''s''" "''d''" "()"]
    by blast
  then show ?thesis by (intro exI [of _ t] conjI)
qed

end
