(* ===== verification/Wire.thy ===== *)
theory Wire
  imports Conformance Peer
begin

text \<open>
  The wire types as JSON (the \<open>Serialize\<close> and \<open>Deserialize\<close> derived in wire.rs) and the routes of
  \<open>AquaPeer\<close> (aqua-auth-testkit/src/lib.rs): from a request as axum receives it, through the
  extractors and the handlers, to a status and a body; and the peer as a server that reqwest
  reaches.
\<close>

section \<open>JSON of the wire types\<close>

definition json_u64 :: "u64 \<Rightarrow> json_text" where
  "json_u64 n = JNumber (show_nat (unat n))"

definition challenge_envelope_json :: "challenge_envelope \<Rightarrow> json_text" where
  "challenge_envelope_json e =
     JObject [(''nonce'', JString (env_nonce e)), (''message'', JString (env_message e)),
              (''expires_at'', json_u64 (env_expires_at e))]"

definition session_request_json :: "session_request \<Rightarrow> json_text" where
  "session_request_json r =
     JObject ([(''did'', JString (sr_did r)), (''nonce'', JString (sr_nonce r)), (''signature'', JString (sr_signature r))] @
       (case sr_public_key r of Some pk \<Rightarrow> [(''public_key'', JString pk)] | None \<Rightarrow> []))"

definition session_response_json :: "session_response \<Rightarrow> json_text" where
  "session_response_json r =
     JObject [(''did'', JString (resp_did r)), (''token'', JString (resp_token r)),
              (''valid_until'', json_u64 (resp_valid_until r)), (''created_at'', json_u64 (resp_created_at r))]"

text \<open>
  A derived \<open>Deserialize\<close> reads an object, where unknown members are skipped, a repeated known
  one is refused, and a missing one is refused unless it has a default; or an array of the fields
  in order, where a missing last field with a default is that default and a surplus element is a
  syntax error. \<open>Option<String>\<close> is \<open>None\<close> on \<open>null\<close>. Axum's \<open>Json\<close> answers 400 to a
  syntax error and 422 to a value of the wrong shape.
\<close>

definition de_string :: "json_text option \<Rightarrow> nat + string" where
  "de_string v = ok_or (Option.bind v json_as_str) 422"

definition de_option_string :: "json_text option \<Rightarrow> nat + string option" where
  "de_option_string v =
     (case v of None \<Rightarrow> Inr None | Some JNull \<Rightarrow> Inr None | Some (JString s) \<Rightarrow> Inr (Some s) | Some _ \<Rightarrow> Inl 422)"

definition repeated_member :: "string list \<Rightarrow> (string \<times> json_text) list \<Rightarrow> bool" where
  "repeated_member ks ms = list_ex (\<lambda>k. 1 < length (filter (\<lambda>(k', _). k' = k) ms)) ks"

definition nth_option :: "'a list \<Rightarrow> nat \<Rightarrow> 'a option" where
  "nth_option xs i = (if i < length xs then Some (xs ! i) else None)"

definition session_request_fields ::
  "json_text option \<Rightarrow> json_text option \<Rightarrow> json_text option \<Rightarrow> json_text option \<Rightarrow> nat + session_request" where
  "session_request_fields did nonce signature public_key =
     rbind (de_string did) (\<lambda>d. rbind (de_string nonce) (\<lambda>n. rbind (de_string signature) (\<lambda>s.
     rbind (de_option_string public_key) (\<lambda>pk.
       Inr \<lparr>sr_did = d, sr_nonce = n, sr_signature = s, sr_public_key = pk\<rparr>))))"

fun session_request_of_json :: "json_text \<Rightarrow> nat + session_request" where
  "session_request_of_json (JObject ms) =
     (if repeated_member [''did'', ''nonce'', ''signature'', ''public_key''] ms then Inl 422
      else session_request_fields (map_of ms ''did'') (map_of ms ''nonce'') (map_of ms ''signature'')
             (map_of ms ''public_key''))"
| "session_request_of_json (JArray vs) =
     rbind (session_request_fields (nth_option vs 0) (nth_option vs 1) (nth_option vs 2) (nth_option vs 3)) (\<lambda>r.
       if 4 < length vs then Inl 400 else Inr r)"
| "session_request_of_json _ = Inl 422"

text \<open>\<open>Query<ChallengeQuery>\<close>: an optional \<open>did\<close>, once at most.\<close>

definition challenge_query :: "(string \<times> string) list \<Rightarrow> nat + string option" where
  "challenge_query q =
     (case filter (\<lambda>(k, _). k = ''did'') q of [] \<Rightarrow> Inr None | [(_, d)] \<Rightarrow> Inr (Some d) | _ \<Rightarrow> Inl 400)"

text \<open>
  Values the writer and the reader agree on: text, numbers printed from 64 bits, members without
  repetition. The law is serde\_json's: it reads back what it wrote.
\<close>

fun json_plain :: "json_text \<Rightarrow> bool" where
  "json_plain (JNumber d) = (\<exists>n < 2 ^ 64. d = show_nat n)"
| "json_plain (JString s) = True"
| "json_plain (JArray vs) = list_all json_plain vs"
| "json_plain (JObject ms) = (distinct (map fst ms) \<and> list_all (\<lambda>(k, v). json_plain v) ms)"
| "json_plain JNull = True"
| "json_plain (JBool b) = True"

definition json_law :: "('x, 'z) harness_crates_scheme \<Rightarrow> bool" where
  "json_law E \<longleftrightarrow> (\<forall>v. json_plain v \<longrightarrow> json_read E (as_bytes (json_display E v)) = Some v)"

text \<open>The media type reqwest sends is one the extractor of axum takes.\<close>

definition mime_law :: "('x, 'z) harness_crates_scheme \<Rightarrow> bool" where
  "mime_law E \<longleftrightarrow> is_json_mime E ''application/json''"

section \<open>Routes\<close>

text \<open>What one request draws: the clock at each place it is read, and the two random strings.\<close>

record 'dt tick =
  tk_purge :: u64
  tk_nonce :: bytes
  tk_utc :: 'dt
  tk_check :: u64
  tk_token :: bytes
  tk_now :: u64
  tk_clock :: int

record peer_request =
  pq_method :: string
  pq_authority :: "string option"
  pq_path :: string
  pq_query :: "(string \<times> string) list"
  pq_headers :: headers
  pq_body :: string

record peer_reply =
  py_status :: nat
  py_headers :: headers
  py_body :: string

definition status_reply :: "nat \<Rightarrow> peer_reply" where
  "status_reply status = \<lparr>py_status = status, py_headers = [], py_body = ''''\<rparr>"

definition json_reply :: "('x, 'z) harness_crates_scheme \<Rightarrow> nat + json_text \<Rightarrow> peer_reply" where
  "json_reply E r =
     (case r of
        Inl status \<Rightarrow> status_reply status
      | Inr v \<Rightarrow> \<lparr>py_status = 200, py_headers = [(''content-type'', ''application/json'')], py_body = json_display E v\<rparr>)"

definition document_reply :: "nat + string \<times> string \<times> string \<Rightarrow> peer_reply" where
  "document_reply r =
     (case r of
        Inl status \<Rightarrow> status_reply status
      | Inr (content_type, cache_control, body) \<Rightarrow>
          \<lparr>py_status = 200, py_headers = [(''content-type'', content_type), (''cache-control'', cache_control)],
           py_body = body\<rparr>)"

definition did_json :: "string \<Rightarrow> json_text" where
  "did_json did = JObject [(''did'', JString did)]"

definition challenge_route ::
  "('x, 'z) harness_crates_scheme \<Rightarrow> 'dt chrono \<Rightarrow> 'dt tick \<Rightarrow> (string \<times> string) list \<Rightarrow> aqua_peer \<Rightarrow>
   (aqua_peer \<times> peer_reply) option" where
  "challenge_route E C tk q p =
     (case challenge_query q of
        Inl status \<Rightarrow> Some (p, status_reply status)
      | Inr did \<Rightarrow>
          map_option (\<lambda>(p', r). (p', json_reply E (rmap challenge_envelope_json r)))
            (challenge_handler E C (tk_purge tk) (tk_nonce tk) (tk_utc tk) did p))"

text \<open>\<open>Json<SessionRequest>\<close>: 415 without a JSON media type, before the body is read.\<close>

definition session_extract ::
  "('x, 'z) harness_crates_scheme \<Rightarrow> headers \<Rightarrow> string \<Rightarrow> nat + session_request" where
  "session_extract E hs body =
     rbind (require (case header_str hs ''content-type'' of Some m \<Rightarrow> is_json_mime E m | None \<Rightarrow> False) 415) (\<lambda>_.
     rbind (ok_or (json_read E (as_bytes body)) 400) session_request_of_json)"

definition session_route ::
  "('x, 'z) harness_crates_scheme \<Rightarrow> 'dt tick \<Rightarrow> headers \<Rightarrow> string \<Rightarrow> aqua_peer \<Rightarrow> aqua_peer \<times> peer_reply" where
  "session_route E tk hs body p =
     (case session_extract E hs body of
        Inl status \<Rightarrow> (p, status_reply status)
      | Inr request \<Rightarrow>
          (case session_handler E (tk_check tk) (tk_purge tk) (tk_token tk) (tk_now tk) request p of
             (p', r) \<Rightarrow> (p', json_reply E (rmap session_response_json r))))"

definition WELL_KNOWN_PATHS :: "string list" where
  "WELL_KNOWN_PATHS = [''/.well-known/http-message-signatures-directory'', ''/.well-known/aqua-identity'']"

text \<open>
  The table of \<open>router()\<close>. A method filter answers 405 to another method and an unknown path is
  404; a filter on \<open>GET\<close> takes \<open>HEAD\<close> too and drops the body of the reply. A panic in a handler
  closes the connection: \<open>None\<close>.
\<close>

definition on_get ::
  "string \<Rightarrow> aqua_peer \<Rightarrow> (aqua_peer \<times> peer_reply) option \<Rightarrow> (aqua_peer \<times> peer_reply) option" where
  "on_get m p handled =
     (if m = ''GET'' then handled
      else if m = ''HEAD'' then map_option (\<lambda>(p', r). (p', r\<lparr>py_body := ''''\<rparr>)) handled
      else Some (p, status_reply 405))"

definition peer_router ::
  "('x, 'z) harness_crates_scheme \<Rightarrow> 'dt chrono \<Rightarrow> sfv \<Rightarrow> json_writer \<Rightarrow> 'dt tick \<Rightarrow> peer_request \<Rightarrow> aqua_peer \<Rightarrow>
   (aqua_peer \<times> peer_reply) option" where
  "peer_router E C V J tk rq p =
     (let m = pq_method rq in
      if pq_path rq = ''/auth/challenge'' then on_get m p (challenge_route E C tk (pq_query rq) p)
      else if pq_path rq = ''/auth/session'' then
        (if m = ''POST'' then Some (session_route E tk (pq_headers rq) (pq_body rq) p) else Some (p, status_reply 405))
      else if pq_path rq = ''/whoami'' then
        on_get m p (Some (case whoami_handler (tk_check tk) (pq_headers rq) p of
                            (p', r) \<Rightarrow> (p', json_reply E (rmap did_json r))))
      else if pq_path rq = ''/sig/whoami'' then
        on_get m p (Some (case sig_whoami_handler E V (tk_clock tk)
                                 \<lparr>rq_method = m, rq_uri_authority = pq_authority rq, rq_uri_path = pq_path rq,
                                  rq_headers = pq_headers rq\<rparr> p of
                            (p', r) \<Rightarrow> (p', json_reply E (rmap did_json r))))
      else if pq_path rq = WELL_KNOWN_PATHS ! 0 then
        on_get m p (Some (p, document_reply (jwks_handler E J (tk_now tk) p)))
      else if pq_path rq = WELL_KNOWN_PATHS ! 1 then
        on_get m p (Some (p, document_reply (aqua_identity_handler E J (tk_now tk) p)))
      else Some (p, status_reply 404))"

text \<open>
  \<open>bind_loopback\<close>: the address the listener got is an argument, \<open>None\<close> where binding panics; the
  peer is built around it and its router is what the spawned task serves.
\<close>

definition bind_loopback ::
  "('x, 'z) crates_scheme \<Rightarrow> string option \<Rightarrow> string \<Rightarrow> u64 \<Rightarrow> signer \<Rightarrow> (aqua_peer \<times> string) option" where
  "bind_loopback E address name challenge_ttl_secs signer =
     map_option (\<lambda>a. let base_url = ''http://'' @ a
                     in (peer_in_memory E name base_url challenge_ttl_secs signer, base_url)) address"

section \<open>The peer behind reqwest\<close>
text \<open>
  A peer with the draws of the requests to come. A URL under the peer's base URL is served by its
  router, any other is refused a connection; sleeping delays every later reading by the seconds
  slept, the instants by chrono's addition where it has a sum.
\<close>

record 'dt peer_world =
  pw_peer :: aqua_peer
  pw_ticks :: "nat \<Rightarrow> 'dt tick"

definition tick_delay :: "'dt chrono \<Rightarrow> nat \<Rightarrow> 'dt tick \<Rightarrow> 'dt tick" where
  "tick_delay C n tk =
     tk\<lparr>tk_purge := tk_purge tk + of_nat n,
        tk_utc := (case dt_add_seconds C (tk_utc tk) (int n) of Some d \<Rightarrow> d | None \<Rightarrow> tk_utc tk),
        tk_check := tk_check tk + of_nat n, tk_now := tk_now tk + of_nat n, tk_clock := tk_clock tk + int n\<rparr>"

definition peer_send ::
  "('x, 'z) harness_crates_scheme \<Rightarrow> 'dt chrono \<Rightarrow> sfv \<Rightarrow> json_writer \<Rightarrow> string \<Rightarrow> (string \<Rightarrow> peer_request) \<Rightarrow>
   'dt peer_world \<Rightarrow> (string + reqwest_response) \<times> 'dt peer_world" where
  "peer_send E C V J url request w =
     (let w' = w\<lparr>pw_ticks := (\<lambda>i. pw_ticks w (Suc i))\<rparr> in
      case strip_prefix (ap_base_url (pw_peer w)) url of
        None \<Rightarrow> (Inl ''connection refused'', w')
      | Some path \<Rightarrow>
          (case peer_router E C V J (pw_ticks w 0) (request path) (pw_peer w) of
             None \<Rightarrow> (Inl ''connection closed before message completed'', w')
           | Some (p, r) \<Rightarrow>
               (Inr \<lparr>rp_status = py_status r, rp_text = Inr (py_body r)\<rparr>, w'\<lparr>pw_peer := p\<rparr>)))"

definition peer_reqwest ::
  "('x, 'z) harness_crates_scheme \<Rightarrow> 'dt chrono \<Rightarrow> sfv \<Rightarrow> json_writer \<Rightarrow> 'dt peer_world reqwest" where
  "peer_reqwest E C V J =
     \<lparr>rq_get = (\<lambda>url query. peer_send E C V J url (\<lambda>path.
        \<lparr>pq_method = ''GET'', pq_authority = None, pq_path = path, pq_query = query, pq_headers = [], pq_body = ''''\<rparr>)),
      rq_post = (\<lambda>url body. peer_send E C V J url (\<lambda>path.
        \<lparr>pq_method = ''POST'', pq_authority = None, pq_path = path, pq_query = [],
         pq_headers = [(''content-type'', ''application/json'')], pq_body = json_display E body\<rparr>)),
      rq_sleep = (\<lambda>n w. w\<lparr>pw_ticks := tick_delay C n \<circ> pw_ticks w\<rparr>)\<rparr>"

section \<open>Lemmas\<close>

lemma json_get_literals:
  "json_get k (challenge_envelope_json e) =
     (if k = ''expires_at'' then Some (json_u64 (env_expires_at e))
      else if k = ''message'' then Some (JString (env_message e))
      else if k = ''nonce'' then Some (JString (env_nonce e)) else None)"
  "json_get k (session_response_json r) =
     (if k = ''created_at'' then Some (json_u64 (resp_created_at r))
      else if k = ''valid_until'' then Some (json_u64 (resp_valid_until r))
      else if k = ''token'' then Some (JString (resp_token r))
      else if k = ''did'' then Some (JString (resp_did r)) else None)"
  by (simp_all add: challenge_envelope_json_def session_response_json_def)

lemma json_u64_read [simp]: "json_as_u64 (json_u64 n) = Some n"
  unfolding json_u64_def by (rule json_as_u64_show)

lemma btree_insert_other:
  assumes "k \<noteq> f"
  shows "filter (\<lambda>(k', _). k' = f) (btree_insert k v ms) = filter (\<lambda>(k', _). k' = f) ms"
    "map_of (btree_insert k v ms) f = map_of ms f"
  using assms by (induction ms) auto

lemma unknown_member_ignored:
  assumes "k \<notin> {''did'', ''nonce'', ''signature'', ''public_key''}"
  shows "session_request_of_json (json_set k v (JObject ms)) = session_request_of_json (JObject ms)"
proof -
  have "k \<noteq> ''did''" "k \<noteq> ''nonce''" "k \<noteq> ''signature''" "k \<noteq> ''public_key''" using assms by simp_all
  then show ?thesis by (simp add: repeated_member_def btree_insert_other)
qed

lemma session_request_read: "session_request_of_json (session_request_json r) = Inr r"
  by (cases r; cases "sr_public_key r")
     (simp_all add: session_request_json_def repeated_member_def session_request_fields_def de_string_def
       de_option_string_def)

text \<open>
  C34. The wire request survives JSON: what a client serializes is what the server reads, with or
  without the optional key, and a member the type does not know, wherever it sorts, changes nothing.
\<close>

theorem session_request_roundtrip:
  "session_request_of_json (session_request_json r) = Inr r \<and>
   (\<forall>k v. k \<notin> {''did'', ''nonce'', ''signature'', ''public_key''} \<longrightarrow>
      session_request_of_json (json_set k v (session_request_json r)) = Inr r)"
proof (intro conjI allI impI)
  show read: "session_request_of_json (session_request_json r) = Inr r" by (rule session_request_read)
  fix k v
  assume k: "k \<notin> {''did'', ''nonce'', ''signature'', ''public_key''}"
  obtain ms where "session_request_json r = JObject ms" unfolding session_request_json_def by blast
  with read unknown_member_ignored [OF k, of v ms]
  show "session_request_of_json (json_set k v (session_request_json r)) = Inr r" by (simp only:)
qed

theorem session_request_roundtrip_witness:
  "session_request_of_json (json_set ''extra'' JNull (session_request_json
     \<lparr>sr_did = ''d'', sr_nonce = ''n'', sr_signature = ''s'', sr_public_key = None\<rparr>)) =
   Inr \<lparr>sr_did = ''d'', sr_nonce = ''n'', sr_signature = ''s'', sr_public_key = None\<rparr>"
  using session_request_roundtrip [of "\<lparr>sr_did = ''d'', sr_nonce = ''n'', sr_signature = ''s'', sr_public_key = None\<rparr>"]
  by simp

end
