(* ===== verification/Webauthn_Json.thy ===== *)
theory Webauthn_Json
  imports Wire Webauthn_Select Webauthn_Store
begin

text \<open>
  The passkey types as JSON, as their serde derives read and write them: the assertion a browser
  posts (webauthn\_recover.rs), the creation and request options a service serves
  (webauthn\_options.rs), and the hints and the pending state kept between two prompts
  (webauthn\_select.rs). A refusal is \<open>None\<close>: the texts of serde's errors are not modelled.
\<close>

section \<open>Derived readers\<close>

text \<open>
  The members of a struct, by field, each with the names it goes by: from an object, where a
  field named twice is refused and unknown members are skipped, or from an array of the fields in
  order, not longer than they are. A field left out is \<open>None\<close>.
\<close>

fun struct_members :: "string list list \<Rightarrow> json_text \<Rightarrow> json_text option list option" where
  "struct_members fs (JObject ms) =
     (if list_ex (\<lambda>names. 1 < length (filter (\<lambda>(k, _). k \<in> set names) ms)) fs then None
      else Some (map (\<lambda>names. map_option snd (find (\<lambda>(k, _). k \<in> set names) ms)) fs))"
| "struct_members fs (JArray vs) =
     (if length fs < length vs then None else Some (map (nth_option vs) [0..<length fs]))"
| "struct_members fs _ = None"

definition member_str :: "json_text option \<Rightarrow> string option" where
  "member_str m = Option.bind m json_as_str"

fun json_as_bool :: "json_text \<Rightarrow> bool option" where
  "json_as_bool (JBool b) = Some b"
| "json_as_bool _ = None"

fun json_as_i64 :: "json_text \<Rightarrow> int option" where
  "json_as_i64 (JNumber t) =
     (let neg = starts_with ''-'' t; d = (if neg then tl t else t); n = digits_value d
      in if d \<noteq> [] \<and> list_all is_ascii_digit d \<and> (if neg then 0 < n \<and> n \<le> 2 ^ 63 else n < 2 ^ 63)
         then Some (if neg then - int n else int n) else None)"
| "json_as_i64 _ = None"

fun json_items :: "(json_text \<Rightarrow> 'a option) \<Rightarrow> json_text \<Rightarrow> 'a list option" where
  "json_items f (JArray vs) = those (map f vs)"
| "json_items f _ = None"

section \<open>Assertions\<close>

definition opt_string_json :: "string option \<Rightarrow> json_text" where
  "opt_string_json m = (case m of Some s \<Rightarrow> JString s | None \<Rightarrow> JNull)"

definition assertion_response_value :: "assertion_response_json \<Rightarrow> json_text" where
  "assertion_response_value r =
     JObject [(''authenticatorData'', JString (ar_authenticator_data r)),
              (''clientDataJSON'', JString (ar_client_data_json r)), (''signature'', JString (ar_signature r)),
              (''userHandle'', opt_string_json (ar_user_handle r))]"

definition assertion_value :: "assertion_json \<Rightarrow> json_text" where
  "assertion_value a =
     JObject [(''id'', JString (aj_id a)), (''rawId'', JString (aj_raw_id a)), (''type'', JString (aj_type a)),
              (''response'', assertion_response_value (aj_response a)),
              (''clientExtensionResults'', aj_client_extension_results a)]"

definition empty_object :: json_text where
  "empty_object = JObject []"

definition assertion_response_of_json :: "json_text \<Rightarrow> assertion_response_json option" where
  "assertion_response_of_json v =
     (case struct_members [[''authenticatorData''], [''clientDataJSON''], [''signature''], [''userHandle'']] v of
        Some [ad, cdj, sig, uh] \<Rightarrow>
          Option.bind (member_str ad) (\<lambda>ad. Option.bind (member_str cdj) (\<lambda>cdj. Option.bind (member_str sig) (\<lambda>sig.
          map_option (\<lambda>uh. \<lparr>ar_authenticator_data = ad, ar_client_data_json = cdj, ar_signature = sig,
                            ar_user_handle = uh\<rparr>) (ok (de_option_string uh)))))
      | _ \<Rightarrow> None)"

definition assertion_of_json :: "json_text \<Rightarrow> assertion_json option" where
  "assertion_of_json v =
     (case struct_members [[''id''], [''rawId''], [''type''], [''response''], [''clientExtensionResults'', ''extensions'']] v of
        Some [i, raw, ty, resp, ext] \<Rightarrow>
          Option.bind (member_str i) (\<lambda>i. Option.bind (member_str raw) (\<lambda>raw. Option.bind (member_str ty) (\<lambda>ty.
          map_option (\<lambda>resp. \<lparr>aj_id = i, aj_raw_id = raw, aj_type = ty, aj_response = resp,
              aj_client_extension_results = (case ext of Some e \<Rightarrow> e | None \<Rightarrow> empty_object)\<rparr>)
            (Option.bind resp assertion_response_of_json))))
      | _ \<Rightarrow> None)"

section \<open>Options\<close>

definition descriptor_value :: "credential_descriptor_json \<Rightarrow> json_text" where
  "descriptor_value d = JObject [(''type'', JString (de_type d)), (''id'', JString (de_id d))]"

definition request_options_value :: "request_options_json \<Rightarrow> json_text" where
  "request_options_value r =
     JObject [(''publicKey'', JObject (
       [(''challenge'', JString (ro_challenge r)), (''rpId'', JString (ro_rp_id r))] @
       (if ro_allow_credentials r = [] then []
        else [(''allowCredentials'', JArray (map descriptor_value (ro_allow_credentials r)))]) @
       [(''userVerification'', JString (ro_user_verification r))]))]"

definition creation_options_value :: "creation_options_json \<Rightarrow> json_text" where
  "creation_options_value c =
     JObject [(''publicKey'', JObject
       [(''rp'', JObject [(''id'', JString (rpj_id (co_rp c))), (''name'', JString (rpj_name (co_rp c)))]),
        (''user'', JObject [(''id'', JString (ue_id (co_user c))), (''name'', JString (ue_name (co_user c))),
                            (''displayName'', JString (ue_display_name (co_user c)))]),
        (''challenge'', JString (co_challenge c)),
        (''pubKeyCredParams'', JArray (map (\<lambda>p. JObject [(''type'', JString (cp_type p)),
           (''alg'', JNumber (show_int (cp_alg p)))]) (co_pub_key_cred_params c))),
        (''authenticatorSelection'', JObject
           [(''residentKey'', JString (as_resident_key (co_authenticator_selection c))),
            (''requireResidentKey'', JBool (as_require_resident_key (co_authenticator_selection c))),
            (''userVerification'', JString (as_user_verification (co_authenticator_selection c)))]),
        (''attestation'', JString (co_attestation c)),
        (''extensions'', JObject [(''credProps'', JBool (co_cred_props c))])])]"

definition descriptor_of_json :: "json_text \<Rightarrow> credential_descriptor_json option" where
  "descriptor_of_json v =
     (case struct_members [[''type''], [''id'']] v of
        Some [t, i] \<Rightarrow> Option.bind (member_str t) (\<lambda>t. map_option (\<lambda>i. \<lparr>de_type = t, de_id = i\<rparr>) (member_str i))
      | _ \<Rightarrow> None)"

definition in_public_key :: "(json_text \<Rightarrow> 'a option) \<Rightarrow> json_text \<Rightarrow> 'a option" where
  "in_public_key f v =
     (case struct_members [[''publicKey'']] v of Some [m] \<Rightarrow> Option.bind m f | _ \<Rightarrow> None)"

definition request_options_of_json :: "json_text \<Rightarrow> request_options_json option" where
  "request_options_of_json = in_public_key (\<lambda>v.
     case struct_members [[''challenge''], [''rpId''], [''allowCredentials''], [''userVerification'']] v of
       Some [c, rp, allow, uv] \<Rightarrow>
         Option.bind (member_str c) (\<lambda>c. Option.bind (member_str rp) (\<lambda>rp.
         Option.bind (case allow of None \<Rightarrow> Some [] | Some vs \<Rightarrow> json_items descriptor_of_json vs) (\<lambda>allow.
         map_option (\<lambda>uv. \<lparr>ro_challenge = c, ro_rp_id = rp, ro_allow_credentials = allow, ro_user_verification = uv\<rparr>)
           (member_str uv))))
     | _ \<Rightarrow> None)"

definition relying_party_of_json :: "json_text \<Rightarrow> relying_party_json option" where
  "relying_party_of_json v =
     (case struct_members [[''id''], [''name'']] v of
        Some [i, n] \<Rightarrow> Option.bind (member_str i) (\<lambda>i. map_option (\<lambda>n. \<lparr>rpj_id = i, rpj_name = n\<rparr>) (member_str n))
      | _ \<Rightarrow> None)"

definition user_entity_of_json :: "json_text \<Rightarrow> user_entity_json option" where
  "user_entity_of_json v =
     (case struct_members [[''id''], [''name''], [''displayName'']] v of
        Some [i, n, d] \<Rightarrow>
          Option.bind (member_str i) (\<lambda>i. Option.bind (member_str n) (\<lambda>n.
          map_option (\<lambda>d. \<lparr>ue_id = i, ue_name = n, ue_display_name = d\<rparr>) (member_str d)))
      | _ \<Rightarrow> None)"

definition credential_parameter_of_json :: "json_text \<Rightarrow> credential_parameter_json option" where
  "credential_parameter_of_json v =
     (case struct_members [[''type''], [''alg'']] v of
        Some [t, a] \<Rightarrow>
          Option.bind (member_str t) (\<lambda>t. map_option (\<lambda>a. \<lparr>cp_type = t, cp_alg = a\<rparr>) (Option.bind a json_as_i64))
      | _ \<Rightarrow> None)"

definition authenticator_selection_of_json :: "json_text \<Rightarrow> authenticator_selection_json option" where
  "authenticator_selection_of_json v =
     (case struct_members [[''residentKey''], [''requireResidentKey''], [''userVerification'']] v of
        Some [r, q, u] \<Rightarrow>
          Option.bind (member_str r) (\<lambda>r. Option.bind (Option.bind q json_as_bool) (\<lambda>q.
          map_option (\<lambda>u. \<lparr>as_resident_key = r, as_require_resident_key = q, as_user_verification = u\<rparr>)
            (member_str u)))
      | _ \<Rightarrow> None)"

definition creation_extensions_of_json :: "json_text \<Rightarrow> bool option" where
  "creation_extensions_of_json v =
     (case struct_members [[''credProps'']] v of Some [p] \<Rightarrow> Option.bind p json_as_bool | _ \<Rightarrow> None)"

definition creation_options_of_json :: "json_text \<Rightarrow> creation_options_json option" where
  "creation_options_of_json = in_public_key (\<lambda>v.
     case struct_members [[''rp''], [''user''], [''challenge''], [''pubKeyCredParams''], [''authenticatorSelection''],
        [''attestation''], [''extensions'']] v of
       Some [rp, user, c, params, sel, att, ext] \<Rightarrow>
         Option.bind (Option.bind rp relying_party_of_json) (\<lambda>rp.
         Option.bind (Option.bind user user_entity_of_json) (\<lambda>user.
         Option.bind (member_str c) (\<lambda>c.
         Option.bind (Option.bind params (json_items credential_parameter_of_json)) (\<lambda>params.
         Option.bind (Option.bind sel authenticator_selection_of_json) (\<lambda>sel.
         Option.bind (member_str att) (\<lambda>att.
         map_option (\<lambda>ext. \<lparr>co_rp = rp, co_user = user, co_challenge = c, co_pub_key_cred_params = params,
             co_authenticator_selection = sel, co_attestation = att, co_cred_props = ext\<rparr>)
           (Option.bind ext creation_extensions_of_json)))))))
     | _ \<Rightarrow> None)"

section \<open>Hints and pending state\<close>

text \<open>\<open>DidHint\<close> goes through \<open>String\<close> both ways, and into the type by \<open>try_from\<close>.\<close>

definition hint_value :: "did_hint \<Rightarrow> json_text" where
  "hint_value h = JString (hint_str h)"

definition hint_of_json :: "('x, 'z) crates_scheme \<Rightarrow> json_text \<Rightarrow> did_hint option" where
  "hint_of_json E v = Option.bind (json_as_str v) (\<lambda>s. ok (hint_try_from E s))"

definition pending_recovery_value :: "('x, 'z) crates_scheme \<Rightarrow> pending_recovery \<Rightarrow> json_text" where
  "pending_recovery_value E p =
     JObject [(''candidates'', JArray [hint_value (fst (pr_candidates p)), hint_value (snd (pr_candidates p))]),
              (''credential_id'', JString (b64_encode E (pr_credential_id p)))]"

fun hint_pair_of_json :: "('x, 'z) crates_scheme \<Rightarrow> json_text \<Rightarrow> (did_hint \<times> did_hint) option" where
  "hint_pair_of_json E (JArray [a, b]) =
     Option.bind (hint_of_json E a) (\<lambda>a. map_option (Pair a) (hint_of_json E b))"
| "hint_pair_of_json E _ = None"

definition pending_recovery_of_json ::
  "('x, 'z) passkey_crates_scheme \<Rightarrow> json_text \<Rightarrow> pending_recovery option" where
  "pending_recovery_of_json E v =
     (case struct_members [[''candidates''], [''credential_id'']] v of
        Some [c, i] \<Rightarrow>
          Option.bind (Option.bind c (hint_pair_of_json E)) (\<lambda>c.
          map_option (\<lambda>i. \<lparr>pr_candidates = c, pr_credential_id = i\<rparr>)
            (Option.bind (member_str i) (\<lambda>s. ok (b64url_decode E s))))
      | _ \<Rightarrow> None)"

section \<open>Lemmas\<close>

lemmas passkey_readers =
  member_str_def in_public_key_def descriptor_of_json_def request_options_of_json_def relying_party_of_json_def
  user_entity_of_json_def credential_parameter_of_json_def authenticator_selection_of_json_def
  creation_extensions_of_json_def creation_options_of_json_def assertion_response_of_json_def assertion_of_json_def

lemmas passkey_writers =
  opt_string_json_def assertion_response_value_def assertion_value_def descriptor_value_def request_options_value_def
  creation_options_value_def

lemma those_map: "(\<And>x. x \<in> set xs \<Longrightarrow> f (g x) = Some x) \<Longrightarrow> those (map (f \<circ> g) xs) = Some xs"
  by (induction xs) auto

lemma json_items_map:
  "(\<And>x. x \<in> set xs \<Longrightarrow> f (g x) = Some x) \<Longrightarrow> json_items f (JArray (map g xs)) = Some xs"
  using those_map [of xs f g] by simp

lemma json_as_i64_show:
  assumes "- (2 ^ 63) \<le> i" "i < 2 ^ 63"
  shows "json_as_i64 (JNumber (show_int i)) = Some i"
proof -
  have digits: "list_all is_ascii_digit (show_nat n)" for n by (auto simp: list_all_iff dest: show_nat_digits)
  have "\<not> starts_with ''-'' (show_nat n)" for n
    using show_nat_digits [of "CHR ''-''" n] by (cases "show_nat n") (auto simp: starts_with_def is_ascii_digit_def)
  then show ?thesis using assms digits by (auto simp: show_int_def starts_with_def Let_def)
qed

lemma descriptor_read: "descriptor_of_json (descriptor_value d) = Some d"
  by (simp add: passkey_readers passkey_writers)

lemma request_options_read: "request_options_of_json (request_options_value r) = Some r"
  using json_items_map [of "ro_allow_credentials r" descriptor_of_json descriptor_value, OF descriptor_read]
  by (cases r) (simp add: passkey_readers passkey_writers)


lemma creation_options_read:
  assumes "\<forall>p \<in> set (co_pub_key_cred_params c). - (2 ^ 63) \<le> cp_alg p \<and> cp_alg p < 2 ^ 63"
  shows "creation_options_of_json (creation_options_value c) = Some c"
proof -
  let ?w = "\<lambda>p. JObject [(''type'', JString (cp_type p)), (''alg'', JNumber (show_int (cp_alg p)))]"
  have "credential_parameter_of_json (?w p) = Some p" if "p \<in> set (co_pub_key_cred_params c)" for p
    using assms that json_as_i64_show [of "cp_alg p"]
    by (simp add: credential_parameter_of_json_def member_str_def del: json_as_i64.simps)
  then have items: "json_items credential_parameter_of_json (JArray (map ?w (co_pub_key_cred_params c))) =
      Some (co_pub_key_cred_params c)" by (rule json_items_map)
  have rp: "relying_party_of_json (JObject [(''id'', JString (rpj_id r)), (''name'', JString (rpj_name r))]) = Some r" for r
    by (simp add: relying_party_of_json_def member_str_def)
  have user: "user_entity_of_json (JObject [(''id'', JString (ue_id u)), (''name'', JString (ue_name u)),
      (''displayName'', JString (ue_display_name u))]) = Some u" for u
    by (simp add: user_entity_of_json_def member_str_def)
  have sel: "authenticator_selection_of_json (JObject [(''residentKey'', JString (as_resident_key s)),
      (''requireResidentKey'', JBool (as_require_resident_key s)),
      (''userVerification'', JString (as_user_verification s))]) = Some s" for s
    by (simp add: authenticator_selection_of_json_def member_str_def)
  have ext: "creation_extensions_of_json (JObject [(''credProps'', JBool b)]) = Some b" for b
    by (simp add: creation_extensions_of_json_def)
  show ?thesis
    by (simp add: creation_options_of_json_def creation_options_value_def in_public_key_def member_str_def items rp user
        sel ext del: json_items.simps)
qed

lemma assertion_response_read: "assertion_response_of_json (assertion_response_value r) = Some r"
  by (cases "ar_user_handle r") (simp_all add: passkey_readers passkey_writers de_option_string_def)

lemma assertion_read:
  "assertion_of_json (assertion_value a) = Some a"
  "assertion_of_json (JObject [(''id'', JString (aj_id a)), (''rawId'', JString (aj_raw_id a)),
     (''type'', JString (aj_type a)), (''response'', assertion_response_value (aj_response a)),
     (''extensions'', aj_client_extension_results a)]) = Some a"
  using assertion_response_read [of "aj_response a"] by (simp_all add: assertion_of_json_def assertion_value_def member_str_def)

text \<open>A hint is canonical: its string parses to itself.\<close>

definition canonical_hint :: "('x, 'z) crates_scheme \<Rightarrow> did_hint \<Rightarrow> bool" where
  "canonical_hint E h \<longleftrightarrow> hint_parse E (hint_str h) = Some h"

lemma hint_parse_canonical: "hint_parse E s = Some h \<Longrightarrow> canonical_hint E h"
  unfolding canonical_hint_def by (auto simp: hint_parse_Some)

lemma did_key_canonical:
  assumes "bs58_law E" "recovery_law E"
  shows "canonical_hint E (DidHint (did_key_of E k))"
  unfolding canonical_hint_def hint_parse_Some using did_key_of_valid [OF assms] by (auto simp: did_key_of_def)

lemma hint_of_json_value [simp]: "canonical_hint E h \<Longrightarrow> hint_of_json E (hint_value h) = Some h"
  by (simp add: hint_of_json_def hint_value_def hint_try_from_def canonical_hint_def)

lemma hint_of_json_canonical: "hint_of_json E v = Some h \<Longrightarrow> canonical_hint E h"
  by (cases v) (auto simp: hint_of_json_def hint_try_from_def ok_or_def split: option.splits dest: hint_parse_canonical)

lemma hint_pair_canonical: "hint_pair_of_json E v = Some (a, b) \<Longrightarrow> canonical_hint E a \<and> canonical_hint E b"
  by (cases "(E, v)" rule: hint_pair_of_json.cases) (auto simp: bind_eq_Some_conv dest: hint_of_json_canonical)

lemma pending_read_canonical:
  assumes "pending_recovery_of_json E v = Some p"
  shows "canonical_hint E (fst (pr_candidates p))" "canonical_hint E (snd (pr_candidates p))"
proof -
  from assms obtain c where "hint_pair_of_json E c = Some (pr_candidates p)"
    unfolding pending_recovery_of_json_def by (auto simp: bind_eq_Some_conv split: option.splits list.splits)
  then show "canonical_hint E (fst (pr_candidates p))" "canonical_hint E (snd (pr_candidates p))"
    using hint_pair_canonical [of E c] by (metis prod.collapse)+
qed

lemma pending_roundtrip:
  assumes "b64url_law E" "canonical_hint E (fst (pr_candidates p))" "canonical_hint E (snd (pr_candidates p))"
  shows "pending_recovery_of_json E (pending_recovery_value E p) = Some p"
  using assms by (simp add: pending_recovery_of_json_def pending_recovery_value_def member_str_def b64url_law_def)

text \<open>Every way the crate makes a hint.\<close>

inductive made_hint :: "('x, 'z) passkey_crates_scheme \<Rightarrow> did_hint \<Rightarrow> bool" for E where
  parsed: "hint_parse E s = Some h \<Longrightarrow> made_hint E h"
| from_spki: "hint_from_spki_der E spki = Inr h \<Longrightarrow> made_hint E h"
| converted: "hint_try_from E s = Inr h \<Longrightarrow> made_hint E h"
| cookie: "h \<in> set (hints_from_cookie_header E header) \<Longrightarrow> made_hint E h"
| selected: "select E r hints known = NeedSecondAssertion p \<Longrightarrow>
    h = fst (pr_candidates p) \<or> h = snd (pr_candidates p) \<Longrightarrow> made_hint E h"
| stored: "pending_recovery_of_json E v = Some p \<Longrightarrow>
    h = fst (pr_candidates p) \<or> h = snd (pr_candidates p) \<Longrightarrow> made_hint E h"

lemma cookie_hint_canonical: "h \<in> set (hints_from_cookie_header E header) \<Longrightarrow> canonical_hint E h"
proof -
  assume "h \<in> set (hints_from_cookie_header E header)"
  then obtain pair where "hint_of_pair E pair = Some h"
    by (auto simp: hints_from_cookie_header_def List.map_filter_def)
  then show ?thesis by (auto simp: hint_of_pair_def hint_parse_canonical split: option.splits if_splits)
qed

lemma made_hint_canonical:
  assumes "bs58_law E" "recovery_law E" "made_hint E h"
  shows "canonical_hint E h"
  using assms(3)
proof cases
  case (from_spki spki)
  then show ?thesis using did_key_canonical [OF assms(1,2)] by (auto simp: hint_from_spki_der_def did_key_of_def)
next
  case (selected r hints known p)
  then show ?thesis using select_Need [OF selected(1)] did_key_canonical [OF assms(1,2)] by (auto simp: candidate_dids_def)
qed (auto simp: hint_try_from_def dest: hint_parse_canonical cookie_hint_canonical pending_read_canonical)


section \<open>Properties\<close>

text \<open>
  C33. A hint is a canonical P-256 \<open>did:key\<close> whichever way it came to be: parsed, read from a key's
  DER, from a cookie or from stored JSON, or as a candidate of an assertion. So comparing hints
  compares keys, and the state between two prompts survives being stored as JSON.
\<close>

theorem did_hint_canonical:
  assumes "bs58_law E" "recovery_law E" "b64url_law E"
  shows "(\<forall>h. made_hint E h \<longrightarrow> hint_parse E (hint_str h) = Some h) \<and>
    (\<forall>h h'. made_hint E h \<and> made_hint E h' \<longrightarrow>
       (h = h' \<longleftrightarrow> p256_pubkey_from_did_key E (hint_str h) = p256_pubkey_from_did_key E (hint_str h'))) \<and>
    (\<forall>p. made_hint E (fst (pr_candidates p)) \<and> made_hint E (snd (pr_candidates p)) \<longrightarrow>
       pending_recovery_of_json E (pending_recovery_value E p) = Some p)"
proof (intro conjI allI impI)
  note made = made_hint_canonical [OF assms(1,2)]
  show "hint_parse E (hint_str h) = Some h" if "made_hint E h" for h
    using made [OF that] unfolding canonical_hint_def .
  show "h = h' \<longleftrightarrow> p256_pubkey_from_did_key E (hint_str h) = p256_pubkey_from_did_key E (hint_str h')"
    if "made_hint E h \<and> made_hint E h'" for h h'
    using that made [of h] made [of h'] unfolding canonical_hint_def hint_parse_Some by (metis sum.inject(2))
  show "pending_recovery_of_json E (pending_recovery_value E p) = Some p"
    if "made_hint E (fst (pr_candidates p)) \<and> made_hint E (snd (pr_candidates p))" for p
    using that by (intro pending_roundtrip [OF assms(3)] made) simp_all
qed

theorem did_hint_canonical_witness:
  "pending_recovery_of_json ref_passkeys (pending_recovery_value ref_passkeys
     \<lparr>pr_candidates = map_prod DidHint DidHint (candidate_dids ref_passkeys ref_recovered), pr_credential_id = [1]\<rparr>) =
   Some \<lparr>pr_candidates = map_prod DidHint DidHint (candidate_dids ref_passkeys ref_recovered), pr_credential_id = [1]\<rparr>"
proof -
  have s: "select ref_passkeys ref_recovered [] (False, False) = NeedSecondAssertion
      \<lparr>pr_candidates = map_prod DidHint DidHint (candidate_dids ref_passkeys ref_recovered),
       pr_credential_id = ra_credential_id ref_recovered\<rparr>"
    by (simp add: select_def Let_def map_prod_def split: prod.split)
  show ?thesis
    using did_hint_canonical [OF ref_passkey_laws(3,1,2)] made_hint.selected [OF s] by simp
qed

text \<open>
  What a service serves and a browser posts is read back: the request and creation options, and an
  assertion under either name of its extension outputs.
\<close>

theorem passkey_json_roundtrip:
  assumes "\<forall>p \<in> set (co_pub_key_cred_params c). - (2 ^ 63) \<le> cp_alg p \<and> cp_alg p < 2 ^ 63"
  shows "request_options_of_json (request_options_value r) = Some r \<and>
    creation_options_of_json (creation_options_value c) = Some c \<and> assertion_of_json (assertion_value a) = Some a \<and>
    assertion_of_json (JObject [(''id'', JString (aj_id a)), (''rawId'', JString (aj_raw_id a)),
     (''type'', JString (aj_type a)), (''response'', assertion_response_value (aj_response a)),
     (''extensions'', aj_client_extension_results a)]) = Some a"
  using request_options_read creation_options_read [OF assms] assertion_read by blast

end
