(* ===== verification/Cases_Wire.thy ===== *)
theory Cases_Wire
  imports Conformance
begin

text \<open>
  The wire-shape cases of the conformance suite (conformance/cases\_wire.rs). A case generates its
  key and reads its clock where the argument of that name says; an early return of a result is
  the \<open>Inl\<close> of a sequenced check, and the verdict is that result or the last one.
\<close>

definition verdict_of :: "case_result + case_result \<Rightarrow> case_result" where
  "verdict_of r = (case r of Inl c \<Rightarrow> c | Inr c \<Rightarrow> c)"

lemma verdict_of_simps [simp]:
  "verdict_of (Inl c) = c" "verdict_of (Inr c) = c"
  "verdict_of (rbind r f) = (case r of Inl c \<Rightarrow> c | Inr x \<Rightarrow> verdict_of (f x))"
  by (simp_all add: verdict_of_def rbind_def split: sum.splits)

definition squoted :: "string \<Rightarrow> string" where
  "squoted s = CHR 0x27 # s @ [CHR 0x27]"

definition apostrophe_s :: string where
  "apostrophe_s = CHR 0x27 # ''s''"

fun json_is_string :: "json_text \<Rightarrow> bool" where
  "json_is_string (JString _) = True"
| "json_is_string _ = False"

fun json_is_object :: "json_text \<Rightarrow> bool" where
  "json_is_object (JObject _) = True"
| "json_is_object _ = False"

section \<open>The challenge response\<close>

text \<open>A member that must be there and satisfy a test, with the two texts of its absence and its mismatch.\<close>

definition member_check ::
  "('x, 'z) harness_crates_scheme \<Rightarrow> (string \<Rightarrow> case_result) \<Rightarrow> json_text \<Rightarrow> string \<Rightarrow> (json_text \<Rightarrow> bool) \<Rightarrow> string \<Rightarrow>
   case_result + unit" where
  "member_check E fail body k test kind =
     (case json_get k body of
        Some v \<Rightarrow> require (test v) (fail (''`'' @ k @ ''` is present but not '' @ kind @ '': '' @ json_display E v))
      | None \<Rightarrow> Inl (fail (''`'' @ k @ ''` field is missing'')))"

definition required_fields_verdict ::
  "('x, 'z) harness_crates_scheme \<Rightarrow> (string \<Rightarrow> case_result) \<Rightarrow> (string \<Rightarrow> case_result) \<Rightarrow> http_response \<Rightarrow> case_result" where
  "required_fields_verdict E pass fail response =
     verdict_of (
       rbind (require (is_success response)
         (fail (''expected a 2xx, got '' @ status_display E (hr_status response) @ '': '' @ excerpt response))) (\<lambda>_.
       rbind (ok_or (hr_json response)
         (fail (''response body was not JSON at all: '' @ excerpt response))) (\<lambda>body.
       rbind (require (json_is_object body)
         (fail (''response body was JSON but not an object: '' @ excerpt response))) (\<lambda>_.
       rbind (member_check E fail body ''nonce'' json_is_string ''a string'') (\<lambda>_.
       rbind (member_check E fail body ''message'' json_is_string ''a string'') (\<lambda>_.
       rbind (member_check E fail body ''expires_at'' (\<lambda>v. json_as_u64 v \<noteq> None) ''an unsigned integer'') (\<lambda>_.
         Inr (pass ''''))))))))"

definition spec_6_2_required_fields ::
  "('x, 'z) harness_crates_scheme \<Rightarrow> ('k, 'y) key_store_scheme \<Rightarrow> 's reqwest \<Rightarrow> target \<Rightarrow> 'k \<Rightarrow> 's \<Rightarrow> case_result \<times> 's" where
  "spec_6_2_required_fields E K W t key s =
     (let i = ''spec_6_2_required_fields''; spec_ref = ''SPEC 6.2'';
          title = ''challenge response carries nonce, message, expires_at'';
          signer = ed25519_did_key E K key
      in case fetch_challenge E W t (signer_did signer) s of
           (Inl e, s1) \<Rightarrow> (case_fail i spec_ref title (''request failed: '' @ login_error_display E e), s1)
         | (Inr response, s1) \<Rightarrow>
             (required_fields_verdict E (case_pass i spec_ref title) (case_fail i spec_ref title) response, s1))"

definition spec_6_2_did_field ::
  "('x, 'z) harness_crates_scheme \<Rightarrow> ('k, 'y) key_store_scheme \<Rightarrow> 's reqwest \<Rightarrow> target \<Rightarrow> 'k \<Rightarrow> 's \<Rightarrow> case_result \<times> 's" where
  "spec_6_2_did_field E K W t key s =
     (let i = ''spec_6_2_did_field''; spec_ref = ''SPEC 6.2'';
          title = ''challenge response echoes the requested did (non-fatal, contested field)'';
          requested_did = signer_did (ed25519_did_key E K key)
      in case fetch_challenge E W t requested_did s of
           (Inl e, s1) \<Rightarrow> (case_skip i spec_ref title (''could not even ask: '' @ login_error_display E e), s1)
         | (Inr response, s1) \<Rightarrow>
             (case json_field_str response ''did'' of
                Some did \<Rightarrow>
                  if did = requested_did then case_pass i spec_ref title ''''
                  else case_skip i spec_ref title
                    (''server echoed a `did` field but it does not match the requested DID (requested '' @
                     requested_did @ '', got '' @ did @ ''); reported, not failed, because SPEC 6.2 since cf07f72 '' @
                     ''says clients MUST ignore this field, so a wrong value cannot break a conformant client. The '' @
                     ''integrity property it hints at is enforced as a hard MUST elsewhere: '' @
                     ''spec_6_2_message_structure FAILS if the identifier inside `message`, which is the part that '' @
                     ''gets signed, disagrees with the requested DID'')
              | None \<Rightarrow>
                  case_skip i spec_ref title
                    (''server did not echo a `did` field; contested field as of 2026-09-11, absence is the '' @
                     ''spec-compliant choice under the newer of the two live revisions, not a failure under either''),
              s1))"

definition lower_hex_64 :: "string \<Rightarrow> bool" where
  "lower_hex_64 h = (length h = 64 \<and> list_all is_hex_lower h)"

definition is_well_formed_nonce :: "string \<Rightarrow> bool" where
  "is_well_formed_nonce nonce =
     (case strip_prefix ''0x'' nonce of Some hex_part \<Rightarrow> lower_hex_64 hex_part | None \<Rightarrow> False)"

definition spec_6_2_nonce_format ::
  "('x, 'z) harness_crates_scheme \<Rightarrow> ('k, 'y) key_store_scheme \<Rightarrow> 's reqwest \<Rightarrow> target \<Rightarrow> 'k \<Rightarrow> 's \<Rightarrow> case_result \<times> 's" where
  "spec_6_2_nonce_format E K W t key s =
     (let i = ''spec_6_2_nonce_format''; spec_ref = ''SPEC 4.2, 6.2'';
          title = ''nonce is 0x followed by exactly 64 lowercase hex chars'';
          fail = case_fail i spec_ref title; signer = ed25519_did_key E K key
      in case fetch_challenge E W t (signer_did signer) s of
           (Inl e, s1) \<Rightarrow> (fail (''request failed: '' @ login_error_display E e), s1)
         | (Inr response, s1) \<Rightarrow>
             (verdict_of (
                rbind (ok_or (json_field_str response ''nonce'')
                  (fail (''no string `nonce` field in the response: '' @ excerpt response))) (\<lambda>nonce.
                rbind (require (is_well_formed_nonce nonce)
                  (fail (''nonce '' @ debug_str E nonce @ '' is not `0x` + exactly 64 lowercase hex characters''))) (\<lambda>_.
                  Inr (case_pass i spec_ref title '''')))), s1))"

section \<open>The message\<close>

definition message_lines :: "string \<Rightarrow> string list" where
  "message_lines message = map (trim_end_char CR) (split_on LF message)"

definition ED25519_LINE_1 :: string where
  "ED25519_LINE_1 = ''wants you to sign in with your Ed25519 account:''"

definition message_template_verdict ::
  "('x, 'z) harness_crates_scheme \<Rightarrow> (string \<Rightarrow> case_result) \<Rightarrow> (string \<Rightarrow> case_result) \<Rightarrow> string \<Rightarrow> string \<Rightarrow> string \<Rightarrow>
   case_result" where
  "message_template_verdict E pass fail expected_identifier message nonce =
     (let lines = message_lines message; got = (\<lambda>n. '', got '' @ debug_str E (lines ! n));
          expected_nonce_line = ''Nonce: '' @ nonce
      in verdict_of (
       rbind (require (10 \<le> length lines)
         (fail (''message has only '' @ show_nat (length lines) @ '' lines, the SPEC 4.1 template needs at least 10:'' @
            [LF] @ message))) (\<lambda>_.
       rbind (require (ends_with ED25519_LINE_1 (lines ! 0))
         (fail (''line 1 must end with the fixed suffix for the Ed25519 method label'' @ got 0))) (\<lambda>_.
       rbind (require (lines ! 1 = expected_identifier)
         (fail (''line 2 identifier is '' @ debug_str E (lines ! 1) @ '', expected '' @ debug_str E expected_identifier @
            '' (the DID'' @ apostrophe_s @ '' did:key body, SPEC section 3)''))) (\<lambda>_.
       rbind (require (lines ! 2 = []) (fail (''line 3 must be blank'' @ got 2))) (\<lambda>_.
       rbind (require (lines ! 3 = ''Sign in to Aqua Node'')
         (fail (''line 4 must be the fixed statement '' @ squoted ''Sign in to Aqua Node'' @ got 3))) (\<lambda>_.
       rbind (require (lines ! 4 = []) (fail (''line 5 must be blank'' @ got 4))) (\<lambda>_.
       rbind (require (starts_with ''URI: '' (lines ! 5))
         (fail (''line 6 must start with '' @ squoted ''URI: '' @ got 5))) (\<lambda>_.
       rbind (require (lines ! 6 = ''Version: 1'')
         (fail (''line 7 must be exactly '' @ squoted ''Version: 1'' @ got 6))) (\<lambda>_.
       rbind (require (lines ! 7 = expected_nonce_line)
         (fail (''line 8 must bind the envelope'' @ apostrophe_s @ '' own nonce ('' @ debug_str E expected_nonce_line @ '')'' @
            got 7 @ ''; a message signed against one nonce while the envelope names another is the SPEC 7 rule 7 hole '' @
            ''this line closes''))) (\<lambda>_.
       rbind (require (starts_with ''Issued At: '' (lines ! 8))
         (fail (''line 9 must start with '' @ squoted ''Issued At: '' @ got 8))) (\<lambda>_.
       rbind (require (starts_with ''Expiration Time: '' (lines ! 9))
         (fail (''line 10 must start with '' @ squoted ''Expiration Time: '' @ got 9))) (\<lambda>_.
       rbind (require (\<not> list_ex (starts_with ''Chain ID:'') lines)
         (fail (''message carries a '' @ squoted ''Chain ID:'' @ '' line for an ed25519 identity; SPEC 4.3 reserves that '' @
            ''line for eip155 only''))) (\<lambda>_.
         Inr (pass '''')))))))))))))))"

definition message_structure_verdict ::
  "('x, 'z) harness_crates_scheme \<Rightarrow> (string \<Rightarrow> case_result) \<Rightarrow> (string \<Rightarrow> case_result) \<Rightarrow> string \<Rightarrow> http_response \<Rightarrow>
   case_result" where
  "message_structure_verdict E pass fail expected_identifier response =
     verdict_of (
       rbind (ok_or (hr_json response) (fail (''response body was not JSON: '' @ excerpt response))) (\<lambda>json_body.
       rbind (ok_or (get_str ''message'' json_body) (fail ''no string `message` field in the response'')) (\<lambda>message.
       rbind (ok_or (get_str ''nonce'' json_body)
         (fail ''no string `nonce` field in the response, cannot check the message binds it'')) (\<lambda>nonce.
         Inr (message_template_verdict E pass fail expected_identifier message nonce)))))"

definition spec_6_2_message_structure ::
  "('x, 'z) harness_crates_scheme \<Rightarrow> ('k, 'y) key_store_scheme \<Rightarrow> 's reqwest \<Rightarrow> target \<Rightarrow> 'k \<Rightarrow> 's \<Rightarrow> case_result \<times> 's" where
  "spec_6_2_message_structure E K W t key s =
     (let i = ''spec_6_2_message_structure''; spec_ref = ''SPEC 4.1, 4.2, 4.3'';
          title = ''message matches the CAIP-122 template and binds the envelope'' @ apostrophe_s @ '' nonce'';
          fail = case_fail i spec_ref title; did = signer_did (ed25519_did_key E K key)
      in case strip_prefix ''did:key:'' did of
           None \<Rightarrow> (fail (''harness signer DID '' @ debug_str E did @ '' unexpectedly has no did:key: prefix''), s)
         | Some expected_identifier \<Rightarrow>
             (case fetch_challenge E W t did s of
                (Inl e, s1) \<Rightarrow> (fail (''request failed: '' @ login_error_display E e), s1)
              | (Inr response, s1) \<Rightarrow>
                  (message_structure_verdict E (case_pass i spec_ref title) fail expected_identifier response, s1)))"

definition ONE_DAY_SECS :: u64 where
  "ONE_DAY_SECS = 24 * 60 * 60"

definition show_u64 :: "u64 \<Rightarrow> string" where
  "show_u64 n = show_nat (unat n)"

definition expires_at_verdict ::
  "(string \<Rightarrow> case_result) \<Rightarrow> (string \<Rightarrow> case_result) \<Rightarrow> u64 \<Rightarrow> http_response \<Rightarrow> case_result" where
  "expires_at_verdict pass fail now response =
     verdict_of (
       rbind (ok_or (json_field_u64 response ''expires_at'')
         (fail (''no unsigned-integer `expires_at` field: '' @ excerpt response))) (\<lambda>expires_at.
       rbind (require (\<not> expires_at \<le> now)
         (fail (''expires_at ('' @ show_u64 expires_at @ '') is not strictly in the future (now is '' @ show_u64 now @ '')''))) (\<lambda>_.
       rbind (require (\<not> ONE_DAY_SECS < expires_at - now)
         (fail (''expires_at ('' @ show_u64 expires_at @ '') is more than 24h ahead of now ('' @ show_u64 now @
            ''); a server emitting milliseconds instead of seconds is the classic cause of a drift this large''))) (\<lambda>_.
         Inr (pass '''')))))"

definition spec_6_2_expires_at_sane ::
  "('x, 'z) harness_crates_scheme \<Rightarrow> ('k, 'y) key_store_scheme \<Rightarrow> 's reqwest \<Rightarrow> target \<Rightarrow> 'k \<Rightarrow> u64 \<Rightarrow> 's \<Rightarrow> case_result \<times> 's" where
  "spec_6_2_expires_at_sane E K W t key now s =
     (let i = ''spec_6_2_expires_at_sane''; spec_ref = ''SPEC 6.2'';
          title = ''expires_at is a future unix-seconds timestamp within 24h'';
          signer = ed25519_did_key E K key
      in case fetch_challenge E W t (signer_did signer) s of
           (Inl e, s1) \<Rightarrow> (case_fail i spec_ref title (''request failed: '' @ login_error_display E e), s1)
         | (Inr response, s1) \<Rightarrow>
             (expires_at_verdict (case_pass i spec_ref title) (case_fail i spec_ref title) now response, s1))"

section \<open>The session response\<close>

definition session_shape_verdict ::
  "('x, 'z) harness_crates_scheme \<Rightarrow> (string \<Rightarrow> case_result) \<Rightarrow> (string \<Rightarrow> case_result) \<Rightarrow> string \<Rightarrow> u64 \<Rightarrow> http_response \<Rightarrow>
   case_result" where
  "session_shape_verdict E pass fail did now response =
     verdict_of (
       rbind (require (is_success response)
         (fail (''expected a 2xx from a valid login, got '' @ status_display E (hr_status response) @ '': '' @
            excerpt response))) (\<lambda>_.
       rbind (ok_or (hr_json response) (fail (''session response was not JSON: '' @ excerpt response))) (\<lambda>body.
       rbind (ok_or (get_str ''did'' body) (fail ''`did` field missing or not a string'')) (\<lambda>other.
       rbind (require (other = did)
         (fail (''`did` is '' @ debug_str E other @ '', expected the login DID '' @ debug_str E did))) (\<lambda>_.
       rbind (ok_or (get_str ''token'' body) (fail ''`token` field missing or not a string'')) (\<lambda>token.
       rbind (require (lower_hex_64 token)
         (fail (''`token` must be exactly 64 lowercase hex chars with no 0x prefix, got '' @ debug_str E token @ '' ('' @
            show_nat (utf8_len token) @ '' chars)''))) (\<lambda>_.
       rbind (ok_or (Option.bind (json_get ''valid_until'' body) json_as_u64)
         (fail ''`valid_until` field missing or not an unsigned integer'')) (\<lambda>valid_until.
       rbind (ok_or (Option.bind (json_get ''created_at'' body) json_as_u64)
         (fail ''`created_at` field missing or not an unsigned integer'')) (\<lambda>created_at.
       rbind (require (\<not> valid_until \<le> now)
         (fail (''`valid_until` ('' @ show_u64 valid_until @ '') is not strictly in the future (now is '' @ show_u64 now @ '')''))) (\<lambda>_.
       rbind (require (\<not> valid_until < created_at)
         (fail (''`created_at` ('' @ show_u64 created_at @ '') is after `valid_until` ('' @ show_u64 valid_until @ '')''))) (\<lambda>_.
         Inr (pass ''''))))))))))))"

definition spec_6_4_session_response_shape ::
  "('x, 'z) harness_crates_scheme \<Rightarrow> ('k, 'y) key_store_scheme \<Rightarrow> 's reqwest \<Rightarrow> target \<Rightarrow> 'k \<Rightarrow> u64 \<Rightarrow> 's \<Rightarrow> case_result \<times> 's" where
  "spec_6_4_session_response_shape E K W t key now s =
     (let i = ''spec_6_4_session_response_shape''; spec_ref = ''SPEC 6.4'';
          title = ''session response carries did, token, valid_until, created_at'';
          fail = case_fail i spec_ref title; signer = ed25519_did_key E K key
      in case login E W t signer s of
           (Inl e, s1) \<Rightarrow> (fail (''the happy-path login did not complete: '' @ login_error_display E e), s1)
         | (Inr flow, s1) \<Rightarrow>
             (session_shape_verdict E (case_pass i spec_ref title) fail (signer_did signer) now (lf_session_response flow), s1))"

definition unrecognised_field :: string where
  "unrecognised_field = ''an_unrecognised_field_the_spec_never_defined''"

definition spec_8_unknown_request_fields_ignored ::
  "('x, 'z) harness_crates_scheme \<Rightarrow> ('k, 'y) key_store_scheme \<Rightarrow> 's reqwest \<Rightarrow> target \<Rightarrow> 'k \<Rightarrow> 's \<Rightarrow> case_result \<times> 's" where
  "spec_8_unknown_request_fields_ignored E K W t key s =
     (let i = ''spec_8_unknown_request_fields_ignored''; spec_ref = ''SPEC 8'';
          title = ''an unrecognised top-level field on the session request is ignored'';
          fail = case_fail i spec_ref title; signer = ed25519_did_key E K key
      in case fetch_challenge E W t (signer_did signer) s of
           (Inl e, s1) \<Rightarrow> (fail (''challenge setup failed: '' @ login_error_display E e), s1)
         | (Inr challenge, s1) \<Rightarrow>
             (case sign_challenge E challenge signer of
                Inl e \<Rightarrow> (fail (''could not build a valid session request to mutate: '' @ login_error_display E e), s1)
              | Inr body \<Rightarrow>
                  if \<not> json_is_object body then
                    (fail (''the session request this suite builds was not a JSON object, which is a bug in this '' @
                       ''harness, not the target''), s1)
                  else
                    (case post_session E W t (json_set unrecognised_field (JString ''conformance-probe'') body) s1 of
                       (Inl e, s2) \<Rightarrow> (fail (''request failed: '' @ login_error_display E e), s2)
                     | (Inr response, s2) \<Rightarrow>
                         (if \<not> is_success response then
                            fail (''a request that is valid except for one added, unrecognised field was refused: '' @
                              status_and_excerpt E response)
                          else case_pass i spec_ref title '''', s2))))"

section \<open>All of them\<close>

text \<open>The cases in the order they run, each over the state its predecessor left, with one generated key each.\<close>

fun run_cases :: "('s \<Rightarrow> case_result \<times> 's) list \<Rightarrow> 's \<Rightarrow> report \<times> 's" where
  "run_cases [] s = ([], s)"
| "run_cases (f # fs) s = (case f s of (c, s1) \<Rightarrow> (case run_cases fs s1 of (cs, s2) \<Rightarrow> (c # cs, s2)))"

definition wire_cases ::
  "('x, 'z) harness_crates_scheme \<Rightarrow> ('k, 'y) key_store_scheme \<Rightarrow> 's reqwest \<Rightarrow> target \<Rightarrow> (nat \<Rightarrow> 'k) \<Rightarrow> (nat \<Rightarrow> u64) \<Rightarrow>
   ('s \<Rightarrow> case_result \<times> 's) list" where
  "wire_cases E K W t keys clock =
     [spec_6_2_required_fields E K W t (keys 0), spec_6_2_did_field E K W t (keys 1),
      spec_6_2_nonce_format E K W t (keys 2), spec_6_2_message_structure E K W t (keys 3),
      spec_6_2_expires_at_sane E K W t (keys 4) (clock 0), spec_6_4_session_response_shape E K W t (keys 5) (clock 1),
      spec_8_unknown_request_fields_ignored E K W t (keys 6)]"

end
