(* ===== verification/Cases_Nonce_Did.thy ===== *)
theory Cases_Nonce_Did
  imports Cases_Wire
begin

text \<open>
  The cases on nonces and DIDs (conformance/cases\_nonce\_and\_did.rs): SPEC 7 rules 1, 3, 4 and 5.
  Random bytes are arguments of the length the source asks for.
\<close>

definition extract_token :: "http_response \<Rightarrow> string option" where
  "extract_token response = json_field_str response ''token''"

definition session_accepted :: "http_response \<Rightarrow> bool" where
  "session_accepted response =
     (is_success response \<and> (case extract_token response of Some token \<Rightarrow> token \<noteq> [] | None \<Rightarrow> False))"

definition refused_at_either_endpoint ::
  "('x, 'z) harness_crates_scheme \<Rightarrow> 's reqwest \<Rightarrow> target \<Rightarrow> string \<Rightarrow> bytes \<Rightarrow> 's \<Rightarrow> (string + string) \<times> 's" where
  "refused_at_either_endpoint E W t did random s =
     (case fetch_challenge E W t did s of
        (Inl e, s1) \<Rightarrow> (Inl (''challenge request itself failed: '' @ login_error_display E e), s1)
      | (Inr challenge, s1) \<Rightarrow>
          if \<not> is_success challenge then
            (Inr (''refused at challenge time: '' @ status_and_excerpt E challenge), s1)
          else
            (case json_field_str challenge ''nonce'' of
               None \<Rightarrow>
                 (Inl (''challenge returned '' @ status_display E (hr_status challenge) @
                    '' for this DID with no usable `nonce`, so the session-level check could not be attempted: '' @
                    excerpt challenge), s1)
             | Some nonce \<Rightarrow>
                 (case post_session E W t (session_body E did nonce random) s1 of
                    (Inl e, s2) \<Rightarrow> (Inl (''session request itself failed: '' @ login_error_display E e), s2)
                  | (Inr session_response, s2) \<Rightarrow>
                      (if session_accepted session_response then
                         Inl (''accepted at BOTH endpoints: challenge '' @ status_display E (hr_status challenge) @
                           '' then session '' @ status_and_excerpt E session_response)
                       else
                         Inr (''challenge accepted ('' @ status_display E (hr_status challenge) @
                           '') but session was refused: '' @ status_and_excerpt E session_response), s2))))"

definition spec_7_1_unknown_nonce_refused ::
  "('x, 'z) harness_crates_scheme \<Rightarrow> ('k, 'y) key_store_scheme \<Rightarrow> 's reqwest \<Rightarrow> target \<Rightarrow> 'k \<Rightarrow> bytes \<Rightarrow> 's \<Rightarrow>
   case_result \<times> 's" where
  "spec_7_1_unknown_nonce_refused E K W t key random32 s =
     (let i = ''spec_7_1_unknown_nonce_refused''; spec_ref = ''SPEC 7 rule 1'';
          title = ''a syntactically valid, never-issued nonce is refused'';
          fail = case_fail i spec_ref title; signer = ed25519_did_key E K key
      in case fetch_challenge E W t (signer_did signer) s of
           (Inl e, s1) \<Rightarrow> (fail (''challenge request failed: '' @ login_error_display E e), s1)
         | (Inr challenge, s1) \<Rightarrow>
             (case sign_challenge E challenge signer of
                Inl e \<Rightarrow> (fail (''could not build a session request to tamper with: '' @ login_error_display E e), s1)
              | Inr body \<Rightarrow>
                  if \<not> json_is_object body then
                    (fail (''the session request this harness built was not a JSON object, a bug in this harness, '' @
                       ''not the target''), s1)
                  else
                    (let unknown_nonce = wire_hex E random32 in
                     case post_session E W t (json_set ''nonce'' (JString unknown_nonce) body) s1 of
                       (Inl e, s2) \<Rightarrow> (fail (''session request failed: '' @ login_error_display E e), s2)
                     | (Inr response, s2) \<Rightarrow>
                         (if session_accepted response then
                            fail (''a nonce this server never issued ('' @ unknown_nonce @ '') was accepted: '' @
                              status_and_excerpt E response)
                          else case_pass i spec_ref title (''refused with '' @ status_and_excerpt E response), s2))))"

definition spec_7_3_nonce_single_use ::
  "('x, 'z) harness_crates_scheme \<Rightarrow> ('k, 'y) key_store_scheme \<Rightarrow> 's reqwest \<Rightarrow> target \<Rightarrow> 'k \<Rightarrow> 's \<Rightarrow> case_result \<times> 's" where
  "spec_7_3_nonce_single_use E K W t key s =
     (let i = ''spec_7_3_nonce_single_use''; spec_ref = ''SPEC 7 rule 3'';
          title = ''a spent nonce cannot mint a second session'';
          no_token = ''<accepted with no token, unexpected>'';
          signer = ed25519_did_key E K key
      in case login E W t signer s of
           (Inl e, s1) \<Rightarrow>
             (case_skip i spec_ref title
                (''the happy-path login did not even complete, so single-use could not be observed: '' @
                 login_error_display E e), s1)
         | (Inr flow, s1) \<Rightarrow>
             if \<not> session_accepted (lf_session_response flow) then
               (case_skip i spec_ref title
                  (''the happy-path login was not accepted ('' @ status_and_excerpt E (lf_session_response flow) @
                   ''), so single-use could not be observed; spec_6_4_session_response_shape already owns reporting '' @
                   ''on the happy path itself''), s1)
             else
               (let first_token = (case extract_token (lf_session_response flow) of Some x \<Rightarrow> x | None \<Rightarrow> no_token) in
                case post_session E W t (lf_session_request flow) s1 of
                  (Inl e, s2) \<Rightarrow>
                    (case_fail i spec_ref title (''replay request itself failed: '' @ login_error_display E e), s2)
                | (Inr replay, s2) \<Rightarrow>
                    (if session_accepted replay then
                       (let second_token = (case extract_token replay of Some x \<Rightarrow> x | None \<Rightarrow> no_token) in
                        case_fail i spec_ref title
                          (''the server minted a SECOND session from one already-spent challenge: first token '' @
                           debug_str E first_token @ '', replay token '' @ debug_str E second_token @ '' ('' @
                           status_and_excerpt E replay @ '')''))
                     else
                       case_pass i spec_ref title (''byte-identical replay refused with '' @ status_and_excerpt E replay), s2)))"

definition spec_7_4_unsupported_namespace_refused ::
  "('x, 'z) harness_crates_scheme \<Rightarrow> 's reqwest \<Rightarrow> target \<Rightarrow> bytes \<Rightarrow> bytes \<Rightarrow> 's \<Rightarrow> case_result \<times> 's" where
  "spec_7_4_unsupported_namespace_refused E W t random32 random64 s =
     (let i = ''spec_7_4_unsupported_namespace_refused''; spec_ref = ''SPEC 7 rule 4'';
          title = ''an unsupported DID namespace is refused at challenge or session'';
          did = ''did:pkh:solana:0x'' @ hex_encode E random32
      in case refused_at_either_endpoint E W t did random64 s of
           (Inr where_refused, s1) \<Rightarrow> (case_pass i spec_ref title where_refused, s1)
         | (Inl what_was_accepted, s1) \<Rightarrow> (case_fail i spec_ref title what_was_accepted, s1))"

section \<open>The table of malformed DIDs\<close>

text \<open>The seven shapes, over six draws of 31, 33, 32, 32, 32 and 19 bytes.\<close>

record did_draws =
  dd_31 :: bytes
  dd_33 :: bytes
  dd_no_0x :: bytes
  dd_non_hex :: bytes
  dd_p256 :: bytes
  dd_19 :: bytes

definition malformed_dids :: "('x, 'z) crates_scheme \<Rightarrow> did_draws \<Rightarrow> (string \<times> string) list" where
  "malformed_dids E d =
     [(''ed25519 did:pkh, 31-byte key (needs 32)'', ''did:pkh:ed25519:0x'' @ hex_encode E (dd_31 d)),
      (''ed25519 did:pkh, 33-byte key (needs 32)'', ''did:pkh:ed25519:0x'' @ hex_encode E (dd_33 d)),
      (''ed25519 did:pkh, missing 0x prefix'', ''did:pkh:ed25519:'' @ hex_encode E (dd_no_0x d)),
      (''ed25519 did:pkh, non-hex character present'',
       ''did:pkh:ed25519:0x'' @ (hex_encode E (dd_non_hex d))[0 := CHR ''z'']),
      (''p256 did:pkh, 32-byte key (needs 33, compressed point)'', ''did:pkh:p256:0x'' @ hex_encode E (dd_p256 d)),
      (''eip155 did:pkh, 19-byte address (needs 20)'', ''did:pkh:eip155:1:0x'' @ hex_encode E (dd_19 d)),
      (''did:key with a corrupted multibase body (0/O/I/l chars)'', ''did:key:z6Mk0OIl0000CORRUPTEDMULTIBASE0000'')]"

text \<open>The loop over the table: what was not refused, and where the others were.\<close>

fun refusal_loop ::
  "('x, 'z) harness_crates_scheme \<Rightarrow> 's reqwest \<Rightarrow> target \<Rightarrow> ((string \<times> string) \<times> bytes) list \<Rightarrow> 's \<Rightarrow>
   (string list \<times> (string \<times> string) list) \<times> 's" where
  "refusal_loop E W t [] s = (([], []), s)"
| "refusal_loop E W t (((label, did), random) # rows) s =
     (case refused_at_either_endpoint E W t did random s of
        (Inr where_refused, s1) \<Rightarrow>
          (case refusal_loop E W t rows s1 of
             ((violations, refusals), s2) \<Rightarrow> ((violations, (label, where_refused) # refusals), s2))
      | (Inl what_was_accepted, s1) \<Rightarrow>
          (case refusal_loop E W t rows s1 of
             ((violations, refusals), s2) \<Rightarrow>
               (((label @ '' ('' @ debug_str E did @ ''): '' @ what_was_accepted) # violations, refusals), s2)))"

fun join_semi :: "string list \<Rightarrow> string" where
  "join_semi [] = []"
| "join_semi [x] = x"
| "join_semi (x # y # xs) = x @ ''; '' @ join_semi (y # xs)"

definition spec_7_5_did_well_formed ::
  "('x, 'z) harness_crates_scheme \<Rightarrow> 's reqwest \<Rightarrow> target \<Rightarrow> did_draws \<Rightarrow> (nat \<Rightarrow> bytes) \<Rightarrow> 's \<Rightarrow> case_result \<times> 's" where
  "spec_7_5_did_well_formed E W t draws random64 s =
     (let i = ''spec_7_5_did_well_formed''; spec_ref = ''SPEC 7 rule 5, SPEC 3'';
          title = ''malformed DIDs are refused at challenge or session'';
          table = malformed_dids E draws
      in case refusal_loop E W t (zip table (map random64 [0..<length table])) s of
           ((violations, refusals), s1) \<Rightarrow>
             (if violations = [] then
                (let at_challenge = length (filter (\<lambda>(_, w). starts_with ''refused at challenge time'' w) refusals);
                     at_session = length refusals - at_challenge;
                     per_shape = join_semi (map (\<lambda>(label, w). label @ '': '' @ w) refusals)
                 in case_pass i spec_ref title
                      (''all '' @ show_nat (length table) @ '' malformed DID shapes were refused ('' @ show_nat at_challenge @
                       '' at challenge, '' @ show_nat at_session @ '' at session): '' @ per_shape))
              else
                case_fail i spec_ref title
                  (show_nat (length violations) @ '' of '' @ show_nat (length table) @
                   '' malformed DID shapes were not refused: '' @ join_semi violations), s1))"

section \<open>The valid spellings\<close>

definition valid_spellings ::
  "('x, 'z) crates_scheme \<Rightarrow> ('k, 'x, 'y) test_keys_scheme \<Rightarrow> (nat \<Rightarrow> 'k) \<Rightarrow> (string \<times> signer) list" where
  "valid_spellings E K keys =
     [(''ed25519 did:key'', ed25519_did_key E K (keys 0)), (''ed25519 did:pkh'', ed25519_did_pkh E K (keys 1)),
      (''p256 did:key'', p256_did_key E K (keys 2)), (''p256 did:pkh'', p256_did_pkh E K (keys 3)),
      (''eip155 did:pkh'', eip155_local E K (keys 4))]"

fun acceptance_loop ::
  "('x, 'z) harness_crates_scheme \<Rightarrow> 's reqwest \<Rightarrow> target \<Rightarrow> (string \<times> signer) list \<Rightarrow> 's \<Rightarrow> string list \<times> 's" where
  "acceptance_loop E W t [] s = ([], s)"
| "acceptance_loop E W t ((label, signer) # rows) s =
     (case fetch_challenge E W t (signer_did signer) s of
        (r, s1) \<Rightarrow>
          (case acceptance_loop E W t rows s1 of
             (failures, s2) \<Rightarrow>
               (case r of
                  Inr response \<Rightarrow>
                    if is_success response then (failures, s2)
                    else ((label @ '' ('' @ signer_did signer @ '') was refused: '' @ status_and_excerpt E response) # failures, s2)
                | Inl e \<Rightarrow>
                    ((label @ '' ('' @ signer_did signer @ '') request failed: '' @ login_error_display E e) # failures, s2))))"

definition spec_7_5_valid_did_spellings_accepted ::
  "('x, 'z) harness_crates_scheme \<Rightarrow> ('k, 'x, 'y) test_keys_scheme \<Rightarrow> 's reqwest \<Rightarrow> target \<Rightarrow> (nat \<Rightarrow> 'k) \<Rightarrow> 's \<Rightarrow>
   case_result \<times> 's" where
  "spec_7_5_valid_did_spellings_accepted E K W t keys s =
     (let i = ''spec_7_5_valid_did_spellings_accepted''; spec_ref = ''SPEC 7 rule 5, SPEC 3'';
          title = ''every SPEC 3 valid DID spelling is accepted at the challenge endpoint'';
          entries = valid_spellings E K keys
      in case acceptance_loop E W t entries s of
           (failures, s1) \<Rightarrow>
             (if failures = [] then
                case_pass i spec_ref title
                  (''all '' @ show_nat (length entries) @ '' valid spellings accepted (did:aqua excluded, feature-gated per SPEC 3)'')
              else
                case_fail i spec_ref title
                  (show_nat (length failures) @ '' of '' @ show_nat (length entries) @
                   '' valid spellings were wrongly refused: '' @ join_semi failures), s1))"

text \<open>What the cases of the module draw.\<close>

record 'k nonce_draws =
  nd_keys :: "nat \<Rightarrow> 'k"
  nd_spelling_keys :: "nat \<Rightarrow> 'k"
  nd_unknown_nonce :: bytes
  nd_solana :: bytes
  nd_solana_signature :: bytes
  nd_dids :: did_draws
  nd_did_signatures :: "nat \<Rightarrow> bytes"

definition nonce_and_did_cases ::
  "('x, 'z) harness_crates_scheme \<Rightarrow> ('k, 'x, 'y) test_keys_scheme \<Rightarrow> 's reqwest \<Rightarrow> target \<Rightarrow> 'k nonce_draws \<Rightarrow>
   ('s \<Rightarrow> case_result \<times> 's) list" where
  "nonce_and_did_cases E K W t d =
     [spec_7_1_unknown_nonce_refused E K W t (nd_keys d 0) (nd_unknown_nonce d),
      spec_7_3_nonce_single_use E K W t (nd_keys d 1),
      spec_7_4_unsupported_namespace_refused E W t (nd_solana d) (nd_solana_signature d),
      spec_7_5_did_well_formed E W t (nd_dids d) (nd_did_signatures d),
      spec_7_5_valid_did_spellings_accepted E K W t (nd_spelling_keys d)]"

end
