(* ===== verification/Cases_Signature.thy ===== *)
theory Cases_Signature
  imports Cases_Nonce_Did
begin

unbundle bit_operations_syntax

text \<open>
  The cases on signatures (conformance/cases\_signature.rs): SPEC 7 rules 2, 6 and 7, the origin of
  the message's URI and the binding of a \<open>did:aqua\<close> key; and the run of the whole suite.
\<close>

definition EXPIRY_WAIT_ENV :: string where
  "EXPIRY_WAIT_ENV = ''AQUA_CONFORMANCE_EXPIRY_WAIT''"

definition MAX_EXPIRY_WAIT :: u64 where
  "MAX_EXPIRY_WAIT = 600"

definition accepted :: "http_response \<Rightarrow> bool" where
  "accepted response =
     (is_success response \<and> (case json_field_str response ''token'' of Some t \<Rightarrow> t \<noteq> [] | None \<Rightarrow> False))"

definition message_and_nonce ::
  "('x, 'z) harness_crates_scheme \<Rightarrow> http_response \<Rightarrow> string + string \<times> string" where
  "message_and_nonce E response =
     rbind (require (is_success response) (unexpected_status E response)) (\<lambda>_.
     rbind (ok_or (hr_json response) (''challenge response was not JSON: '' @ excerpt response)) (\<lambda>body.
     rbind (ok_or (get_str ''message'' body)
       (''challenge response had no string `message` field: '' @ excerpt response)) (\<lambda>message.
     rbind (ok_or (get_str ''nonce'' body)
       (''challenge response had no string `nonce` field: '' @ excerpt response)) (\<lambda>nonce.
       Inr (message, nonce)))))"

section \<open>Corrupted signatures\<close>

definition decode_hex_body :: "('x, 'z) crates_scheme \<Rightarrow> string \<Rightarrow> bytes" where
  "decode_hex_body E signature =
     (case hex_decode E (case strip_prefix ''0x'' signature of Some r \<Rightarrow> r | None \<Rightarrow> signature) of
        Inr b \<Rightarrow> b | Inl _ \<Rightarrow> [])"

definition flip_one_bit :: "('x, 'z) crates_scheme \<Rightarrow> string \<Rightarrow> string" where
  "flip_one_bit E signature =
     wire_hex E (case decode_hex_body E signature of [] \<Rightarrow> [] | b # bs \<Rightarrow> (b XOR 1) # bs)"

definition truncate_by_one_byte :: "('x, 'z) crates_scheme \<Rightarrow> string \<Rightarrow> string" where
  "truncate_by_one_byte E signature =
     (let b = decode_hex_body E signature in wire_hex E (take (length b - 1) b))"

definition append_one_byte :: "('x, 'z) crates_scheme \<Rightarrow> string \<Rightarrow> string" where
  "append_one_byte E signature = wire_hex E (decode_hex_body E signature @ [0xAA])"

definition zero_of_same_length :: "('x, 'z) crates_scheme \<Rightarrow> string \<Rightarrow> string" where
  "zero_of_same_length E signature = wire_hex E (replicate (length (decode_hex_body E signature)) 0)"

definition non_hex_garbage :: "string \<Rightarrow> string" where
  "non_hex_garbage signature = ''0xthis-is-not-hex-at-all''"

definition SIGNATURE_CORRUPTIONS :: "('x, 'z) crates_scheme \<Rightarrow> (string \<times> (string \<Rightarrow> string)) list" where
  "SIGNATURE_CORRUPTIONS E =
     [(''flipped one bit of the signature'', flip_one_bit E),
      (''truncated the signature by one byte'', truncate_by_one_byte E),
      (''appended one extra byte to the signature'', append_one_byte E),
      (''replaced the signature with all zero bytes of the correct length'', zero_of_same_length E),
      (''replaced the signature with a non-hex string'', non_hex_garbage)]"

text \<open>One row: a problem, or none.\<close>

definition corruption_row ::
  "('x, 'z) harness_crates_scheme \<Rightarrow> 's reqwest \<Rightarrow> target \<Rightarrow> signer \<Rightarrow> string \<Rightarrow> (string \<Rightarrow> string) \<Rightarrow> 's \<Rightarrow>
   string option \<times> 's" where
  "corruption_row E W t signer label corrupt s =
     (case fetch_challenge E W t (signer_did signer) s of
        (Inl e, s1) \<Rightarrow> (Some (label @ '': could not fetch a fresh challenge: '' @ login_error_display E e), s1)
      | (Inr challenge, s1) \<Rightarrow>
          (case sign_challenge E challenge signer of
             Inl e \<Rightarrow>
               (Some (label @ '': could not build a valid session request to corrupt: '' @ login_error_display E e), s1)
           | Inr body \<Rightarrow>
               (case get_str ''signature'' body of
                  None \<Rightarrow>
                    (Some (label @ '': the harness'' @ apostrophe_s @ '' own signed body had no `signature` field, this is a '' @
                       ''harness bug''), s1)
                | Some original_signature \<Rightarrow>
                    (let corrupted = corrupt original_signature in
                     case post_session E W t (json_set ''signature'' (JString corrupted) body) s1 of
                       (Inl e, s2) \<Rightarrow> (Some (label @ '': request failed: '' @ login_error_display E e), s2)
                     | (Inr response, s2) \<Rightarrow>
                         (if accepted response then
                            Some (label @ '': WRONGLY ACCEPTED (sent signature '' @ debug_str E corrupted @ '', got '' @
                              status_display E (hr_status response) @ '' with a token)'')
                          else None, s2)))))"

fun corruption_loop ::
  "('x, 'z) harness_crates_scheme \<Rightarrow> ('k, 'y) key_store_scheme \<Rightarrow> 's reqwest \<Rightarrow> target \<Rightarrow>
   ((string \<times> (string \<Rightarrow> string)) \<times> 'k) list \<Rightarrow> 's \<Rightarrow> string list \<times> 's" where
  "corruption_loop E K W t [] s = ([], s)"
| "corruption_loop E K W t (((label, corrupt), key) # rows) s =
     (case corruption_row E W t (ed25519_did_key E K key) label corrupt s of
        (problem, s1) \<Rightarrow>
          (case corruption_loop E K W t rows s1 of
             (problems, s2) \<Rightarrow> ((case problem of Some p \<Rightarrow> p # problems | None \<Rightarrow> problems), s2)))"

definition spec_7_6_signature_invalid_refused ::
  "('x, 'z) harness_crates_scheme \<Rightarrow> ('k, 'y) key_store_scheme \<Rightarrow> 's reqwest \<Rightarrow> target \<Rightarrow> (nat \<Rightarrow> 'k) \<Rightarrow> 's \<Rightarrow>
   case_result \<times> 's" where
  "spec_7_6_signature_invalid_refused E K W t keys s =
     (let i = ''spec_7_6_signature_invalid_refused''; spec_ref = ''SPEC 7 rule 6'';
          title = ''a corrupted signature is refused''; table = SIGNATURE_CORRUPTIONS E
      in case corruption_loop E K W t (zip table (map keys [0..<length table])) s of
           (problems, s1) \<Rightarrow>
             (if problems = [] then
                case_pass i spec_ref title
                  (''all '' @ show_nat (length table) @ '' corruptions were rejected, each against its own fresh challenge'')
              else case_fail i spec_ref title (join_semi problems), s1))"

definition spec_7_6_wrong_key_refused ::
  "('x, 'z) harness_crates_scheme \<Rightarrow> ('k, 'y) key_store_scheme \<Rightarrow> 's reqwest \<Rightarrow> target \<Rightarrow> 'k \<Rightarrow> 'k \<Rightarrow> 's \<Rightarrow> case_result \<times> 's" where
  "spec_7_6_wrong_key_refused E K W t key_a key_b s =
     (let i = ''spec_7_6_wrong_key_refused''; spec_ref = ''SPEC 7 rule 6'';
          title = ''a valid signature from a different key than the claimed did is refused'';
          fail = case_fail i spec_ref title; signer_a = ed25519_did_key E K key_a; signer_b = ed25519_did_key E K key_b
      in case fetch_challenge E W t (signer_did signer_a) s of
           (Inl e, s1) \<Rightarrow> (fail (''could not fetch a challenge for signer A: '' @ login_error_display E e), s1)
         | (Inr challenge, s1) \<Rightarrow>
             (case message_and_nonce E challenge of
                Inl reason \<Rightarrow> (fail (''A'' @ apostrophe_s @ '' challenge '' @ reason), s1)
              | Inr (message, nonce) \<Rightarrow>
                  (case signer_sign signer_b message of
                     Inl e \<Rightarrow>
                       (fail (''signer B failed to sign A'' @ apostrophe_s @ '' message: '' @ sign_error_display e), s1)
                   | Inr signature_b \<Rightarrow>
                       (case post_session E W t (session_body E (signer_did signer_a) nonce signature_b) s1 of
                          (Inl e, s2) \<Rightarrow> (fail (''request failed: '' @ login_error_display E e), s2)
                        | (Inr response, s2) \<Rightarrow>
                            (if accepted response then
                               fail (''the server logged in as '' @ signer_did signer_a @
                                 '' using a well-formed signature made by an unrelated key B over A'' @ apostrophe_s @
                                 '' own message; got '' @ status_display E (hr_status response) @
                                 '' with a token. Anyone who can produce any valid signature could log in as anyone else'')
                             else
                               case_pass i spec_ref title
                                 (''rejected with '' @ status_display E (hr_status response) @ '': '' @ excerpt response), s2)))))"

section \<open>Message binding\<close>

text \<open>One direction of the cross submission: what went wrong, if anything.\<close>

definition cross_submission ::
  "('x, 'z) harness_crates_scheme \<Rightarrow> 's reqwest \<Rightarrow> target \<Rightarrow> signer \<Rightarrow> string \<Rightarrow> string \<Rightarrow> (http_response \<Rightarrow> string) \<Rightarrow>
   string \<Rightarrow> string \<Rightarrow> 's \<Rightarrow> string list \<times> 's" where
  "cross_submission E W t signer message nonce was_accepted direction not_signed s =
     (case signer_sign signer message of
        Inl e \<Rightarrow> ([not_signed @ sign_error_display e], s)
      | Inr signature \<Rightarrow>
          (case post_session E W t (session_body E (signer_did signer) nonce signature) s of
             (Inl e, s1) \<Rightarrow> ([direction @ login_error_display E e], s1)
           | (Inr response, s1) \<Rightarrow> (if accepted response then [was_accepted response] else [], s1)))"

definition spec_7_7_message_binding ::
  "('x, 'z) harness_crates_scheme \<Rightarrow> ('k, 'y) key_store_scheme \<Rightarrow> 's reqwest \<Rightarrow> target \<Rightarrow> 'k \<Rightarrow> 's \<Rightarrow> case_result \<times> 's" where
  "spec_7_7_message_binding E K W t key s =
     (let i = ''spec_7_7_message_binding''; spec_ref = ''SPEC 7 rule 7'';
          title = ''a signature is checked against the message stored under its own nonce, not the DID'' @ apostrophe_s @
                  '' most recent challenge'';
          fail = case_fail i spec_ref title; signer = ed25519_did_key E K key; did = signer_did signer
      in case fetch_challenge E W t did s of
           (Inl e, s1) \<Rightarrow> (fail (''could not fetch challenge A: '' @ login_error_display E e), s1)
         | (Inr challenge_a, s1) \<Rightarrow>
             (case fetch_challenge E W t did s1 of
                (Inl e, s2) \<Rightarrow> (fail (''could not fetch challenge B: '' @ login_error_display E e), s2)
              | (Inr challenge_b, s2) \<Rightarrow>
                  (case message_and_nonce E challenge_a of
                     Inl reason \<Rightarrow> (fail (''challenge A '' @ reason), s2)
                   | Inr (message_a, nonce_a) \<Rightarrow>
                       (case message_and_nonce E challenge_b of
                          Inl reason \<Rightarrow> (fail (''challenge B '' @ reason), s2)
                        | Inr (message_b, nonce_b) \<Rightarrow>
                            if message_a = message_b \<or> nonce_a = nonce_b then
                              (fail (''two separate GET /auth/challenge calls for the same DID returned identical '' @
                                 ''message/nonce (nonce '' @ debug_str E nonce_a @ '' both times); the server is not minting '' @
                                 ''a fresh challenge per request, so this rule 7 probe cannot be exercised meaningfully and '' @
                                 ''the identical-challenge behaviour is itself a bug''), s2)
                            else
                              (case cross_submission E W t signer message_b nonce_a
                                      (\<lambda>r. ''nonce=A with a signature over message B was accepted ('' @
                                           status_display E (hr_status r) @ '' with a token); a by-DID lookup would '' @
                                           ''retrieve the more recent challenge B and wrongly match'')
                                      ''direction nonce=A/message=B: request failed: '' ''could not sign message B: '' s2 of
                                 (wrongly1, s3) \<Rightarrow>
                                   (case cross_submission E W t signer message_a nonce_b
                                           (\<lambda>r. ''nonce=B with a signature over message A was accepted ('' @
                                                status_display E (hr_status r) @ '' with a token)'')
                                           ''direction nonce=B/message=A: request failed: '' ''could not sign message A: '' s3 of
                                      (wrongly2, s4) \<Rightarrow>
                                        (if wrongly1 @ wrongly2 = [] then
                                           case_pass i spec_ref title
                                             (''both cross-challenge submissions (nonce=A/message=B and nonce=B/message=A) '' @
                                              ''were rejected'')
                                         else fail (join_semi (wrongly1 @ wrongly2)), s4)))))))"

section \<open>Expiry\<close>

definition spec_7_2_challenge_expiry ::
  "('x, 'z) harness_crates_scheme \<Rightarrow> ('k, 'y) key_store_scheme \<Rightarrow> 's reqwest \<Rightarrow> (string \<Rightarrow> string option) \<Rightarrow> target \<Rightarrow> 'k \<Rightarrow>
   u64 \<Rightarrow> 's \<Rightarrow> case_result \<times> 's" where
  "spec_7_2_challenge_expiry E K W env t key fetched_at s =
     (let i = ''spec_7_2_challenge_expiry''; spec_ref = ''SPEC 7 rule 2'';
          title = ''a session request signed after the challenge'' @ apostrophe_s @ '' expires_at is refused'';
          fail = case_fail i spec_ref title; signer = ed25519_did_key E K key
      in case fetch_challenge E W t (signer_did signer) s of
           (Inl e, s1) \<Rightarrow> (fail (''request failed: '' @ login_error_display E e), s1)
         | (Inr challenge, s1) \<Rightarrow>
             if \<not> is_success challenge then (fail (unexpected_status E challenge), s1)
             else
               (case json_field_u64 challenge ''expires_at'' of
                  None \<Rightarrow> (fail (''no unsigned-integer `expires_at` field in the response: '' @ excerpt challenge), s1)
                | Some expires_at \<Rightarrow>
                    if expires_at \<le> fetched_at then
                      (fail (''expires_at ('' @ show_u64 expires_at @ '') is already at or before the moment the challenge was '' @
                         ''fetched (now '' @ show_u64 fetched_at @ ''); the server minted a pre-expired challenge''), s1)
                    else
                      (let observed_ttl_secs = expires_at - fetched_at in
                       if env EXPIRY_WAIT_ENV \<noteq> Some ''1'' then
                         (case_skip i spec_ref title
                            (''observed TTL is '' @ show_u64 observed_ttl_secs @ ''s (expires_at '' @ show_u64 expires_at @
                             '', fetched at '' @ show_u64 fetched_at @ ''); a black-box client cannot prove expiry is enforced '' @
                             ''without waiting out the TTL, so this is not exercised by default. Set '' @ EXPIRY_WAIT_ENV @
                             ''=1 to actually wait and submit past expiry''), s1)
                       else if MAX_EXPIRY_WAIT < observed_ttl_secs then
                         (case_skip i spec_ref title
                            (''TTL is '' @ show_u64 observed_ttl_secs @ ''s, more than the '' @ show_u64 MAX_EXPIRY_WAIT @
                             ''s this case is willing to wait; refusing to block the run for an impractically long TTL''), s1)
                       else
                         (case sign_challenge E challenge signer of
                            Inl e \<Rightarrow>
                              (fail (''could not sign the challenge before waiting out its TTL: '' @ login_error_display E e), s1)
                          | Inr body \<Rightarrow>
                              (case post_session E W t body (rq_sleep W (min (unat observed_ttl_secs + 1) (2 ^ 64 - 1)) s1) of
                                 (Inl e, s2) \<Rightarrow> (fail (''request failed after waiting out the TTL: '' @ login_error_display E e), s2)
                               | (Inr response, s2) \<Rightarrow>
                                   (if accepted response then
                                      fail (''a session request signed against a challenge '' @ show_u64 observed_ttl_secs @
                                        ''s past its stated expires_at ('' @ show_u64 expires_at @ '') was accepted: '' @
                                        status_display E (hr_status response) @ '' with a token'')
                                    else
                                      case_pass i spec_ref title
                                        (''rejected '' @ show_u64 observed_ttl_secs @ ''s past expiry with '' @
                                         status_display E (hr_status response) @ '': '' @ excerpt response), s2))))))"

section \<open>The origin of the message's URI\<close>

text \<open>\<open>str::lines\<close>, which drops a carriage return before a line feed and an empty last line.\<close>

definition str_lines :: "string \<Rightarrow> string list" where
  "str_lines s =
     (let ps = split_on LF s in
      map (\<lambda>l. case strip_suffix [CR] l of Some r \<Rightarrow> r | None \<Rightarrow> l) (butlast ps) @
      (if last ps = [] then [] else [last ps]))"

text \<open>\<open>trim_start_matches\<close> on a string: every leading occurrence.\<close>

function trim_start_str :: "string \<Rightarrow> string \<Rightarrow> string" where
  "trim_start_str p s =
     (if p = [] then s else (case strip_prefix p s of Some r \<Rightarrow> trim_start_str p r | None \<Rightarrow> s))"
  by pat_completeness auto
termination
  by (relation "measure (\<lambda>(p, s). length s)") (auto simp: strip_prefix_Some)

declare trim_start_str.simps [simp del]

definition url_origin_text :: "parsed_url \<Rightarrow> string" where
  "url_origin_text u =
     pu_scheme u @ ''://'' @ (case pu_host_str u of Some h \<Rightarrow> h | None \<Rightarrow> ''<no host>'') @ '':'' @
     (case pu_port_or_known_default u of Some p \<Rightarrow> show_nat p | None \<Rightarrow> ''<unknown>'')"

definition same_origin :: "parsed_url \<Rightarrow> parsed_url \<Rightarrow> bool" where
  "same_origin a b =
     (pu_scheme a = pu_scheme b \<and> pu_host_str a = pu_host_str b \<and>
      pu_port_or_known_default a = pu_port_or_known_default b)"

definition uri_origin_verdict ::
  "('x, 'z) harness_crates_scheme \<Rightarrow> url_parser \<Rightarrow> (string \<Rightarrow> case_result) \<Rightarrow> (string \<Rightarrow> case_result) \<Rightarrow> target \<Rightarrow>
   http_response \<Rightarrow> case_result" where
  "uri_origin_verdict E U pass fail t challenge =
     verdict_of (
       rbind (require (is_success challenge) (fail (unexpected_status E challenge))) (\<lambda>_.
       rbind (ok_or (json_field_str challenge ''message'')
         (fail (''no string `message` field in the response: '' @ excerpt challenge))) (\<lambda>message.
       rbind (ok_or (find (starts_with ''URI: '') (str_lines message))
         (fail (''message has no '' @ squoted ''URI: '' @ '' line at all: '' @ debug_str E message))) (\<lambda>line.
       let uri_value = trim (trim_start_str ''URI: '' line) in
       rbind (ok_or (ok (U uri_value))
         (fail (''the message'' @ apostrophe_s @ '' URI: line '' @ debug_str E uri_value @ '' does not parse as a URL''))) (\<lambda>message_uri.
       rbind (ok_or (ok (U (tg_base_url t)))
         (fail (''the harness'' @ apostrophe_s @ '' own target base_url '' @ debug_str E (tg_base_url t) @
            '' does not parse as a URL, this is a harness bug''))) (\<lambda>dialled.
       rbind (require (same_origin message_uri dialled)
         (fail (''message'' @ apostrophe_s @ '' URI: line is '' @ debug_str E uri_value @ '' (origin '' @
            url_origin_text message_uri @ ''), the harness dialled '' @ debug_str E (tg_base_url t) @ '' (origin '' @
            url_origin_text dialled @ ''); a conformant client refuses to sign a challenge whose URI origin does not '' @
            ''match the origin it dialled''))) (\<lambda>_.
         Inr (pass ''''))))))))"

definition spec_6_2_uri_origin_matches_target ::
  "('x, 'z) harness_crates_scheme \<Rightarrow> ('k, 'y) key_store_scheme \<Rightarrow> 's reqwest \<Rightarrow> url_parser \<Rightarrow> target \<Rightarrow> 'k \<Rightarrow> 's \<Rightarrow>
   case_result \<times> 's" where
  "spec_6_2_uri_origin_matches_target E K W U t key s =
     (let i = ''spec_6_2_uri_origin_matches_target''; spec_ref = ''SPEC 6.2'';
          title = ''the message'' @ apostrophe_s @ '' URI: line has the same origin as the base URL dialled'';
          signer = ed25519_did_key E K key
      in case fetch_challenge E W t (signer_did signer) s of
           (Inl e, s1) \<Rightarrow> (case_fail i spec_ref title (''request failed: '' @ login_error_display E e), s1)
         | (Inr challenge, s1) \<Rightarrow>
             (uri_origin_verdict E U (case_pass i spec_ref title) (case_fail i spec_ref title) t challenge, s1))"

section \<open>The key of a did:aqua identity\<close>

definition spec_6_3_public_key_binding ::
  "('x, 'z) harness_crates_scheme \<Rightarrow> ('k, 'x, 'y) test_keys_scheme \<Rightarrow> 's reqwest \<Rightarrow> target \<Rightarrow> 'k \<Rightarrow> 'k \<Rightarrow> 's \<Rightarrow>
   case_result \<times> 's" where
  "spec_6_3_public_key_binding E K W t key_a key_b s =
     (let i = ''spec_6_3_public_key_binding''; spec_ref = ''SPEC 5.4 step 1, 6.3'';
          title = ''a did:aqua public_key is bound to the did before being trusted'';
          fail = case_fail i spec_ref title; signer_a = ml_dsa_87_local E K key_a; signer_b = ml_dsa_87_local E K key_b
      in case fetch_challenge E W t (signer_did signer_a) s of
           (Inl e, s1) \<Rightarrow>
             (case_skip i spec_ref title (''could not even ask for a did:aqua challenge: '' @ login_error_display E e), s1)
         | (Inr challenge, s1) \<Rightarrow>
             if \<not> is_success challenge then
               (case_skip i spec_ref title
                  (''GET challenge for a did:aqua DID was refused ('' @ status_display E (hr_status challenge) @ '': '' @
                   excerpt challenge @ ''); did:aqua is a feature-gated, optional namespace (SPEC section 3), so a server '' @
                   ''that does not implement it is a supported configuration, not a conformance failure''), s1)
             else
               (case sign_challenge E challenge signer_a of
                  Inl e \<Rightarrow> (fail (''signer A could not sign its own challenge: '' @ login_error_display E e), s1)
                | Inr body \<Rightarrow>
                    (case signer_public_key signer_b of
                       None \<Rightarrow>
                         (fail (''the harness'' @ apostrophe_s @ '' own did:aqua signer B returned no public_key, this is a '' @
                            ''harness bug''), s1)
                     | Some public_key_b \<Rightarrow>
                         (case post_session E W t (json_set ''public_key'' (JString (wire_hex E public_key_b)) body) s1 of
                            (Inl e, s2) \<Rightarrow> (fail (''request failed: '' @ login_error_display E e), s2)
                          | (Inr response, s2) \<Rightarrow>
                              (if accepted response then
                                 fail (''the server accepted a login as '' @ signer_did signer_a @
                                   '' with a genuine signature from A'' @ apostrophe_s @ '' own key, but with B'' @ apostrophe_s @
                                   '' public_key substituted into the request; got '' @ status_display E (hr_status response) @
                                   '' with a token. SPEC 5.4 step 1 requires binding public_key to did before trusting it'')
                               else
                                 case_pass i spec_ref title
                                   (''rejected with '' @ status_display E (hr_status response) @ '': '' @ excerpt response), s2)))))"

section \<open>The whole suite\<close>

record 'k signature_draws =
  sd_corruption_keys :: "nat \<Rightarrow> 'k"
  sd_keys :: "nat \<Rightarrow> 'k"
  sd_fetched_at :: u64

definition signature_cases ::
  "('x, 'z) harness_crates_scheme \<Rightarrow> ('k, 'x, 'y) test_keys_scheme \<Rightarrow> 's reqwest \<Rightarrow> url_parser \<Rightarrow>
   (string \<Rightarrow> string option) \<Rightarrow> target \<Rightarrow> 'k signature_draws \<Rightarrow> ('s \<Rightarrow> case_result \<times> 's) list" where
  "signature_cases E K W U env t d =
     [spec_7_6_signature_invalid_refused E K W t (sd_corruption_keys d),
      spec_7_6_wrong_key_refused E K W t (sd_keys d 0) (sd_keys d 1),
      spec_7_7_message_binding E K W t (sd_keys d 2),
      spec_7_2_challenge_expiry E K W env t (sd_keys d 3) (sd_fetched_at d),
      spec_6_2_uri_origin_matches_target E K W U t (sd_keys d 4),
      spec_6_3_public_key_binding E K W t (sd_keys d 5) (sd_keys d 6)]"

record 'k suite_draws =
  su_wire_keys :: "nat \<Rightarrow> 'k"
  su_wire_clock :: "nat \<Rightarrow> u64"
  su_nonce :: "'k nonce_draws"
  su_signature :: "'k signature_draws"

definition run_all ::
  "('x, 'z) harness_crates_scheme \<Rightarrow> ('k, 'x, 'y) test_keys_scheme \<Rightarrow> 's reqwest \<Rightarrow> url_parser \<Rightarrow>
   (string \<Rightarrow> string option) \<Rightarrow> target \<Rightarrow> 'k suite_draws \<Rightarrow> 's \<Rightarrow> report \<times> 's" where
  "run_all E K W U env t d s =
     (case run_cases (wire_cases E K W t (su_wire_keys d) (su_wire_clock d)) s of
        (cases1, s1) \<Rightarrow>
          (case run_cases (nonce_and_did_cases E K W t (su_nonce d)) s1 of
             (cases2, s2) \<Rightarrow>
               (case run_cases (signature_cases E K W U env t (su_signature d)) s2 of
                  (cases3, s3) \<Rightarrow> (cases1 @ cases2 @ cases3, s3))))"

lemma run_cases_append:
  "run_cases (fs @ gs) s =
     (case run_cases fs s of (a, s1) \<Rightarrow> (case run_cases gs s1 of (b, s2) \<Rightarrow> (a @ b, s2)))"
  by (induction fs arbitrary: s) (auto split: prod.splits)

lemma run_all_cases:
  "run_all E K W U env t d =
     run_cases (wire_cases E K W t (su_wire_keys d) (su_wire_clock d) @ nonce_and_did_cases E K W t (su_nonce d) @
       signature_cases E K W U env t (su_signature d))"
  by (auto simp: fun_eq_iff run_all_def run_cases_append split: prod.splits)

end
