(* ===== verification/Conformant.thy ===== *)
theory Conformant
  imports Cases_Signature Wire
begin

text \<open>
  What the suite asks of a server, as an interface: a server that keeps SPEC 6 and 7 over its
  pending challenges gets no failing verdict. The interface has an invariant with a budget of
  requests, the pending challenges by nonce, and the set of challenges that are or may still be
  pending, so that a probe is judged against those only.
\<close>

section \<open>The interface\<close>

text \<open>What a challenge to an Ed25519 \<open>did:key\<close> must look like, and a deployment whose text fits the template.\<close>

definition ed25519_text :: "string \<Rightarrow> string \<Rightarrow> string \<Rightarrow> challenge_envelope \<Rightarrow> bool" where
  "ed25519_text domain uri ident e \<longleftrightarrow>
     (\<exists>issued expires. env_message e = message_text domain ''Ed25519'' ident uri (env_nonce e) issued expires \<and>
        (\<forall>c \<in> set issued. graphic c) \<and> (\<forall>c \<in> set expires. graphic c))"

definition ed25519_first_line :: "string \<Rightarrow> string" where
  "ed25519_first_line domain = domain @ '' wants you to sign in with your Ed25519 account:''"

definition tidy :: "string \<Rightarrow> string \<Rightarrow> bool" where
  "tidy domain uri \<longleftrightarrow>
     LF \<notin> set domain \<and> (\<forall>c \<in> set uri. graphic c) \<and>
     \<not> starts_with ''Chain ID:'' (ed25519_first_line domain) \<and> \<not> starts_with ''URI: '' (ed25519_first_line domain)"

definition fresh_window :: "u64 set \<Rightarrow> u64 \<Rightarrow> bool" where
  "fresh_window clocks expires \<longleftrightarrow> (\<forall>now \<in> clocks. now < expires \<and> expires - now \<le> ONE_DAY_SECS)"

definition ed_request ::
  "('x, 'z) harness_crates_scheme \<Rightarrow> ('k, 'y) key_store_scheme \<Rightarrow> 'k \<Rightarrow> string \<Rightarrow> bytes \<Rightarrow> session_request" where
  "ed_request E K key nonce signature =
     \<lparr>sr_did = signer_did (ed25519_did_key E K key), sr_nonce = nonce, sr_signature = wire_hex E signature,
      sr_public_key = None\<rparr>"

locale caip122_server =
  fixes E :: "('x, 'z) harness_crates_scheme" and K :: "('k, 'x, 'y) test_keys_scheme"
    and W :: "'s reqwest" and t :: target
    and inv :: "nat \<Rightarrow> 's \<Rightarrow> bool"
    and pending :: "'s \<Rightarrow> string \<Rightarrow> (string \<times> string) option"
    and L :: "(string \<times> string \<times> string) set"
    and admits :: "string \<Rightarrow> bool"
    and proves :: "string \<Rightarrow> session_request \<Rightarrow> bool"
    and domain :: string and uri :: string and clocks :: "u64 set"
  assumes slack: "inv (Suc n) s \<Longrightarrow> inv n s"
    and config: "inv n s \<Longrightarrow> tidy domain uri \<and> hex_law E \<and> bs58_law E"
    and pending_in: "inv n s \<Longrightarrow> pending s nonce = Some (did, msg) \<Longrightarrow> (did, nonce, msg) \<in> L"
    and refuses: "inv (Suc n) s \<Longrightarrow> \<not> admits did \<Longrightarrow>
      \<exists>resp s'. fetch_challenge E W t did s = (Inr resp, s') \<and> \<not> is_success resp \<and> inv n s'"
    and issues: "inv (Suc n) s \<Longrightarrow> admits did \<Longrightarrow>
      \<exists>resp s' e. fetch_challenge E W t did s = (Inr resp, s') \<and> is_success resp \<and> inv n s' \<and>
        hr_json resp = Some (challenge_envelope_json e) \<and> is_well_formed_nonce (env_nonce e) \<and>
        fresh_window clocks (env_expires_at e) \<and>
        pending s (env_nonce e) = None \<and> pending s' (env_nonce e) = Some (did, env_message e) \<and>
        pending s' \<subseteq>\<^sub>m (pending s)(env_nonce e \<mapsto> (did, env_message e)) \<and>
        (\<forall>key. did = signer_did (ed25519_did_key E K key) \<longrightarrow> ed25519_text domain uri (drop 8 did) e)"
    and answers: "inv (Suc n) s \<Longrightarrow> json_plain body \<Longrightarrow> session_request_of_json body = Inr req \<Longrightarrow>
      \<exists>resp s'. post_session E W t body s = (Inr resp, s') \<and> inv n s' \<and>
        pending s' \<subseteq>\<^sub>m (pending s)(sr_nonce req := None) \<and>
        (accepted resp \<longrightarrow> (\<exists>msg. pending s (sr_nonce req) = Some (sr_did req, msg) \<and> proves msg req))"
    and opens: "inv (Suc n) s \<Longrightarrow> json_plain body \<Longrightarrow> session_request_of_json body = Inr req \<Longrightarrow>
      pending s (sr_nonce req) = Some (sr_did req, msg) \<Longrightarrow> proves msg req \<Longrightarrow>
      \<exists>resp s' r. post_session E W t body s = (Inr resp, s') \<and> is_success resp \<and>
        hr_json resp = Some (session_response_json r) \<and> resp_did r = sr_did req \<and> lower_hex_64 (resp_token r) \<and>
        (\<forall>now \<in> clocks. now < resp_valid_until r) \<and> resp_created_at r \<le> resp_valid_until r"
    and honest: "inv n s \<Longrightarrow> proves msg (ed_request E K key nonce (ed_sign K key (as_bytes msg)))"
    and spellings: "inv n s \<Longrightarrow> (label, signer) \<in> set (valid_spellings E K keys) \<Longrightarrow> admits (signer_did signer)"

section \<open>Verdicts\<close>

text \<open>A case that makes at most \<open>k\<close> requests and does not fail, from any state with the budget.\<close>

definition harmless :: "(nat \<Rightarrow> 's \<Rightarrow> bool) \<Rightarrow> nat \<Rightarrow> ('s \<Rightarrow> case_result \<times> 's) \<Rightarrow> bool" where
  "harmless I k f \<longleftrightarrow>
     (\<forall>n s. I (k + n) s \<longrightarrow> (\<exists>c s'. f s = (c, s') \<and> cr_outcome c \<noteq> Fail \<and> I n s'))"

lemma harmlessI:
  "(\<And>n s. I (k + n) s \<Longrightarrow> \<exists>c s'. f s = (c, s') \<and> cr_outcome c \<noteq> Fail \<and> I n s') \<Longrightarrow> harmless I k f"
  by (simp add: harmless_def)

lemma harmless1I:
  "(\<And>n s. I (Suc n) s \<Longrightarrow> \<exists>c s'. f s = (c, s') \<and> cr_outcome c \<noteq> Fail \<and> I n s') \<Longrightarrow> harmless I 1 f"
  by (simp add: harmless_def)

lemma harmless2I:
  "(\<And>n s. I (Suc (Suc n)) s \<Longrightarrow> \<exists>c s'. f s = (c, s') \<and> cr_outcome c \<noteq> Fail \<and> I n s') \<Longrightarrow> harmless I 2 f"
  by (simp add: harmless_def)

lemma run_cases_harmless:
  assumes "list_all2 (harmless I) ks fs" "I (sum_list ks + n) s"
  shows "\<exists>cs s'. run_cases fs s = (cs, s') \<and> report_passed cs \<and> I n s'"
  using assms
proof (induction ks fs arbitrary: s rule: list_all2_induct)
  case (Cons k ks f fs)
  have "I (k + (sum_list ks + n)) s" using Cons.prems by (simp add: add.assoc)
  with Cons.hyps(1) obtain c s1 where "f s = (c, s1)" "cr_outcome c \<noteq> Fail" "I (sum_list ks + n) s1"
    unfolding harmless_def by blast
  with Cons.IH [of s1] show ?case by auto
qed simp

section \<open>Plain values\<close>

lemma session_body_read:
  "session_request_of_json (session_body E did nonce sig) =
     Inr \<lparr>sr_did = did, sr_nonce = nonce, sr_signature = wire_hex E sig, sr_public_key = None\<rparr>"
  by (simp add: session_body_def repeated_member_def session_request_fields_def de_string_def de_option_string_def)

lemma session_body_plain [simp]: "json_plain (session_body E did nonce sig)"
  by (simp add: session_body_def)

lemma session_accepted_iff: "session_accepted r = accepted r"
  by (simp add: session_accepted_def accepted_def extract_token_def)

lemma envelope_fields:
  assumes "hr_json r = Some (challenge_envelope_json e)"
  shows "json_field_str r ''nonce'' = Some (env_nonce e)" "json_field_str r ''message'' = Some (env_message e)"
    "json_field_u64 r ''expires_at'' = Some (env_expires_at e)" "json_field_str r ''did'' = None"
  using assms by (simp_all add: json_field_str_def json_field_u64_def get_str_def json_get_literals)

lemma ed25519_did_key_fields:
  "signer_sign (ed25519_did_key E K key) msg = Inr (ed_sign K key (as_bytes msg))"
  "signer_public_key (ed25519_did_key E K key) = None"
  "\<exists>r. signer_did (ed25519_did_key E K key) = ''did:key:'' @ CHR ''z'' # r"
  by (simp_all add: ed25519_did_key_def ed25519_local_def Let_def)

section \<open>The message template\<close>

lemma graphic_not_CR: "\<forall>c \<in> set s. graphic c \<Longrightarrow> s \<noteq> [] \<Longrightarrow> last s \<noteq> CR"
  using last_in_set by fastforce

lemma hex_nonce_graphic: "is_well_formed_nonce n \<Longrightarrow> \<forall>c \<in> set n. graphic c"
  using is_hex_lower_graphic
  by (auto simp: is_well_formed_nonce_def lower_hex_64_def strip_prefix_Some list_all_iff split: option.splits)

lemma split_on_concat:
  "\<forall>l \<in> set (l0 # ls). c \<notin> set l \<Longrightarrow> split_on c (l0 @ concat (map ((#) c) ls)) = l0 # ls"
  by (induction ls arbitrary: l0) (simp_all add: split_on_append_free)

text \<open>The ten lines of an Ed25519 message, in a deployment that fits the template.\<close>

lemma split_message_text:
  assumes "\<forall>x \<in> {domain, ident, uri, nonce, issued, expires}. LF \<notin> set x"
  shows "split_on LF (message_text domain ''Ed25519'' ident uri nonce issued expires) =
    [ed25519_first_line domain, ident, '''', ''Sign in to Aqua Node'', '''',
     ''URI: '' @ uri, ''Version: 1'', ''Nonce: '' @ nonce, ''Issued At: '' @ issued, ''Expiration Time: '' @ expires]"
proof -
  let ?first = "ed25519_first_line domain"
  let ?rest = "[ident, [], ''Sign in to Aqua Node'', [], ''URI: '' @ uri, ''Version: 1'', ''Nonce: '' @ nonce,
     ''Issued At: '' @ issued, ''Expiration Time: '' @ expires]"
  have "message_text domain ''Ed25519'' ident uri nonce issued expires = ?first @ concat (map ((#) LF) ?rest)"
    by (simp add: message_text_def ed25519_first_line_def)
  moreover have "\<forall>l \<in> set (?first # ?rest). LF \<notin> set l" using assms by (simp add: ed25519_first_line_def)
  ultimately show ?thesis using split_on_concat [of ?first ?rest LF] by simp
qed

lemma ed25519_lines:
  assumes "tidy domain uri" "is_well_formed_nonce (env_nonce e)" "ed25519_text domain uri ident e" "\<forall>c \<in> set ident. graphic c"
  obtains issued expires where
    "split_on LF (env_message e) =
       [ed25519_first_line domain, ident, '''', ''Sign in to Aqua Node'', '''', ''URI: '' @ uri, ''Version: 1'',
        ''Nonce: '' @ env_nonce e, ''Issued At: '' @ issued, ''Expiration Time: '' @ expires]"
    "message_lines (env_message e) = split_on LF (env_message e)"
    "str_lines (env_message e) = split_on LF (env_message e)"
proof -
  obtain issued expires where m: "env_message e = message_text domain ''Ed25519'' ident uri (env_nonce e) issued expires"
    "\<forall>c \<in> set issued. graphic c" "\<forall>c \<in> set expires. graphic c" using assms(3) unfolding ed25519_text_def by blast
  note g = hex_nonce_graphic [OF assms(2)] assms(4) m(2,3)
  let ?ls = "[ed25519_first_line domain, ident, '''', ''Sign in to Aqua Node'', '''', ''URI: '' @ uri, ''Version: 1'',
        ''Nonce: '' @ env_nonce e, ''Issued At: '' @ issued, ''Expiration Time: '' @ expires]"
  have uri: "\<forall>c \<in> set uri. graphic c" "LF \<notin> set domain" using assms(1) by (auto simp: tidy_def)
  have lines: "split_on LF (env_message e) = ?ls"
    unfolding m(1) using g uri graphic_no_LF by (intro split_message_text) auto
  have cr: "l = [] \<or> last l \<noteq> CR" if "l \<in> set ?ls" for l
    using that g uri graphic_not_CR by (auto simp: ed25519_first_line_def split: if_splits)
  have "map (trim_end_char CR) ?ls = ?ls" using cr by (intro map_idI trim_end_char_id) blast
  then have "message_lines (env_message e) = split_on LF (env_message e)" by (simp only: message_lines_def lines)
  moreover have "(case strip_suffix [CR] l of Some r \<Rightarrow> r | None \<Rightarrow> l) = l" if "l \<in> set ?ls" for l
    using cr [OF that] by (auto simp: strip_suffix_Some split: option.splits)
  then have "map (\<lambda>l. case strip_suffix [CR] l of Some r \<Rightarrow> r | None \<Rightarrow> l) (butlast ?ls) = butlast ?ls"
    by (intro map_idI) (meson in_set_butlastD)
  then have "str_lines (env_message e) = split_on LF (env_message e)"
    unfolding str_lines_def lines Let_def by simp
  ultimately show thesis using lines that by blast
qed

lemma template_pass:
  assumes "tidy domain uri" "is_well_formed_nonce (env_nonce e)" "ed25519_text domain uri ident e"
    "\<forall>c \<in> set ident. graphic c" "ident = CHR ''z'' # z"
  shows "message_template_verdict E pass fail ident (env_message e) (env_nonce e) = pass ''''"
proof -
  obtain issued expires where l: "split_on LF (env_message e) =
       [ed25519_first_line domain, ident, '''', ''Sign in to Aqua Node'', '''', ''URI: '' @ uri, ''Version: 1'',
        ''Nonce: '' @ env_nonce e, ''Issued At: '' @ issued, ''Expiration Time: '' @ expires]"
    "message_lines (env_message e) = split_on LF (env_message e)" by (rule ed25519_lines [OF assms(1-4)])
  have suffix: "ends_with ED25519_LINE_1 (ed25519_first_line domain)"
    unfolding ends_with_iff by (rule exI [of _ "domain @ '' ''"]) (simp add: ED25519_LINE_1_def ed25519_first_line_def)
  have "\<not> starts_with ''Chain ID:'' (ed25519_first_line domain)" using assms(1) by (simp add: tidy_def)
  then have chain: "\<not> list_ex (starts_with ''Chain ID:'') (split_on LF (env_message e))"
    unfolding l(1) by (simp add: assms(5)) (simp add: starts_with_def)
  show ?thesis
    unfolding message_template_verdict_def l(2) Let_def
    using suffix chain by (simp only: l(1)) (simp add: starts_with_def)
qed

lemma uri_pass:
  assumes "tidy domain uri" "is_well_formed_nonce (env_nonce e)" "ed25519_text domain uri ident e"
    "\<forall>c \<in> set ident. graphic c" "ident = CHR ''z'' # z"
    and "is_success r" "hr_json r = Some (challenge_envelope_json e)"
    and "U uri = Inr u" "U (tg_base_url t) = Inr v" "same_origin u v"
  shows "uri_origin_verdict E U pass fail t r = pass ''''"
proof -
  obtain issued expires where l: "split_on LF (env_message e) =
       [ed25519_first_line domain, ident, '''', ''Sign in to Aqua Node'', '''', ''URI: '' @ uri, ''Version: 1'',
        ''Nonce: '' @ env_nonce e, ''Issued At: '' @ issued, ''Expiration Time: '' @ expires]"
    "str_lines (env_message e) = split_on LF (env_message e)" by (rule ed25519_lines [OF assms(1-4)])
  have g: "\<forall>c \<in> set uri. graphic c" "\<not> starts_with ''URI: '' (ed25519_first_line domain)"
    using assms(1) by (simp_all add: tidy_def)
  have f: "find (starts_with ''URI: '') (str_lines (env_message e)) = Some (''URI: '' @ uri)"
    unfolding l using g(2) by (simp add: assms(5)) (simp add: starts_with_def)
  have "CHR '' '' \<notin> set uri" using g(1) by (auto simp: graphic_def)
  then have "\<not> starts_with ''URI: '' uri" by (auto simp: starts_with_iff)
  then have "trim_start_str ''URI: '' uri = uri" by (subst trim_start_str.simps) (simp add: strip_prefix_def)
  moreover have "trim_start_str ''URI: '' (''URI: '' @ uri) = trim_start_str ''URI: '' uri"
    by (subst trim_start_str.simps) (simp only: strip_prefix_append, simp)
  ultimately have v: "trim (trim_start_str ''URI: '' (''URI: '' @ uri)) = uri" using trim_graphic [OF g(1)] by (simp only:)
  show ?thesis
    unfolding uri_origin_verdict_def envelope_fields [OF assms(7)] Let_def
    using assms(6,8-10) by (simp only: f v ok_or_Some verdict_of_simps sum.case require_True ok_simps)
qed

section \<open>A server of the interface\<close>

lemma map_le_Some: "m \<subseteq>\<^sub>m f \<Longrightarrow> m k = Some v \<Longrightarrow> f k = Some v"
  by (metis domI map_le_def)

lemma map_le_gone: "m \<subseteq>\<^sub>m f(k := None) \<Longrightarrow> m k = None"
  using map_le_Some [of m "f(k := None)" k] by (cases "m k") auto
context caip122_server
begin

lemma admits_ed: "inv n s \<Longrightarrow> admits (signer_did (ed25519_did_key E K key))"
  by (rule spellings [of n s "''ed25519 did:key''" _ "\<lambda>_. key"]) (simp_all add: valid_spellings_def)

lemma ed_ident:
  assumes "inv n s"
  obtains z where "strip_prefix ''did:key:'' (signer_did (ed25519_did_key E K key)) = Some (CHR ''z'' # z)"
    "drop 8 (signer_did (ed25519_did_key E K key)) = CHR ''z'' # z" "\<forall>c \<in> set (CHR ''z'' # z). graphic c"
proof -
  let ?z = "bs58_encode E (ED25519_MULTICODEC @ ed_public K key)"
  have did: "signer_did (ed25519_did_key E K key) = ''did:key:'' @ CHR ''z'' # ?z"
    by (simp add: ed25519_did_key_def ed25519_local_def Let_def)
  have "\<forall>c \<in> set (CHR ''z'' # ?z). graphic c"
    using config [OF assms] bs58_lawD(3) is_base58_graphic by fastforce
  then show thesis using that [of ?z] unfolding did strip_prefix_append by simp
qed

text \<open>A challenge for a fresh Ed25519 key, and the session request the harness signs for it.\<close>

lemma ed_challenge:
  assumes "inv (Suc n) s"
  obtains r s' e where "fetch_challenge E W t (signer_did (ed25519_did_key E K key)) s = (Inr r, s')"
    "is_success r" "inv n s'" "hr_json r = Some (challenge_envelope_json e)" "is_well_formed_nonce (env_nonce e)"
    "fresh_window clocks (env_expires_at e)" "pending s (env_nonce e) = None"
    "pending s' (env_nonce e) = Some (signer_did (ed25519_did_key E K key), env_message e)"
    "pending s' \<subseteq>\<^sub>m (pending s)(env_nonce e \<mapsto> (signer_did (ed25519_did_key E K key), env_message e))"
    "ed25519_text domain uri (drop 8 (signer_did (ed25519_did_key E K key))) e"
    "(signer_did (ed25519_did_key E K key), env_nonce e, env_message e) \<in> L"
    "sign_challenge E r (ed25519_did_key E K key) =
       Inr (session_body E (signer_did (ed25519_did_key E K key)) (env_nonce e) (ed_sign K key (as_bytes (env_message e))))"
proof -
  let ?did = "signer_did (ed25519_did_key E K key)"
  obtain r s' e where i: "fetch_challenge E W t ?did s = (Inr r, s')"
    "is_success r" "inv n s'" "hr_json r = Some (challenge_envelope_json e)" "is_well_formed_nonce (env_nonce e)"
    "fresh_window clocks (env_expires_at e)" "pending s (env_nonce e) = None"
    "pending s' (env_nonce e) = Some (?did, env_message e)"
    "pending s' \<subseteq>\<^sub>m (pending s)(env_nonce e \<mapsto> (?did, env_message e))"
    "ed25519_text domain uri (drop 8 ?did) e"
    using issues [OF assms admits_ed [OF assms]] by blast
  have "sign_challenge E r (ed25519_did_key E K key) =
      Inr (session_body E ?did (env_nonce e) (ed_sign K key (as_bytes (env_message e))))"
    using i(2) envelope_fields [OF i(4)] by (simp add: sign_challenge_Inr ed25519_did_key_fields)
  then show thesis using i pending_in [OF i(3,8)] by (intro that)
qed

text \<open>A request the pending challenge does not support is refused.\<close>

lemma refused:
  assumes "inv (Suc n) s" "json_plain body" "session_request_of_json body = Inr req"
    and "\<And>msg. pending s (sr_nonce req) = Some (sr_did req, msg) \<Longrightarrow> \<not> proves msg req"
  obtains r s' where "post_session E W t body s = (Inr r, s')" "inv n s'" "\<not> accepted r"
    "pending s' \<subseteq>\<^sub>m (pending s)(sr_nonce req := None)"
  using answers [OF assms(1-3)] assms(4) by blast

text \<open>The honest login.\<close>

lemma ed_opens:
  assumes "inv (Suc n) s" "json_plain body" "pending s nonce = Some (signer_did (ed25519_did_key E K key), msg)"
    and "session_request_of_json body = Inr (ed_request E K key nonce (ed_sign K key (as_bytes msg)))"
  obtains r s' resp where "post_session E W t body s = (Inr r, s')" "inv n s'" "is_success r"
    "hr_json r = Some (session_response_json resp)" "resp_did resp = signer_did (ed25519_did_key E K key)"
    "lower_hex_64 (resp_token resp)" "\<forall>now \<in> clocks. now < resp_valid_until resp"
    "resp_created_at resp \<le> resp_valid_until resp" "accepted r"
    "pending s' \<subseteq>\<^sub>m (pending s)(nonce := None)"
proof -
  let ?req = "ed_request E K key nonce (ed_sign K key (as_bytes msg))"
  have p: "pending s (sr_nonce ?req) = Some (sr_did ?req, msg)" using assms(3) by (simp add: ed_request_def)
  obtain r s' resp where o: "post_session E W t body s = (Inr r, s')" "is_success r"
    "hr_json r = Some (session_response_json resp)" "resp_did resp = sr_did ?req" "lower_hex_64 (resp_token resp)"
    "\<forall>now \<in> clocks. now < resp_valid_until resp" "resp_created_at resp \<le> resp_valid_until resp"
    using opens [OF assms(1,2,4) p honest [OF assms(1)]] by blast
  moreover have "inv n s'" "pending s' \<subseteq>\<^sub>m (pending s)(nonce := None)"
    using answers [OF assms(1,2,4)] o(1) by (auto simp: ed_request_def)
  moreover have "resp_token resp \<noteq> []" using o(5) by (auto simp: lower_hex_64_def)
  then have "accepted r"
    using o(2,3) by (simp add: accepted_def json_field_str_def get_str_def json_get_literals)
  ultimately show thesis using that by (simp add: ed_request_def)
qed

end

text \<open>The wire-shape cases.\<close>

context caip122_server
begin

lemma required_fields_ok: "harmless inv 1 (spec_6_2_required_fields E K W t key)"
proof (rule harmless1I)
  fix n s
  assume "inv (Suc n) s"
  then obtain r s' e where r: "fetch_challenge E W t (signer_did (ed25519_did_key E K key)) s = (Inr r, s')"
    "is_success r" "inv n s'" "hr_json r = Some (challenge_envelope_json e)" by (rule ed_challenge [where key = key]) blast
  have "json_is_object (challenge_envelope_json e)" by (simp add: challenge_envelope_json_def)
  with r show "\<exists>c s'. spec_6_2_required_fields E K W t key s = (c, s') \<and> cr_outcome c \<noteq> Fail \<and> inv n s'"
    by (simp add: spec_6_2_required_fields_def required_fields_verdict_def member_check_def json_get_literals Let_def)
qed

lemma did_field_ok: "harmless inv 1 (spec_6_2_did_field E K W t key)"
proof (rule harmless1I)
  fix n s
  assume "inv (Suc n) s"
  then obtain r s' e where r: "fetch_challenge E W t (signer_did (ed25519_did_key E K key)) s = (Inr r, s')"
    "inv n s'" "hr_json r = Some (challenge_envelope_json e)" by (rule ed_challenge [where key = key]) blast
  then show "\<exists>c s'. spec_6_2_did_field E K W t key s = (c, s') \<and> cr_outcome c \<noteq> Fail \<and> inv n s'"
    by (simp add: spec_6_2_did_field_def envelope_fields Let_def)
qed

lemma nonce_format_ok: "harmless inv 1 (spec_6_2_nonce_format E K W t key)"
proof (rule harmless1I)
  fix n s
  assume "inv (Suc n) s"
  then obtain r s' e where r: "fetch_challenge E W t (signer_did (ed25519_did_key E K key)) s = (Inr r, s')"
    "inv n s'" "hr_json r = Some (challenge_envelope_json e)" "is_well_formed_nonce (env_nonce e)"
    by (rule ed_challenge [where key = key]) blast
  then show "\<exists>c s'. spec_6_2_nonce_format E K W t key s = (c, s') \<and> cr_outcome c \<noteq> Fail \<and> inv n s'"
    by (simp add: spec_6_2_nonce_format_def envelope_fields Let_def)
qed

lemma message_structure_ok: "harmless inv 1 (spec_6_2_message_structure E K W t key)"
proof (rule harmless1I)
  fix n s
  let ?did = "signer_did (ed25519_did_key E K key)"
  assume s: "inv (Suc n) s"
  then obtain r s' e where r: "fetch_challenge E W t ?did s = (Inr r, s')"
    "inv n s'" "hr_json r = Some (challenge_envelope_json e)" "is_well_formed_nonce (env_nonce e)"
    "ed25519_text domain uri (drop 8 ?did) e" by (rule ed_challenge [where key = key]) blast
  obtain z where z: "strip_prefix ''did:key:'' ?did = Some (CHR ''z'' # z)" "drop 8 ?did = CHR ''z'' # z"
    "\<forall>c \<in> set (CHR ''z'' # z). graphic c" by (rule ed_ident [OF s])
  have "message_structure_verdict E pass fail (CHR ''z'' # z) r = pass ''''" for pass fail
    unfolding message_structure_verdict_def
    using template_pass [OF _ r(4) r(5) [unfolded z(2)] z(3) refl] config [OF s] r(3)
    by (simp add: get_str_def json_get_literals)
  with r z show "\<exists>c s'. spec_6_2_message_structure E K W t key s = (c, s') \<and> cr_outcome c \<noteq> Fail \<and> inv n s'"
    by (simp add: spec_6_2_message_structure_def Let_def)
qed

lemma expires_at_ok:
  assumes "now \<in> clocks"
  shows "harmless inv 1 (spec_6_2_expires_at_sane E K W t key now)"
proof (rule harmless1I)
  fix n s
  assume "inv (Suc n) s"
  then obtain r s' e where r: "fetch_challenge E W t (signer_did (ed25519_did_key E K key)) s = (Inr r, s')"
    "inv n s'" "hr_json r = Some (challenge_envelope_json e)" "fresh_window clocks (env_expires_at e)"
    by (rule ed_challenge [where key = key]) blast
  with assms have "\<not> env_expires_at e \<le> now" "\<not> ONE_DAY_SECS < env_expires_at e - now"
    by (auto simp: fresh_window_def not_le not_less)
  with r show "\<exists>c s'. spec_6_2_expires_at_sane E K W t key now s = (c, s') \<and> cr_outcome c \<noteq> Fail \<and> inv n s'"
    by (simp add: spec_6_2_expires_at_sane_def expires_at_verdict_def envelope_fields Let_def)
qed

text \<open>A login that completes, and what is left of it.\<close>

lemma ed_login:
  assumes "inv (Suc (Suc n)) s"
  obtains flow s' resp where "login E W t (ed25519_did_key E K key) s = (Inr flow, s')" "inv n s'"
    "is_success (lf_session_response flow)" "accepted (lf_session_response flow)"
    "hr_json (lf_session_response flow) = Some (session_response_json resp)"
    "resp_did resp = signer_did (ed25519_did_key E K key)" "lower_hex_64 (resp_token resp)"
    "\<forall>now \<in> clocks. now < resp_valid_until resp" "resp_created_at resp \<le> resp_valid_until resp"
    "\<exists>req. json_plain (lf_session_request flow) \<and> session_request_of_json (lf_session_request flow) = Inr req \<and>
       pending s' (sr_nonce req) = None"
proof -
  let ?did = "signer_did (ed25519_did_key E K key)"
  from assms obtain r s1 and e :: challenge_envelope where r: "fetch_challenge E W t ?did s = (Inr r, s1)" "inv (Suc n) s1"
    "hr_json r = Some (challenge_envelope_json e)" "pending s1 (env_nonce e) = Some (?did, env_message e)"
    "sign_challenge E r (ed25519_did_key E K key) =
       Inr (session_body E ?did (env_nonce e) (ed_sign K key (as_bytes (env_message e))))"
    by (rule ed_challenge [where key = key]) blast
  let ?body = "session_body E ?did (env_nonce e) (ed_sign K key (as_bytes (env_message e)))"
  have read: "session_request_of_json ?body = Inr (ed_request E K key (env_nonce e) (ed_sign K key (as_bytes (env_message e))))"
    by (simp add: session_body_read ed_request_def)
  obtain r2 s2 resp where o: "post_session E W t ?body s1 = (Inr r2, s2)" "inv n s2" "is_success r2"
    "hr_json r2 = Some (session_response_json resp)" "resp_did resp = ?did"
    "lower_hex_64 (resp_token resp)" "\<forall>now \<in> clocks. now < resp_valid_until resp"
    "resp_created_at resp \<le> resp_valid_until resp" "accepted r2" "pending s2 \<subseteq>\<^sub>m (pending s1)(env_nonce e := None)"
    by (rule ed_opens [OF r(2) session_body_plain r(4) read])
  let ?flow = "\<lparr>lf_challenge = hr_json r, lf_session_request = ?body, lf_session_response = r2\<rparr>"
  have "login E W t (ed25519_did_key E K key) s = (Inr ?flow, s2)" unfolding login_Inr using r(1,5) o(1) by auto
  moreover have "pending s2 (env_nonce e) = None"
    by (rule map_le_gone [OF o(10)])
  ultimately show thesis using o read by (intro that [of ?flow s2 resp]) (auto simp: ed_request_def)
qed

lemma session_shape_ok:
  assumes "now \<in> clocks"
  shows "harmless inv 2 (spec_6_4_session_response_shape E K W t key now)"
proof (rule harmless2I)
  fix n s
  assume "inv (Suc (Suc n)) s"
  then obtain flow s' resp where f: "login E W t (ed25519_did_key E K key) s = (Inr flow, s')" "inv n s'"
    "is_success (lf_session_response flow)"
    "hr_json (lf_session_response flow) = Some (session_response_json resp)"
    "resp_did resp = signer_did (ed25519_did_key E K key)" "lower_hex_64 (resp_token resp)"
    "\<forall>now \<in> clocks. now < resp_valid_until resp" "resp_created_at resp \<le> resp_valid_until resp"
    by (rule ed_login)
  then have "session_shape_verdict E pass fail (signer_did (ed25519_did_key E K key)) now (lf_session_response flow) = pass ''''"
    for pass fail using assms
    by (auto simp: session_shape_verdict_def get_str_def json_get_literals not_le not_less)
  with f show "\<exists>c s'. spec_6_4_session_response_shape E K W t key now s = (c, s') \<and> cr_outcome c \<noteq> Fail \<and> inv n s'"
    by (simp add: spec_6_4_session_response_shape_def Let_def)
qed

end

section \<open>Tampered bodies\<close>

lemma key_order: "\<not> ''nonce'' < ''did''" "\<not> ''signature'' < ''did''" "\<not> ''signature'' < ''nonce''"
  "\<not> ''public_key'' < ''did''" "\<not> ''public_key'' < ''nonce''" "''public_key'' < ''signature''"
  by (simp_all add: less_char_def)

lemma tampered_bodies:
  "json_set ''nonce'' (JString x) (session_body E d n g) =
     JObject [(''did'', JString d), (''nonce'', JString x), (''signature'', JString (wire_hex E g))]"
  "json_set ''signature'' (JString x) (session_body E d n g) =
     JObject [(''did'', JString d), (''nonce'', JString n), (''signature'', JString x)]"
  "json_set ''public_key'' (JString x) (session_body E d n g) =
     JObject [(''did'', JString d), (''nonce'', JString n), (''public_key'', JString x), (''signature'', JString (wire_hex E g))]"
  "json_set ''public_key'' (JString x) (json_set ''public_key'' (JString y) (session_body E d n g)) =
     JObject [(''did'', JString d), (''nonce'', JString n), (''public_key'', JString x), (''signature'', JString (wire_hex E g))]"
  unfolding session_body_def by (simp_all only: json_set.simps btree_insert.simps key_order if_True if_False) simp_all

lemma three_members_read:
  "session_request_of_json (JObject [(''did'', JString d), (''nonce'', JString n), (''signature'', JString g)]) =
     Inr \<lparr>sr_did = d, sr_nonce = n, sr_signature = g, sr_public_key = None\<rparr>"
  "session_request_of_json
     (JObject [(''did'', JString d), (''nonce'', JString n), (''public_key'', JString k), (''signature'', JString g)]) =
     Inr \<lparr>sr_did = d, sr_nonce = n, sr_signature = g, sr_public_key = Some k\<rparr>"
  by (simp_all add: repeated_member_def session_request_fields_def de_string_def de_option_string_def)

lemma three_members_plain [simp]:
  "json_plain (JObject [(''did'', JString d), (''nonce'', JString n), (''signature'', JString g)])"
  "json_plain (JObject [(''did'', JString d), (''nonce'', JString n), (''public_key'', JString k), (''signature'', JString g)])"
  by simp_all

lemma btree_insert_plain:
  assumes "json_plain (JObject ms)" "k \<notin> fst ` set ms" "json_plain v"
  shows "json_plain (JObject (btree_insert k v ms))"
proof -
  have "set (btree_insert k v ms) = insert (k, v) (set ms) \<and> distinct (map fst (btree_insert k v ms))"
    using assms(1,2) by (induction ms) (auto split: if_splits)
  with assms show ?thesis by (auto simp: list_all_iff)
qed

lemma unrecognised_body:
  "json_plain (json_set unrecognised_field (JString ''conformance-probe'') (session_body E d n g))"
    "session_request_of_json (json_set unrecognised_field (JString ''conformance-probe'') (session_body E d n g)) =
       Inr \<lparr>sr_did = d, sr_nonce = n, sr_signature = wire_hex E g, sr_public_key = None\<rparr>"
proof -
  obtain ms where b: "session_body E d n g = JObject ms" "fst ` set ms = {''did'', ''nonce'', ''signature''}"
    by (simp add: session_body_def)
  have k: "unrecognised_field \<notin> {''did'', ''nonce'', ''signature'', ''public_key''}" by (simp add: unrecognised_field_def)
  show "json_plain (json_set unrecognised_field (JString ''conformance-probe'') (session_body E d n g))"
    unfolding b(1) json_set.simps using session_body_plain [of E d n g, unfolded b(1)] b(2) k by (intro btree_insert_plain) auto
  show "session_request_of_json (json_set unrecognised_field (JString ''conformance-probe'') (session_body E d n g)) =
       Inr \<lparr>sr_did = d, sr_nonce = n, sr_signature = wire_hex E g, sr_public_key = None\<rparr>"
    using unknown_member_ignored [OF k, of _ ms] session_body_read [of E d n g] unfolding b(1) by (simp only:)
qed

text \<open>The remaining positive case, and the probes.\<close>

context caip122_server
begin

lemma unknown_fields_ok: "harmless inv 2 (spec_8_unknown_request_fields_ignored E K W t key)"
proof (rule harmless2I)
  fix n s
  let ?did = "signer_did (ed25519_did_key E K key)"
  assume "inv (Suc (Suc n)) s"
  then obtain r s1 and e :: challenge_envelope where r: "fetch_challenge E W t ?did s = (Inr r, s1)" "inv (Suc n) s1"
    "pending s1 (env_nonce e) = Some (?did, env_message e)"
    "sign_challenge E r (ed25519_did_key E K key) =
       Inr (session_body E ?did (env_nonce e) (ed_sign K key (as_bytes (env_message e))))"
    by (rule ed_challenge [where key = key]) blast
  note b = unrecognised_body [of E ?did "env_nonce e"]
  obtain r2 s2 where "post_session E W t (json_set unrecognised_field (JString ''conformance-probe'')
      (session_body E ?did (env_nonce e) (ed_sign K key (as_bytes (env_message e))))) s1 = (Inr r2, s2)"
    "inv n s2" "is_success r2"
    by (rule ed_opens [OF r(2) b(1) r(3)]) (simp_all add: b(2) ed_request_def)
  with r show "\<exists>c s'. spec_8_unknown_request_fields_ignored E K W t key s = (c, s') \<and> cr_outcome c \<noteq> Fail \<and> inv n s'"
    by (simp add: spec_8_unknown_request_fields_ignored_def Let_def) (simp add: session_body_def)
qed

lemma unknown_nonce_ok:
  assumes "\<And>did msg. (did, wire_hex E random, msg) \<notin> L"
  shows "harmless inv 2 (spec_7_1_unknown_nonce_refused E K W t key random)"
proof (rule harmless2I)
  fix n s
  let ?did = "signer_did (ed25519_did_key E K key)"
  assume s: "inv (Suc (Suc n)) s"
  then obtain r s1 and e :: challenge_envelope where r: "fetch_challenge E W t ?did s = (Inr r, s1)" "inv (Suc n) s1"
    "sign_challenge E r (ed25519_did_key E K key) =
       Inr (session_body E ?did (env_nonce e) (ed_sign K key (as_bytes (env_message e))))"
    by (rule ed_challenge [where key = key]) blast
  let ?body = "json_set ''nonce'' (JString (wire_hex E random))
      (session_body E ?did (env_nonce e) (ed_sign K key (as_bytes (env_message e))))"
  have none: "pending s1 (wire_hex E random) \<noteq> Some (d, m)" for d m
    using assms pending_in [OF r(2)] by blast
  have "json_plain ?body" unfolding tampered_bodies by (rule three_members_plain)
  moreover have "session_request_of_json ?body = Inr (ed_request E K key (wire_hex E random) (ed_sign K key (as_bytes (env_message e))))"
    unfolding tampered_bodies three_members_read by (simp add: ed_request_def)
  ultimately obtain r2 s2 where p: "post_session E W t ?body s1 = (Inr r2, s2)" "inv n s2" "\<not> accepted r2"
    by (rule refused [OF r(2)]) (use none in \<open>simp_all add: ed_request_def\<close>)
  have "json_is_object (session_body E d n g)" for d n g by (simp add: session_body_def)
  with r p show "\<exists>c s'. spec_7_1_unknown_nonce_refused E K W t key random s = (c, s') \<and> cr_outcome c \<noteq> Fail \<and> inv n s'"
    by (simp add: spec_7_1_unknown_nonce_refused_def session_accepted_iff Let_def)
qed

lemma single_use_ok: "harmless inv 3 (spec_7_3_nonce_single_use E K W t key)"
proof (rule harmlessI)
  fix n s
  assume "inv (3 + n) s"
  then have "inv (Suc (Suc (Suc n))) s" by (simp add: numeral_eq_Suc)
  then obtain flow s1 req where f: "login E W t (ed25519_did_key E K key) s = (Inr flow, s1)" "inv (Suc n) s1"
    "accepted (lf_session_response flow)" "json_plain (lf_session_request flow)"
    "session_request_of_json (lf_session_request flow) = Inr req" "pending s1 (sr_nonce req) = None"
    by (rule ed_login [where key = key]) blast
  obtain r2 s2 where "post_session E W t (lf_session_request flow) s1 = (Inr r2, s2)" "inv n s2" "\<not> accepted r2"
    by (rule refused [OF f(2,4,5)]) (use f(6) in simp_all)
  with f show "\<exists>c s'. spec_7_3_nonce_single_use E K W t key s = (c, s') \<and> cr_outcome c \<noteq> Fail \<and> inv n s'"
    by (simp add: spec_7_3_nonce_single_use_def session_accepted_iff Let_def)
qed

end

text \<open>DIDs: what is not admitted is refused when the challenge is asked for.\<close>

context caip122_server
begin

lemma refused_at_challenge:
  assumes "inv (Suc n) s" "\<not> admits did"
  obtains w s' where "refused_at_either_endpoint E W t did random s = (Inr w, s')" "inv n s'"
  using refuses [OF assms] by (force simp: refused_at_either_endpoint_def)

lemma unsupported_namespace_ok:
  assumes "\<not> admits (''did:pkh:solana:0x'' @ hex_encode E random32)"
  shows "harmless inv 1 (spec_7_4_unsupported_namespace_refused E W t random32 random64)"
proof (rule harmless1I)
  fix n s
  assume "inv (Suc n) s"
  then obtain w s' where
    "refused_at_either_endpoint E W t (''did:pkh:solana:0x'' @ hex_encode E random32) random64 s = (Inr w, s')" "inv n s'"
    by (rule refused_at_challenge [OF _ assms])
  then show "\<exists>c s'. spec_7_4_unsupported_namespace_refused E W t random32 random64 s = (c, s') \<and>
      cr_outcome c \<noteq> Fail \<and> inv n s'"
    by (simp add: spec_7_4_unsupported_namespace_refused_def Let_def)
qed

lemma refusal_loop_ok:
  assumes "\<forall>((label, did), random) \<in> set rows. \<not> admits did" "inv (length rows + n) s"
  shows "\<exists>refusals s'. refusal_loop E W t rows s = (([], refusals), s') \<and> inv n s'"
  using assms
proof (induction rows arbitrary: s)
  case (Cons row rows)
  obtain label did random where row: "row = ((label, did), random)" by (metis surj_pair)
  with Cons.prems have "inv (Suc (length rows + n)) s" "\<not> admits did" by simp_all
  then obtain w s1 where "refused_at_either_endpoint E W t did random s = (Inr w, s1)" "inv (length rows + n) s1"
    by (rule refused_at_challenge)
  with Cons.IH [of s1] Cons.prems(1) row show ?case by auto
qed simp

lemma malformed_dids_ok:
  assumes "\<forall>(label, did) \<in> set (malformed_dids E dd). \<not> admits did"
  shows "harmless inv 7 (spec_7_5_did_well_formed E W t dd random64)"
proof (rule harmlessI)
  fix n s
  let ?table = "malformed_dids E dd"
  let ?rows = "zip ?table (map random64 [0..<length ?table])"
  assume s: "inv (7 + n) s"
  have "length ?table = 7" by (simp add: malformed_dids_def)
  then have len: "length ?rows = 7" by simp
  have "\<forall>((label, did), random) \<in> set ?rows. \<not> admits did" using assms by (auto dest: set_zip_leftD)
  then obtain refusals s' where "refusal_loop E W t ?rows s = (([], refusals), s')" "inv n s'"
    using refusal_loop_ok [of ?rows n s] s len by auto
  then show "\<exists>c s'. spec_7_5_did_well_formed E W t dd random64 s = (c, s') \<and> cr_outcome c \<noteq> Fail \<and> inv n s'"
    by (simp add: spec_7_5_did_well_formed_def Let_def)
qed

lemma acceptance_loop_ok:
  assumes "\<forall>(label, signer) \<in> set rows. admits (signer_did signer)" "inv (length rows + n) s"
  shows "\<exists>s'. acceptance_loop E W t rows s = ([], s') \<and> inv n s'"
  using assms
proof (induction rows arbitrary: s)
  case (Cons row rows)
  obtain label signer where row: "row = (label, signer)" by fastforce
  with Cons.prems have "inv (Suc (length rows + n)) s" "admits (signer_did signer)" by simp_all
  from issues [OF this] obtain r s1 where "fetch_challenge E W t (signer_did signer) s = (Inr r, s1)" "is_success r"
    "inv (length rows + n) s1" by blast
  with Cons.IH [of s1] Cons.prems(1) row show ?case by auto
qed simp

lemma valid_spellings_ok: "harmless inv 5 (spec_7_5_valid_did_spellings_accepted E K W t keys)"
proof (rule harmlessI)
  fix n s
  assume s: "inv (5 + n) s"
  have "length (valid_spellings E K keys) = 5" by (simp add: valid_spellings_def)
  then obtain s' where "acceptance_loop E W t (valid_spellings E K keys) s = ([], s')" "inv n s'"
    using acceptance_loop_ok [of "valid_spellings E K keys" n s] spellings [OF s] s by auto
  then show "\<exists>c s'. spec_7_5_valid_did_spellings_accepted E K W t keys s = (c, s') \<and> cr_outcome c \<noteq> Fail \<and> inv n s'"
    by (simp add: spec_7_5_valid_did_spellings_accepted_def Let_def)
qed

end

section \<open>Probes of the signature\<close>

context caip122_server
begin

lemma corruption_row_ok:
  assumes "inv (Suc (Suc n)) s"
    and probe: "\<And>nonce msg. (signer_did (ed25519_did_key E K key), nonce, msg) \<in> L \<Longrightarrow>
      \<not> proves msg ((ed_request E K key nonce [])\<lparr>sr_signature := corrupt (wire_hex E (ed_sign K key (as_bytes msg)))\<rparr>)"
  obtains s' where "corruption_row E W t (ed25519_did_key E K key) label corrupt s = (None, s')" "inv n s'"
proof -
  let ?did = "signer_did (ed25519_did_key E K key)"
  from assms(1) obtain r s1 and e :: challenge_envelope where r: "fetch_challenge E W t ?did s = (Inr r, s1)" "inv (Suc n) s1"
    "pending s1 (env_nonce e) = Some (?did, env_message e)" "is_well_formed_nonce (env_nonce e)"
    "sign_challenge E r (ed25519_did_key E K key) =
       Inr (session_body E ?did (env_nonce e) (ed_sign K key (as_bytes (env_message e))))"
    by (rule ed_challenge [where key = key]) blast
  let ?sig = "wire_hex E (ed_sign K key (as_bytes (env_message e)))"
  let ?body = "json_set ''signature'' (JString (corrupt ?sig))
      (session_body E ?did (env_nonce e) (ed_sign K key (as_bytes (env_message e))))"
  have "json_plain ?body" unfolding tampered_bodies by (rule three_members_plain)
  moreover have "session_request_of_json ?body = Inr ((ed_request E K key (env_nonce e) [])\<lparr>sr_signature := corrupt ?sig\<rparr>)"
    unfolding tampered_bodies three_members_read by (simp add: ed_request_def)
  ultimately obtain r2 s2 where p: "post_session E W t ?body s1 = (Inr r2, s2)" "inv n s2" "\<not> accepted r2"
    by (rule refused [OF r(2)])
       (use r(3) probe [OF pending_in [OF r(2,3)]] in \<open>simp_all add: ed_request_def\<close>)
  have "get_str ''signature'' (session_body E d n g) = Some (wire_hex E g)" for d n g
    by (simp add: get_str_def session_body_def)
  with r p show thesis by (intro that [of s2]) (simp_all add: corruption_row_def Let_def)
qed

lemma corruption_loop_ok:
  assumes "\<And>label corrupt key nonce msg. ((label, corrupt), key) \<in> set rows \<Longrightarrow>
      (signer_did (ed25519_did_key E K key), nonce, msg) \<in> L \<Longrightarrow>
      \<not> proves msg ((ed_request E K key nonce [])\<lparr>sr_signature := corrupt (wire_hex E (ed_sign K key (as_bytes msg)))\<rparr>)"
    and "inv (2 * length rows + n) s"
  shows "\<exists>s'. corruption_loop E K W t rows s = ([], s') \<and> inv n s'"
  using assms
proof (induction rows arbitrary: s)
  case (Cons row rows)
  obtain label corrupt key where row: "row = ((label, corrupt), key)" by (metis surj_pair)
  then have m: "((label, corrupt), key) \<in> set (row # rows)" by simp
  have "inv (Suc (Suc (2 * length rows + n))) s" using Cons.prems(2) by simp
  then obtain s1 where s1: "corruption_row E W t (ed25519_did_key E K key) label corrupt s = (None, s1)"
    "inv (2 * length rows + n) s1"
    by (rule corruption_row_ok [OF _ Cons.prems(1) [OF m]])
  have "\<exists>s'. corruption_loop E K W t rows s1 = ([], s') \<and> inv n s'"
    using Cons.prems(1) by (intro Cons.IH s1(2)) (meson list.set_intros(2))+
  with s1(1) row show ?case by auto
qed simp

lemma corruptions_ok:
  assumes "\<And>label corrupt i nonce msg. (label, corrupt) \<in> set (SIGNATURE_CORRUPTIONS E) \<Longrightarrow>
      (signer_did (ed25519_did_key E K (keys i)), nonce, msg) \<in> L \<Longrightarrow>
      \<not> proves msg ((ed_request E K (keys i) nonce [])\<lparr>sr_signature := corrupt (wire_hex E (ed_sign K (keys i) (as_bytes msg)))\<rparr>)"
  shows "harmless inv 10 (spec_7_6_signature_invalid_refused E K W t keys)"
proof (rule harmlessI)
  fix n s
  let ?table = "SIGNATURE_CORRUPTIONS E"
  let ?rows = "zip ?table (map keys [0..<length ?table])"
  assume s: "inv (10 + n) s"
  have five: "length ?table = 5" by (simp add: SIGNATURE_CORRUPTIONS_def)
  then have budget: "inv (2 * length ?rows + n) s" using s by simp
  have "(label, corrupt) \<in> set ?table \<and> (\<exists>i. key = keys i)" if "((label, corrupt), key) \<in> set ?rows" for label corrupt key
    using set_zip_leftD [OF that] set_zip_rightD [OF that] by auto
  then have "\<exists>s'. corruption_loop E K W t ?rows s = ([], s') \<and> inv n s'"
    using assms by (intro corruption_loop_ok budget) blast+
  then show "\<exists>c s'. spec_7_6_signature_invalid_refused E K W t keys s = (c, s') \<and> cr_outcome c \<noteq> Fail \<and> inv n s'"
    by (auto simp: spec_7_6_signature_invalid_refused_def Let_def)
qed

end

lemma envelope_pair:
  "is_success r \<Longrightarrow> hr_json r = Some (challenge_envelope_json e) \<Longrightarrow>
     message_and_nonce E r = Inr (env_message e, env_nonce e)"
  by (simp add: message_and_nonce_def get_str_def json_get_literals)

context caip122_server
begin

lemma wrong_key_ok:
  assumes "\<And>nonce msg. (signer_did (ed25519_did_key E K key_a), nonce, msg) \<in> L \<Longrightarrow>
      \<not> proves msg (ed_request E K key_a nonce (ed_sign K key_b (as_bytes msg)))"
  shows "harmless inv 2 (spec_7_6_wrong_key_refused E K W t key_a key_b)"
proof (rule harmless2I)
  fix n s
  let ?did = "signer_did (ed25519_did_key E K key_a)"
  assume "inv (Suc (Suc n)) s"
  then obtain r s1 and e :: challenge_envelope where r: "fetch_challenge E W t ?did s = (Inr r, s1)" "inv (Suc n) s1"
    "is_success r" "hr_json r = Some (challenge_envelope_json e)" "pending s1 (env_nonce e) = Some (?did, env_message e)"
    by (rule ed_challenge [where key = key_a]) blast
  obtain r2 s2 where "post_session E W t (session_body E ?did (env_nonce e) (ed_sign K key_b (as_bytes (env_message e)))) s1 =
      (Inr r2, s2)" "inv n s2" "\<not> accepted r2"
    by (rule refused [OF r(2) session_body_plain session_body_read])
       (use r(5) assms [OF pending_in [OF r(2,5)]] in \<open>auto simp: ed_request_def\<close>)
  with r show "\<exists>c s'. spec_7_6_wrong_key_refused E K W t key_a key_b s = (c, s') \<and> cr_outcome c \<noteq> Fail \<and> inv n s'"
    by (simp add: spec_7_6_wrong_key_refused_def envelope_pair ed25519_did_key_fields Let_def)
qed

lemma message_names_nonce:
  assumes "inv n s" "ident = drop 8 (signer_did (ed25519_did_key E K key))"
    and "ed25519_text domain uri ident e" "is_well_formed_nonce (env_nonce e)"
    and "ed25519_text domain uri ident e'" "is_well_formed_nonce (env_nonce e')"
    and "env_message e = env_message e'"
  shows "env_nonce e = env_nonce e'"
proof -
  have g: "\<forall>c \<in> set ident. graphic c" by (rule ed_ident [OF assms(1), where key = key]) (simp add: assms(2))
  have tidy: "tidy domain uri" using config [OF assms(1)] by simp
  have "split_on LF (env_message e) ! 7 = ''Nonce: '' @ env_nonce e"
    "split_on LF (env_message e') ! 7 = ''Nonce: '' @ env_nonce e'"
    by (rule ed25519_lines [OF tidy assms(4,3) g], simp, rule ed25519_lines [OF tidy assms(6,5) g], simp)
  with assms(7) show ?thesis by simp
qed

text \<open>One direction of the cross submission.\<close>

lemma cross_ok:
  assumes "inv (Suc n) s" "pending s nonce \<in> {None, Some (signer_did (ed25519_did_key E K key), msg)}"
    and "\<not> proves msg (ed_request E K key nonce (ed_sign K key (as_bytes other)))"
  obtains s' where "\<And>a d u. cross_submission E W t (ed25519_did_key E K key) other nonce a d u s = ([], s')" "inv n s'"
    "pending s' \<subseteq>\<^sub>m pending s"
proof -
  let ?body = "session_body E (signer_did (ed25519_did_key E K key)) nonce (ed_sign K key (as_bytes other))"
  obtain r s' where p: "post_session E W t ?body s = (Inr r, s')" "inv n s'" "\<not> accepted r"
    "pending s' \<subseteq>\<^sub>m (pending s)(nonce := None)"
    by (rule refused [OF assms(1) session_body_plain session_body_read]) (use assms(2,3) in \<open>auto simp: ed_request_def\<close>)
  have "(pending s)(nonce := None) \<subseteq>\<^sub>m pending s" by (simp add: map_le_def)
  with p show thesis
    by (intro that [of s']) (auto simp: cross_submission_def ed25519_did_key_fields intro: map_le_trans)
qed

lemma message_binding_ok:
  assumes probe: "\<And>nonce msg nonce' msg'. (signer_did (ed25519_did_key E K key), nonce, msg) \<in> L \<Longrightarrow>
      (signer_did (ed25519_did_key E K key), nonce', msg') \<in> L \<Longrightarrow> msg \<noteq> msg' \<Longrightarrow>
      \<not> proves msg (ed_request E K key nonce (ed_sign K key (as_bytes msg')))"
  shows "harmless inv 4 (spec_7_7_message_binding E K W t key)"
proof (rule harmlessI)
  fix n s
  let ?did = "signer_did (ed25519_did_key E K key)"
  assume "inv (4 + n) s"
  then have s: "inv (Suc (Suc (Suc (Suc n)))) s" by (simp add: numeral_eq_Suc)
  obtain ra s1 and ea :: challenge_envelope where a: "fetch_challenge E W t ?did s = (Inr ra, s1)" "inv (Suc (Suc (Suc n))) s1"
    "is_success ra" "hr_json ra = Some (challenge_envelope_json ea)" "is_well_formed_nonce (env_nonce ea)"
    "ed25519_text domain uri (drop 8 ?did) ea" "pending s1 (env_nonce ea) = Some (?did, env_message ea)"
    "(?did, env_nonce ea, env_message ea) \<in> L"
    by (rule ed_challenge [OF s, where key = key]) blast
  obtain rb s2 and eb :: challenge_envelope where b: "fetch_challenge E W t ?did s1 = (Inr rb, s2)" "inv (Suc (Suc n)) s2"
    "is_success rb" "hr_json rb = Some (challenge_envelope_json eb)" "is_well_formed_nonce (env_nonce eb)"
    "ed25519_text domain uri (drop 8 ?did) eb" "pending s1 (env_nonce eb) = None"
    "pending s2 (env_nonce eb) = Some (?did, env_message eb)"
    "pending s2 \<subseteq>\<^sub>m (pending s1)(env_nonce eb \<mapsto> (?did, env_message eb))"
    "(?did, env_nonce eb, env_message eb) \<in> L"
    by (rule ed_challenge [OF a(2), where key = key]) blast
  have nonces: "env_nonce ea \<noteq> env_nonce eb" using a(7) b(7) by auto
  then have msgs: "env_message ea \<noteq> env_message eb"
    using message_names_nonce [OF s refl a(6,5) b(6,5)] by blast
  have pa: "pending s2 (env_nonce ea) \<in> {None, Some (?did, env_message ea)}"
    using map_le_Some [OF b(9), of "env_nonce ea"] a(7) nonces by (cases "pending s2 (env_nonce ea)") auto
  obtain s3 where c: "\<And>x y z. cross_submission E W t (ed25519_did_key E K key) (env_message eb) (env_nonce ea) x y z s2 =
      ([], s3)" "inv (Suc n) s3" "pending s3 \<subseteq>\<^sub>m pending s2"
    by (rule cross_ok [OF b(2) pa probe [OF a(8) b(10) msgs]]) (rule that)
  have pb: "pending s3 (env_nonce eb) \<in> {None, Some (?did, env_message eb)}"
    using map_le_Some [OF c(3), of "env_nonce eb"] b(8) by (cases "pending s3 (env_nonce eb)") auto
  obtain s4 where d: "\<And>x y z. cross_submission E W t (ed25519_did_key E K key) (env_message ea) (env_nonce eb) x y z s3 =
      ([], s4)" "inv n s4"
    by (rule cross_ok [OF c(2) pb probe [OF b(10) a(8) msgs [symmetric]]]) (rule that)
  have "spec_7_7_message_binding E K W t key s = (c', s4) \<Longrightarrow> cr_outcome c' \<noteq> Fail" for c'
    using a b c(1) d(1) nonces msgs by (auto simp: spec_7_7_message_binding_def envelope_pair Let_def)
  moreover have "\<exists>c'. spec_7_7_message_binding E K W t key s = (c', s4)"
    using a b c(1) d(1) nonces msgs by (simp add: spec_7_7_message_binding_def envelope_pair Let_def)
  ultimately show "\<exists>c s'. spec_7_7_message_binding E K W t key s = (c, s') \<and> cr_outcome c \<noteq> Fail \<and> inv n s'"
    using d(2) by blast
qed

lemma expiry_ok:
  assumes "now \<in> clocks" "env EXPIRY_WAIT_ENV \<noteq> Some ''1''"
  shows "harmless inv 1 (spec_7_2_challenge_expiry E K W env t key now)"
proof (rule harmless1I)
  fix n s
  assume "inv (Suc n) s"
  then obtain r s' and e :: challenge_envelope where r: "fetch_challenge E W t (signer_did (ed25519_did_key E K key)) s = (Inr r, s')"
    "is_success r" "inv n s'" "hr_json r = Some (challenge_envelope_json e)" "fresh_window clocks (env_expires_at e)"
    by (rule ed_challenge [where key = key]) blast
  with assms have "\<not> env_expires_at e \<le> now" by (auto simp: fresh_window_def not_le)
  with r assms(2) show "\<exists>c s'. spec_7_2_challenge_expiry E K W env t key now s = (c, s') \<and> cr_outcome c \<noteq> Fail \<and> inv n s'"
    by (simp add: spec_7_2_challenge_expiry_def envelope_fields Let_def)
qed

lemma uri_origin_ok:
  assumes "U uri = Inr u" "U (tg_base_url t) = Inr v" "same_origin u v"
  shows "harmless inv 1 (spec_6_2_uri_origin_matches_target E K W U t key)"
proof (rule harmless1I)
  fix n s
  let ?did = "signer_did (ed25519_did_key E K key)"
  assume s: "inv (Suc n) s"
  then obtain r s' and e :: challenge_envelope where r: "fetch_challenge E W t ?did s = (Inr r, s')"
    "is_success r" "inv n s'" "hr_json r = Some (challenge_envelope_json e)" "is_well_formed_nonce (env_nonce e)"
    "ed25519_text domain uri (drop 8 ?did) e" by (rule ed_challenge [where key = key]) blast
  obtain z where z: "drop 8 ?did = CHR ''z'' # z" "\<forall>c \<in> set (CHR ''z'' # z). graphic c" by (rule ed_ident [OF s])
  have "uri_origin_verdict E U pass fail t r = pass []" for pass fail
    using uri_pass [OF _ r(5) r(6) [unfolded z(1)] z(2) refl r(2,4) assms] config [OF s] by simp
  with r show "\<exists>c s'. spec_6_2_uri_origin_matches_target E K W U t key s = (c, s') \<and> cr_outcome c \<noteq> Fail \<and> inv n s'"
    by (simp add: spec_6_2_uri_origin_matches_target_def Let_def)
qed

lemma public_key_binding_ok:
  assumes probe: "\<And>nonce msg. (signer_did (ml_dsa_87_local E K key_a), nonce, msg) \<in> L \<Longrightarrow>
      \<not> proves msg \<lparr>sr_did = signer_did (ml_dsa_87_local E K key_a), sr_nonce = nonce,
        sr_signature = wire_hex E (mldsa_sign K key_a (as_bytes msg)), sr_public_key = Some (wire_hex E (mldsa_public K key_b))\<rparr>"
  shows "harmless inv 2 (spec_6_3_public_key_binding E K W t key_a key_b)"
proof (rule harmless2I)
  fix n s
  let ?did = "signer_did (ml_dsa_87_local E K key_a)"
  assume s: "inv (Suc (Suc n)) s"
  show "\<exists>c s'. spec_6_3_public_key_binding E K W t key_a key_b s = (c, s') \<and> cr_outcome c \<noteq> Fail \<and> inv n s'"
  proof (cases "admits ?did")
    case False
    from refuses [OF s this] slack show ?thesis by (force simp: spec_6_3_public_key_binding_def Let_def)
  next
    case True
    from issues [OF s this] obtain r s1 and e :: challenge_envelope where r: "fetch_challenge E W t ?did s = (Inr r, s1)"
      "is_success r" "inv (Suc n) s1" "hr_json r = Some (challenge_envelope_json e)" "is_well_formed_nonce (env_nonce e)"
      "pending s1 (env_nonce e) = Some (?did, env_message e)" by blast
    let ?sig = "mldsa_sign K key_a (as_bytes (env_message e))"
    have signed: "sign_challenge E r (ml_dsa_87_local E K key_a) =
        Inr (json_set ''public_key'' (JString (wire_hex E (mldsa_public K key_a))) (session_body E ?did (env_nonce e) ?sig))"
      using r(2) envelope_fields [OF r(4)] by (simp add: sign_challenge_Inr)
    let ?body = "json_set ''public_key'' (JString (wire_hex E (mldsa_public K key_b)))
        (json_set ''public_key'' (JString (wire_hex E (mldsa_public K key_a))) (session_body E ?did (env_nonce e) ?sig))"
    have "json_plain ?body" unfolding tampered_bodies(4) by (rule three_members_plain)
    moreover have read: "session_request_of_json ?body = Inr \<lparr>sr_did = ?did, sr_nonce = env_nonce e,
        sr_signature = wire_hex E ?sig, sr_public_key = Some (wire_hex E (mldsa_public K key_b))\<rparr>"
      unfolding tampered_bodies(4) three_members_read by (rule refl)
    ultimately obtain r2 s2 where "post_session E W t ?body s1 = (Inr r2, s2)" "inv n s2" "\<not> accepted r2"
      by (rule refused [OF r(3)]) (use r(6) probe [OF pending_in [OF r(3,6)]] in simp_all)
    with r signed show ?thesis by (simp add: spec_6_3_public_key_binding_def Let_def)
  qed
qed

end

section \<open>The run of the suite\<close>

text \<open>
  No probe of the run proves anything about a challenge in \<open>L\<close>: a corrupted signature, another
  key's signature, a signature of another message, and a \<open>did:aqua\<close> request with another key.
\<close>

definition probes_fail ::
  "('x, 'z) harness_crates_scheme \<Rightarrow> ('k, 'x, 'y) test_keys_scheme \<Rightarrow> (string \<times> string \<times> string) set \<Rightarrow>
   (string \<Rightarrow> session_request \<Rightarrow> bool) \<Rightarrow> 'k signature_draws \<Rightarrow> bool" where
  "probes_fail E K L proves d \<longleftrightarrow>
     (\<forall>i nonce msg. (signer_did (ed25519_did_key E K (sd_corruption_keys d i)), nonce, msg) \<in> L \<longrightarrow>
        (\<forall>(label, corrupt) \<in> set (SIGNATURE_CORRUPTIONS E).
           \<not> proves msg ((ed_request E K (sd_corruption_keys d i) nonce [])
               \<lparr>sr_signature := corrupt (wire_hex E (ed_sign K (sd_corruption_keys d i) (as_bytes msg)))\<rparr>))) \<and>
     (\<forall>nonce msg. (signer_did (ed25519_did_key E K (sd_keys d 0)), nonce, msg) \<in> L \<longrightarrow>
        \<not> proves msg (ed_request E K (sd_keys d 0) nonce (ed_sign K (sd_keys d 1) (as_bytes msg)))) \<and>
     (\<forall>nonce msg nonce' msg'. (signer_did (ed25519_did_key E K (sd_keys d 2)), nonce, msg) \<in> L \<longrightarrow>
        (signer_did (ed25519_did_key E K (sd_keys d 2)), nonce', msg') \<in> L \<longrightarrow> msg \<noteq> msg' \<longrightarrow>
        \<not> proves msg (ed_request E K (sd_keys d 2) nonce (ed_sign K (sd_keys d 2) (as_bytes msg')))) \<and>
     (\<forall>nonce msg. (signer_did (ml_dsa_87_local E K (sd_keys d 5)), nonce, msg) \<in> L \<longrightarrow>
        \<not> proves msg \<lparr>sr_did = signer_did (ml_dsa_87_local E K (sd_keys d 5)), sr_nonce = nonce,
            sr_signature = wire_hex E (mldsa_sign K (sd_keys d 5) (as_bytes msg)),
            sr_public_key = Some (wire_hex E (mldsa_public K (sd_keys d 6)))\<rparr>)"

definition SUITE_REQUESTS :: nat where
  "SUITE_REQUESTS = 47"

context caip122_server
begin

lemma suite_passes:
  assumes "inv SUITE_REQUESTS s"
    and clocks: "\<forall>i. su_wire_clock d i \<in> clocks" "sd_fetched_at (su_signature d) \<in> clocks"
    and unknown: "\<forall>did msg. (did, wire_hex E (nd_unknown_nonce (su_nonce d)), msg) \<notin> L"
    and dids: "\<not> admits (''did:pkh:solana:0x'' @ hex_encode E (nd_solana (su_nonce d)))"
      "\<forall>(label, did) \<in> set (malformed_dids E (nd_dids (su_nonce d))). \<not> admits did"
    and probes: "probes_fail E K L proves (su_signature d)"
    and env: "env EXPIRY_WAIT_ENV \<noteq> Some ''1''"
    and url: "U uri = Inr u" "U (tg_base_url t) = Inr v" "same_origin u v"
  shows "report_passed (fst (run_all E K W U env t d s))"
proof -
  note p = probes [unfolded probes_fail_def]
  have "list_all2 (harmless inv) [1, 1, 1, 1, 1, 2, 2, 2, 3, 1, 7, 5, 10, 2, 4, 1, 1, 2]
      (wire_cases E K W t (su_wire_keys d) (su_wire_clock d) @ nonce_and_did_cases E K W t (su_nonce d) @
       signature_cases E K W U env t (su_signature d))"
    unfolding wire_cases_def nonce_and_did_cases_def signature_cases_def append_Cons append_Nil
    using clocks unknown dids env url p
    by (intro list_all2_Cons [THEN iffD2] conjI list.rel_intros(1) required_fields_ok did_field_ok nonce_format_ok
        message_structure_ok expires_at_ok session_shape_ok unknown_fields_ok unknown_nonce_ok single_use_ok
        unsupported_namespace_ok malformed_dids_ok valid_spellings_ok corruptions_ok wrong_key_ok message_binding_ok
        expiry_ok uri_origin_ok public_key_binding_ok) blast+
  from run_cases_harmless [OF this, of 0 s] assms(1) show ?thesis
    by (auto simp: run_all_cases SUITE_REQUESTS_def)
qed

end

end
