(* ===== verification/Peer_Conforms.thy ===== *)
theory Peer_Conforms
  imports Conformant
begin

text \<open>
  The test peer against the conformance suite: \<open>AquaPeer\<close> behind its router is a server of the
  suite's interface, so the suite reports no failure against it. A request reads the clocks and
  the random bytes of one tick of a stream; the run has as many ticks as the suite sends requests.
\<close>

section \<open>The requests of the suite at the peer\<close>

definition served :: "('x, 'z) harness_crates_scheme \<Rightarrow> peer_reply \<Rightarrow> http_response" where
  "served E r = \<lparr>hr_status = py_status r, hr_text = py_body r, hr_json = json_read E (as_bytes (py_body r))\<rparr>"

definition next_world :: "aqua_peer \<Rightarrow> 'dt peer_world \<Rightarrow> 'dt peer_world" where
  "next_world p w = w\<lparr>pw_peer := p, pw_ticks := (\<lambda>i. pw_ticks w (Suc i))\<rparr>"

definition at_peer :: "target \<Rightarrow> 'dt peer_world \<Rightarrow> bool" where
  "at_peer t w \<longleftrightarrow>
     tg_base_url t = ap_base_url (pw_peer w) \<and> tg_challenge_path t = DEFAULT_CHALLENGE_PATH \<and>
     tg_session_path t = DEFAULT_SESSION_PATH"

lemma next_world_fields [simp]: "pw_peer (next_world p w) = p" "pw_ticks (next_world p w) = (\<lambda>i. pw_ticks w (Suc i))"
  by (simp_all add: next_world_def)

lemma peer_fetch:
  assumes "at_peer t w"
    and "challenge_handler E C (tk_purge (pw_ticks w 0)) (tk_nonce (pw_ticks w 0)) (tk_utc (pw_ticks w 0)) (Some did)
           (pw_peer w) = Some (p, r)"
  shows "fetch_challenge E (peer_reqwest E C V J) t did w =
    (Inr (served E (json_reply E (rmap challenge_envelope_json r))), next_world p w)"
  using assms
  by (simp add: fetch_challenge_def conf_get_challenge_def peer_reqwest_def at_peer_def peer_send_def peer_router_def
      DEFAULT_CHALLENGE_PATH_def on_get_def challenge_route_def challenge_query_def into_http_response_def served_def
      next_world_def Let_def)

lemma peer_post:
  assumes "at_peer t w" "json_law E" "mime_law E" "json_plain body" "session_request_of_json body = Inr req"
    and "session_handler E (tk_check (pw_ticks w 0)) (tk_purge (pw_ticks w 0)) (tk_token (pw_ticks w 0))
           (tk_now (pw_ticks w 0)) req (pw_peer w) = (p, r)"
  shows "post_session E (peer_reqwest E C V J) t body w =
    (Inr (served E (json_reply E (rmap session_response_json r))), next_world p w)"
proof -
  have "json_read E (as_bytes (json_display E body)) = Some body" using assms(2,4) by (simp add: json_law_def)
  then have "session_route E (pw_ticks w 0) [(''content-type'', ''application/json'')] (json_display E body) (pw_peer w) =
      (p, json_reply E (rmap session_response_json r))"
    using assms(3,5,6) by (simp add: session_route_def session_extract_def header_str_def header_value_to_str_def mime_law_def)
  with assms(1) show ?thesis
    by (simp add: post_session_def conf_post_session_def peer_reqwest_def at_peer_def peer_send_def peer_router_def
        DEFAULT_SESSION_PATH_def into_http_response_def served_def next_world_def Let_def)
qed

lemma served_error:
  assumes "\<not> (200 \<le> status \<and> status < 300)"
  shows "\<not> is_success (served E (json_reply E (Inl status)))" "\<not> accepted (served E (json_reply E (Inl status)))"
  using assms by (auto simp: served_def json_reply_def status_reply_def is_success_def accepted_def)

lemma served_value:
  assumes "json_law E" "json_plain v"
  shows "is_success (served E (json_reply E (Inr v)))" "hr_json (served E (json_reply E (Inr v))) = Some v"
  using assms by (simp_all add: served_def json_reply_def is_success_def json_law_def)

lemma wire_plain: "json_plain (challenge_envelope_json e)" "json_plain (session_response_json r)"
proof -
  have "\<exists>n<2 ^ 64. show_nat (unat (x :: u64)) = show_nat n" for x
    using unsigned_less [of x, where ?'a = nat] by auto
  then show "json_plain (challenge_envelope_json e)" "json_plain (session_response_json r)"
    by (simp_all add: challenge_envelope_json_def session_response_json_def json_u64_def)
qed

lemmas served_envelope = served_value [OF _ wire_plain(1)]
lemmas served_session = served_value [OF _ wire_plain(2)]

section \<open>The run\<close>

text \<open>
  The DIDs the peer issues challenges to: well formed, and with an identifier and a label for the
  message. What a session request proves about a message is \<open>session_proof\<close> on it.
\<close>

definition peer_admits :: "('x, 'z) crates_scheme \<Rightarrow> string \<Rightarrow> bool" where
  "peer_admits E did =
     (validate_did_well_formed E did = Inr () \<and>
      (case find_did_method E did of
         None \<Rightarrow> False
       | Some m \<Rightarrow> is_ok (address_for_message E m did) \<and> is_ok (method_label E m did)))"

definition peer_proves :: "('x, 'z) crates_scheme \<Rightarrow> string \<Rightarrow> session_request \<Rightarrow> bool" where
  "peer_proves E msg req =
     is_ok (session_proof E \<lparr>ch_did = sr_did req, ch_nonce = sr_nonce req, ch_message = msg, ch_expires_at = 0\<rparr> req)"

definition peer_pending :: "'dt peer_world \<Rightarrow> string \<Rightarrow> (string \<times> string) option" where
  "peer_pending w nonce =
     map_option (\<lambda>ch. (ch_did ch, ch_message ch)) (map_of (cs_challenges (ap_challenges (pw_peer w))) nonce)"

text \<open>A run: the target, the deployment, the clock values the suite reads, and the ticks.\<close>

record 'dt peer_run =
  pr_target :: target
  pr_ttl_secs :: u64
  pr_domain :: string
  pr_clocks :: "u64 set"
  pr_ticks :: "nat \<Rightarrow> 'dt tick"
  pr_requests :: nat

definition tick_nonce :: "('x, 'z) crates_scheme \<Rightarrow> 'dt tick \<Rightarrow> string" where
  "tick_nonce E tk = ''0x'' @ hex_encode E (tk_nonce tk)"

text \<open>The challenge a tick gives a DID.\<close>

definition tick_challenge ::
  "('x, 'z) crates_scheme \<Rightarrow> 'dt chrono \<Rightarrow> 'dt peer_run \<Rightarrow> 'dt tick \<Rightarrow> string \<Rightarrow> challenge option" where
  "tick_challenge E C R tk did =
     Option.bind (dt_add_seconds C (tk_utc tk) (sint (pr_ttl_secs R))) (\<lambda>expires.
       case build_message E C
              \<lparr>mp_did = did, mp_domain = pr_domain R, mp_uri = tg_base_url (pr_target R), mp_nonce = tick_nonce E tk,
               mp_issued_at = tk_utc tk, mp_expiration_time = expires\<rparr> of
         Inl _ \<Rightarrow> None
       | Inr message \<Rightarrow>
           Some \<lparr>ch_did = did, ch_nonce = tick_nonce E tk, ch_message = message,
                 ch_expires_at = timestamp_u64 C expires\<rparr>)"

definition run_challenges ::
  "('x, 'z) crates_scheme \<Rightarrow> 'dt chrono \<Rightarrow> 'dt peer_run \<Rightarrow> (string \<times> string \<times> string) set" where
  "run_challenges E C R =
     {(did, tick_nonce E (pr_ticks R i), ch_message ch) | did i ch.
        i < pr_requests R \<and> tick_challenge E C R (pr_ticks R i) did = Some ch}"

text \<open>
  The run is within one challenge lifetime: no nonce is drawn twice, no date overflows, a challenge
  is issued for less than a day and outlives every clock value read, and so does a session.
\<close>

definition run_in_time :: "('x, 'z) crates_scheme \<Rightarrow> 'dt chrono \<Rightarrow> 'dt peer_run \<Rightarrow> bool" where
  "run_in_time E C R \<longleftrightarrow>
     inj_on (\<lambda>i. tk_nonce (pr_ticks R i)) {..<pr_requests R} \<and>
     (\<forall>tk \<in> pr_ticks R ` {..<pr_requests R}.
        length (tk_nonce tk) = 32 \<and> length (tk_token tk) = 32 \<and>
        (\<exists>expires. dt_add_seconds C (tk_utc tk) (sint (pr_ttl_secs R)) = Some expires \<and>
           fresh_window (pr_clocks R) (timestamp_u64 C expires) \<and>
           (\<forall>tk' \<in> pr_ticks R ` {..<pr_requests R}. tk_check tk' < timestamp_u64 C expires)) \<and>
        (\<forall>now \<in> pr_clocks R. now < tk_now tk + SESSION_TTL_SECS) \<and> tk_now tk \<le> tk_now tk + SESSION_TTL_SECS)"

text \<open>What the crates are relied on for.\<close>

definition peer_crates_ok ::
  "('x, 'z) harness_crates_scheme \<Rightarrow> ('k, 'x, 'y) test_keys_scheme \<Rightarrow> 'dt chrono \<Rightarrow> bool" where
  "peer_crates_ok E K C \<longleftrightarrow>
     hex_law E \<and> hex_decode_law E \<and> hex_case_law E \<and> bs58_law E \<and> digest_law E \<and> json_law E \<and> mime_law E \<and> chrono_law C \<and>
     ed_pair_law E K \<and> p256_pair_law E K"

text \<open>The invariant: \<open>n\<close> ticks and \<open>n\<close> sessions are left, and the store holds challenges of past ticks.\<close>

definition ticks_left :: "('x, 'z) crates_scheme \<Rightarrow> 'dt peer_run \<Rightarrow> nat \<Rightarrow> 'dt peer_world \<Rightarrow> bool" where
  "ticks_left E R n w \<longleftrightarrow>
     (\<exists>i. i + n \<le> pr_requests R \<and> pw_ticks w = (\<lambda>j. pr_ticks R (i + j)) \<and>
        (\<forall>j. i \<le> j \<longrightarrow> j < pr_requests R \<longrightarrow> peer_pending w (tick_nonce E (pr_ticks R j)) = None))"

definition challenges_current ::
  "('x, 'z) crates_scheme \<Rightarrow> 'dt chrono \<Rightarrow> 'dt peer_run \<Rightarrow> challenge_store \<Rightarrow> bool" where
  "challenges_current E C R st \<longleftrightarrow>
     dmap_wf (cs_challenges st) \<and> cs_ttl_secs st = pr_ttl_secs R \<and> cs_domain st = pr_domain R \<and>
     cs_uri st = tg_base_url (pr_target R) \<and>
     (\<forall>nonce ch. map_of (cs_challenges st) nonce = Some ch \<longrightarrow>
        (\<exists>tk \<in> pr_ticks R ` {..<pr_requests R}. nonce = tick_nonce E tk \<and> tick_challenge E C R tk (ch_did ch) = Some ch))"

definition sessions_left :: "nat \<Rightarrow> in_memory_state session_store \<Rightarrow> bool" where
  "sessions_left n st \<longleftrightarrow>
     in_memory_inv (ss_backend st) \<and> length (ss_backend st) + n \<le> ss_max_sessions st \<and> ss_ttl_secs st = SESSION_TTL_SECS"

definition peer_inv ::
  "('x, 'z) harness_crates_scheme \<Rightarrow> ('k, 'x, 'y) test_keys_scheme \<Rightarrow> 'dt chrono \<Rightarrow> 'dt peer_run \<Rightarrow> nat \<Rightarrow>
   'dt peer_world \<Rightarrow> bool" where
  "peer_inv E K C R n w \<longleftrightarrow>
     peer_crates_ok E K C \<and> tidy (pr_domain R) (tg_base_url (pr_target R)) \<and> run_in_time E C R \<and>
     at_peer (pr_target R) w \<and> ticks_left E R n w \<and> challenges_current E C R (ap_challenges (pw_peer w)) \<and>
     sessions_left n (ap_sessions (pw_peer w))"

section \<open>One request\<close>

definition minted :: "('x, 'z) crates_scheme \<Rightarrow> 'dt tick \<Rightarrow> challenge \<Rightarrow> challenge_store \<Rightarrow> challenge_store" where
  "minted E tk ch st =
     (make_room (tk_purge tk) st)\<lparr>cs_challenges :=
        AList.update (tick_nonce E tk) ch (cs_challenges (make_room (tk_purge tk) st))\<rparr>"

lemma admits_builds:
  assumes "peer_admits E (mp_did ps)"
  shows "\<exists>message. build_message E C ps = Inr message"
  using assms unfolding build_message_Inr
  by (auto simp: peer_admits_def is_ok_iff split: option.splits)

lemma tick_challenge_Some:
  "tick_challenge E C R tk did = Some ch \<longleftrightarrow>
     (\<exists>expires. dt_add_seconds C (tk_utc tk) (sint (pr_ttl_secs R)) = Some expires \<and>
        build_message E C \<lparr>mp_did = did, mp_domain = pr_domain R, mp_uri = tg_base_url (pr_target R),
          mp_nonce = tick_nonce E tk, mp_issued_at = tk_utc tk, mp_expiration_time = expires\<rparr> = Inr (ch_message ch) \<and>
        ch_did ch = did \<and> ch_nonce ch = tick_nonce E tk \<and> ch_expires_at ch = timestamp_u64 C expires)"
  by (cases ch; cases "dt_add_seconds C (tk_utc tk) (sint (pr_ttl_secs R))")
     (auto simp: tick_challenge_def split: sum.splits)

lemma peer_mints:
  assumes "challenges_current E C R (ap_challenges p)" "peer_admits E did"
    and "dt_add_seconds C (tk_utc tk) (sint (pr_ttl_secs R)) = Some expires"
  obtains ch where "tick_challenge E C R tk did = Some ch"
    "challenge_handler E C (tk_purge tk) (tk_nonce tk) (tk_utc tk) (Some did) p =
       Some (p\<lparr>ap_challenges := minted E tk ch (ap_challenges p)\<rparr>,
         Inr \<lparr>env_nonce = tick_nonce E tk, env_message = ch_message ch, env_expires_at = timestamp_u64 C expires\<rparr>)"
proof -
  obtain message where m: "build_message E C \<lparr>mp_did = did, mp_domain = pr_domain R, mp_uri = tg_base_url (pr_target R),
      mp_nonce = tick_nonce E tk, mp_issued_at = tk_utc tk, mp_expiration_time = expires\<rparr> = Inr message"
    using admits_builds [of E "\<lparr>mp_did = did, mp_domain = pr_domain R, mp_uri = tg_base_url (pr_target R),
      mp_nonce = tick_nonce E tk, mp_issued_at = tk_utc tk, mp_expiration_time = expires\<rparr>" C] assms(2) by auto
  let ?ch = "\<lparr>ch_did = did, ch_nonce = tick_nonce E tk, ch_message = message, ch_expires_at = timestamp_u64 C expires\<rparr>"
  have "challenge_create E C (tk_purge tk) (tk_nonce tk) (tk_utc tk) did (ap_challenges p) =
      Some (minted E tk ?ch (ap_challenges p), Inr ?ch)"
    unfolding challenge_create_Inr using assms m
    by (auto simp: challenges_current_def peer_admits_def minted_def tick_nonce_def)
  moreover have "find_did_method E did \<noteq> None" using assms(2) by (auto simp: peer_admits_def split: option.splits)
  ultimately show thesis using that [of ?ch] assms(3) m by (simp add: tick_challenge_Some challenge_handler_def)
qed

lemma peer_declines:
  assumes "challenges_current E C R (ap_challenges p)" "\<not> peer_admits E did"
    and "dt_add_seconds C (tk_utc tk) (sint (pr_ttl_secs R)) = Some expires"
  obtains st where "challenge_handler E C (tk_purge tk) (tk_nonce tk) (tk_utc tk) (Some did) p =
      Some (p\<lparr>ap_challenges := st\<rparr>, Inl 400)" "st \<in> {ap_challenges p, make_room (tk_purge tk) (ap_challenges p)}"
proof (cases "find_did_method E did")
  case None
  then show thesis using that [of "ap_challenges p"] by (simp add: challenge_handler_def)
next
  case (Some m)
  have "build_message E C ps \<noteq> Inr message"
    if "mp_did ps = did" "validate_did_well_formed E did = Inr ()" for ps message
    using that assms(2) Some by (auto simp: build_message_Inr peer_admits_def)
  then have "\<exists>e. build_message E C ps = Inl e"
    if "mp_did ps = did" "validate_did_well_formed E did = Inr ()" for ps
    using that by (cases "build_message E C ps") auto
  from this [of "\<lparr>mp_did = did, mp_domain = cs_domain (ap_challenges p), mp_uri = cs_uri (ap_challenges p),
      mp_nonce = ''0x'' @ hex_encode E (tk_nonce tk), mp_issued_at = tk_utc tk, mp_expiration_time = expires\<rparr>"]
  have "validate_did_well_formed E did = Inr () \<Longrightarrow> \<exists>e. build_message E C \<lparr>mp_did = did, mp_domain = cs_domain (ap_challenges p),
      mp_uri = cs_uri (ap_challenges p), mp_nonce = ''0x'' @ hex_encode E (tk_nonce tk), mp_issued_at = tk_utc tk,
      mp_expiration_time = expires\<rparr> = Inl e" by simp
  moreover have "dt_add_seconds C (tk_utc tk) (sint (cs_ttl_secs (ap_challenges p))) = Some expires"
    using assms(1,3) by (simp add: challenges_current_def)
  ultimately obtain st e where st: "challenge_create E C (tk_purge tk) (tk_nonce tk) (tk_utc tk) did (ap_challenges p) =
      Some (st, Inl e)"
    by (cases "validate_did_well_formed E did") (auto simp: challenge_create_def Let_def)
  with that [of st] challenge_create_Inl [OF st] Some show thesis by (simp add: challenge_handler_def)
qed

section \<open>The invariant over a request\<close>

lemma tick_nonce_inject:
  assumes "hex_law E" "run_in_time E C R" "i < pr_requests R" "j < pr_requests R"
    and "tick_nonce E (pr_ticks R i) = tick_nonce E (pr_ticks R j)"
  shows "i = j"
proof -
  have "hex_encode E (tk_nonce (pr_ticks R i)) = hex_encode E (tk_nonce (pr_ticks R j))"
    using assms(5) by (simp add: tick_nonce_def)
  then have "tk_nonce (pr_ticks R i) = tk_nonce (pr_ticks R j)" using hex_lawD(1) [OF assms(1)] by (metis sum.inject(2))
  with assms(2-4) show ?thesis by (simp add: run_in_time_def inj_on_def)
qed

lemma peer_inv_tick:
  assumes "peer_inv E K C R (Suc n) w"
  shows "pw_ticks w 0 \<in> pr_ticks R ` {..<pr_requests R}" "peer_pending w (tick_nonce E (pw_ticks w 0)) = None"
proof -
  obtain i where i: "i + Suc n \<le> pr_requests R" "pw_ticks w = (\<lambda>j. pr_ticks R (i + j))"
    "\<forall>j. i \<le> j \<longrightarrow> j < pr_requests R \<longrightarrow> peer_pending w (tick_nonce E (pr_ticks R j)) = None"
    using assms by (auto simp: peer_inv_def ticks_left_def)
  then show "pw_ticks w 0 \<in> pr_ticks R ` {..<pr_requests R}" "peer_pending w (tick_nonce E (pw_ticks w 0)) = None"
    by (auto intro!: imageI)
qed

lemma ticks_left_next:
  assumes "ticks_left E R (Suc n) w" "hex_law E" "run_in_time E C R"
    and "\<And>k. k \<noteq> tick_nonce E (pw_ticks w 0) \<Longrightarrow> peer_pending w k = None \<Longrightarrow> peer_pending (next_world p w) k = None"
  shows "ticks_left E R n (next_world p w)"
proof -
  obtain i where i: "i + Suc n \<le> pr_requests R" "pw_ticks w = (\<lambda>j. pr_ticks R (i + j))"
    "\<And>j. i \<le> j \<Longrightarrow> j < pr_requests R \<Longrightarrow> peer_pending w (tick_nonce E (pr_ticks R j)) = None"
    using assms(1) by (auto simp: ticks_left_def)
  have "peer_pending (next_world p w) (tick_nonce E (pr_ticks R j)) = None" if j: "Suc i \<le> j" "j < pr_requests R" for j
    using tick_nonce_inject [OF assms(2,3), of j i] i(1) i(3) [of j] j by (intro assms(4)) (auto simp: i(2))
  then show ?thesis unfolding ticks_left_def using i(1,2) by (intro exI [of _ "Suc i"]) auto
qed

lemma peer_inv_next:
  assumes "peer_inv E K C R (Suc n) w" "ap_base_url p = ap_base_url (pw_peer w)"
    and "challenges_current E C R (ap_challenges p)" "sessions_left n (ap_sessions p)"
    and "\<And>k. k \<noteq> tick_nonce E (pw_ticks w 0) \<Longrightarrow> peer_pending w k = None \<Longrightarrow> peer_pending (next_world p w) k = None"
  shows "peer_inv E K C R n (next_world p w)"
  using assms(1-4) ticks_left_next [OF _ _ _ assms(5)]
  by (auto simp: peer_inv_def at_peer_def peer_crates_ok_def)

lemma ticks_left_less:
  assumes "ticks_left E R (Suc n) w"
  shows "ticks_left E R n w"
proof -
  obtain i where "i + Suc n \<le> pr_requests R" "pw_ticks w = (\<lambda>j. pr_ticks R (i + j))"
    "\<forall>j. i \<le> j \<longrightarrow> j < pr_requests R \<longrightarrow> peer_pending w (tick_nonce E (pr_ticks R j)) = None"
    using assms unfolding ticks_left_def by blast
  then show ?thesis unfolding ticks_left_def by (intro exI [of _ i]) simp
qed

lemma sessions_left_less: "sessions_left (Suc n) st \<Longrightarrow> sessions_left n st"
  by (simp add: sessions_left_def)

lemma challenges_current_less:
  assumes "challenges_current E C R st" "dmap_wf (cs_challenges st')"
    and "cs_ttl_secs st' = cs_ttl_secs st" "cs_domain st' = cs_domain st" "cs_uri st' = cs_uri st"
    and "\<And>k c. map_of (cs_challenges st') k = Some c \<Longrightarrow> map_of (cs_challenges st) k = Some c"
  shows "challenges_current E C R st'"
  using assms(1-5) assms(6) unfolding challenges_current_def by metis

lemma room_current:
  assumes "challenges_current E C R st"
  shows "challenges_current E C R (make_room now st)"
  using assms by (intro challenges_current_less [OF assms]) (auto simp: challenges_current_def dest: make_room_map(1))

lemma minted_current:
  assumes "challenges_current E C R st" "tk \<in> pr_ticks R ` {..<pr_requests R}" "tick_challenge E C R tk did = Some ch"
  shows "challenges_current E C R (minted E tk ch st)"
proof -
  have "ch_did ch = did" using assms(3) by (auto simp: tick_challenge_Some)
  with room_current [OF assms(1), of "tk_purge tk"] assms(2,3) show ?thesis
    unfolding challenges_current_def minted_def by auto
qed

lemma spent_current:
  assumes "challenges_current E C R st"
  shows "challenges_current E C R (st\<lparr>cs_challenges := AList.delete n (cs_challenges st)\<rparr>)"
  using assms by (intro challenges_current_less [OF assms]) (auto simp: challenges_current_def split: if_splits)

text \<open>What the run of an operation leaves pending.\<close>

lemma peer_pending_next:
  "peer_pending (next_world (p\<lparr>ap_challenges := st\<rparr>) w) n =
     map_option (\<lambda>ch. (ch_did ch, ch_message ch)) (map_of (cs_challenges st) n)"
  "peer_pending (next_world (p\<lparr>ap_challenges := st, ap_sessions := ss\<rparr>) w) n =
     map_option (\<lambda>ch. (ch_did ch, ch_message ch)) (map_of (cs_challenges st) n)"
  by (simp_all add: peer_pending_def)

lemma pending_sub:
  assumes "\<And>k c. map_of (cs_challenges st) k = Some c \<Longrightarrow> map_of (cs_challenges (ap_challenges (pw_peer w))) k = Some c"
  shows "(\<lambda>n. map_option (\<lambda>ch. (ch_did ch, ch_message ch)) (map_of (cs_challenges st) n)) \<subseteq>\<^sub>m peer_pending w"
  using assms unfolding map_le_def dom_def peer_pending_def by fastforce

section \<open>The peer keeps the interface\<close>

lemma peer_inv_expires:
  assumes "peer_inv E K C R (Suc n) w"
  obtains expires where "dt_add_seconds C (tk_utc (pw_ticks w 0)) (sint (pr_ttl_secs R)) = Some expires"
    "fresh_window (pr_clocks R) (timestamp_u64 C expires)"
  using assms peer_inv_tick(1) [OF assms] unfolding peer_inv_def run_in_time_def by blast

lemma run_in_timeD:
  assumes "run_in_time E C R" "tk \<in> pr_ticks R ` {..<pr_requests R}"
  shows "length (tk_nonce tk) = 32" "length (tk_token tk) = 32" "now \<in> pr_clocks R \<Longrightarrow> now < tk_now tk + SESSION_TTL_SECS"
    "tk_now tk \<le> tk_now tk + SESSION_TTL_SECS"
    "tick_challenge E C R tk did = Some ch \<Longrightarrow> tk' \<in> pr_ticks R ` {..<pr_requests R} \<Longrightarrow> tk_check tk' < ch_expires_at ch"
proof -
  note r = assms(1) [unfolded run_in_time_def, THEN conjunct2, rule_format, OF assms(2)]
  show "length (tk_nonce tk) = 32" "length (tk_token tk) = 32" "now \<in> pr_clocks R \<Longrightarrow> now < tk_now tk + SESSION_TTL_SECS"
    "tk_now tk \<le> tk_now tk + SESSION_TTL_SECS" using r by blast+
  show "tk_check tk' < ch_expires_at ch"
    if "tick_challenge E C R tk did = Some ch" "tk' \<in> pr_ticks R ` {..<pr_requests R}"
    using that r by (auto simp: tick_challenge_Some)
qed

lemma peer_refuses:
  assumes "peer_inv E K C R (Suc n) w" "\<not> peer_admits E did"
  shows "\<exists>resp w'. fetch_challenge E (peer_reqwest E C V J) (pr_target R) did w = (Inr resp, w') \<and>
    \<not> is_success resp \<and> peer_inv E K C R n w'"
proof -
  obtain expires where x: "dt_add_seconds C (tk_utc (pw_ticks w 0)) (sint (pr_ttl_secs R)) = Some expires"
    using peer_inv_expires [OF assms(1)] by metis
  have cur: "challenges_current E C R (ap_challenges (pw_peer w))" and at: "at_peer (pr_target R) w"
    and ses: "sessions_left (Suc n) (ap_sessions (pw_peer w))" using assms(1) by (simp_all add: peer_inv_def)
  obtain st where st: "challenge_handler E C (tk_purge (pw_ticks w 0)) (tk_nonce (pw_ticks w 0)) (tk_utc (pw_ticks w 0))
      (Some did) (pw_peer w) = Some ((pw_peer w)\<lparr>ap_challenges := st\<rparr>, Inl 400)"
    "st \<in> {ap_challenges (pw_peer w), make_room (tk_purge (pw_ticks w 0)) (ap_challenges (pw_peer w))}"
    by (rule peer_declines [OF cur assms(2) x])
  let ?w = "next_world ((pw_peer w)\<lparr>ap_challenges := st\<rparr>) w"
  have wf: "dmap_wf (cs_challenges (ap_challenges (pw_peer w)))" using cur by (simp add: challenges_current_def)
  have "peer_pending ?w k = None" if "peer_pending w k = None" for k
    using that st(2) make_room_map(1) [OF wf, of "tk_purge (pw_ticks w 0)" k]
    by (cases "map_of (cs_challenges st) k") (auto simp: peer_pending_next peer_pending_def)
  moreover have "challenges_current E C R st" using st(2) cur room_current by blast
  ultimately have "peer_inv E K C R n ?w"
    using sessions_left_less [OF ses] by (intro peer_inv_next [OF assms(1)]) simp_all
  with peer_fetch [OF at st(1)] served_error(1) [of 400] show ?thesis by simp
qed

lemma nonce_shape:
  assumes "hex_law E" "length b = 32"
  shows "is_well_formed_nonce (''0x'' @ hex_encode E b)" "lower_hex_64 (hex_encode E b)"
  using assms hex_lawD(2,3) [OF assms(1)]
  by (simp_all only: is_well_formed_nonce_def strip_prefix_append option.case lower_hex_64_def list_all_iff) auto

lemma ed25519_challenge:
  assumes "peer_crates_ok E K C" "did = signer_did (ed25519_did_key E K key)" "tick_challenge E C R tk did = Some ch"
    and "env_message e = ch_message ch" "env_nonce e = tick_nonce E tk"
  shows "ed25519_text (pr_domain R) (tg_base_url (pr_target R)) (drop 8 did) e"
proof -
  let ?z = "bs58_encode E (ED25519_MULTICODEC @ ed_public K key)"
  have did: "did = ''did:key:z'' @ ?z" using assms(2) by (simp add: ed25519_did_key_def ed25519_local_def Let_def)
  have "ED25519_MULTICODEC = ED25519_PREFIX" by (simp add: ED25519_MULTICODEC_def ED25519_PREFIX_def)
  then have "decode_multibase_key E ?z = Inr (Ed25519Key (ed_public K key))"
    using assms(1) bs58_lawD(1) [of E] by (simp add: decode_multibase_key_Ed peer_crates_ok_def ed_pair_law_def)
  moreover have "find_did_method E did = Some KeyMethod" unfolding did
    using find_did_method_prefix(2) [of E "''z'' @ ?z"] by simp
  ultimately obtain expires where
    "env_message e = message_text (pr_domain R) ''Ed25519'' (drop 8 did) (tg_base_url (pr_target R)) (env_nonce e)
       (dt_format C (tk_utc tk)) (dt_format C expires)"
    using assms(3,4,5)
    by (auto simp: tick_challenge_Some build_message_Inr did key_address_for_message_def key_method_label_def key_z_body_def
        chain_suffix_def no_chain_id_def strip_prefix_def starts_with_def)
  moreover have "\<forall>c \<in> set (dt_format C d). graphic c" for d
    using assms(1) chrono_format_graphic [of C] by (auto simp: peer_crates_ok_def)
  ultimately show ?thesis unfolding ed25519_text_def by blast
qed

lemma peer_issues:
  assumes "peer_inv E K C R (Suc n) w" "peer_admits E did"
  shows "\<exists>resp w' e. fetch_challenge E (peer_reqwest E C V J) (pr_target R) did w = (Inr resp, w') \<and> is_success resp \<and>
    peer_inv E K C R n w' \<and> hr_json resp = Some (challenge_envelope_json e) \<and> is_well_formed_nonce (env_nonce e) \<and>
    fresh_window (pr_clocks R) (env_expires_at e) \<and> peer_pending w (env_nonce e) = None \<and>
    peer_pending w' (env_nonce e) = Some (did, env_message e) \<and>
    peer_pending w' \<subseteq>\<^sub>m (peer_pending w)(env_nonce e \<mapsto> (did, env_message e)) \<and>
    (\<forall>key. did = signer_did (ed25519_did_key E K key) \<longrightarrow>
       ed25519_text (pr_domain R) (tg_base_url (pr_target R)) (drop 8 did) e)"
proof -
  let ?tk = "pw_ticks w 0" and ?p = "pw_peer w"
  obtain expires where x: "dt_add_seconds C (tk_utc ?tk) (sint (pr_ttl_secs R)) = Some expires"
    "fresh_window (pr_clocks R) (timestamp_u64 C expires)" by (rule peer_inv_expires [OF assms(1)])
  have cur: "challenges_current E C R (ap_challenges ?p)" and at: "at_peer (pr_target R) w"
    and ses: "sessions_left (Suc n) (ap_sessions ?p)" and laws: "peer_crates_ok E K C" "run_in_time E C R"
    using assms(1) by (simp_all add: peer_inv_def)
  note tk = peer_inv_tick [OF assms(1)]
  obtain ch where ch: "tick_challenge E C R ?tk did = Some ch"
    "challenge_handler E C (tk_purge ?tk) (tk_nonce ?tk) (tk_utc ?tk) (Some did) ?p =
       Some (?p\<lparr>ap_challenges := minted E ?tk ch (ap_challenges ?p)\<rparr>,
         Inr \<lparr>env_nonce = tick_nonce E ?tk, env_message = ch_message ch, env_expires_at = timestamp_u64 C expires\<rparr>)"
    by (rule peer_mints [OF cur assms(2) x(1)])
  let ?e = "\<lparr>env_nonce = tick_nonce E ?tk, env_message = ch_message ch, env_expires_at = timestamp_u64 C expires\<rparr>"
  let ?w = "next_world (?p\<lparr>ap_challenges := minted E ?tk ch (ap_challenges ?p)\<rparr>) w"
  have wf: "dmap_wf (cs_challenges (ap_challenges ?p))" using cur by (simp add: challenges_current_def)
  have did: "ch_did ch = did" using ch(1) by (auto simp: tick_challenge_Some)
  have here: "peer_pending ?w (tick_nonce E ?tk) = Some (did, ch_message ch)"
    by (simp add: peer_pending_next minted_def did)
  have there: "peer_pending ?w k = Some v \<Longrightarrow> peer_pending w k = Some v" if "k \<noteq> tick_nonce E ?tk" for k v
    using that make_room_map(1) [OF wf, of "tk_purge ?tk" k] by (auto simp: peer_pending_next minted_def peer_pending_def)
  have sub: "peer_pending ?w \<subseteq>\<^sub>m (peer_pending w)(tick_nonce E ?tk \<mapsto> (did, ch_message ch))"
    using here there unfolding map_le_def by (auto simp: fun_upd_def)
  have "peer_inv E K C R n ?w"
  proof (rule peer_inv_next [OF assms(1)])
    show "peer_pending ?w k = None" if "k \<noteq> tick_nonce E ?tk" "peer_pending w k = None" for k
      using that there [OF that(1)] by (cases "peer_pending ?w k") auto
  qed (use minted_current [OF cur tk(1) ch(1)] sessions_left_less [OF ses] in simp_all)
  moreover have "is_well_formed_nonce (tick_nonce E ?tk)"
    unfolding tick_nonce_def using laws tk(1) by (intro nonce_shape(1)) (simp_all add: peer_crates_ok_def run_in_timeD)
  moreover have "json_law E" using laws(1) by (simp add: peer_crates_ok_def)
  note served_envelope [OF this, of ?e]
  ultimately show ?thesis
    using peer_fetch [OF at ch(2), of V J] here sub x(2) tk(2) ed25519_challenge [OF laws(1) _ ch(1), of _ ?e]
    by (intro exI [of _ "served E (json_reply E (Inr (challenge_envelope_json ?e)))"] exI [of _ ?w] exI [of _ ?e]) auto
qed

lemma proof_proves:
  "is_ok (session_proof E ch req) \<longleftrightarrow> ch_did ch = sr_did req \<and> peer_proves E (ch_message ch) req"
  by (simp add: peer_proves_def session_proof_def)

lemma peer_proves_iff:
  "peer_proves E msg req \<longleftrightarrow>
     (\<exists>sig pk. hex_decode E (trim_0x (sr_signature req)) = Inr sig \<and>
        (case sr_public_key req of
           None \<Rightarrow> pk = None
         | Some h \<Rightarrow> \<exists>k. hex_decode E (trim_0x h) = Inr k \<and> pk = Some k) \<and>
        possession E (sr_did req) msg sig pk)"
  by (auto simp: peer_proves_def is_ok_iff session_proof_Inr)

lemma session_room:
  assumes "sessions_left (Suc n) st"
  shows "\<exists>st'. session_create in_memory E now_purge tb now did st = (st', Inr \<lparr>se_did = did, se_token = hex_encode E tb,
      se_valid_until = now + SESSION_TTL_SECS, se_created_at = now\<rparr>) \<and> sessions_left n st'"
proof -
  obtain st' s where s: "session_create in_memory E now_purge tb now did st = (st', Inr s)"
    using session_create_room [of st E now_purge tb now did] assms by (auto simp: sessions_left_def)
  have inv: "in_memory_inv (ss_backend st')"
    using session_create_Inr(3) [OF _ s] assms by (simp add: sessions_left_def)
  have room: "swept in_memory now_purge st = st"
    using assms by (simp add: swept_def sessions_left_def in_memory_def)
  from s obtain b where b: "s = \<lparr>se_did = did, se_token = hex_encode E tb, se_valid_until = now + ss_ttl_secs st, se_created_at = now\<rparr>"
    "st' = (enforce_per_did_cap in_memory did st)\<lparr>ss_backend := b\<rparr>"
    "be_insert in_memory s (ss_backend (enforce_per_did_cap in_memory did st)) = (b, Inr ())"
    by (auto elim!: mem.create_cases simp: room)
  have "length (ss_backend (enforce_per_did_cap in_memory did st)) \<le> length (ss_backend st)"
    "ss_max_sessions (enforce_per_did_cap in_memory did st) = ss_max_sessions st"
    "ss_ttl_secs (enforce_per_did_cap in_memory did st) = ss_ttl_secs st"
    by (auto simp: enforce_per_did_cap_def in_memory_def in_memory_remove_def delete_eq_filter Let_def split: list.splits)
  moreover have "length b \<le> Suc (length (ss_backend (enforce_per_did_cap in_memory did st)))"
    using b(3) by (auto simp: in_memory_def in_memory_insert_def length_update_le)
  ultimately have "sessions_left n st'" using assms inv b(2) by (simp add: sessions_left_def)
  with s b(1) assms show ?thesis by (auto simp: sessions_left_def)
qed

text \<open>The answer to a session request: a refusal of what proves nothing, or the session.\<close>

definition session_verdict ::
  "('x, 'z) crates_scheme \<Rightarrow> 'dt tick \<Rightarrow> session_request \<Rightarrow> 'dt peer_world \<Rightarrow> nat + session_response \<Rightarrow> bool" where
  "session_verdict E tk req w r \<longleftrightarrow>
     (case r of
        Inl status \<Rightarrow> status \<in> {401, 404} \<and>
          (\<forall>msg. peer_pending w (sr_nonce req) = Some (sr_did req, msg) \<longrightarrow> \<not> peer_proves E msg req)
      | Inr resp \<Rightarrow>
          resp = \<lparr>resp_did = sr_did req, resp_token = hex_encode E (tk_token tk),
                  resp_valid_until = tk_now tk + SESSION_TTL_SECS, resp_created_at = tk_now tk\<rparr> \<and>
          (\<exists>msg. peer_pending w (sr_nonce req) = Some (sr_did req, msg) \<and> peer_proves E msg req))"

lemma peer_session:
  assumes "peer_inv E K C R (Suc n) w"
  obtains p r where "session_handler E (tk_check (pw_ticks w 0)) (tk_purge (pw_ticks w 0)) (tk_token (pw_ticks w 0))
      (tk_now (pw_ticks w 0)) req (pw_peer w) = (p, r)"
    "peer_inv E K C R n (next_world p w)" "peer_pending (next_world p w) \<subseteq>\<^sub>m (peer_pending w)(sr_nonce req := None)"
    "session_verdict E (pw_ticks w 0) req w r"
proof -
  let ?tk = "pw_ticks w 0" and ?p = "pw_peer w" and ?cs = "ap_challenges (pw_peer w)"
  let ?spent = "?cs\<lparr>cs_challenges := AList.delete (sr_nonce req) (cs_challenges ?cs)\<rparr>"
  have cur: "challenges_current E C R ?cs" and ses: "sessions_left (Suc n) (ap_sessions ?p)" and time: "run_in_time E C R"
    using assms by (simp_all add: peer_inv_def)
  have sub: "peer_pending (next_world (?p\<lparr>ap_challenges := ?spent, ap_sessions := ss\<rparr>) w) =
      (peer_pending w)(sr_nonce req := None)" for ss
    by (auto simp: fun_eq_iff peer_pending_next peer_pending_def)
  have step: "peer_inv E K C R n (next_world (?p\<lparr>ap_challenges := ?spent, ap_sessions := ss\<rparr>) w)"
    if "sessions_left n ss" for ss
    using spent_current [OF cur] that by (intro peer_inv_next [OF assms]) (simp_all add: sub)
  have same: "?p\<lparr>ap_challenges := st\<rparr> = ?p\<lparr>ap_challenges := st, ap_sessions := ap_sessions ?p\<rparr>" for st by simp
  note keep = step [OF sessions_left_less [OF ses], folded same]
  show thesis
  proof (cases "map_of (cs_challenges ?cs) (sr_nonce req)")
    case None
    then have h: "session_handler E (tk_check ?tk) (tk_purge ?tk) (tk_token ?tk) (tk_now ?tk) req ?p =
        (?p\<lparr>ap_challenges := ?cs\<rparr>, Inl 404)" by (simp add: session_handler_def challenge_validate_def Let_def)
    have "?spent = ?cs" using None by (simp add: delete_id map_of_eq_None_iff)
    with h keep sub [of "ap_sessions ?p", folded same] None show thesis
      by (intro that [of _ "Inl 404"]) (auto simp: session_verdict_def peer_pending_def)
  next
    case (Some ch)
    then obtain tk where "tk \<in> pr_ticks R ` {..<pr_requests R}" "tick_challenge E C R tk (ch_did ch) = Some ch"
      using cur unfolding challenges_current_def by blast
    from run_in_timeD(5) [OF time this peer_inv_tick(1) [OF assms]] have fresh: "tk_check ?tk < ch_expires_at ch" .
    have pend: "peer_pending w (sr_nonce req) = Some (ch_did ch, ch_message ch)" using Some by (simp add: peer_pending_def)
    have v: "challenge_validate (tk_check ?tk) (sr_nonce req) ?cs = (?spent, Inr ch)"
      unfolding challenge_validate_Inr using Some fresh by simp
    show thesis
    proof (cases "session_proof E ch req")
      case (Inl status)
      then have "status = 401" by (auto simp: session_proof_def result_simps split: if_splits option.splits)
      then have "session_handler E (tk_check ?tk) (tk_purge ?tk) (tk_token ?tk) (tk_now ?tk) req ?p =
          (?p\<lparr>ap_challenges := ?spent\<rparr>, Inl 401)" using v Inl by (simp add: session_handler_def Let_def)
      moreover have "\<not> is_ok (session_proof E ch req)" using Inl by simp
      ultimately show thesis using keep sub [of "ap_sessions ?p", folded same] pend
        by (intro that [of _ "Inl 401"]) (auto simp: session_verdict_def proof_proves)
    next
      case (Inr who)
      then have who: "principal_did who = sr_did req" by (auto simp: session_proof_Inr)
      have ok: "is_ok (session_proof E ch req)" using Inr by simp
      obtain ss where ss: "session_create in_memory E (tk_purge ?tk) (tk_token ?tk) (tk_now ?tk) (sr_did req) (ap_sessions ?p) =
          (ss, Inr \<lparr>se_did = sr_did req, se_token = hex_encode E (tk_token ?tk),
             se_valid_until = tk_now ?tk + SESSION_TTL_SECS, se_created_at = tk_now ?tk\<rparr>)" "sessions_left n ss"
        using session_room [OF ses] by blast
      have h: "session_handler E (tk_check ?tk) (tk_purge ?tk) (tk_token ?tk) (tk_now ?tk) req ?p =
          (?p\<lparr>ap_challenges := ?spent, ap_sessions := ss\<rparr>, Inr \<lparr>resp_did = sr_did req, resp_token = hex_encode E (tk_token ?tk),
             resp_valid_until = tk_now ?tk + SESSION_TTL_SECS, resp_created_at = tk_now ?tk\<rparr>)"
        using v Inr ss(1) who by (simp add: session_handler_def Let_def)
      show thesis using pend ok by (intro that [OF h step [OF ss(2)]]) (simp_all add: sub session_verdict_def proof_proves)
    qed
  qed
qed

lemma peer_answers:
  assumes "peer_inv E K C R (Suc n) w" "json_plain body" "session_request_of_json body = Inr req"
  shows "\<exists>resp w'. post_session E (peer_reqwest E C V J) (pr_target R) body w = (Inr resp, w') \<and> peer_inv E K C R n w' \<and>
    peer_pending w' \<subseteq>\<^sub>m (peer_pending w)(sr_nonce req := None) \<and>
    (accepted resp \<longrightarrow> (\<exists>msg. peer_pending w (sr_nonce req) = Some (sr_did req, msg) \<and> peer_proves E msg req))"
proof -
  obtain p r where p: "session_handler E (tk_check (pw_ticks w 0)) (tk_purge (pw_ticks w 0)) (tk_token (pw_ticks w 0))
      (tk_now (pw_ticks w 0)) req (pw_peer w) = (p, r)"
    "peer_inv E K C R n (next_world p w)" "peer_pending (next_world p w) \<subseteq>\<^sub>m (peer_pending w)(sr_nonce req := None)"
    "session_verdict E (pw_ticks w 0) req w r" by (rule peer_session [OF assms(1)])
  have l: "at_peer (pr_target R) w" "json_law E" "mime_law E"
    using assms(1) by (simp_all add: peer_inv_def peer_crates_ok_def)
  note post = peer_post [OF l assms(2,3) p(1), of C V J]
  show ?thesis
  proof (cases r)
    case (Inl status)
    then have "\<not> accepted (served E (json_reply E (Inl status)))"
      using p(4) by (intro served_error) (auto simp: session_verdict_def)
    with post p(2,3) Inl show ?thesis by auto
  next
    case (Inr resp)
    with post p show ?thesis by (auto simp: session_verdict_def)
  qed
qed

lemma peer_opens:
  assumes "peer_inv E K C R (Suc n) w" "json_plain body" "session_request_of_json body = Inr req"
    and "peer_pending w (sr_nonce req) = Some (sr_did req, msg)" "peer_proves E msg req"
  shows "\<exists>resp w' r. post_session E (peer_reqwest E C V J) (pr_target R) body w = (Inr resp, w') \<and> is_success resp \<and>
    hr_json resp = Some (session_response_json r) \<and> resp_did r = sr_did req \<and> lower_hex_64 (resp_token r) \<and>
    (\<forall>now \<in> pr_clocks R. now < resp_valid_until r) \<and> resp_created_at r \<le> resp_valid_until r"
proof -
  let ?tk = "pw_ticks w 0"
  obtain p r where p: "session_handler E (tk_check ?tk) (tk_purge ?tk) (tk_token ?tk) (tk_now ?tk) req (pw_peer w) = (p, r)"
    "session_verdict E ?tk req w r" by (rule peer_session [OF assms(1)])
  have l: "at_peer (pr_target R) w" "json_law E" "hex_law E" "run_in_time E C R" "mime_law E"
    using assms(1) by (simp_all add: peer_inv_def peer_crates_ok_def)
  let ?r = "\<lparr>resp_did = sr_did req, resp_token = hex_encode E (tk_token ?tk),
      resp_valid_until = tk_now ?tk + SESSION_TTL_SECS, resp_created_at = tk_now ?tk\<rparr>"
  have r: "r = Inr ?r" using p(2) assms(4,5) by (cases r) (auto simp: session_verdict_def)
  note time = run_in_timeD [OF l(4) peer_inv_tick(1) [OF assms(1)]]
  have "lower_hex_64 (resp_token ?r)" using nonce_shape(2) [OF l(3) time(2)] by simp
  with peer_post [OF l(1,2,5) assms(2,3) p(1), of C V J] r served_session [OF l(2), of ?r] time(3,4) show ?thesis
    by (intro exI [of _ "served E (json_reply E (Inr (session_response_json ?r)))"] exI [of _ "next_world p w"] exI [of _ ?r])
       auto
qed

text \<open>A spelling of a key the suites or the multibase reader accept is admitted.\<close>

lemma pkh_admitted:
  assumes "did = ''did:pkh:'' @ suite_namespace cs @ '':'' @ r" "suite_extract E cs did = Inr k"
    and "suite_parse_did_parts cs r = Inr parts"
  shows "peer_admits E did"
proof -
  have "validate_pkh E did = Inr ()" unfolding validate_pkh_Inr using assms(2) by blast
  moreover have ns: "split_namespace did = Inr (suite_namespace cs, r)"
    unfolding split_namespace_Inr assms(1) by (cases cs) simp_all
  moreover have "find_did_method E did = Some PkhMethod" unfolding assms(1) by (rule find_did_method_prefix)
  moreover have "\<exists>l. pkh_method_label did = Inr l" by (cases cs) (simp_all add: pkh_method_label_def ns)
  moreover obtain a c where parts: "parts = (a, c)" by fastforce
  have "\<exists>a. checksummed_address E did = Inr a" if "cs = Eip155Suite"
    using assms(2) that by (simp add: checksummed_address_def)
  then have "\<exists>a. pkh_address_for_message E did = Inr a"
    using assms(3) unfolding parts
    by (cases cs) (auto simp: pkh_address_for_message_def ns find_cipher_suite_eq simp del: suite_parse_did_parts.simps)
  ultimately show ?thesis by (auto simp: peer_admits_def validate_did_well_formed_def is_ok_iff)
qed

lemma key_admitted:
  assumes "did = ''did:key:'' @ ''z'' @ z" "validate_multibase_key_body E z = Inr ()"
  shows "peer_admits E did"
proof -
  obtain k where "decode_multibase_key E z = Inr k" using assms(2) by (auto simp: validate_multibase_key_body_def)
  moreover have "find_did_method E did = Some KeyMethod" unfolding assms(1) by (rule find_did_method_prefix)
  ultimately show ?thesis using assms
    by (cases k) (simp_all add: peer_admits_def validate_did_well_formed_def key_address_for_message_def key_method_label_def
        key_z_body_def strip_prefix_def starts_with_def)
qed

lemma prefixes_agree: "ED25519_MULTICODEC = ED25519_PREFIX" "P256_MULTICODEC = P256_PREFIX"
  by (simp_all add: ED25519_MULTICODEC_def ED25519_PREFIX_def P256_MULTICODEC_def P256_PREFIX_def)

lemma spellings_admitted:
  assumes "peer_crates_ok E K C"
  shows "peer_admits E (signer_did (ed25519_local E K key sp))" "peer_admits E (signer_did (p256_local E K key sp))"
    "peer_admits E (signer_did (eip155_local E K key))"
proof -
  have l: "hex_law E" "hex_case_law E" "digest_law E" "bs58_law E" using assms by (simp_all add: peer_crates_ok_def)
  have ed: "length (ed_public K key) = 32" "strict_ed_key E (ed_public K key)" and p2: "length (p256_public K key) = 33"
    using assms by (simp_all add: peer_crates_ok_def ed_pair_law_def p256_pair_law_def)
  note hex = hex_lawD(1,2) [OF l(1)]
  have key: "decode_multibase_key E (bs58_encode E (ED25519_PREFIX @ ed_public K key)) = Inr (Ed25519Key (ed_public K key))"
    "decode_multibase_key E (bs58_encode E (P256_PREFIX @ p256_public K key)) = Inr (P256Key (p256_public K key))"
    using bs58_lawD(1) [OF l(4)] ed by (simp_all add: decode_multibase_key_Ed decode_multibase_key_P256)
  show "peer_admits E (signer_did (ed25519_local E K key sp))"
  proof (cases sp)
    case SpellDidKey
    then show ?thesis
      by (intro key_admitted [of _ "bs58_encode E (ED25519_MULTICODEC @ ed_public K key)"])
         (simp_all add: ed25519_local_def validate_multibase_key_body_def prefixes_agree key ed ED25519_PUBKEY_BYTES_def Let_def)
  next
    case SpellDidPkh
    then show ?thesis
      by (intro pkh_admitted [of _ Ed25519Suite "''0x'' @ hex_encode E (ed_public K key)" _ "ed_public K key"])
         (simp_all add: ed25519_local_def pubkey_from_ed25519_did_Inr hex ed pubkey_parse_did_parts_def Let_def)
  qed
  show "peer_admits E (signer_did (p256_local E K key sp))"
  proof (cases sp)
    case SpellDidKey
    then show ?thesis
      by (intro key_admitted [of _ "bs58_encode E (P256_MULTICODEC @ p256_public K key)"])
         (simp_all add: p256_local_def validate_multibase_key_body_def prefixes_agree key p2 P256_COMPRESSED_PUBKEY_BYTES_def
           Let_def)
  next
    case SpellDidPkh
    then show ?thesis
      by (intro pkh_admitted [of _ P256Suite "''0x'' @ hex_encode E (p256_public K key)" _ "p256_public K key"])
         (simp_all add: p256_local_def pubkey_from_p256_did_Inr hex p2 pubkey_parse_did_parts_def Let_def)
  qed
  let ?a = "''0x'' @ eip55_checksum E (address_from_verifying_key E (k256_public K key))"
  have "suite_parse_did_parts Eip155Suite (''1'' @ '':'' @ ?a) = Inr (?a, Some (''eip155:'' @ ''1''))"
    unfolding suite_parse_did_parts.simps eip155_parse_did_parts_Inr by (intro exI [of _ "''1''"]) simp
  moreover have "signer_did (eip155_local E K key) = ''did:pkh:'' @ suite_namespace Eip155Suite @ '':'' @ ''1'' @ '':'' @ ?a"
    by (simp add: eip155_local_def)
  ultimately show "peer_admits E (signer_did (eip155_local E K key))"
    using eip155_local_address [OF l(1-3), of K key] pkh_admitted [of _ Eip155Suite "''1'' @ '':'' @ ?a" E]
    by (simp only: suite_extract.simps)
qed

lemma peer_honest:
  assumes "peer_crates_ok E K C"
  shows "peer_proves E msg (ed_request E K key nonce (ed_sign K key (as_bytes msg)))"
  using assms ed25519_local_possession [of E K key SpellDidKey msg] hex_decode_wire [of E]
  by (simp add: peer_crates_ok_def peer_proves_iff ed_request_def wire_hex_def ed25519_did_key_def del: trim_0x_prefix)

interpretation test_peer: caip122_server E K "peer_reqwest E C V J" "pr_target R" "peer_inv E K C R" peer_pending
  "run_challenges E C R" "peer_admits E" "peer_proves E" "pr_domain R" "tg_base_url (pr_target R)" "pr_clocks R"
  for E :: "('x, 'z) harness_crates_scheme" and K :: "('k, 'x, 'y) test_keys_scheme" and C :: "'dt chrono" and V J R
proof unfold_locales
  fix n and w :: "'dt peer_world" and nonce did msg
  show "peer_inv E K C R n w" if "peer_inv E K C R (Suc n) w"
    using that sessions_left_less ticks_left_less by (auto simp: peer_inv_def)
  show "tidy (pr_domain R) (tg_base_url (pr_target R)) \<and> hex_law E \<and> bs58_law E" if "peer_inv E K C R n w"
    using that by (simp add: peer_inv_def peer_crates_ok_def)
  show "(did, nonce, msg) \<in> run_challenges E C R" if "peer_inv E K C R n w" "peer_pending w nonce = Some (did, msg)"
    using that by (fastforce simp: peer_inv_def challenges_current_def peer_pending_def run_challenges_def)
  show "peer_admits E (signer_did signer)" if "peer_inv E K C R n w" "(label, signer) \<in> set (valid_spellings E K keys)"
    for label signer keys
    using that spellings_admitted [of E K C]
    by (auto simp: peer_inv_def valid_spellings_def ed25519_did_key_def ed25519_did_pkh_def p256_did_key_def p256_did_pkh_def)
  show "peer_proves E msg (ed_request E K key nonce (ed_sign K key (as_bytes msg)))" if "peer_inv E K C R n w" for key
    using that by (intro peer_honest [of _ _ C]) (simp add: peer_inv_def)
qed (rule peer_refuses peer_issues peer_answers peer_opens; assumption)+

end
