(* ===== verification/Ref_Json.thy ===== *)
theory Ref_Json
  imports Wire
begin

text \<open>
  A concrete writer and reader of JSON values, at which the law of serde\_json that the wire and the
  suite rely on is proved: a tagged notation in which every value ends itself. Numbers are their
  literals.
\<close>

section \<open>The notation\<close>

definition write_text :: "string \<Rightarrow> string" where
  "write_text s = concat (map (\<lambda>c. [CHR ''.'', c]) s) @ '';''"

fun write_value :: "json_text \<Rightarrow> string" where
  "write_value JNull = ''n''"
| "write_value (JBool b) = (if b then ''t'' else ''f'')"
| "write_value (JNumber d) = ''#'' @ write_text d"
| "write_value (JString s) = ''s'' @ write_text s"
| "write_value (JArray vs) = ''['' @ concat (map (\<lambda>v. '','' @ write_value v) vs) @ '']''"
| "write_value (JObject ms) = ''{'' @ concat (map (\<lambda>(k, v). '','' @ write_text k @ write_value v) ms) @ ''}''"

fun read_text :: "string \<Rightarrow> (string \<times> string) option" where
  "read_text (a # c # s) =
     (if a = CHR ''.'' then map_option (\<lambda>(x, r). (c # x, r)) (read_text s)
      else if a = CHR '';'' then Some ([], c # s) else None)"
| "read_text [a] = (if a = CHR '';'' then Some ([], []) else None)"
| "read_text [] = None"

fun read_value :: "nat \<Rightarrow> string \<Rightarrow> (json_text \<times> string) option"
  and read_values :: "nat \<Rightarrow> string \<Rightarrow> (json_text list \<times> string) option"
  and read_members :: "nat \<Rightarrow> string \<Rightarrow> ((string \<times> json_text) list \<times> string) option" where
  "read_value (Suc n) (c # s) =
     (if c = CHR ''n'' then Some (JNull, s)
      else if c = CHR ''t'' then Some (JBool True, s)
      else if c = CHR ''f'' then Some (JBool False, s)
      else if c = CHR ''#'' then map_option (\<lambda>(d, r). (JNumber d, r)) (read_text s)
      else if c = CHR ''s'' then map_option (\<lambda>(d, r). (JString d, r)) (read_text s)
      else if c = CHR ''['' then map_option (\<lambda>(vs, r). (JArray vs, r)) (read_values n s)
      else if c = CHR ''{'' then map_option (\<lambda>(ms, r). (JObject ms, r)) (read_members n s)
      else None)"
| "read_value _ _ = None"
| "read_values (Suc n) (c # s) =
     (if c = CHR '']'' then Some ([], s)
      else Option.bind (read_value n s) (\<lambda>(v, r). map_option (\<lambda>(vs, r'). (v # vs, r')) (read_values n r)))"
| "read_values _ _ = None"
| "read_members (Suc n) (c # s) =
     (if c = CHR ''}'' then Some ([], s)
      else Option.bind (read_text s) (\<lambda>(k, q). Option.bind (read_value n q) (\<lambda>(v, r).
             map_option (\<lambda>(ms, r'). ((k, v) # ms, r')) (read_members n r))))"
| "read_members _ _ = None"

definition ref_json_read :: "bytes \<Rightarrow> json_text option" where
  "ref_json_read b =
     (case read_value (length b) (ref_chars b) of Some (v, []) \<Rightarrow> Some v | _ \<Rightarrow> None)"

section \<open>Reading undoes writing\<close>

lemma read_write_text [simp]: "read_text (write_text s @ r) = Some (s, r)"
  by (induction s) (cases r; simp add: write_text_def)+

lemma read_write_values:
  assumes "\<And>v n r. v \<in> set vs \<Longrightarrow> length (write_value v) \<le> n \<Longrightarrow> read_value n (write_value v @ r) = Some (v, r)"
    and "length (concat (map (\<lambda>v. '','' @ write_value v) vs)) < n"
  shows "read_values n (concat (map (\<lambda>v. '','' @ write_value v) vs) @ '']'' @ r) = Some (vs, r)"
  using assms
proof (induction vs arbitrary: n)
  case Nil
  then show ?case by (cases n) simp_all
next
  case (Cons v vs)
  then obtain m where n: "n = Suc m" by (cases n) simp_all
  have "read_value m (write_value v @ r') = Some (v, r')" for r' using Cons.prems(2) n by (intro Cons.prems(1)) auto
  moreover have "read_values m (concat (map (\<lambda>v. '','' @ write_value v) vs) @ '']'' @ r) = Some (vs, r)"
    using Cons.prems n by (intro Cons.IH) auto
  ultimately show ?case by (simp add: n)
qed

lemma read_write_members:
  assumes "\<And>k v n r. (k, v) \<in> set ms \<Longrightarrow> length (write_value v) \<le> n \<Longrightarrow> read_value n (write_value v @ r) = Some (v, r)"
    and "length (concat (map (\<lambda>(k, v). '','' @ write_text k @ write_value v) ms)) < n"
  shows "read_members n (concat (map (\<lambda>(k, v). '','' @ write_text k @ write_value v) ms) @ ''}'' @ r) = Some (ms, r)"
  using assms
proof (induction ms arbitrary: n)
  case Nil
  then show ?case by (cases n) simp_all
next
  case (Cons m ms)
  obtain k v where kv: "m = (k, v)" by fastforce
  from Cons.prems(2) obtain l where n: "n = Suc l" by (cases n) simp_all
  have "read_value l (write_value v @ r') = Some (v, r')" for r'
    using Cons.prems(2) n kv by (intro Cons.prems(1) [of k]) auto
  moreover have "read_members l (concat (map (\<lambda>(k, v). '','' @ write_text k @ write_value v) ms) @ ''}'' @ r) = Some (ms, r)"
    using Cons.prems n by (intro Cons.IH) (auto simp: kv)
  ultimately show ?case by (simp add: n kv)
qed

lemma read_write_value: "length (write_value v) \<le> n \<Longrightarrow> read_value n (write_value v @ r) = Some (v, r)"
proof (induction v arbitrary: n r)
  case (JArray vs)
  then obtain m where n: "n = Suc m" by (cases n) simp_all
  have "read_values m (concat (map (\<lambda>v. '','' @ write_value v) vs) @ '']'' @ r) = Some (vs, r)"
    using JArray n by (intro read_write_values) auto
  then show ?case by (simp add: n)
next
  case (JObject ms)
  then obtain m where n: "n = Suc m" by (cases n) simp_all
  have "read_members m (concat (map (\<lambda>(k, v). '','' @ write_text k @ write_value v) ms) @ ''}'' @ r) = Some (ms, r)"
    using JObject n by (intro read_write_members) (auto simp: snds.simps)
  then show ?case by (simp add: n)
next
  case (JNumber d)
  then show ?case by (cases n) simp_all
next
  case (JString s)
  then show ?case by (cases n) simp_all
next
  case (JBool b)
  then show ?case by (cases n) (auto split: if_splits)
next
  case JNull
  then show ?case by (cases n) simp_all
qed

lemma ref_json_roundtrip: "ref_json_read (as_bytes (write_value v)) = Some v"
proof -
  have "length (as_bytes s) = length s" for s by (simp add: as_bytes_def)
  then show ?thesis
    using read_write_value [of v "length (write_value v)" "[]"] by (simp add: ref_json_read_def)
qed

end
