(* ===== verification/Suite_Run.thy ===== *)
theory Suite_Run
  imports Peer_Conforms Ref_Json
begin

unbundle bit_operations_syntax

text \<open>
  The run of the suite against the test peer: the malformed DIDs it sends are refused, its
  tampered requests prove nothing as long as no signature is forged, and so the report of a fresh
  peer has no failure.
\<close>

section \<open>The DIDs the suite expects refused\<close>

text \<open>hex: every character of a decoded string is a digit.\<close>

definition hex_digits_law :: "('x, 'z) crates_scheme \<Rightarrow> bool" where
  "hex_digits_law E \<longleftrightarrow> (\<forall>s b. hex_decode E s = Inr b \<longrightarrow> (\<forall>c \<in> set s. is_hex_lower (to_lower_char c)))"

text \<open>The sizes of the suite's draws.\<close>

definition did_draws_sized :: "did_draws \<Rightarrow> bool" where
  "did_draws_sized d \<longleftrightarrow>
     length (dd_31 d) = 31 \<and> length (dd_33 d) = 33 \<and> length (dd_no_0x d) = 32 \<and> length (dd_non_hex d) = 32 \<and>
     length (dd_p256 d) = 32 \<and> length (dd_19 d) = 19"

lemma pkh_not_admitted:
  assumes "\<And>k. address_from_did E (''did:pkh:'' @ r) \<noteq> Inr k" "\<And>k. pubkey_from_ed25519_did E (''did:pkh:'' @ r) \<noteq> Inr k"
    "\<And>k. pubkey_from_p256_did E (''did:pkh:'' @ r) \<noteq> Inr k"
  shows "\<not> peer_admits E (''did:pkh:'' @ r)"
proof -
  have "suite_extract E cs (''did:pkh:'' @ r) \<noteq> Inr k" for cs k using assms by (cases cs) simp_all
  then show ?thesis
    unfolding peer_admits_def validate_did_well_formed_def find_did_method_prefix by (simp add: validate_pkh_Inr)
qed

lemma solana_not_admitted: "\<not> peer_admits E (''did:pkh:solana:0x'' @ h)"
  using pkh_not_admitted [of E "''solana:0x'' @ h"]
  by (simp add: address_from_did_Inr pubkey_from_ed25519_did_Inr pubkey_from_p256_did_Inr)

lemma ed25519_pkh_not_admitted:
  assumes "\<And>h k. r = ''0x'' @ h \<Longrightarrow> length h = 64 \<Longrightarrow> hex_decode E h \<noteq> Inr k"
  shows "\<not> peer_admits E (''did:pkh:ed25519:'' @ r)"
  using pkh_not_admitted [of E "''ed25519:'' @ r"] assms
  by (auto simp: address_from_did_Inr pubkey_from_ed25519_did_Inr pubkey_from_p256_did_Inr)

lemma corrupted_key_not_admitted:
  assumes "bs58_law E" "c \<in> set z" "\<not> is_base58 c"
  shows "\<not> peer_admits E (''did:key:'' @ ''z'' @ z)"
proof -
  have "decode_multibase_key E z \<noteq> Inr k" for k
    using decode_multibase_key_bytes [of E z k] bs58_decode_alphabet [OF assms(1) _ assms(2)] assms(3) by blast
  then have "validate_multibase_key_body E z \<noteq> Inr u" for u by (auto simp: validate_multibase_key_body_def)
  then show ?thesis
    unfolding peer_admits_def validate_did_well_formed_def find_did_method_prefix
    by (simp add: strip_prefix_def starts_with_def)
qed

lemma malformed_not_admitted:
  assumes "hex_law E" "hex_digits_law E" "bs58_law E" "did_draws_sized d"
  shows "\<forall>(label, did) \<in> set (malformed_dids E d). \<not> peer_admits E did"
proof -
  note len = hex_lawD(2) [OF assms(1)] assms(4) [unfolded did_draws_sized_def]
  have hex: "is_hex_lower c" if "c \<in> set (hex_encode E b)" for c b using hex_lawD(3) [OF assms(1) that] .
  have "\<not> peer_admits E (''did:pkh:ed25519:'' @ ''0x'' @ hex_encode E (dd_31 d))"
    "\<not> peer_admits E (''did:pkh:ed25519:'' @ ''0x'' @ hex_encode E (dd_33 d))"
    using len by (intro ed25519_pkh_not_admitted; auto)+
  moreover have "\<not> peer_admits E (''did:pkh:ed25519:'' @ hex_encode E (dd_no_0x d))"
  proof (rule ed25519_pkh_not_admitted)
    fix h k
    assume "hex_encode E (dd_no_0x d) = ''0x'' @ h"
    then have "is_hex_lower CHR ''x''" by (intro hex [of _ "dd_no_0x d"]) simp
    then show "hex_decode E h \<noteq> Inr k" by (simp add: is_hex_lower_def is_ascii_digit_def)
  qed
  moreover have "\<not> peer_admits E (''did:pkh:ed25519:'' @ ''0x'' @ (hex_encode E (dd_non_hex d))[0 := CHR ''z''])"
  proof (rule ed25519_pkh_not_admitted)
    fix h k
    assume "''0x'' @ (hex_encode E (dd_non_hex d))[0 := CHR ''z''] = ''0x'' @ h" "length h = 64"
    then have "CHR ''z'' \<in> set h" by (cases "hex_encode E (dd_non_hex d)") auto
    moreover have "\<not> is_hex_lower (to_lower_char CHR ''z'')"
      by (simp add: is_hex_lower_def is_ascii_digit_def to_lower_char_def is_ascii_upper_def)
    ultimately show "hex_decode E h \<noteq> Inr k" using assms(2) unfolding hex_digits_law_def by blast
  qed
  moreover have "\<not> peer_admits E (''did:pkh:'' @ ''p256:0x'' @ hex_encode E (dd_p256 d))"
    using len by (intro pkh_not_admitted) (auto simp: address_from_did_Inr pubkey_from_ed25519_did_Inr pubkey_from_p256_did_Inr)
  moreover have "\<not> peer_admits E (''did:pkh:'' @ ''eip155:1:0x'' @ hex_encode E (dd_19 d))"
  proof (rule pkh_not_admitted)
    have "CHR '':'' \<notin> set (''0x'' @ hex_encode E (dd_19 d))"
      using hex [of "CHR '':''" "dd_19 d"] by (auto simp: is_hex_lower_def is_ascii_digit_def)
    then have "split_on CHR '':'' (''1'' @ CHR '':'' # ''0x'' @ hex_encode E (dd_19 d)) = [''1'', ''0x'' @ hex_encode E (dd_19 d)]"
      by (subst split_on_append_free) auto
    then show "address_from_did E (''did:pkh:'' @ ''eip155:1:0x'' @ hex_encode E (dd_19 d)) \<noteq> Inr k" for k
      using len by (simp add: address_from_did_Inr)
  qed (simp_all add: pubkey_from_ed25519_did_Inr pubkey_from_p256_did_Inr)
  moreover have "\<not> peer_admits E (''did:key:'' @ ''z'' @ ''6Mk0OIl0000CORRUPTEDMULTIBASE0000'')"
    by (rule corrupted_key_not_admitted [OF assms(3), of "CHR ''0''"]) (simp_all add: is_base58_def b58_alphabet_def)
  ultimately show ?thesis by (simp add: malformed_dids_def)
qed

section \<open>The probes\<close>

lemma ed_possession:
  assumes "bs58_law E"
  shows "possession E (signer_did (ed25519_did_key E K key)) msg sig pk \<longleftrightarrow> ed25519_signed E (ed_public K key) msg sig"
proof -
  let ?z = "bs58_encode E (ED25519_PREFIX @ ed_public K key)"
  have did: "signer_did (ed25519_did_key E K key) = ''did:key:'' @ ''z'' @ ?z"
    by (simp add: ed25519_did_key_def ed25519_local_def prefixes_agree Let_def)
  have "ED25519_PREFIX @ a \<noteq> P256_PREFIX @ b" for a b by (simp add: ED25519_PREFIX_def P256_PREFIX_def)
  then show ?thesis
    unfolding did key_possession multibase_signed_def using bs58_lawD(1) [OF assms] by auto
qed

lemma ed_proves:
  assumes "bs58_law E"
  shows "peer_proves E msg ((ed_request E K key nonce g0)\<lparr>sr_signature := g\<rparr>) \<longleftrightarrow>
    (\<exists>sig. hex_decode E (trim_0x g) = Inr sig \<and> ed25519_signed E (ed_public K key) msg sig)"
  by (simp add: peer_proves_iff ed_request_def ed_possession [OF assms])

lemma ed_proves_signature:
  assumes "hex_law E" "bs58_law E"
  shows "peer_proves E msg (ed_request E K key nonce sig) \<longleftrightarrow> ed25519_signed E (ed_public K key) msg sig"
  using ed_proves [OF assms(2), where g = "wire_hex E sig" and ?g0.0 = sig] hex_decode_wire [OF assms(1)]
  by (simp add: ed_request_def wire_hex_def del: trim_0x_prefix)

lemma decode_hex_wire: "hex_law E \<Longrightarrow> decode_hex_body E (wire_hex E b) = b"
  using hex_lawD(1) [of E b] by (simp only: decode_hex_body_def wire_hex_def strip_prefix_append option.case sum.case)

text \<open>The two corruptions that keep the length, and the other forgeries the suite tries.\<close>

definition no_forgery ::
  "('x, 'z) crates_scheme \<Rightarrow> ('k, 'x, 'y) test_keys_scheme \<Rightarrow> (string \<times> string \<times> string) set \<Rightarrow> 'k signature_draws \<Rightarrow>
   bool" where
  "no_forgery E K L d \<longleftrightarrow>
     (\<forall>i nonce msg. (signer_did (ed25519_did_key E K (sd_corruption_keys d i)), nonce, msg) \<in> L \<longrightarrow>
        (let sig = ed_sign K (sd_corruption_keys d i) (as_bytes msg); key = ed_public K (sd_corruption_keys d i)
         in \<not> ed25519_signed E key msg ((hd sig XOR 1) # tl sig) \<and> \<not> ed25519_signed E key msg (replicate (length sig) 0))) \<and>
     (\<forall>nonce msg. (signer_did (ed25519_did_key E K (sd_keys d 0)), nonce, msg) \<in> L \<longrightarrow>
        \<not> ed25519_signed E (ed_public K (sd_keys d 0)) msg (ed_sign K (sd_keys d 1) (as_bytes msg))) \<and>
     (\<forall>nonce msg nonce' msg'. (signer_did (ed25519_did_key E K (sd_keys d 2)), nonce, msg) \<in> L \<longrightarrow>
        (signer_did (ed25519_did_key E K (sd_keys d 2)), nonce', msg') \<in> L \<longrightarrow> msg \<noteq> msg' \<longrightarrow>
        \<not> ed25519_signed E (ed_public K (sd_keys d 2)) msg (ed_sign K (sd_keys d 2) (as_bytes msg'))) \<and>
     aqua_multihash E (mldsa_public K (sd_keys d 5)) \<noteq> aqua_multihash E (mldsa_public K (sd_keys d 6))"

lemma garbage_not_hex: "hex_digits_law E \<Longrightarrow> hex_decode E (trim_0x (non_hex_garbage s)) \<noteq> Inr b"
  unfolding hex_digits_law_def non_hex_garbage_def
  by (auto simp: is_hex_lower_def is_ascii_digit_def to_lower_char_def is_ascii_upper_def)

lemma corruption_proves_nothing:
  assumes laws: "hex_law E" "hex_digits_law E" "bs58_law E" "ed_pair_law E K"
    and "(label, corrupt) \<in> set (SIGNATURE_CORRUPTIONS E)" "sig = ed_sign K key (as_bytes msg)"
    and "\<not> ed25519_signed E (ed_public K key) msg ((hd sig XOR 1) # tl sig)"
      "\<not> ed25519_signed E (ed_public K key) msg (replicate (length sig) 0)"
  shows "\<not> peer_proves E msg ((ed_request E K key nonce [])\<lparr>sr_signature := corrupt (wire_hex E sig)\<rparr>)"
proof -
  have len: "length sig = 64" using laws(4) assms(6) by (simp add: ed_pair_law_def)
  then obtain b bs where sig: "sig = b # bs" by (cases sig) auto
  note dec = hex_decode_wire [OF laws(1), folded wire_hex_def]
  have short: "\<not> ed25519_signed E k msg s" if "length s \<noteq> 64" for k s using that by (simp add: ed25519_signed_def)
  from assms(5) consider "corrupt = flip_one_bit E" | "corrupt = truncate_by_one_byte E" | "corrupt = append_one_byte E"
    | "corrupt = zero_of_same_length E" | "corrupt = non_hex_garbage"
    unfolding SIGNATURE_CORRUPTIONS_def by auto
  then show ?thesis
    unfolding ed_proves [OF laws(3)]
  proof cases
    case 4
    then show "\<nexists>s. hex_decode E (trim_0x (corrupt (wire_hex E sig))) = Inr s \<and> ed25519_signed E (ed_public K key) msg s"
      using assms(8) by (simp add: zero_of_same_length_def decode_hex_wire [OF laws(1)] dec)
  next
    case 5
    then show "\<nexists>s. hex_decode E (trim_0x (corrupt (wire_hex E sig))) = Inr s \<and> ed25519_signed E (ed_public K key) msg s"
      using garbage_not_hex [OF laws(2)] by simp
  qed (use assms(7) len sig short decode_hex_wire [OF laws(1)] in
      \<open>simp_all add: flip_one_bit_def truncate_by_one_byte_def append_one_byte_def dec Let_def\<close>)
qed

lemma aqua_other_key:
  assumes "bs58_law E" "digest_law E" "aqua_multihash E (mldsa_public K key) \<noteq> aqua_multihash E pk" "hex_law E"
  shows "\<not> peer_proves E msg \<lparr>sr_did = signer_did (ml_dsa_87_local E K key), sr_nonce = nonce, sr_signature = g,
    sr_public_key = Some (wire_hex E pk)\<rparr>"
proof -
  let ?did = "aqua_did_from_pubkey E (mldsa_public K key)"
  obtain z where z: "?did = ''did:aqua:z'' @ z" by (simp add: aqua_did_from_pubkey_def Let_def)
  have "aqua_did_binds_pubkey E ?did pk \<noteq> Inr True"
    using assms(3) by (simp add: aqua_did_binds_pubkey_def aqua_did_multihash [OF assms(1,2)])
  then have "\<not> possession E ?did msg sig (Some pk)" for sig
    unfolding possession_iff
    by (auto simp: z address_from_did_Inr pubkey_from_ed25519_did_Inr pubkey_from_p256_did_Inr peer_supports_did_def
        starts_with_iff)
  then show ?thesis
    using hex_decode_wire [OF assms(4), folded wire_hex_def] by (auto simp: peer_proves_iff ml_dsa_87_local_def Let_def)
qed

lemma no_forgery_probes:
  assumes "peer_crates_ok E K C" "hex_digits_law E" "no_forgery E K L d"
  shows "probes_fail E K L (peer_proves E) d"
proof -
  have l: "hex_law E" "bs58_law E" "digest_law E" "ed_pair_law E K" using assms(1) by (simp_all add: peer_crates_ok_def)
  note f = assms(3) [unfolded no_forgery_def Let_def]
  show ?thesis
    unfolding probes_fail_def
  proof (intro conjI allI impI)
    show "\<forall>(label, corrupt) \<in> set (SIGNATURE_CORRUPTIONS E).
        \<not> peer_proves E msg ((ed_request E K (sd_corruption_keys d i) nonce [])
            \<lparr>sr_signature := corrupt (wire_hex E (ed_sign K (sd_corruption_keys d i) (as_bytes msg)))\<rparr>)"
      if "(signer_did (ed25519_did_key E K (sd_corruption_keys d i)), nonce, msg) \<in> L" for i nonce msg
      using corruption_proves_nothing [OF l(1) assms(2) l(2,4) _ refl] f that by blast
  qed (use f l aqua_other_key [OF l(2,3) _ l(1), of K] in \<open>auto simp: ed_proves_signature\<close>)
qed

section \<open>The report\<close>

text \<open>What the suite draws and reads: DIDs of the stated sizes, a nonce no challenge of the run has, clocks of the run.\<close>

definition suite_draws_ok :: "'dt peer_run \<Rightarrow> 'k suite_draws \<Rightarrow> bool" where
  "suite_draws_ok R d \<longleftrightarrow>
     (\<forall>i. su_wire_clock d i \<in> pr_clocks R) \<and> sd_fetched_at (su_signature d) \<in> pr_clocks R \<and>
     (\<forall>i < pr_requests R. tk_nonce (pr_ticks R i) \<noteq> nd_unknown_nonce (su_nonce d)) \<and>
     did_draws_sized (nd_dids (su_nonce d))"

definition fresh_peer :: "('x, 'z) crates_scheme \<Rightarrow> 'dt peer_run \<Rightarrow> signer \<Rightarrow> 'dt peer_world" where
  "fresh_peer E R signer =
     \<lparr>pw_peer = peer_in_memory E (pr_domain R) (tg_base_url (pr_target R)) (pr_ttl_secs R) signer, pw_ticks = pr_ticks R\<rparr>"

lemma fresh_peer_inv:
  assumes "peer_crates_ok E K C" "tidy (pr_domain R) (tg_base_url (pr_target R))" "run_in_time E C R"
    and "target_new U env base_url = Inr (pr_target R)" "SUITE_REQUESTS \<le> pr_requests R"
  shows "peer_inv E K C R SUITE_REQUESTS (fresh_peer E R signer)"
proof -
  have "tg_challenge_path t = DEFAULT_CHALLENGE_PATH \<and> tg_session_path t = DEFAULT_SESSION_PATH"
    if "target_new U env base_url = Inr t" for t using that by (auto simp: target_new_def)
  from this [OF assms(4)] have "at_peer (pr_target R) (fresh_peer E R signer)"
    by (simp add: at_peer_def fresh_peer_def peer_in_memory_def)
  moreover have "ticks_left E R SUITE_REQUESTS (fresh_peer E R signer)"
    unfolding ticks_left_def using assms(5)
    by (intro exI [of _ 0]) (simp add: fresh_peer_def peer_in_memory_def peer_pending_def challenge_new_def challenge_with_capacity_def)
  ultimately show ?thesis using assms(1-3)
    by (simp add: peer_inv_def challenges_current_def sessions_left_def fresh_peer_def peer_in_memory_def challenge_new_def
        challenge_with_capacity_def session_new_def session_with_capacity_def session_with_backend_def in_memory_new_def
        SUITE_REQUESTS_def MAX_SESSIONS_def)
qed

lemma unknown_nonce_not_issued:
  assumes "hex_law E" "suite_draws_ok R d"
  shows "(did, wire_hex E (nd_unknown_nonce (su_nonce d)), msg) \<notin> run_challenges E C R"
proof -
  have "wire_hex E (nd_unknown_nonce (su_nonce d)) \<noteq> tick_nonce E (pr_ticks R i)" if "i < pr_requests R" for i
    using assms that hex_lawD(1) [OF assms(1)] by (simp add: wire_hex_def tick_nonce_def suite_draws_ok_def) (metis sum.inject(2))
  then show ?thesis by (auto simp: run_challenges_def)
qed

text \<open>
  C3. The reference peer conforms: the suite, pointed at a freshly started \<open>AquaPeer\<close>, reports no
  failure, whatever the keys and draws of the run, provided the run fits into one challenge lifetime
  and none of its tampered signatures happens to verify. The opt-in wait of the expiry case is off.
\<close>

theorem peer_passes_suite:
  assumes "peer_crates_ok E K C" "hex_digits_law E" "no_forgery E K (run_challenges E C R) (su_signature d)"
    and "tidy (pr_domain R) (tg_base_url (pr_target R))" "run_in_time E C R" "suite_draws_ok R d"
    and "target_new U env base_url = Inr (pr_target R)" "U (tg_base_url (pr_target R)) = Inr u"
    and "SUITE_REQUESTS \<le> pr_requests R" "env EXPIRY_WAIT_ENV \<noteq> Some ''1''"
  shows "report_passed (fst (run_all E K (peer_reqwest E C V J) U env (pr_target R) d (fresh_peer E R signer)))"
proof -
  have l: "hex_law E" "bs58_law E" using assms(1) by (simp_all add: peer_crates_ok_def)
  have s: "\<forall>i. su_wire_clock d i \<in> pr_clocks R" "sd_fetched_at (su_signature d) \<in> pr_clocks R"
    "did_draws_sized (nd_dids (su_nonce d))" using assms(6) by (simp_all add: suite_draws_ok_def)
  have unknown: "\<forall>did msg. (did, wire_hex E (nd_unknown_nonce (su_nonce d)), msg) \<notin> run_challenges E C R"
    using unknown_nonce_not_issued [OF l(1) assms(6)] by blast
  have "same_origin u u" by (simp add: same_origin_def)
  with fresh_peer_inv [OF assms(1,4,5,7,9)] show ?thesis
    by (intro test_peer.suite_passes s(1,2) unknown solana_not_admitted malformed_not_admitted [OF l(1) assms(2) l(2) s(3)]
        no_forgery_probes [OF assms(1,2,3)] assms(10)) (simp_all add: assms(8))
qed

section \<open>A run at concrete values\<close>

text \<open>
  Crates at which the hypotheses hold: an Ed25519 signature is the key and the nonce the message
  names, so it verifies under its own key and for its own message only; the digest keeps the last
  bytes. Two keys, and ticks that differ in the last byte of the nonce.
\<close>

definition ref_tag :: "bytes \<Rightarrow> bytes" where
  "ref_tag m =
     (case ref_hex_decode (drop 9 (concat (take 1 (drop 7 (split_on LF (ref_chars m)))))) of
        Inr b \<Rightarrow> ref_pad 32 b | Inl _ \<Rightarrow> replicate 32 0)"

definition ref_suite :: "bytes harness_crates" where
  "ref_suite = crates.extend
     (ref_crates\<lparr>ed_verify_strict := (\<lambda>k m s. s = k @ ref_tag m), sha256 := (\<lambda>b. ref_digest (rev b))\<rparr>)
     \<lparr>b64url_no_pad_decode = ref_hex_decode, b64url_decode = ref_hex_decode, json_read = ref_json_read,
      serde_error_text = (\<lambda>_. ''error''), p256_sig_from_bytes = Inr, p256_normalize_s = (\<lambda>_. None),
      p256_recover = (\<lambda>z s y. None), p256_compressed = ref_pad 33, p256_from_spki = Inr, unicode_debug = id,
      status_display = show_nat, json_display = write_value,
      is_json_mime = (\<lambda>m. m = ''application/json'')\<rparr>"

definition ref_pair :: "(bool, bytes) test_keys" where
  "ref_pair = \<lparr>ed_from_pkcs8_pem = (\<lambda>_. Inr True), ed_public = (\<lambda>k. replicate 32 (if k then 7 else 8)),
     ed_sign = (\<lambda>k m. replicate 32 (if k then 7 else 8) @ ref_tag m),
     p256_from_pkcs8_pem = (\<lambda>_. Inr True), p256_public = (\<lambda>_. replicate 33 2), p256_sign = (\<lambda>_ _. replicate 64 2),
     k256_public = (\<lambda>_. replicate 64 3), k256_sign_prehash_recoverable = (\<lambda>_ _. Inr (replicate 64 3, 1)),
     mldsa_public = (\<lambda>k. replicate 2591 0 @ [if k then 1 else 2]), mldsa_sign = (\<lambda>_ _. replicate 4627 0)\<rparr>"

definition ref_tick :: "nat \<Rightarrow> int tick" where
  "ref_tick i = \<lparr>tk_purge = 0, tk_nonce = replicate 31 0 @ [of_nat i], tk_utc = 0, tk_check = 5,
     tk_token = replicate 32 0, tk_now = 5, tk_clock = 0\<rparr>"

definition ref_run :: "int peer_run" where
  "ref_run = \<lparr>pr_target = \<lparr>tg_base_url = ''https://h'', tg_challenge_path = DEFAULT_CHALLENGE_PATH,
       tg_session_path = DEFAULT_SESSION_PATH\<rparr>,
     pr_ttl_secs = 60, pr_domain = ''d'', pr_clocks = {5}, pr_ticks = ref_tick, pr_requests = SUITE_REQUESTS\<rparr>"

definition ref_suite_draws :: "bool suite_draws" where
  "ref_suite_draws = \<lparr>su_wire_keys = (\<lambda>_. True), su_wire_clock = (\<lambda>_. 5),
     su_nonce = \<lparr>nd_keys = (\<lambda>_. True), nd_spelling_keys = (\<lambda>_. True), nd_unknown_nonce = replicate 32 9,
       nd_solana = replicate 32 0, nd_solana_signature = replicate 64 0,
       nd_dids = \<lparr>dd_31 = replicate 31 0, dd_33 = replicate 33 0, dd_no_0x = replicate 32 0, dd_non_hex = replicate 32 0,
         dd_p256 = replicate 32 0, dd_19 = replicate 19 0\<rparr>,
       nd_did_signatures = (\<lambda>_. replicate 64 0)\<rparr>,
     su_signature = \<lparr>sd_corruption_keys = (\<lambda>_. True), sd_keys = even, sd_fetched_at = 5\<rparr>\<rparr>"

definition ref_suite_env :: "string \<Rightarrow> string option" where
  "ref_suite_env k = (if k = ALLOW_REMOTE_ENV then Some ''1'' else None)"

lemma ref_suite_simps [simp]:
  "is_json_mime ref_suite mt \<longleftrightarrow> mt = ''application/json''"
  "hex_encode ref_suite = ref_hex_encode" "hex_decode ref_suite = ref_hex_decode"
  "bs58_encode ref_suite = bs58_encode ref_crates" "bs58_decode ref_suite = bs58_decode ref_crates"
  "sha256 ref_suite b = ref_digest (rev b)" "keccak256 ref_suite = ref_digest" "b64_encode ref_suite = ref_hex_encode"
  "ed_key_from_bytes ref_suite k = Inr k" "ed_sig_from_slice ref_suite s = Inr s"
  "ed_verify_strict ref_suite k m s \<longleftrightarrow> s = k @ ref_tag m"
  "ed_decompress ref_suite = ed_decompress ref_crates" "ed_compress ref_suite = ed_compress ref_crates"
  "ed_torsion_free ref_suite = ed_torsion_free ref_crates" "ed_is_weak ref_suite = ed_is_weak ref_crates"
  "p256_point_from_bytes ref_suite = p256_point_from_bytes ref_crates" "p256_key_from_point ref_suite = Inr"
  "p256_sig_from_slice ref_suite = p256_sig_from_slice ref_crates" "p256_verify ref_suite = p256_verify ref_crates"
  "json_read ref_suite = ref_json_read" "json_display ref_suite = write_value"
  by (simp_all add: ref_suite_def ref_crates_def crates.defs)

lemma length_ref_tag [simp]: "length (ref_tag m) = 32"
  by (simp add: ref_tag_def split: sum.split)

lemma ref_suite_crates_ok: "peer_crates_ok ref_suite ref_pair ref_chrono"
proof -
  have h: "hex_encode ref_crates = ref_hex_encode" "hex_decode ref_crates = ref_hex_decode" by (simp_all add: ref_crates_def)
  have "hex_law ref_suite" using ref_hex_law unfolding hex_law_def h ref_suite_simps .
  moreover have "hex_decode_law ref_suite" using ref_hex_decode_law unfolding hex_decode_law_def h ref_suite_simps .
  moreover have "hex_case_law ref_suite" using ref_hex_case_law unfolding hex_case_law_def h ref_suite_simps .
  moreover have "bs58_law ref_suite" using ref_bs58_law unfolding bs58_law_def ref_suite_simps .
  moreover have "digest_law ref_suite" by (auto simp: digest_law_def ref_digest_def)
  moreover have "json_law ref_suite" by (simp add: json_law_def ref_json_roundtrip)
  moreover have "mime_law ref_suite" by (simp add: mime_law_def)
  moreover have "strict_ed_key ref_suite (replicate 32 b)" if "b \<noteq> 0" for b
    using that by (simp add: strict_ed_key_def ref_crates_def)
  then have "ed_pair_law ref_suite ref_pair" by (simp add: ed_pair_law_def ref_pair_def)
  moreover have "p256_pair_law ref_suite ref_pair" by (simp add: p256_pair_law_def ref_pair_def ref_crates_def)
  ultimately show ?thesis by (simp add: peer_crates_ok_def ref_chrono_law)
qed

lemma ref_suite_hex_digits: "hex_digits_law ref_suite"
proof -
  have digit: "is_hex_lower (to_lower_char c)" if "hex_value c = Some n" for c n
    using that hex_value_lower [of c] by (auto simp: hex_value_def is_hex_lower_def is_ascii_digit_def Let_def
        to_lower_char_def is_ascii_upper_def split: if_splits)
  have "ref_hex_decode s = Inr b \<Longrightarrow> c \<in> set s \<Longrightarrow> is_hex_lower (to_lower_char c)" for s b c
    by (induction s arbitrary: b rule: ref_hex_decode.induct) (auto split: option.splits intro: digit)
  then show ?thesis by (simp add: hex_digits_law_def)
qed

lemma ref_run_in_time: "run_in_time ref_suite ref_chrono ref_run"
proof -
  have "inj_on (\<lambda>i. tk_nonce (ref_tick i)) {..<SUITE_REQUESTS}"
  proof (rule inj_onI)
    fix i j
    assume ij: "i \<in> {..<SUITE_REQUESTS}" "j \<in> {..<SUITE_REQUESTS}" "tk_nonce (ref_tick i) = tk_nonce (ref_tick j)"
    have "unat (of_nat i :: 8 word) = i" "unat (of_nat j :: 8 word) = j"
      using ij(1,2) by (simp_all add: unat_of_nat SUITE_REQUESTS_def)
    moreover have "unat (of_nat i :: 8 word) = unat (of_nat j :: 8 word)" using ij(3) by (simp add: ref_tick_def)
    ultimately show "i = j" by linarith
  qed
  moreover have "length (tk_nonce (ref_tick i)) = 32 \<and> length (tk_token (ref_tick i)) = 32" "tk_utc (ref_tick i) = 0"
    "tk_check (ref_tick i) = 5" "tk_now (ref_tick i) = 5" for i by (simp_all add: ref_tick_def)
  moreover have "dt_add_seconds ref_chrono 0 (sint (60 :: u64)) = Some 60" "timestamp_u64 ref_chrono 60 = 60"
    by (simp_all add: ref_chrono_def timestamp_u64_def)
  moreover have "fresh_window {5} 60" by (simp add: fresh_window_def ONE_DAY_SECS_def)
  ultimately show ?thesis by (simp add: run_in_time_def ref_run_def SESSION_TTL_SECS_def)
qed

lemma ref_run_setup: "tidy (pr_domain ref_run) (tg_base_url (pr_target ref_run))" "suite_draws_ok ref_run ref_suite_draws"
  "target_new ref_url ref_suite_env ''https://h'' = Inr (pr_target ref_run)" "SUITE_REQUESTS \<le> pr_requests ref_run"
  "\<exists>u. ref_url (tg_base_url (pr_target ref_run)) = Inr u" "ref_suite_env EXPIRY_WAIT_ENV \<noteq> Some ''1''"
proof -
  show "tidy (pr_domain ref_run) (tg_base_url (pr_target ref_run))"
    by (simp add: tidy_def ref_run_def ed25519_first_line_def starts_with_def graphic_def)
  have "hd (tk_nonce (ref_tick i)) \<noteq> hd (replicate 32 9)" for i by (simp add: ref_tick_def hd_append)
  then have "tk_nonce (ref_tick i) \<noteq> replicate 32 9" for i by metis
  then show "suite_draws_ok ref_run ref_suite_draws"
    by (simp add: suite_draws_ok_def did_draws_sized_def ref_run_def ref_suite_draws_def)
  obtain u where u: "ref_url ''https://h'' = Inr u" "pu_host_str u = Some ''h''"
    by (simp add: ref_url_def starts_with_def is_ascii_lower_def Let_def)
  then show "\<exists>u. ref_url (tg_base_url (pr_target ref_run)) = Inr u" "SUITE_REQUESTS \<le> pr_requests ref_run"
    by (simp_all add: ref_run_def)
  show "target_new ref_url ref_suite_env ''https://h'' = Inr (pr_target ref_run)"
    using u by (simp add: target_new_def ref_suite_env_def check_host_def ref_run_def trim_end_char_def)
  show "ref_suite_env EXPIRY_WAIT_ENV \<noteq> Some ''1''" by (simp add: ref_suite_env_def ALLOW_REMOTE_ENV_def EXPIRY_WAIT_ENV_def)
qed

lemma ref_challenge_tag:
  assumes "(signer_did (ed25519_did_key ref_suite ref_pair key), nonce, msg) \<in> run_challenges ref_suite ref_chrono ref_run"
  obtains i ch where "i < SUITE_REQUESTS" "msg = ch_message ch" "ref_tag (as_bytes msg) = tk_nonce (ref_tick i)"
    "tick_challenge ref_suite ref_chrono ref_run (ref_tick i) (signer_did (ed25519_did_key ref_suite ref_pair key)) = Some ch"
proof -
  let ?did = "signer_did (ed25519_did_key ref_suite ref_pair key)"
  obtain i ch where i: "i < SUITE_REQUESTS" "nonce = tick_nonce ref_suite (ref_tick i)" "msg = ch_message ch"
    "tick_challenge ref_suite ref_chrono ref_run (ref_tick i) ?did = Some ch"
    using assms by (auto simp: run_challenges_def ref_run_def)
  let ?e = "\<lparr>env_nonce = nonce, env_message = msg, env_expires_at = 0\<rparr>"
  have laws: "hex_law ref_suite" using ref_suite_crates_ok by (simp add: peer_crates_ok_def)
  have len: "length (tk_nonce (ref_tick i)) = 32" by (simp add: ref_tick_def)
  have "is_well_formed_nonce (env_nonce ?e)" unfolding i(2) tick_nonce_def challenge_envelope.select_convs
    by (rule nonce_shape(1) [OF laws len])
  moreover have "ed25519_text (pr_domain ref_run) (tg_base_url (pr_target ref_run)) (drop 8 ?did) ?e"
    by (rule ed25519_challenge [OF ref_suite_crates_ok refl i(4)]) (simp_all add: i(2,3))
  moreover obtain z where "drop 8 ?did = CHR ''z'' # z" "\<forall>c \<in> set (CHR ''z'' # z). graphic c"
    by (rule test_peer.ed_ident [OF fresh_peer_inv [OF ref_suite_crates_ok ref_run_setup(1) ref_run_in_time ref_run_setup(3,4)]])
  then have "\<forall>c \<in> set (drop 8 ?did). graphic c" by (simp only:)
  ultimately obtain issued expires where "split_on LF (env_message ?e) =
       [ed25519_first_line (pr_domain ref_run), drop 8 ?did, '''', ''Sign in to Aqua Node'', '''',
        ''URI: '' @ tg_base_url (pr_target ref_run), ''Version: 1'', ''Nonce: '' @ env_nonce ?e, ''Issued At: '' @ issued,
        ''Expiration Time: '' @ expires]"
    by (rule ed25519_lines [OF ref_run_setup(1)])
  then have "ref_tag (as_bytes msg) = tk_nonce (ref_tick i)"
    using hex_lawD(1) [OF laws, of "tk_nonce (ref_tick i)"] len by (simp add: ref_tag_def i(2) tick_nonce_def ref_pad_def)
  with i that show thesis by blast
qed

lemma ref_other_key: "aqua_multihash ref_suite (mldsa_public ref_pair True) \<noteq> aqua_multihash ref_suite (mldsa_public ref_pair False)"
proof -
  have "ref_digest (rev (as_bytes (akp_jwk (ref_hex_encode (replicate 2591 0 @ [b]))))) ! 2 = of_char (hex_digit (unat b mod 16))" for b
    by (simp add: ref_digest_def akp_jwk_def quoted_def ref_hex_encode_def show_byte_02x_def as_bytes_def)
  note last = this [of 1] this [of 2]
  have "hex_digit 1 \<noteq> hex_digit 2" by code_simp
  then have "(of_char (hex_digit (unat (1 :: 8 word) mod 16)) :: 8 word) \<noteq> of_char (hex_digit (unat (2 :: 8 word) mod 16))"
    using char_byte by (simp, metis)
  with last show ?thesis by (auto simp: aqua_multihash_def ref_pair_def simp del: unat_1 unat_numeral)
qed

lemma ref_no_forgery: "no_forgery ref_suite ref_pair (run_challenges ref_suite ref_chrono ref_run) (su_signature ref_suite_draws)"
  unfolding no_forgery_def Let_def
proof (intro conjI allI impI)
  let ?d = "su_signature ref_suite_draws" and ?L = "run_challenges ref_suite ref_chrono ref_run"
  have d: "sd_corruption_keys ?d i = True" "sd_keys ?d 0 = True" "sd_keys ?d 1 = False" "sd_keys ?d 2 = True"
    "sd_keys ?d 5 = False" "sd_keys ?d 6 = True" for i by (simp_all add: ref_suite_draws_def)
  have signed: "ed25519_signed ref_suite k msg sig \<Longrightarrow> sig = k @ ref_tag (as_bytes msg)" for k msg sig
    by (simp add: ed25519_signed_def)
  have first: "b \<noteq> 7 \<Longrightarrow> \<not> ed25519_signed ref_suite (7 # k) msg (b # s)" for b k msg s using signed by fastforce
  have zeros: "replicate 64 0 = (0 :: 8 word) # replicate 63 0" by (simp add: numeral_eq_Suc)
  have pub: "ed_public ref_pair True = 7 # replicate 31 7" "ed_public ref_pair False = 8 # replicate 31 8"
    "ed_sign ref_pair k m = ed_public ref_pair k @ ref_tag m" for k m
    by (simp_all add: ref_pair_def numeral_eq_Suc)
  fix i nonce msg nonce' msg'
  show "\<not> ed25519_signed ref_suite (ed_public ref_pair (sd_corruption_keys ?d i)) msg
      ((hd (ed_sign ref_pair (sd_corruption_keys ?d i) (as_bytes msg)) XOR 1) #
       tl (ed_sign ref_pair (sd_corruption_keys ?d i) (as_bytes msg)))"
    "\<not> ed25519_signed ref_suite (ed_public ref_pair (sd_corruption_keys ?d i)) msg
      (replicate (length (ed_sign ref_pair (sd_corruption_keys ?d i) (as_bytes msg))) 0)"
    "\<not> ed25519_signed ref_suite (ed_public ref_pair (sd_keys ?d 0)) msg (ed_sign ref_pair (sd_keys ?d 1) (as_bytes msg))"
    unfolding d pub by (simp_all add: first first [of 0 _ _ "replicate 63 0", folded zeros])
  show "aqua_multihash ref_suite (mldsa_public ref_pair (sd_keys ?d 5)) \<noteq> aqua_multihash ref_suite (mldsa_public ref_pair (sd_keys ?d 6))"
    unfolding d using ref_other_key by simp
  let ?did = "signer_did (ed25519_did_key ref_suite ref_pair (sd_keys ?d 2))"
  assume m: "(?did, nonce, msg) \<in> ?L" "(?did, nonce', msg') \<in> ?L" "msg \<noteq> msg'"
  obtain i ch where i: "i < SUITE_REQUESTS" "msg = ch_message ch" "ref_tag (as_bytes msg) = tk_nonce (ref_tick i)"
    "tick_challenge ref_suite ref_chrono ref_run (ref_tick i) ?did = Some ch" by (rule ref_challenge_tag [OF m(1)])
  obtain j ch' where j: "j < SUITE_REQUESTS" "msg' = ch_message ch'" "ref_tag (as_bytes msg') = tk_nonce (ref_tick j)"
    "tick_challenge ref_suite ref_chrono ref_run (ref_tick j) ?did = Some ch'" by (rule ref_challenge_tag [OF m(2)])
  have "i \<noteq> j" using i j m(3) by auto
  then have "ref_tag (as_bytes msg) \<noteq> ref_tag (as_bytes msg')"
    using ref_run_in_time i(1) j(1) unfolding i(3) j(3) by (auto simp: run_in_time_def ref_run_def inj_on_def)
  then show "\<not> ed25519_signed ref_suite (ed_public ref_pair (sd_keys ?d 2)) msg (ed_sign ref_pair (sd_keys ?d 2) (as_bytes msg'))"
    using signed unfolding pub by fastforce
qed

theorem peer_passes_suite_witness:
  "report_passed (fst (run_all ref_suite ref_pair (peer_reqwest ref_suite ref_chrono ref_sfv (\<lambda>_. Inr '''')) ref_url ref_suite_env
     (pr_target ref_run) ref_suite_draws (fresh_peer ref_suite ref_run (ed25519_did_key ref_suite ref_pair True))))"
proof -
  obtain u where u: "ref_url (tg_base_url (pr_target ref_run)) = Inr u" using ref_run_setup(5) by blast
  show ?thesis
    by (rule peer_passes_suite [OF ref_suite_crates_ok ref_suite_hex_digits ref_no_forgery ref_run_setup(1) ref_run_in_time
          ref_run_setup(2,3) u ref_run_setup(4,6)])
qed

end
