(* ===== verification/Suite_Detects.thy ===== *)
theory Suite_Detects
  imports Suite_Run
begin

text \<open>
  What a failing verdict is worth: servers with the defects of the negative controls in
  aqua-auth-testkit/tests/conformance.rs, each as a condition on the answers of a server in every
  state, and the cases of the suite that report them.
\<close>

section \<open>Defects\<close>

text \<open>A request that is answered is accepted.\<close>

definition takes :: "('x, 'z) harness_crates_scheme \<Rightarrow> 's reqwest \<Rightarrow> target \<Rightarrow> 's \<Rightarrow> json_text \<Rightarrow> bool" where
  "takes E W t s body \<longleftrightarrow> (\<forall>r s1. post_session E W t body s = (Inr r, s1) \<longrightarrow> accepted r)"

text \<open>A challenge with a message and a nonce for a DID, in every state.\<close>

definition serves :: "('x, 'z) harness_crates_scheme \<Rightarrow> 's reqwest \<Rightarrow> target \<Rightarrow> string \<Rightarrow> bool" where
  "serves E W t did \<longleftrightarrow> (\<forall>s. \<exists>r s1 message nonce. fetch_challenge E W t did s = (Inr r, s1) \<and> is_success r \<and>
     json_field_str r ''message'' = Some message \<and> json_field_str r ''nonce'' = Some nonce)"

text \<open>A time of day in milliseconds: at or after now, and no wrap-around.\<close>

definition in_millis :: "u64 \<Rightarrow> u64 \<Rightarrow> bool" where
  "in_millis now secs \<longleftrightarrow> now \<le> secs \<and> 100 \<le> unat secs \<and> unat secs * 1000 < 2 ^ 64"

datatype defect = NotConsumed | Milliseconds | Unverified | UpperNonce | ByDid

fun has_defect ::
  "defect \<Rightarrow> ('x, 'z) harness_crates_scheme \<Rightarrow> ('k, 'x, 'y) test_keys_scheme \<Rightarrow> 's reqwest \<Rightarrow> target \<Rightarrow> 'k suite_draws \<Rightarrow> bool" where
  "has_defect NotConsumed E K W t d \<longleftrightarrow>
     (\<forall>key s. \<exists>flow s1. login E W t (ed25519_did_key E K key) s = (Inr flow, s1) \<and> accepted (lf_session_response flow) \<and>
        takes E W t s1 (lf_session_request flow))"
| "has_defect Milliseconds E K W t d \<longleftrightarrow>
     (\<forall>did s r s1 e. fetch_challenge E W t did s = (Inr r, s1) \<longrightarrow> json_field_u64 r ''expires_at'' = Some e \<longrightarrow>
        (\<exists>secs. e = 1000 * secs \<and> in_millis (su_wire_clock d 0) secs))"
| "has_defect Unverified E K W t d \<longleftrightarrow>
     (\<forall>body req s. session_request_of_json body = Inr req \<longrightarrow>
        (\<exists>r s1. post_session E W t body s = (Inr r, s1) \<and> accepted r)) \<and>
     (\<forall>key. serves E W t (signer_did (ed25519_did_key E K key)) \<and> serves E W t (signer_did (ml_dsa_87_local E K key)))"
| "has_defect UpperNonce E K W t d \<longleftrightarrow>
     (\<forall>did s r s1 n. fetch_challenge E W t did s = (Inr r, s1) \<longrightarrow> json_field_str r ''nonce'' = Some n \<longrightarrow>
        (\<exists>m. n = map to_upper_char m))"
| "has_defect ByDid E K W t d \<longleftrightarrow>
     (\<forall>key s r s1 message body req. fetch_challenge E W t (signer_did (ed25519_did_key E K key)) s = (Inr r, s1) \<longrightarrow>
        json_field_str r ''message'' = Some message \<longrightarrow> session_request_of_json body = Inr req \<longrightarrow>
        (\<exists>nonce. req = ed_request E K key nonce (ed_sign K key (as_bytes message))) \<longrightarrow> takes E W t s1 body)"

text \<open>The failing cases each negative control names, cascades included.\<close>

fun defect_cases :: "defect \<Rightarrow> string list" where
  "defect_cases NotConsumed = [''spec_7_3_nonce_single_use'']"
| "defect_cases Milliseconds = [''spec_6_2_expires_at_sane'']"
| "defect_cases Unverified =
     [''spec_6_3_public_key_binding'', ''spec_7_1_unknown_nonce_refused'', ''spec_7_3_nonce_single_use'',
      ''spec_7_6_signature_invalid_refused'', ''spec_7_6_wrong_key_refused'', ''spec_7_7_message_binding'']"
| "defect_cases UpperNonce = [''spec_6_2_nonce_format'']"
| "defect_cases ByDid = [''spec_7_1_unknown_nonce_refused'', ''spec_7_7_message_binding'']"

section \<open>Verdicts\<close>

definition fails :: "string \<Rightarrow> ('s \<Rightarrow> case_result \<times> 's) \<Rightarrow> bool" where
  "fails i f \<longleftrightarrow> (\<forall>s. cr_id (fst (f s)) = i \<and> cr_outcome (fst (f s)) = Fail)"

lemma takesD: "takes E W t s body \<Longrightarrow> post_session E W t body s = (Inr r, s1) \<Longrightarrow> accepted r"
  by (auto simp: takes_def)

lemma run_cases_each: "f \<in> set fs \<Longrightarrow> \<exists>s'. fst (f s') \<in> set (fst (run_cases fs s))"
proof (induction fs arbitrary: s)
  case (Cons g fs)
  obtain c s1 where c: "g s = (c, s1)" by (cases "g s")
  have "fst (g s) \<in> set (fst (run_cases (g # fs) s))" by (simp add: c split: prod.split)
  moreover have "set (fst (run_cases fs s1)) \<subseteq> set (fst (run_cases (g # fs) s))" by (auto simp: c split: prod.split)
  ultimately show ?case using Cons.prems Cons.IH [of s1] by auto
qed simp

lemma failing_case:
  "fails i f \<Longrightarrow> f \<in> set fs \<Longrightarrow> \<exists>c \<in> set (fst (run_cases fs s)). cr_id c = i \<and> cr_outcome c = Fail"
  using run_cases_each [of f fs s] by (auto simp: fails_def)

lemma failing_report: "c \<in> set cs \<Longrightarrow> cr_outcome c = Fail \<Longrightarrow> \<not> report_passed cs"
  by (induction cs) auto

lemma expires_at_fails:
  assumes "has_defect Milliseconds E K W t d"
  shows "fails ''spec_6_2_expires_at_sane'' (spec_6_2_expires_at_sane E K W t key (su_wire_clock d 0))"
proof -
  have far: "ONE_DAY_SECS < 1000 * secs - now" if "in_millis now secs" for now secs :: u64
  proof -
    have m: "unat now \<le> unat secs" "100 \<le> unat secs" "1000 * unat secs < 2 ^ 64"
      using that by (simp_all add: in_millis_def word_le_nat_alt)
    then have mul: "unat (1000 * secs) = 1000 * unat secs" by (simp add: unat_word_ariths)
    then have "unat (1000 * secs - now) = 1000 * unat secs - unat now"
      using m by (subst unat_sub) (simp_all add: word_le_nat_alt)
    then show ?thesis using m by (simp add: word_less_nat_alt ONE_DAY_SECS_def)
  qed
  have verdict: "cr_id v = i \<and> cr_outcome v = Fail"
    if "v = expires_at_verdict (case_pass i ref title) (case_fail i ref title) now r"
      "\<forall>e. json_field_u64 r ''expires_at'' = Some e \<longrightarrow> ONE_DAY_SECS < e - now" for v i ref title now r
    using that by (cases "json_field_u64 r ''expires_at''") (auto simp: expires_at_verdict_def require_def)
  have "\<forall>e. json_field_u64 r ''expires_at'' = Some e \<longrightarrow> ONE_DAY_SECS < e - su_wire_clock d 0"
    if "fetch_challenge E W t did s = (Inr r, s1)" for did s r s1
    using assms that far by fastforce
  note verdict [OF refl this]
  then show ?thesis by (auto simp: fails_def spec_6_2_expires_at_sane_def Let_def split: prod.split sum.split)
qed


text \<open>No image of \<open>to_upper_char\<close> has the lower-case \<open>x\<close> of the prefix.\<close>

lemma nonce_format_fails:
  assumes "has_defect UpperNonce E K W t d"
  shows "fails ''spec_6_2_nonce_format'' (spec_6_2_nonce_format E K W t key)"
proof -
  have x: "to_upper_char c \<noteq> CHR ''x''" for c
  proof
    assume x: "to_upper_char c = CHR ''x''"
    then have "is_ascii_lower c" by (auto simp: to_upper_char_def is_ascii_lower_def split: if_splits)
    then have l: "97 \<le> (of_char c :: nat)" "(of_char c :: nat) \<le> 122" by (simp_all add: is_ascii_lower_def)
    have "(of_char (to_upper_char c) :: nat) = of_char c - 32" using l by (simp add: to_upper_char_def is_ascii_lower_def)
    with l x show False by simp
  qed
  have bad: "\<not> is_well_formed_nonce (map to_upper_char m)" for m
  proof
    assume "is_well_formed_nonce (map to_upper_char m)"
    then obtain h where "map to_upper_char m = CHR ''0'' # CHR ''x'' # h"
      by (auto simp: is_well_formed_nonce_def strip_prefix_Some split: option.splits)
    with x show False by (auto simp: map_eq_Cons_conv)
  qed
  show ?thesis
    unfolding fails_def
  proof
    fix s
    let ?did = "signer_did (ed25519_did_key E K key)" and ?c = "fst (spec_6_2_nonce_format E K W t key s)"
    show "cr_id ?c = ''spec_6_2_nonce_format'' \<and> cr_outcome ?c = Fail"
    proof (cases "\<exists>r s1 n. fetch_challenge E W t ?did s = (Inr r, s1) \<and> json_field_str r ''nonce'' = Some n")
      case True
      then obtain r s1 n where f: "fetch_challenge E W t ?did s = (Inr r, s1)" "json_field_str r ''nonce'' = Some n" by blast
      from assms [unfolded has_defect.simps, rule_format, OF f] obtain m where "n = map to_upper_char m" by blast
      with f bad [of m] show ?thesis by (simp add: spec_6_2_nonce_format_def Let_def)
    next
      case False
      then show ?thesis
        by (cases "fetch_challenge E W t ?did s") (auto simp: spec_6_2_nonce_format_def ok_or_def Let_def split: sum.split option.split)
    qed
  qed
qed

lemma unknown_nonce_fails:
  assumes "\<And>s r s1 message nonce. fetch_challenge E W t (signer_did (ed25519_did_key E K key)) s = (Inr r, s1) \<Longrightarrow>
      json_field_str r ''message'' = Some message \<Longrightarrow>
      takes E W t s1 (json_set ''nonce'' (JString (wire_hex E random))
        (session_body E (signer_did (ed25519_did_key E K key)) nonce (ed_sign K key (as_bytes message))))"
  shows "fails ''spec_7_1_unknown_nonce_refused'' (spec_7_1_unknown_nonce_refused E K W t key random)"
proof -
  have "takes E W t s1 (json_set ''nonce'' (JString (wire_hex E random)) body)"
    if "fetch_challenge E W t (signer_did (ed25519_did_key E K key)) s = (Inr r, s1)"
      "sign_challenge E r (ed25519_did_key E K key) = Inr body" for s r s1 body
    using assms [OF that(1)] that(2) by (auto simp: sign_challenge_Inr ed25519_did_key_fields)
  then show ?thesis
    by (auto simp: fails_def spec_7_1_unknown_nonce_refused_def session_accepted_iff takes_def Let_def
        split: prod.split sum.split)
qed

lemma single_use_fails:
  assumes "has_defect NotConsumed E K W t d"
  shows "fails ''spec_7_3_nonce_single_use'' (spec_7_3_nonce_single_use E K W t key)"
  unfolding fails_def
proof
  fix s
  obtain flow s1 where "login E W t (ed25519_did_key E K key) s = (Inr flow, s1)" "accepted (lf_session_response flow)"
    "takes E W t s1 (lf_session_request flow)" using assms by force
  then show "cr_id (fst (spec_7_3_nonce_single_use E K W t key s)) = ''spec_7_3_nonce_single_use'' \<and>
      cr_outcome (fst (spec_7_3_nonce_single_use E K W t key s)) = Fail"
    by (auto simp: spec_7_3_nonce_single_use_def session_accepted_iff takes_def Let_def split: prod.split sum.split)
qed

lemma corruption_row_reports:
  assumes "\<And>s nonce sig x. takes E W t s (json_set ''signature'' (JString x) (session_body E (signer_did (ed25519_did_key E K key)) nonce sig))"
  shows "\<exists>p s1. corruption_row E W t (ed25519_did_key E K key) label corrupt s = (Some p, s1)"
proof -
  have "accepted r2" if "sign_challenge E r (ed25519_did_key E K key) = Inr body"
    "post_session E W t (json_set ''signature'' (JString x) body) s1 = (Inr r2, s2)" for r s1 body x r2 s2
    using that takesD [OF assms] by (auto simp: sign_challenge_Inr ed25519_did_key_fields)
  then show ?thesis
    by (auto simp: corruption_row_def Let_def split: prod.split sum.split option.split)
qed

lemma corruptions_fail:
  assumes "\<And>key s nonce sig x. takes E W t s (json_set ''signature'' (JString x) (session_body E (signer_did (ed25519_did_key E K key)) nonce sig))"
  shows "fails ''spec_7_6_signature_invalid_refused'' (spec_7_6_signature_invalid_refused E K W t keys)"
proof -
  have "fst (corruption_loop E K W t (row # rows) s) \<noteq> []" for row rows s
  proof -
    obtain label corrupt key where row: "row = ((label, corrupt), key)" by (metis surj_pair)
    obtain p s1 where "corruption_row E W t (ed25519_did_key E K key) label corrupt s = (Some p, s1)"
      using corruption_row_reports [OF assms] by blast
    then show ?thesis by (simp add: row split: prod.split)
  qed
  then show ?thesis
    by (auto simp: fails_def spec_7_6_signature_invalid_refused_def SIGNATURE_CORRUPTIONS_def upt_conv_Cons Let_def
        simp del: corruption_loop.simps split: prod.split) (metis fst_conv)
qed


lemma wrong_key_fails:
  assumes "\<And>s nonce sig. takes E W t s (session_body E (signer_did (ed25519_did_key E K key_a)) nonce sig)"
  shows "fails ''spec_7_6_wrong_key_refused'' (spec_7_6_wrong_key_refused E K W t key_a key_b)"
  using takesD [OF assms]
  by (auto simp: fails_def spec_7_6_wrong_key_refused_def ed25519_did_key_fields Let_def split: prod.split sum.split)

lemma message_and_nonce_message: "message_and_nonce E r = Inr (message, nonce) \<Longrightarrow> json_field_str r ''message'' = Some message"
  by (cases "hr_json r") (auto simp: message_and_nonce_def json_field_str_def)

lemma cross_reports:
  assumes "takes E W t s (session_body E (signer_did (ed25519_did_key E K key)) nonce (ed_sign K key (as_bytes message)))"
  shows "fst (cross_submission E W t (ed25519_did_key E K key) message nonce f a b s) \<noteq> []"
  using takesD [OF assms]
  by (auto simp: cross_submission_def ed25519_did_key_fields split: prod.split sum.split)

lemma message_binding_fails:
  assumes "\<And>s r s1 message nonce. fetch_challenge E W t (signer_did (ed25519_did_key E K key)) s = (Inr r, s1) \<Longrightarrow>
      json_field_str r ''message'' = Some message \<Longrightarrow>
      takes E W t s1 (session_body E (signer_did (ed25519_did_key E K key)) nonce (ed_sign K key (as_bytes message)))"
  shows "fails ''spec_7_7_message_binding'' (spec_7_7_message_binding E K W t key)"
proof -
  have "xs \<noteq> []" if "fetch_challenge E W t (signer_did (ed25519_did_key E K key)) s = (Inr r, s1)"
    "message_and_nonce E r = Inr (message, n)"
    "cross_submission E W t (ed25519_did_key E K key) message nonce f a b s1 = (xs, s2)" for s r s1 message n nonce f a b xs s2
    using cross_reports [OF assms [OF that(1) message_and_nonce_message [OF that(2)]], of nonce f a b] that(3) by simp
  then show ?thesis
    unfolding fails_def spec_7_7_message_binding_def Let_def by (auto split: prod.split sum.split)
qed

lemma public_key_binding_fails:
  assumes "serves E W t (signer_did (ml_dsa_87_local E K key_a))"
    and "\<And>s nonce sig pk pk'. takes E W t s (json_set ''public_key'' (JString pk') (json_set ''public_key'' (JString pk)
      (session_body E (signer_did (ml_dsa_87_local E K key_a)) nonce sig)))"
  shows "fails ''spec_6_3_public_key_binding'' (spec_6_3_public_key_binding E K W t key_a key_b)"
  unfolding fails_def
proof
  fix s
  let ?did = "signer_did (ml_dsa_87_local E K key_a)" and ?c = "fst (spec_6_3_public_key_binding E K W t key_a key_b s)"
  obtain r s1 message nonce where r: "fetch_challenge E W t ?did s = (Inr r, s1)" "is_success r"
    "json_field_str r ''message'' = Some message" "json_field_str r ''nonce'' = Some nonce"
    using assms(1) unfolding serves_def by blast
  then have "sign_challenge E r (ml_dsa_87_local E K key_a) =
      Inr (json_set ''public_key'' (JString (wire_hex E (mldsa_public K key_a)))
        (session_body E ?did nonce (mldsa_sign K key_a (as_bytes message))))"
    by (simp add: sign_challenge_Inr)
  with r(1,2) takesD [OF assms(2)] show "cr_id ?c = ''spec_6_3_public_key_binding'' \<and> cr_outcome ?c = Fail"
    by (auto simp: spec_6_3_public_key_binding_def Let_def split: prod.split sum.split)
qed


section \<open>From the defects to the verdicts\<close>

lemma unverified_takes:
  assumes "has_defect Unverified E K W t d" "session_request_of_json body = Inr req"
  shows "takes E W t s body"
proof -
  obtain r s1 where "post_session E W t body s = (Inr r, s1)" "accepted r"
    using assms unfolding has_defect.simps by blast
  then show ?thesis by (simp add: takes_def)
qed

lemma unverified_bodies:
  assumes "has_defect Unverified E K W t d"
  shows "takes E W t s (session_body E did nonce sig)"
    "takes E W t s (json_set ''nonce'' (JString x) (session_body E did nonce sig))"
    "takes E W t s (json_set ''signature'' (JString x) (session_body E did nonce sig))"
    "takes E W t s (json_set ''public_key'' (JString x) (json_set ''public_key'' (JString y) (session_body E did nonce sig)))"
  by (rule unverified_takes [OF assms session_body_read],
      (rule unverified_takes [OF assms], simp only: tampered_bodies(1,2) three_members_read(1))+,
      rule unverified_takes [OF assms], simp only: tampered_bodies(4) three_members_read(2))

text \<open>Without verification nothing is consumed either.\<close>

lemma unverified_not_consumed:
  assumes "has_defect Unverified E K W t d"
  shows "has_defect NotConsumed E K W t d"
  unfolding has_defect.simps
proof (intro allI)
  fix key s
  let ?signer = "ed25519_did_key E K key"
  obtain r s1 message nonce where r: "fetch_challenge E W t (signer_did ?signer) s = (Inr r, s1)" "is_success r"
    "json_field_str r ''message'' = Some message" "json_field_str r ''nonce'' = Some nonce"
    using assms unfolding has_defect.simps serves_def by blast
  let ?body = "session_body E (signer_did ?signer) nonce (ed_sign K key (as_bytes message))"
  have signed: "sign_challenge E r ?signer = Inr ?body" using r by (simp add: sign_challenge_Inr ed25519_did_key_fields)
  obtain r2 s2 where p: "post_session E W t ?body s1 = (Inr r2, s2)" "accepted r2"
    using assms session_body_read unfolding has_defect.simps by blast
  let ?flow = "\<lparr>lf_challenge = hr_json r, lf_session_request = ?body, lf_session_response = r2\<rparr>"
  have "login E W t ?signer s = (Inr ?flow, s2)" unfolding login_Inr using r(1) signed p(1) by auto
  with p(2) unverified_bodies(1) [OF assms]
  show "\<exists>flow s1. login E W t ?signer s = (Inr flow, s1) \<and> accepted (lf_session_response flow) \<and>
      takes E W t s1 (lf_session_request flow)" by fastforce
qed

lemma by_did_takes:
  assumes "has_defect ByDid E K W t d" "fetch_challenge E W t (signer_did (ed25519_did_key E K key)) s = (Inr r, s1)"
    and "json_field_str r ''message'' = Some message"
    and "session_request_of_json body = Inr (ed_request E K key nonce (ed_sign K key (as_bytes message)))"
  shows "takes E W t s1 body"
  using assms unfolding has_defect.simps by blast

lemma by_did_bodies:
  assumes "has_defect ByDid E K W t d" "fetch_challenge E W t (signer_did (ed25519_did_key E K key)) s = (Inr r, s1)"
    and "json_field_str r ''message'' = Some message"
  shows "takes E W t s1 (session_body E (signer_did (ed25519_did_key E K key)) nonce (ed_sign K key (as_bytes message)))"
    "takes E W t s1 (json_set ''nonce'' (JString x)
       (session_body E (signer_did (ed25519_did_key E K key)) nonce (ed_sign K key (as_bytes message))))"
  by (rule by_did_takes [OF assms, of _ nonce], simp add: session_body_read ed_request_def)
     (rule by_did_takes [OF assms, of _ x], simp only: tampered_bodies three_members_read ed_request_def)

lemma unverified_fails:
  assumes "has_defect Unverified E K W t d"
  shows "fails ''spec_6_3_public_key_binding'' (spec_6_3_public_key_binding E K W t key key')"
    "fails ''spec_7_1_unknown_nonce_refused'' (spec_7_1_unknown_nonce_refused E K W t key random)"
    "fails ''spec_7_3_nonce_single_use'' (spec_7_3_nonce_single_use E K W t key)"
    "fails ''spec_7_6_signature_invalid_refused'' (spec_7_6_signature_invalid_refused E K W t keys)"
    "fails ''spec_7_6_wrong_key_refused'' (spec_7_6_wrong_key_refused E K W t key key')"
    "fails ''spec_7_7_message_binding'' (spec_7_7_message_binding E K W t key)"
proof -
  note b = unverified_bodies [OF assms]
  have "serves E W t (signer_did (ml_dsa_87_local E K key))" using assms by simp
  then show "fails ''spec_6_3_public_key_binding'' (spec_6_3_public_key_binding E K W t key key')"
    by (rule public_key_binding_fails) (rule b(4))
  show "fails ''spec_7_1_unknown_nonce_refused'' (spec_7_1_unknown_nonce_refused E K W t key random)"
    by (rule unknown_nonce_fails) (rule b(2))
  show "fails ''spec_7_3_nonce_single_use'' (spec_7_3_nonce_single_use E K W t key)"
    by (rule single_use_fails [OF unverified_not_consumed [OF assms]])
  show "fails ''spec_7_6_signature_invalid_refused'' (spec_7_6_signature_invalid_refused E K W t keys)"
    by (rule corruptions_fail) (rule b(3))
  show "fails ''spec_7_6_wrong_key_refused'' (spec_7_6_wrong_key_refused E K W t key key')"
    by (rule wrong_key_fails) (rule b(1))
  show "fails ''spec_7_7_message_binding'' (spec_7_7_message_binding E K W t key)"
    by (rule message_binding_fails) (rule b(1))
qed

text \<open>Every case a negative control names fails, from every state of the server.\<close>

lemma defect_fails:
  assumes "has_defect x E K W t d" "i \<in> set (defect_cases x)"
  shows "\<exists>f \<in> set (wire_cases E K W t (su_wire_keys d) (su_wire_clock d) @ nonce_and_did_cases E K W t (su_nonce d) @
    signature_cases E K W U env t (su_signature d)). fails i f"
proof (cases x)
  case NotConsumed
  with assms(1) have "has_defect NotConsumed E K W t d" by simp
  from single_use_fails [OF this] show ?thesis using assms(2) NotConsumed by (auto simp: nonce_and_did_cases_def)
next
  case Milliseconds
  with assms(1) have "has_defect Milliseconds E K W t d" by simp
  from expires_at_fails [OF this] show ?thesis using assms(2) Milliseconds by (auto simp: wire_cases_def)
next
  case UpperNonce
  with assms(1) have "has_defect UpperNonce E K W t d" by simp
  from nonce_format_fails [OF this] show ?thesis using assms(2) UpperNonce by (auto simp: wire_cases_def)
next
  case ByDid
  with assms(1) have "has_defect ByDid E K W t d" by simp
  note b = by_did_bodies [OF this]
  have "fails ''spec_7_1_unknown_nonce_refused'' (spec_7_1_unknown_nonce_refused E K W t key random)" for key random
    by (rule unknown_nonce_fails) (rule b(2))
  moreover have "fails ''spec_7_7_message_binding'' (spec_7_7_message_binding E K W t key)" for key
    by (rule message_binding_fails) (rule b(1))
  ultimately show ?thesis using assms(2) ByDid by (auto simp: nonce_and_did_cases_def signature_cases_def)
next
  case Unverified
  with assms(1) have "has_defect Unverified E K W t d" by simp
  from unverified_fails [OF this] show ?thesis
    using assms(2) Unverified by (auto simp: nonce_and_did_cases_def signature_cases_def)
qed

text \<open>
  C22. The suite detects what its negative controls break: against any server that does not
  consume its challenges, states its expiry in milliseconds, does not verify, writes its nonces in
  capitals or looks challenges up by DID, the run does not pass, and every case the control names is in
  the report as a failure, whatever the keys and draws of the run and whatever state the server is in.
\<close>

theorem suite_detects:
  assumes "has_defect x E K W t d"
  shows "\<not> report_passed (fst (run_all E K W U env t d s)) \<and>
    (\<forall>i \<in> set (defect_cases x). \<exists>c \<in> set (fst (run_all E K W U env t d s)). cr_id c = i \<and> cr_outcome c = Fail)"
proof -
  have each: "\<exists>c \<in> set (fst (run_all E K W U env t d s)). cr_id c = i \<and> cr_outcome c = Fail"
    if i: "i \<in> set (defect_cases x)" for i
  proof -
    obtain f where "f \<in> set (wire_cases E K W t (su_wire_keys d) (su_wire_clock d) @ nonce_and_did_cases E K W t (su_nonce d) @
        signature_cases E K W U env t (su_signature d))" "fails i f" using defect_fails [OF assms i] by (rule bexE)
    then show ?thesis unfolding run_all_cases by (intro failing_case)
  qed
  have "\<exists>i. i \<in> set (defect_cases x)" by (cases x) auto
  then obtain c where "c \<in> set (fst (run_all E K W U env t d s))" "cr_outcome c = Fail" using each by (elim exE) blast
  with each show ?thesis by (intro conjI ballI failing_report)
qed

section \<open>A server at concrete values\<close>

text \<open>A server that hands out one challenge and opens a session for whatever it is sent.\<close>

definition ref_answer :: "json_text \<Rightarrow> unit \<Rightarrow> (string + reqwest_response) \<times> unit" where
  "ref_answer v s = (Inr \<lparr>rp_status = 200, rp_text = Inr (write_value v)\<rparr>, s)"

definition ref_open_server :: "unit reqwest" where
  "ref_open_server = \<lparr>
     rq_get = (\<lambda>_ _. ref_answer (JObject [(''message'', JString ''m''), (''nonce'', JString ''n'')])),
     rq_post = (\<lambda>_ _. ref_answer (JObject [(''token'', JString ''t'')])), rq_sleep = (\<lambda>_ s. s)\<rparr>"

lemma ref_open_unverified: "has_defect Unverified ref_suite ref_pair ref_open_server (pr_target ref_run) ref_suite_draws"
proof -
  have "\<exists>r s1. post_session ref_suite ref_open_server (pr_target ref_run) body s = (Inr r, s1) \<and> accepted r" for body s
    by (simp add: post_session_def conf_post_session_def ref_open_server_def ref_answer_def into_http_response_def ref_json_roundtrip
        accepted_def is_success_def json_field_str_def get_str_def del: write_value.simps)
  moreover have "serves ref_suite ref_open_server (pr_target ref_run) did" for did
    by (simp add: serves_def fetch_challenge_def conf_get_challenge_def ref_open_server_def ref_answer_def into_http_response_def
        ref_json_roundtrip is_success_def json_field_str_def get_str_def del: write_value.simps)
  ultimately show ?thesis by simp
qed

theorem suite_detects_witness:
  "\<not> report_passed (fst (run_all ref_suite ref_pair ref_open_server ref_url ref_suite_env (pr_target ref_run) ref_suite_draws ())) \<and>
   (\<exists>c \<in> set (fst (run_all ref_suite ref_pair ref_open_server ref_url ref_suite_env (pr_target ref_run) ref_suite_draws ())).
      cr_id c = ''spec_7_7_message_binding'' \<and> cr_outcome c = Fail)"
  using suite_detects [OF ref_open_unverified, of ref_url ref_suite_env "()"] by simp

end
