(* ===== verification/Suite_Cost.thy ===== *)
theory Suite_Cost
  imports Cases_Signature
begin

text \<open>
  What a run of the suite costs, whatever the server answers: reqwest with a meter of the requests
  sent and the seconds slept, and for each case its id and a bound on both.
\<close>

section \<open>The meter\<close>

definition metered :: "'s reqwest \<Rightarrow> ('s \<times> nat \<times> nat) reqwest" where
  "metered W =
     \<lparr>rq_get = (\<lambda>url query (s, n, z). case rq_get W url query s of (r, s') \<Rightarrow> (r, s', Suc n, z)),
      rq_post = (\<lambda>url body (s, n, z). case rq_post W url body s of (r, s') \<Rightarrow> (r, s', Suc n, z)),
      rq_sleep = (\<lambda>k (s, n, z). (rq_sleep W k s, n, z + k))\<rparr>"

text \<open>
  A result that satisfies \<open>P\<close>, that the meter does not disturb, reached with at most \<open>k\<close> requests
  sent and \<open>y\<close> seconds slept in all.
\<close>

definition within :: "('a \<Rightarrow> bool) \<Rightarrow> nat \<Rightarrow> nat \<Rightarrow> 'a \<times> 's \<Rightarrow> 'a \<times> 's \<times> nat \<times> nat \<Rightarrow> bool" where
  "within P k y r m \<longleftrightarrow> P (fst r) \<and> (\<exists>n z. m = (fst r, snd r, n, z) \<and> n \<le> k \<and> z \<le> y)"

definition costs ::
  "('a \<Rightarrow> bool) \<Rightarrow> nat \<Rightarrow> nat \<Rightarrow> ('s \<Rightarrow> 'a \<times> 's) \<Rightarrow> ('s \<times> nat \<times> nat \<Rightarrow> 'a \<times> 's \<times> nat \<times> nat) \<Rightarrow> bool" where
  "costs P k y f g \<longleftrightarrow> (\<forall>s n z. within P (n + k) (z + y) (f s) (g (s, n, z)))"

named_theorems metered_intros

lemma costsI: "(\<And>s n z. within P (n + k) (z + y) (f s) (g (s, n, z))) \<Longrightarrow> costs P k y f g"
  by (simp add: costs_def)

lemma within_done [metered_intros]: "P c \<Longrightarrow> n \<le> k \<Longrightarrow> z \<le> y \<Longrightarrow> within P k y (c, s) (c, s, n, z)"
  by (simp add: within_def)

lemma within_if [metered_intros]:
  "(c \<Longrightarrow> within P k y a a') \<Longrightarrow> (\<not> c \<Longrightarrow> within P k y b b') \<Longrightarrow> within P k y (if c then a else b) (if c then a' else b')"
  by simp

lemma within_option [metered_intros]:
  "within P k y a a' \<Longrightarrow> (\<And>x. within P k y (b x) (b' x)) \<Longrightarrow>
     within P k y (case m of None \<Rightarrow> a | Some x \<Rightarrow> b x) (case m of None \<Rightarrow> a' | Some x \<Rightarrow> b' x)"
  by (cases m) simp_all

lemma within_sum [metered_intros]:
  "(\<And>e. within P k y (a e) (a' e)) \<Longrightarrow> (\<And>x. within P k y (b x) (b' x)) \<Longrightarrow>
     within P k y (case r of Inl e \<Rightarrow> a e | Inr x \<Rightarrow> b x) (case r of Inl e \<Rightarrow> a' e | Inr x \<Rightarrow> b' x)"
  by (cases r) simp_all

lemma within_prod [metered_intros]:
  "(\<And>x y'. within P k y (a x y') (b x y')) \<Longrightarrow> within P k y (case p of (x, y') \<Rightarrow> a x y') (case p of (x, y') \<Rightarrow> b x y')"
  by (cases p) simp_all

lemma within_bind:
  assumes "costs Q k' y' f g"
    and "\<And>x s' n' z'. Q x \<Longrightarrow> n' \<le> n + k' \<Longrightarrow> z' \<le> z + y' \<Longrightarrow> within P k y (a x s') (b x (s', n', z'))"
  shows "within P k y (case f s of (x, s1) \<Rightarrow> a x s1) (case g (s, n, z) of (x, s1) \<Rightarrow> b x s1)"
proof -
  obtain x s' where f: "f s = (x, s')" by fastforce
  have "within Q (n + k') (z + y') (x, s') (g (s, n, z))" using assms(1) f unfolding costs_def by metis
  then obtain n' z' where "Q x" "g (s, n, z) = (x, s', n', z')" "n' \<le> n + k'" "z' \<le> z + y'" by (auto simp: within_def)
  with f assms(2) show ?thesis by simp
qed

lemma fetch_costs: "costs (\<lambda>_. True) 1 0 (fetch_challenge E W t did) (fetch_challenge E (metered W) t did)"
  by (auto simp: costs_def within_def fetch_challenge_def conf_get_challenge_def metered_def split: prod.split sum.split)

lemma post_costs: "costs (\<lambda>_. True) 1 0 (post_session E W t body) (post_session E (metered W) t body)"
  by (auto simp: costs_def within_def post_session_def conf_post_session_def metered_def split: prod.split sum.split)

lemmas within_fetch [metered_intros] = within_bind [OF fetch_costs]
lemmas within_post [metered_intros] = within_bind [OF post_costs]

lemma metered_sleep: "rq_sleep (metered W) k (s, n, z) = (rq_sleep W k s, n, z + k)"
  by (simp add: metered_def)

lemma login_costs: "costs (\<lambda>_. True) 2 0 (login E W t signer) (login E (metered W) t signer)"
  unfolding login_def by (intro costsI metered_intros) simp_all

lemmas within_login [metered_intros] = within_bind [OF login_costs]

section \<open>The ids of the verdicts\<close>

lemma id_require: "cr_id c = i \<Longrightarrow> cr_id (verdict_of (v ())) = i \<Longrightarrow> cr_id (verdict_of (rbind (require b c) v)) = i"
  by (cases b) simp_all

lemma id_ok_or: "cr_id c = i \<Longrightarrow> (\<And>x. cr_id (verdict_of (v x)) = i) \<Longrightarrow> cr_id (verdict_of (rbind (ok_or m c) v)) = i"
  by (cases m) simp_all

lemma id_member:
  "(\<And>x. cr_id (fail x) = i) \<Longrightarrow> cr_id (verdict_of (v ())) = i \<Longrightarrow>
     cr_id (verdict_of (rbind (member_check E fail body k test kind) v)) = i"
  by (cases "json_get k body"; cases "test (the (json_get k body))") (simp_all add: member_check_def)

lemma verdict_ids:
  assumes "\<And>x. cr_id (pass x) = i" "\<And>x. cr_id (fail x) = i"
  shows "cr_id (required_fields_verdict E pass fail r) = i" "cr_id (message_structure_verdict E pass fail ident r) = i"
    "cr_id (expires_at_verdict pass fail now r) = i" "cr_id (session_shape_verdict E pass fail did now r) = i"
    "cr_id (uri_origin_verdict E U pass fail t r) = i"
proof -
  have "cr_id (message_template_verdict E pass fail ident m nonce) = i" for m nonce
    unfolding message_template_verdict_def Let_def by (intro id_require) (simp_all add: assms)
  then show "cr_id (message_structure_verdict E pass fail ident r) = i"
    unfolding message_structure_verdict_def by (intro id_ok_or) (simp_all add: assms)
  show "cr_id (required_fields_verdict E pass fail r) = i"
    unfolding required_fields_verdict_def by (intro id_require id_ok_or id_member) (simp_all add: assms)
  show "cr_id (expires_at_verdict pass fail now r) = i"
    unfolding expires_at_verdict_def by (intro id_require id_ok_or) (simp_all add: assms)
  show "cr_id (session_shape_verdict E pass fail did now r) = i"
    unfolding session_shape_verdict_def by (intro id_require id_ok_or) (simp_all add: assms)
  show "cr_id (uri_origin_verdict E U pass fail t r) = i"
    unfolding uri_origin_verdict_def Let_def by (intro id_require id_ok_or) (simp_all add: assms split: sum.split)
qed

text \<open>The id of a choice between verdicts.\<close>

lemma id_if [metered_intros]: "cr_id a = i \<Longrightarrow> cr_id b = i \<Longrightarrow> cr_id (if c then a else b) = i"
  by simp

lemma id_option [metered_intros]:
  "cr_id a = i \<Longrightarrow> (\<And>x. cr_id (b x) = i) \<Longrightarrow> cr_id (case m of None \<Rightarrow> a | Some x \<Rightarrow> b x) = i"
  by (cases m) simp_all

lemmas id_verdicts [metered_intros] = verdict_ids [OF case_outcomes(4,5)] id_require id_ok_or case_outcomes(4-6)

section \<open>The cases\<close>

text \<open>Each case reports under its id, after so many requests and seconds at most.\<close>

definition case_costs ::
  "string \<Rightarrow> nat \<Rightarrow> nat \<Rightarrow> ('s \<Rightarrow> case_result \<times> 's) \<Rightarrow> ('s \<times> nat \<times> nat \<Rightarrow> case_result \<times> 's \<times> nat \<times> nat) \<Rightarrow> bool" where
  "case_costs i = costs (\<lambda>c. cr_id c = i)"

lemma wire_costs:
  "case_costs ''spec_6_2_required_fields'' 1 0
     (spec_6_2_required_fields E K W t key) (spec_6_2_required_fields E K (metered W) t key)"
  "case_costs ''spec_6_2_did_field'' 1 0
     (spec_6_2_did_field E K W t key) (spec_6_2_did_field E K (metered W) t key)"
  "case_costs ''spec_6_2_nonce_format'' 1 0
     (spec_6_2_nonce_format E K W t key) (spec_6_2_nonce_format E K (metered W) t key)"
  "case_costs ''spec_6_2_message_structure'' 1 0
     (spec_6_2_message_structure E K W t key) (spec_6_2_message_structure E K (metered W) t key)"
  "case_costs ''spec_6_2_expires_at_sane'' 1 0
     (spec_6_2_expires_at_sane E K W t key now) (spec_6_2_expires_at_sane E K (metered W) t key now)"
  "case_costs ''spec_6_4_session_response_shape'' 2 0
     (spec_6_4_session_response_shape E K W t key now) (spec_6_4_session_response_shape E K (metered W) t key now)"
  "case_costs ''spec_8_unknown_request_fields_ignored'' 2 0
     (spec_8_unknown_request_fields_ignored E K W t key) (spec_8_unknown_request_fields_ignored E K (metered W) t key)"
  unfolding case_costs_def spec_6_2_required_fields_def spec_6_2_did_field_def spec_6_2_nonce_format_def
    spec_6_2_message_structure_def spec_6_2_expires_at_sane_def spec_6_4_session_response_shape_def
    spec_8_unknown_request_fields_ignored_def Let_def
  by (intro costsI metered_intros; (simp only: verdict_of_simps)?; (intro metered_intros)?; linarith?)+

lemma refused_costs:
  "costs (\<lambda>_. True) 2 0 (refused_at_either_endpoint E W t did random) (refused_at_either_endpoint E (metered W) t did random)"
  unfolding refused_at_either_endpoint_def by (intro costsI metered_intros; simp)

lemmas within_refused [metered_intros] = within_bind [OF refused_costs]

lemma refusal_loop_costs:
  "costs (\<lambda>_. True) (2 * length rows) 0 (refusal_loop E W t rows) (refusal_loop E (metered W) t rows)"
proof (induction rows)
  case (Cons row rows)
  obtain label did random where "row = ((label, did), random)" by (metis surj_pair)
  then show ?case
    by (simp only: refusal_loop.simps) (intro costsI metered_intros within_bind [OF Cons.IH]; simp)
qed (simp add: costs_def within_def)

lemma acceptance_loop_costs:
  "costs (\<lambda>_. True) (length rows) 0 (acceptance_loop E W t rows) (acceptance_loop E (metered W) t rows)"
proof (induction rows)
  case (Cons row rows)
  obtain label signer where "row = (label, signer)" by (metis surj_pair)
  then show ?case
    by (simp only: acceptance_loop.simps) (intro costsI metered_intros within_bind [OF Cons.IH]; simp)
qed (simp add: costs_def within_def)

lemmas within_refusals [metered_intros] = within_bind [OF refusal_loop_costs]
lemmas within_acceptances [metered_intros] = within_bind [OF acceptance_loop_costs]

lemma nonce_costs:
  "case_costs ''spec_7_1_unknown_nonce_refused'' 2 0
     (spec_7_1_unknown_nonce_refused E K W t key random) (spec_7_1_unknown_nonce_refused E K (metered W) t key random)"
  "case_costs ''spec_7_3_nonce_single_use'' 3 0
     (spec_7_3_nonce_single_use E K W t key) (spec_7_3_nonce_single_use E K (metered W) t key)"
  "case_costs ''spec_7_4_unsupported_namespace_refused'' 2 0
     (spec_7_4_unsupported_namespace_refused E W t r32 r64) (spec_7_4_unsupported_namespace_refused E (metered W) t r32 r64)"
  unfolding case_costs_def spec_7_1_unknown_nonce_refused_def spec_7_3_nonce_single_use_def
    spec_7_4_unsupported_namespace_refused_def Let_def
  by (intro costsI metered_intros; linarith?)+

lemma did_costs:
  "case_costs ''spec_7_5_did_well_formed'' 14 0 (spec_7_5_did_well_formed E W t dd r64) (spec_7_5_did_well_formed E (metered W) t dd r64)"
  "case_costs ''spec_7_5_valid_did_spellings_accepted'' 5 0
     (spec_7_5_valid_did_spellings_accepted E K W t keys) (spec_7_5_valid_did_spellings_accepted E K (metered W) t keys)"
proof -
  have 7: "length (malformed_dids E dd) = 7" by (simp add: malformed_dids_def)
  have 5: "length (valid_spellings E K keys) = 5" by (simp add: valid_spellings_def)
  show "case_costs ''spec_7_5_did_well_formed'' 14 0 (spec_7_5_did_well_formed E W t dd r64) (spec_7_5_did_well_formed E (metered W) t dd r64)"
    unfolding case_costs_def spec_7_5_did_well_formed_def Let_def by (intro costsI metered_intros; simp add: 7)
  show "case_costs ''spec_7_5_valid_did_spellings_accepted'' 5 0
     (spec_7_5_valid_did_spellings_accepted E K W t keys) (spec_7_5_valid_did_spellings_accepted E K (metered W) t keys)"
    unfolding case_costs_def spec_7_5_valid_did_spellings_accepted_def Let_def by (intro costsI metered_intros; simp add: 5)
qed

lemma corruption_row_costs:
  "costs (\<lambda>_. True) 2 0 (corruption_row E W t signer label corrupt) (corruption_row E (metered W) t signer label corrupt)"
  unfolding corruption_row_def Let_def by (intro costsI metered_intros; simp)

lemma corruption_loop_costs:
  "costs (\<lambda>_. True) (2 * length rows) 0 (corruption_loop E K W t rows) (corruption_loop E K (metered W) t rows)"
proof (induction rows)
  case (Cons row rows)
  obtain label corrupt key where "row = ((label, corrupt), key)" by (metis surj_pair)
  then show ?case
    by (simp only: corruption_loop.simps) (intro costsI metered_intros within_bind [OF corruption_row_costs] within_bind [OF Cons.IH]; simp)
qed (simp add: costs_def within_def)

lemma cross_costs:
  "costs (\<lambda>_. True) 1 0 (cross_submission E W t signer message nonce a b c) (cross_submission E (metered W) t signer message nonce a b c)"
  unfolding cross_submission_def by (intro costsI metered_intros; simp)

lemmas within_corruptions [metered_intros] = within_bind [OF corruption_loop_costs] within_bind [OF cross_costs]

lemma signature_costs:
  "case_costs ''spec_7_6_signature_invalid_refused'' 10 0
     (spec_7_6_signature_invalid_refused E K W t keys) (spec_7_6_signature_invalid_refused E K (metered W) t keys)"
  "case_costs ''spec_7_6_wrong_key_refused'' 2 0
     (spec_7_6_wrong_key_refused E K W t key_a key_b) (spec_7_6_wrong_key_refused E K (metered W) t key_a key_b)"
  "case_costs ''spec_7_7_message_binding'' 4 0
     (spec_7_7_message_binding E K W t key) (spec_7_7_message_binding E K (metered W) t key)"
  "case_costs ''spec_6_2_uri_origin_matches_target'' 1 0
     (spec_6_2_uri_origin_matches_target E K W U t key) (spec_6_2_uri_origin_matches_target E K (metered W) U t key)"
  "case_costs ''spec_6_3_public_key_binding'' 2 0
     (spec_6_3_public_key_binding E K W t key_a key_b) (spec_6_3_public_key_binding E K (metered W) t key_a key_b)"
proof -
  have 5: "length (SIGNATURE_CORRUPTIONS E) = 5" by (simp add: SIGNATURE_CORRUPTIONS_def)
  show "case_costs ''spec_7_6_signature_invalid_refused'' 10 0
     (spec_7_6_signature_invalid_refused E K W t keys) (spec_7_6_signature_invalid_refused E K (metered W) t keys)"
    unfolding case_costs_def spec_7_6_signature_invalid_refused_def Let_def by (intro costsI metered_intros; simp add: 5)
qed (unfold case_costs_def spec_7_6_wrong_key_refused_def spec_7_7_message_binding_def spec_6_2_uri_origin_matches_target_def
    spec_6_3_public_key_binding_def Let_def, (intro costsI metered_intros; linarith?)+)

lemma within_sleep [metered_intros]:
  assumes "\<And>x s' n' z'. n' \<le> n + 1 \<Longrightarrow> z' \<le> z + l \<Longrightarrow> within P k y (a x s') (b x (s', n', z'))"
  shows "within P k y (case post_session E W t body (rq_sleep W l s) of (x, s1) \<Rightarrow> a x s1)
     (case post_session E (metered W) t body (rq_sleep (metered W) l (s, n, z)) of (x, s1) \<Rightarrow> b x s1)"
  unfolding metered_sleep by (rule within_post) (use assms in simp)

text \<open>The wait of the expiry case: at most its limit and one second.\<close>

lemma expiry_costs:
  "case_costs ''spec_7_2_challenge_expiry'' 2 601
     (spec_7_2_challenge_expiry E K W env t key now) (spec_7_2_challenge_expiry E K (metered W) env t key now)"
proof -
  have wait: "min (unat w + 1) (2 ^ 64 - 1) \<le> 601" if "\<not> MAX_EXPIRY_WAIT < w" for w
    using that by (simp add: MAX_EXPIRY_WAIT_def word_less_nat_alt)
  show ?thesis
    unfolding case_costs_def spec_7_2_challenge_expiry_def Let_def
    by (intro costsI metered_intros; (linarith | (drule wait, linarith))?)
qed

section \<open>The whole run\<close>

lemma costs_le: "costs P k y f g \<Longrightarrow> k \<le> k' \<Longrightarrow> y \<le> y' \<Longrightarrow> costs P k' y' f g"
  unfolding costs_def within_def by (meson add_left_mono order_trans)

definition SUITE_IDS :: "string list" where
  "SUITE_IDS =
  [''spec_6_2_required_fields'',
   ''spec_6_2_did_field'',
   ''spec_6_2_nonce_format'',
   ''spec_6_2_message_structure'',
   ''spec_6_2_expires_at_sane'',
   ''spec_6_4_session_response_shape'',
   ''spec_8_unknown_request_fields_ignored'',
   ''spec_7_1_unknown_nonce_refused'',
   ''spec_7_3_nonce_single_use'',
   ''spec_7_4_unsupported_namespace_refused'',
   ''spec_7_5_did_well_formed'',
   ''spec_7_5_valid_did_spellings_accepted'',
   ''spec_7_6_signature_invalid_refused'',
   ''spec_7_6_wrong_key_refused'',
   ''spec_7_7_message_binding'',
   ''spec_7_2_challenge_expiry'',
   ''spec_6_2_uri_origin_matches_target'',
   ''spec_6_3_public_key_binding'']"

lemma run_nil: "costs (\<lambda>cs. map cr_id cs = []) 0 0 (run_cases []) (run_cases [])"
  by (simp add: costs_def within_def)

lemma run_cons:
  assumes "case_costs i k y f g" "costs (\<lambda>cs. map cr_id cs = is) k' y' (run_cases fs) (run_cases gs)"
  shows "costs (\<lambda>cs. map cr_id cs = i # is) (k + k') (y + y') (run_cases (f # fs)) (run_cases (g # gs))"
  unfolding run_cases.simps
  by (intro costsI within_bind [OF assms(1) [unfolded case_costs_def]] within_bind [OF assms(2)] within_done) simp_all

text \<open>
  C23. The suite ends, and its report is complete, whatever the server does: every run sends at most
  56 requests and sleeps at most 601 seconds, and reports each of the eighteen cases once, in order.
  The meter that counts them changes neither the report nor the state of the server.
\<close>

theorem suite_bounded:
  "\<exists>n z. run_all E K (metered W) U env t d (s, 0, 0) =
       (fst (run_all E K W U env t d s), snd (run_all E K W U env t d s), n, z) \<and> n \<le> 56 \<and> z \<le> 601 \<and>
     map cr_id (fst (run_all E K W U env t d s)) = SUITE_IDS"
proof -
  note c = run_cons [OF wire_costs(1) run_cons [OF wire_costs(2) run_cons [OF wire_costs(3) run_cons [OF wire_costs(4) run_cons [OF wire_costs(5) run_cons [OF wire_costs(6) run_cons [OF wire_costs(7) run_cons [OF nonce_costs(1) run_cons [OF nonce_costs(2) run_cons [OF nonce_costs(3) run_cons [OF did_costs(1) run_cons [OF did_costs(2) run_cons [OF signature_costs(1) run_cons [OF signature_costs(2) run_cons [OF signature_costs(3) run_cons [OF expiry_costs run_cons [OF signature_costs(4) run_cons [OF signature_costs(5) run_nil]]]]]]]]]]]]]]]]]]
  have "costs (\<lambda>cs. map cr_id cs = SUITE_IDS) 56 601 (run_all E K W U env t d) (run_all E K (metered W) U env t d)"
    unfolding run_all_cases wire_cases_def nonce_and_did_cases_def signature_cases_def append_Cons append_Nil SUITE_IDS_def
    by (rule costs_le [OF c]) simp_all
  then have "within (\<lambda>cs. map cr_id cs = SUITE_IDS) (0 + 56) (0 + 601) (run_all E K W U env t d s)
      (run_all E K (metered W) U env t d (s, 0, 0))" unfolding costs_def by blast
  then show ?thesis by (auto simp: within_def)
qed

end
