(* ===== verification/Spec2Isabelle.thy ===== *)
theory Spec2Isabelle
  imports Shared_Challenges Shared_Sessions Shared_Guard Request_Auth Test_Signers Peer Webauthn_Soft Webauthn_Ceremony Webauthn_Json Suite_Detects Suite_Cost
begin

text \<open>
  A verification development for aqua-auth, a Rust library that authenticates a caller by a
  decentralised identifier (DID) and a signature: CAIP-122 challenge and session logins, RFC 9421
  signed requests, passkeys, and the key directory, the test peer and the conformance suite that go
  with it.

  \<^bold>\<open>How the program is put together.\<close> A DID names a key, or a digest of one. The registry
  (did\_method.rs) finds the method of a DID, the method parses the identifier and verifies
  signatures through the crypto crates. On top of it stand three ways to authenticate.
  A session login asks the challenge store for a nonce and a message, the client checks and signs
  the message, the peer verifies the signature, spends the nonce and opens a session. A signed
  request carries its signature in its own headers, over a signature base both sides compute, and a
  guard remembers the nonces seen. A passkey login verifies an assertion against a policy, recovers
  the two keys that can have made its signature and selects one. Every way ends in a
  \<open>Principal\<close>, the DID that signed. The test peer serves the session login over HTTP, and the
  conformance suite drives it, or any other server, through eighteen cases and reports on them.

  \<^bold>\<open>Conventions.\<close> A \<open>Result\<close> is a sum with the error on the left, combined by \<open>rbind\<close>,
  \<open>map_err\<close>, \<open>ok_or\<close> and \<open>rmap\<close>; a panic the code can reach is \<open>None\<close>. A \<open>String\<close> is its UTF-8
  bytes as a \<open>string\<close>; \<open>u8\<close>, \<open>u32\<close> and \<open>u64\<close> are words, an \<open>i64\<close> that is only compared is an
  \<open>int\<close> with the saturating addition written out. State is passed and returned; a \<open>DashMap\<close> or
  \<open>HashMap\<close> is an association list with distinct keys. Clock readings and random bytes are
  arguments, an awaited call is its result. Third-party crates are records of functions
  (\<open>crates\<close>, \<open>passkey_crates\<close>, \<open>harness_crates\<close>, \<open>chrono\<close>, \<open>sfv\<close>, \<open>key_store\<close>, \<open>test_keys\<close>,
  \<open>webauthn_rs\<close>, \<open>http_client\<close>, \<open>reqwest\<close>, the URL parser); what a theorem needs of them is a named law (\<open>hex_law\<close>, \<open>bs58_law\<close>, \<open>digest_law\<close>,
  \<open>chrono_law\<close>, \<open>sfv_law\<close>, \<open>url_law\<close>, \<open>b64url_law\<close>, \<open>recovery_law\<close>, \<open>signing_law\<close>, the pair laws of
  \<open>Test_Signers\<close>, \<open>passkey_json_law\<close>, \<open>json_law\<close>, \<open>json_object_law\<close>, \<open>b64_text_law\<close>, \<open>mime_law\<close>, \<open>hex_digits_law\<close>,
  \<open>hex_case_law\<close>), and \<open>Ref_Crates\<close>,
  \<open>Ref_Sfv\<close>, \<open>Ref_Json\<close> and the \<open>ref_\<close> definitions beside the witnesses are concrete functions that
  meet it. Every definition of the model is total without fuel: the recursions are structural or
  have a measure (\<open>strip_ws\<close>, \<open>trim_start_str\<close>). Only the readers of \<open>Ref_Json\<close> and \<open>Webauthn_Soft\<close>,
  which stand in for a crate, take fuel, the length of their input, and are proved to read all the
  texts the law of the crate speaks of.

  \<^bold>\<open>Identity.\<close> \<open>Prelude\<close> and \<open>Positional\<close> hold results, strings, maps and positional numerals;
  \<open>Crates\<close> the crates' interface and \<open>CryptoError\<close>. \<open>Keys\<close> is key/mod.rs, \<open>Did\<close> did.rs, \<open>Suites\<close>
  cipher\_suite.rs with the suites of pkh/ and key/ (locale \<open>cipher_suite_contract\<close>, interpreted for
  the three suites), \<open>Methods\<close> pkh/method.rs and peer/mod.rs, \<open>Aqua\<close> the did:aqua codec and
  ML-DSA verifier, \<open>Registry\<close> did\_method.rs and principal.rs, \<open>Identity\<close> did\_format.rs and the
  verifiers of lib.rs. Shown: authentication succeeds exactly for a signature of the key the DID
  names (the inductive \<open>possession\<close>); what the format layer refuses the verifier refuses, with one
  exception; \<open>Encodings\<close> adds that did:key and did:aqua have one spelling per key, and where
  display labels panic.

  \<^bold>\<open>Challenges and sessions.\<close> \<open>Message\<close> is message.rs, wire.rs, types.rs and auth\_error.rs,
  \<open>Challenges\<close> challenge.rs, \<open>Session_Backend\<close> the trait and in-memory back end of
  session\_backend.rs with the contract as a locale, \<open>Sessions\<close> session.rs over any back end that
  meets it. Shown: a message without stray line feeds determines its fields, a nonce is consumed at most as often as it
  was minted in every run (step relation \<open>challenge_run\<close>), capacities hold, a session lives until
  its end unless revoked or pushed out by its own DID, and stays revoked.

  \<^bold>\<open>Concurrent callers.\<close> The two stores are shared by the handlers of a server. \<open>Interleaving\<close> has runs
  of threads over a shared state, with two locales for what survives interleaving: \<open>ledger\<close> (a
  count every access pays for) and \<open>checked_bound\<close> (a bound checked before it is used).
  \<open>Shared_Challenges\<close> and \<open>Shared_Sessions\<close> split the operations of challenge.rs and session.rs into their
  accesses to the \<open>DashMap\<close> (\<open>challenge_access\<close>, \<open>session_access\<close>); an operation that no other call
  interrupts is the one of \<open>Challenges\<close> and \<open>Sessions\<close> (the lemmas \<open>_alone\<close>). Shown: a nonce is redeemed
  once and a token accepted only while its session lives, in every run; the cap on all sessions is
  overshot by less than the number of threads. Shown too, by runs that exist: two
  threads carry the challenge store past its capacity by any amount, which no later creation takes
  back; two threads carry a DID past its quota by any amount; and a login can make a sweep panic.
  \<open>Shared_Guard\<close> shows the race on the capacity for the replay guard, whose accesses are in
  \<open>Replay_Guard\<close>.

  \<^bold>\<open>Signed requests.\<close> \<open>Http_Sig\<close>, \<open>Signature_Base\<close> with \<open>Authority\<close>, \<open>Signers\<close> (signer.rs,
  local\_key.rs), \<open>Http_Sign\<close>, \<open>Replay_Guard\<close> and \<open>Http_Verify\<close> are the files of http\_sig/.
  \<open>Request_Auth\<close> puts them together. Shown: a request is accepted exactly when it is valid and its
  nonce is new, what was signed verifies throughout its window, equal bases bind equal requests,
  a captured header is refused while the guard remembers it, and no interleaving of threads over
  the shared map honours a nonce twice without forgetting it in between. \<open>Test_Signers\<close>
  (aqua-auth-testkit/src/signers.rs and http\_sig/test\_signers.rs) shows that every signer logs in
  under its own DID.

  \<^bold>\<open>Client, directory and peer.\<close> \<open>Urls\<close> is the url crate's interface, \<open>Client\<close> client.rs,
  \<open>Directory\<close> the crate aqua-auth-directory, \<open>Peer\<close> the service of aqua-auth-testkit/src/lib.rs,
  which composes the stores, the verifiers and the directory in its handlers. Shown: the client
  signs only what it asked for, from where it asked; a login opens a session only for the
  holder of the DID and spends the nonce; an honest login goes through. \<open>Wire\<close> adds the serde
  encodings of wire.rs and the peer's router with its extractors, up to a peer that answers the
  requests of reqwest; a session request survives JSON.

  \<^bold>\<open>Conformance suite.\<close> \<open>Conformance\<close> is conformance/mod.rs and http.rs: the target with its
  loopback gate, the exchanges, the login steps, the report. \<open>Cases_Wire\<close>, \<open>Cases_Nonce_Did\<close> and
  \<open>Cases_Signature\<close> are the three files of cases and \<open>run_all\<close>. \<open>Conformant\<close> states what the suite
  asks of a server as the locale \<open>caip122_server\<close> and proves in it that no case fails;
  \<open>Peer_Conforms\<close> interprets it at the test peer, under an invariant with a budget of requests, and
  \<open>Suite_Run\<close> concludes that a fresh peer passes, at concrete crates too. The budget is the 47
  requests such a run can send. \<open>Suite_Detects\<close> is the other half: a server with the defect of one of the
  negative controls (tests/conformance.rs) fails, in the cases the control names, from every state and
  for all draws. \<open>Suite_Cost\<close> meters the exchanges: against any server at all a run
  ends within 56 requests and 601 seconds of sleep, with its eighteen verdicts in order. Shown of the
  target: which hosts the gate lets through, and that \<open>with_paths\<close> gets around it.

  \<^bold>\<open>Passkeys.\<close> \<open>Webauthn\<close> is login\_challenge.rs and webauthn.rs, \<open>Webauthn_Policy\<close>
  webauthn\_policy.rs, \<open>Webauthn_Recover\<close> webauthn\_recover.rs, \<open>Webauthn_Select\<close>
  webauthn\_select.rs and webauthn\_hint.rs, \<open>Webauthn_Store\<close> webauthn\_store.rs (the trait's contract
  as the locale \<open>credential_contract\<close>) and webauthn\_options.rs, \<open>Webauthn_Ceremony\<close>
  webauthn\_ceremony.rs, \<open>Webauthn_Soft\<close> the software passkey of webauthn\_testkit.rs,
  \<open>Webauthn_Json\<close> the serde encodings of assertions, options, hints and pending state. Shown:
  every policy the builder makes is sound (step relation \<open>built\<close>); an assertion is accepted exactly
  when it passes every check, and the software passkey's are; a derived challenge binds node and
  nonce; selection never leaves the signers and finds the signer; a hint is canonical however it was
  made, and pending state survives storage; the store is the map its trait
  describes and sign counts never fall; a registration binds the right DID.

  \<^bold>\<open>Not modelled.\<close> The crypto, encoding, JSON, HTTP and date crates (parameters; of axum and
  reqwest, what the routes and the suite use of them is written out in \<open>Wire\<close>); the derived serde
  encodings of types the crate only stores; the tokio cleanup task, the sockets and reqwest's
  timeout; the position in a serde error text (one text per input), and that the JSON extractor meets a type error
  before a later syntax error (\<open>session_extract\<close> reads the whole text first, so such a body gets 400 for 422). Operations on
  the credential store are not split: each holds the store's lock from end to end. The \<open>tests\<close> directories and the unit tests are test code over
  the modelled components; lib.rs is wiring but for the verifiers.
\<close>

end
